(* ===== verification/Prelude.thy ===== *)
theory Prelude
  imports Main "HOL-Library.Word" "HOL-Library.Multiset" "HOL-Library.Monad_Syntax"
begin

text \<open>
  Shared vocabulary of the development: the fixed-width integer types of the C code, checked
  array accesses (an access outside the array is \<open>None\<close>, so that memory safety is a theorem and
  not an assumption), C strings, and the lemmas about them that the component theories share.
  The collection \<open>mem\<close> holds the rewrite rules for checked accesses.
\<close>

unbundle bit_operations_syntax

named_theorems mem \<open>rewrite rules for checked array accesses\<close>

subsection \<open>Integers\<close>

type_synonym u8 = "8 word"
type_synonym u16 = "16 word"
type_synonym u32 = "32 word"
type_synonym u64 = "64 word"

text \<open>Conversion of a mathematical integer to \<open>int32_t\<close> and \<open>int16_t\<close> (two's complement).\<close>

definition s32 :: "int \<Rightarrow> int" where
  "s32 x = signed_take_bit 31 x"

definition s16 :: "int \<Rightarrow> int" where
  "s16 x = signed_take_bit 15 x"

lemma s32_id [simp]: "- (2 ^ 31) \<le> x \<Longrightarrow> x < 2 ^ 31 \<Longrightarrow> s32 x = x"
  unfolding s32_def by (rule signed_take_bit_int_eq_self) auto

lemma s32_range: "- (2 ^ 31) \<le> s32 x \<and> s32 x < 2 ^ 31"
  unfolding s32_def
  using signed_take_bit_int_greater_eq_minus_exp [of 31 x] signed_take_bit_int_less_exp [of 31 x]
  by simp

lemma s32_mod: "s32 x = (x + 2 ^ 31) mod 2 ^ 32 - 2 ^ 31"
  by (simp add: s32_def signed_take_bit_eq_take_bit_shift take_bit_eq_mod)

lemma s32_shift: "s32 (x + 2 ^ 32 * k) = s32 x"
proof -
  have "x + 2 ^ 32 * k + 2 ^ 31 = (x + 2 ^ 31) + 2 ^ 32 * k" by simp
  then show ?thesis by (simp only: s32_mod mod_mult_self2)
qed

lemma s32_exact: obtains k where "s32 x = x + 2 ^ 32 * k"
proof
  show "s32 x = x + 2 ^ 32 * (- ((x + 2 ^ 31) div 2 ^ 32))"
    unfolding s32_mod using minus_div_mult_eq_mod [of "x + 2 ^ 31" "2 ^ 32"] by simp
qed

lemma s32_s32 [simp]: "s32 (s32 x) = s32 x"
  using s32_range [of x] by simp

text \<open>Wrapping after every operation is wrapping once.\<close>

lemma s32_add_wrap: "s32 (s32 x + d) = s32 (x + d)"
proof -
  obtain k where "s32 x = x + 2 ^ 32 * k" by (rule s32_exact)
  then have "s32 x + d = (x + d) + 2 ^ 32 * k" by simp
  then show ?thesis by (simp only: s32_shift)
qed

lemma s32_mult_wrap: "s32 (s32 x * c) = s32 (x * c)"
proof -
  obtain k where "s32 x = x + 2 ^ 32 * k" by (rule s32_exact)
  then have "s32 x * c = x * c + 2 ^ 32 * (k * c)" by (simp add: algebra_simps)
  then show ?thesis by (simp only: s32_shift)
qed

lemma s32_minus_wrap: "s32 (- s32 x) = s32 (- x)"
  using s32_mult_wrap [of x "- 1"] by simp

lemma s16_id [simp]: "- (2 ^ 15) \<le> x \<Longrightarrow> x < 2 ^ 15 \<Longrightarrow> s16 x = x"
  unfolding s16_def by (rule signed_take_bit_int_eq_self) auto

lemma s16_mod: "s16 x = (x + 2 ^ 15) mod 2 ^ 16 - 2 ^ 15"
  by (simp add: s16_def signed_take_bit_eq_take_bit_shift take_bit_eq_mod)

subsection \<open>Checked array accesses\<close>

text \<open>
  A C array of known extent is a list. Reading or writing at an index outside it is undefined
  behaviour in C; here it is \<open>None\<close>.
\<close>

definition rd :: "'a list \<Rightarrow> int \<Rightarrow> 'a option" where
  "rd a i = (if 0 \<le> i \<and> i < int (length a) then Some (a ! nat i) else None)"

definition wr :: "'a list \<Rightarrow> int \<Rightarrow> 'a \<Rightarrow> 'a list option" where
  "wr a i v = (if 0 \<le> i \<and> i < int (length a) then Some (a[nat i := v]) else None)"

lemma rd_in [mem]: "0 \<le> i \<Longrightarrow> i < int (length a) \<Longrightarrow> rd a i = Some (a ! nat i)"
  by (simp add: rd_def)

lemma wr_in [mem]: "0 \<le> i \<Longrightarrow> i < int (length a) \<Longrightarrow> wr a i v = Some (a[nat i := v])"
  by (simp add: wr_def)

lemma rd_out [mem]: "i < 0 \<or> int (length a) \<le> i \<Longrightarrow> rd a i = None"
  by (auto simp: rd_def)

lemma wr_out [mem]: "i < 0 \<or> int (length a) \<le> i \<Longrightarrow> wr a i v = None"
  by (auto simp: wr_def)

lemma rd_SomeD: "rd a i = Some v \<Longrightarrow> 0 \<le> i \<and> i < int (length a) \<and> v = a ! nat i"
  by (auto simp: rd_def split: if_splits)

lemma wr_SomeD: "wr a i v = Some b \<Longrightarrow> 0 \<le> i \<and> i < int (length a) \<and> b = a[nat i := v]"
  by (auto simp: wr_def split: if_splits)

lemma wr_length: "wr a i v = Some b \<Longrightarrow> length b = length a"
  by (auto dest: wr_SomeD)

text \<open>Exchanging two cells keeps the multiset of the elements, whether or not they coincide.\<close>

lemma mset_exchange:
  "i < length a \<Longrightarrow> j < length a \<Longrightarrow> mset (a[j := a ! i, i := a ! j]) = mset a"
  by (rule mset_swap)

subsection \<open>Strings\<close>

abbreviation NUL :: char where "NUL \<equiv> CHR 0x00"

text \<open>\<open>poke buf k bs\<close>: store the bytes \<open>bs\<close> from position \<open>k\<close> on.\<close>

fun poke :: "string \<Rightarrow> nat \<Rightarrow> string \<Rightarrow> string option" where
  "poke buf k [] = Some buf"
| "poke buf k (b # bs) = (if k < length buf then poke (buf[k := b]) (Suc k) bs else None)"

lemma poke_ok:
  "k + length bs \<le> length buf \<Longrightarrow>
   poke buf k bs = Some (take k buf @ bs @ drop (k + length bs) buf)"
proof (induction bs arbitrary: buf k)
  case (Cons b bs)
  have "poke (buf[k := b]) (Suc k) bs =
      Some (take (Suc k) (buf[k := b]) @ bs @ drop (Suc k + length bs) (buf[k := b]))"
    using Cons by simp
  moreover have "take (Suc k) (buf[k := b]) = take k buf @ [b]"
    using Cons.prems by (simp add: take_Suc_conv_app_nth)
  ultimately show ?case using Cons.prems by simp
qed simp

text \<open>The text at an address of a buffer (\<open>None\<close>: no NUL before its end).\<close>

fun text_at :: "string \<Rightarrow> string option" where
  "text_at [] = None"
| "text_at (c # cs) = (if c = NUL then Some [] else map_option ((#) c) (text_at cs))"

lemma text_at_app [simp]: "NUL \<notin> set s \<Longrightarrow> text_at (s @ NUL # r) = Some s"
  by (induction s) auto

lemma poke_start:
  "length s < length buf \<Longrightarrow> NUL \<notin> set s \<Longrightarrow>
   \<exists>buf'. poke buf 0 (s @ [NUL]) = Some buf' \<and> length buf' = length buf \<and> text_at buf' = Some s"
  using poke_ok [of 0 "s @ [NUL]" buf] by simp

text \<open>
  A C string is the list of its characters before the terminating NUL. \<open>strcmp\<close> of the C library
  (and of the kernel) compares the characters as unsigned values and is used for its sign only.
\<close>

fun strcmp :: "string \<Rightarrow> string \<Rightarrow> int" where
  "strcmp [] [] = 0"
| "strcmp [] (y # ys) = - 1"
| "strcmp (x # xs) [] = 1"
| "strcmp (x # xs) (y # ys) =
     (if x = y then strcmp xs ys
      else if (of_char x :: nat) < of_char y then - 1 else 1)"

lemma strcmp_eq_0 [simp]: "strcmp a b = 0 \<longleftrightarrow> a = b"
  by (induction a b rule: strcmp.induct) auto

lemma strcmp_refl: "strcmp a a = 0"
  by simp

lemma strcmp_le_trans:
  "strcmp a b \<le> 0 \<Longrightarrow> strcmp b c \<le> 0 \<Longrightarrow> strcmp a c \<le> 0"
proof (induction a b arbitrary: c rule: strcmp.induct)
  case (4 x xs y ys)
  then show ?case
    by (cases c) (auto split: if_splits)
next
  case (1)
  then show ?case by simp
next
  case (2 y ys)
  then show ?case by (cases c) auto
next
  case (3 x xs)
  then show ?case by simp
qed

lemma strcmp_antisym: "strcmp a b \<le> 0 \<Longrightarrow> strcmp b a \<le> 0 \<Longrightarrow> a = b"
  by (induction a b rule: strcmp.induct) (auto split: if_splits)

lemma strcmp_total: "strcmp a b \<le> 0 \<or> strcmp b a \<le> 0"
  by (induction a b rule: strcmp.induct) auto

subsection \<open>Error numbers\<close>

text \<open>The kernel reports an error as the negated number; the names are those of \<open>errno.h\<close>.\<close>

abbreviation (input) EPERM :: int where "EPERM \<equiv> 1"
abbreviation (input) ESRCH :: int where "ESRCH \<equiv> 3"
abbreviation (input) EINTR :: int where "EINTR \<equiv> 4"
abbreviation (input) EBADF :: int where "EBADF \<equiv> 9"
abbreviation (input) EAGAIN :: int where "EAGAIN \<equiv> 11"
abbreviation (input) ENOMEM :: int where "ENOMEM \<equiv> 12"
abbreviation (input) EACCES :: int where "EACCES \<equiv> 13"
abbreviation (input) EFAULT :: int where "EFAULT \<equiv> 14"
abbreviation (input) EBUSY :: int where "EBUSY \<equiv> 16"
abbreviation (input) EINVAL :: int where "EINVAL \<equiv> 22"
abbreviation (input) ENOSYS :: int where "ENOSYS \<equiv> 38"

end
