(* ===== verification/SortSyscall.thy ===== *)
theory SortSyscall
  imports Prelude
begin

text \<open>
  The sorting system calls added to the kernel in \<open>HW2/Required Files/sys.c\<close>:
  \<open>sys_get_partition_index\<close>, \<open>sys_quick_sort\<close> and \<open>sys_sorting\<close>, and the test program
  \<open>HW2/Required Files/sorting.c\<close> that drives them. Arrays are checked (an out-of-range access is
  \<open>None\<close>), a pointer that may be NULL is an \<open>option\<close>, user memory is a partial map from byte
  addresses to the \<open>int32_t\<close> stored there, and \<open>kmalloc\<close> is a parameter that says which
  requests succeed.
\<close>

subsection \<open>The partition loop and quick sort\<close>

text \<open>
  \<open>part_loop pivot high i j a\<close> is the \<open>for\<close> loop of \<open>sys_get_partition_index\<close> from index \<open>j\<close>:
  elements not below the pivot are exchanged to the front, so the order is descending.
\<close>

function part_loop :: "int \<Rightarrow> int \<Rightarrow> int \<Rightarrow> int \<Rightarrow> int list \<Rightarrow> (int \<times> int list) option" where
  "part_loop pivot high i j a =
     (if j < high then
        (case rd a j of
           None \<Rightarrow> None
         | Some x \<Rightarrow>
             if x \<ge> pivot then
               do { y \<leftarrow> rd a i;
                    a1 \<leftarrow> wr a j y;
                    a2 \<leftarrow> wr a1 i x;
                    part_loop pivot high (i + 1) (j + 1) a2 }
             else part_loop pivot high i (j + 1) a)
      else Some (i, a))"
  by pat_completeness auto
termination
  by (relation "measure (\<lambda>(pivot, high, i, j, a). nat (high - j))") auto

declare part_loop.simps [simp del]

text \<open>
  \<open>sys_get_partition_index\<close>. The pivot is read before the array pointer is compared with NULL,
  so a NULL pointer is dereferenced and the \<open>-EFAULT\<close> branch of the source is unreachable.
\<close>

definition sys_get_partition_index ::
  "int list option \<Rightarrow> int \<Rightarrow> int \<Rightarrow> (int \<times> int list) option" where
  "sys_get_partition_index parted_array low_index high_index =
     do { a \<leftarrow> parted_array;
          pivot \<leftarrow> rd a high_index;
          (i, b) \<leftarrow> part_loop pivot high_index low_index low_index a;
          temp \<leftarrow> rd b i;
          h \<leftarrow> rd b high_index;
          b1 \<leftarrow> wr b i h;
          b2 \<leftarrow> wr b1 high_index temp;
          Some (i, b2) }"

lemma part_loop_bounds:
  "part_loop pivot high i j a = Some (i', b) \<Longrightarrow> i \<le> i' \<and> i' \<le> i + max 0 (high - j)"
proof (induction pivot high i j a rule: part_loop.induct)
  case (1 pivot high i j a)
  show ?case
  proof (cases "j < high")
    case False
    with 1 show ?thesis by (simp add: part_loop.simps [of pivot high i j a])
  next
    case j: True
    with "1.prems" obtain x where x: "rd a j = Some x"
      by (auto simp: part_loop.simps [of pivot high i j a] split: option.splits)
    show ?thesis
    proof (cases "x \<ge> pivot")
      case True
      with "1.prems" j x obtain y a1 a2 where
        s: "rd a i = Some y" "wr a j y = Some a1" "wr a1 i x = Some a2"
        and r: "part_loop pivot high (i + 1) (j + 1) a2 = Some (i', b)"
        by (auto simp: part_loop.simps [of pivot high i j a] split: Option.bind_splits)
      from "1.IH"(1) [OF j x True s r] j show ?thesis by auto
    next
      case False
      with "1.prems" j x have r: "part_loop pivot high i (j + 1) a = Some (i', b)"
        by (simp add: part_loop.simps [of pivot high i j a])
      from "1.IH"(2) [OF j x False r] j show ?thesis by auto
    qed
  qed
qed

lemma partition_index_bounds:
  "low < high \<Longrightarrow> sys_get_partition_index p low high = Some (i, b) \<Longrightarrow> low \<le> i \<and> i \<le> high"
  by (auto simp: sys_get_partition_index_def split: Option.bind_splits dest!: part_loop_bounds)

text \<open>
  \<open>sys_quick_sort\<close> on a non-NULL array, and with its NULL check. The recursive calls sort the two
  sides of the pivot; their return values are ignored by the source.
\<close>

function quick_sort_arr :: "int list \<Rightarrow> int \<Rightarrow> int \<Rightarrow> int list option" where
  "quick_sort_arr a low_index high_index =
     (if low_index < high_index then
        (case sys_get_partition_index (Some a) low_index high_index of
           None \<Rightarrow> None
         | Some (partition_index, b) \<Rightarrow>
             (case quick_sort_arr b low_index (partition_index - 1) of
                None \<Rightarrow> None
              | Some c \<Rightarrow> quick_sort_arr c (partition_index + 1) high_index))
      else Some a)"
  by pat_completeness auto
termination
  by (relation "measure (\<lambda>(a, low, high). nat (high - low))")
    (auto dest!: partition_index_bounds)

declare quick_sort_arr.simps [simp del]

definition sys_quick_sort :: "int list option \<Rightarrow> int \<Rightarrow> int \<Rightarrow> (int \<times> int list option) option" where
  "sys_quick_sort sort_it low_index high_index =
     (case sort_it of
        None \<Rightarrow> Some (- EFAULT, None)
      | Some a \<Rightarrow> map_option (\<lambda>b. (0, Some b)) (quick_sort_arr a low_index high_index))"

subsection \<open>Correctness of the partition\<close>

text \<open>
  \<open>slice_from a b low high\<close>: \<open>b\<close> is a rearrangement of \<open>a\<close> that leaves every cell outside
  \<open>low..high\<close> as it was and fills the inside from the inside of \<open>a\<close>.
\<close>

definition slice_from :: "int list \<Rightarrow> int list \<Rightarrow> int \<Rightarrow> int \<Rightarrow> bool" where
  "slice_from a b low high \<longleftrightarrow>
     mset b = mset a \<and> length b = length a \<and>
     (\<forall>k < length a. int k < low \<or> high < int k \<longrightarrow> b ! k = a ! k) \<and>
     (\<forall>k < length a. low \<le> int k \<and> int k \<le> high \<longrightarrow>
        (\<exists>l < length a. low \<le> int l \<and> int l \<le> high \<and> b ! k = a ! l))"

lemma slice_from_refl: "slice_from a a low high"
  by (auto simp: slice_from_def)

lemma slice_from_trans:
  "slice_from a b low high \<Longrightarrow> slice_from b c low high \<Longrightarrow> slice_from a c low high"
  unfolding slice_from_def by (metis (no_types, lifting))

lemma slice_from_mono:
  assumes "slice_from a b low' high'" and "low \<le> low'" and "high' \<le> high"
  shows "slice_from a b low high"
  unfolding slice_from_def
proof (intro conjI allI impI)
  fix k assume k: "k < length a" and o: "int k < low \<or> high < int k"
  with assms have "int k < low' \<or> high' < int k" by auto
  with assms(1) k show "b ! k = a ! k" unfolding slice_from_def by blast
next
  fix k assume k: "k < length a" and i: "low \<le> int k \<and> int k \<le> high"
  show "\<exists>l<length a. low \<le> int l \<and> int l \<le> high \<and> b ! k = a ! l"
  proof (cases "low' \<le> int k \<and> int k \<le> high'")
    case True
    with assms(1) k obtain l where "l < length a" "low' \<le> int l" "int l \<le> high'" "b ! k = a ! l"
      unfolding slice_from_def by blast
    with assms(2,3) show ?thesis by (intro exI [of _ l]) auto
  next
    case False
    with assms(1) k have "b ! k = a ! k" by (auto simp: slice_from_def)
    with k i show ?thesis by blast
  qed
qed (use assms in \<open>simp_all add: slice_from_def\<close>)

lemma slice_from_swap:
  assumes "low \<le> i" "i \<le> high" "low \<le> j" "j \<le> high" "0 \<le> low" "high < int (length a)"
  shows "slice_from a (a[nat j := a ! nat i, nat i := a ! nat j]) low high"
proof -
  have b: "nat i < length a" "nat j < length a" using assms by auto
  have m: "mset (a[nat j := a ! nat i, nat i := a ! nat j]) = mset a"
    by (rule mset_exchange) (use b in auto)
  have "\<exists>l<length a. low \<le> int l \<and> int l \<le> high \<and>
      a[nat j := a ! nat i, nat i := a ! nat j] ! k = a ! l"
    if k: "k < length a" "low \<le> int k" "int k \<le> high" for k
  proof -
    consider "k = nat i" | "k \<noteq> nat i" "k = nat j" | "k \<noteq> nat i" "k \<noteq> nat j" by blast
    then show ?thesis
    proof cases
      case 1
      then show ?thesis using assms b by (intro exI [of _ "nat j"]) auto
    next
      case 2
      then show ?thesis using assms b by (intro exI [of _ "nat i"]) auto
    next
      case 3
      then show ?thesis using k by (intro exI [of _ k]) auto
    qed
  qed
  moreover have "a[nat j := a ! nat i, nat i := a ! nat j] ! k = a ! k"
    if "int k < low \<or> high < int k" for k
    using that assms by (auto simp: nth_list_update_neq)
  ultimately show ?thesis using m by (simp add: slice_from_def)
qed

text \<open>The loop keeps \<open>low..i-1\<close> at or above the pivot and \<open>i..j-1\<close> below it.\<close>

lemma part_loop_spec:
  assumes "0 \<le> low" "low \<le> i" "i \<le> j" "j \<le> high" "high < int (length a)"
    and "\<forall>k < length a. low \<le> int k \<and> int k < i \<longrightarrow> a ! k \<ge> pivot"
    and "\<forall>k < length a. i \<le> int k \<and> int k < j \<longrightarrow> a ! k < pivot"
  shows "\<exists>i' b. part_loop pivot high i j a = Some (i', b) \<and> low \<le> i' \<and> i' \<le> high \<and>
     slice_from a b low (high - 1) \<and>
     (\<forall>k < length a. low \<le> int k \<and> int k < i' \<longrightarrow> b ! k \<ge> pivot) \<and>
     (\<forall>k < length a. i' \<le> int k \<and> int k < high \<longrightarrow> b ! k < pivot)"
  using assms
proof (induction pivot high i j a rule: part_loop.induct)
  case (1 pivot high i j a)
  show ?case
  proof (cases "j < high")
    case False
    with "1.prems" have "j = high" by simp
    then have e: "part_loop pivot high i j a = Some (i, a)"
      by (subst part_loop.simps) simp
    show ?thesis
      unfolding e using "1.prems" \<open>j = high\<close>
      by (intro exI [of _ i] exI [of _ a]) (auto simp: slice_from_refl)
  next
    case j: True
    have x: "rd a j = Some (a ! nat j)" using "1.prems" j by (simp add: mem)
    show ?thesis
    proof (cases "a ! nat j \<ge> pivot")
      case True
      let ?a1 = "a[nat j := a ! nat i]"
      let ?a2 = "a[nat j := a ! nat i, nat i := a ! nat j]"
      have s: "rd a i = Some (a ! nat i)" "wr a j (a ! nat i) = Some ?a1"
        "wr ?a1 i (a ! nat j) = Some ?a2"
        using "1.prems" j by (simp_all add: mem)
      have e: "part_loop pivot high i j a = part_loop pivot high (i + 1) (j + 1) ?a2"
        by (simp add: part_loop.simps [of pivot high i j a] j x s True)
      have sl: "slice_from a ?a2 low (high - 1)"
        using "1.prems" j by (intro slice_from_swap) auto
      have h1: "\<forall>k < length ?a2. low \<le> int k \<and> int k < i + 1 \<longrightarrow> ?a2 ! k \<ge> pivot"
        using "1.prems" j True by (auto simp: nth_list_update split: if_splits)
      have h2: "\<forall>k < length ?a2. i + 1 \<le> int k \<and> int k < j + 1 \<longrightarrow> ?a2 ! k < pivot"
        using "1.prems" j True by (auto simp: nth_list_update)
      have "\<exists>i' b. part_loop pivot high (i + 1) (j + 1) ?a2 = Some (i', b) \<and> low \<le> i' \<and>
          i' \<le> high \<and> slice_from ?a2 b low (high - 1) \<and>
          (\<forall>k < length ?a2. low \<le> int k \<and> int k < i' \<longrightarrow> b ! k \<ge> pivot) \<and>
          (\<forall>k < length ?a2. i' \<le> int k \<and> int k < high \<longrightarrow> b ! k < pivot)"
        by (rule "1.IH"(1) [OF j x True s]) (use "1.prems" j h1 h2 in auto)
      then show ?thesis
        unfolding e by (auto intro: slice_from_trans [OF sl])
    next
      case False
      have e: "part_loop pivot high i j a = part_loop pivot high i (j + 1) a"
        using j x False by (simp add: part_loop.simps [of pivot high i j a])
      have "\<forall>k < length a. i \<le> int k \<and> int k < j + 1 \<longrightarrow> a ! k < pivot"
      proof (intro allI impI)
        fix k assume "k < length a" "i \<le> int k \<and> int k < j + 1"
        then show "a ! k < pivot"
          using "1.prems" False by (cases "int k = j") auto
      qed
      then show ?thesis
        unfolding e by (intro "1.IH"(2) [OF j x False]) (use "1.prems" j in auto)
    qed
  qed
qed

lemma partition_index_spec:
  assumes "0 \<le> low" "low < high" "high < int (length a)"
  shows "\<exists>i b. sys_get_partition_index (Some a) low high = Some (i, b) \<and> low \<le> i \<and> i \<le> high \<and>
     slice_from a b low high \<and> b ! nat i = a ! nat high \<and>
     (\<forall>k < length a. low \<le> int k \<and> int k < i \<longrightarrow> b ! k \<ge> b ! nat i) \<and>
     (\<forall>k < length a. i < int k \<and> int k \<le> high \<longrightarrow> b ! k \<le> b ! nat i)"
proof -
  let ?p = "a ! nat high"
  obtain i b where l: "part_loop ?p high low low a = Some (i, b)"
    and i: "low \<le> i" "i \<le> high" and sl: "slice_from a b low (high - 1)"
    and ge: "\<forall>k < length a. low \<le> int k \<and> int k < i \<longrightarrow> b ! k \<ge> ?p"
    and lt: "\<forall>k < length a. i \<le> int k \<and> int k < high \<longrightarrow> b ! k < ?p"
    using part_loop_spec [of low low low high a ?p] assms by force
  have len: "length b = length a" and top: "b ! nat high = ?p"
    using sl assms by (auto simp: slice_from_def)
  let ?c = "b[nat i := b ! nat high, nat high := b ! nat i]"
  have e: "sys_get_partition_index (Some a) low high = Some (i, ?c)"
    using assms i len l by (simp add: sys_get_partition_index_def mem)
  have "slice_from b ?c low high"
    using assms i len by (intro slice_from_swap) auto
  with sl have sc: "slice_from a ?c low high"
    by (meson order_refl slice_from_mono slice_from_trans diff_le_self zle_diff1_eq less_imp_le)
  have ci: "?c ! nat i = ?p"
    using assms i len top by (cases "i = high") auto
  have "\<forall>k < length a. low \<le> int k \<and> int k < i \<longrightarrow> ?c ! k \<ge> ?p"
    using ge assms i len by (auto simp: nth_list_update split: if_splits)
  moreover have "?c ! k \<le> ?p" if k: "k < length a" "i < int k" "int k \<le> high" for k
  proof (cases "int k = high")
    case True
    then have "?c ! k = b ! nat i" using k len i by auto
    also have "\<dots> < ?p" using lt i assms k True by auto
    finally show ?thesis by simp
  next
    case False
    with k i assms have "k \<noteq> nat i" "k \<noteq> nat high" by auto
    then have "?c ! k = b ! k" by simp
    then show ?thesis using lt k False by (simp add: order_less_imp_le)
  qed
  ultimately show ?thesis using e i sc ci by auto
qed

subsection \<open>Correctness of quick sort\<close>

definition desc_on :: "int list \<Rightarrow> int \<Rightarrow> int \<Rightarrow> bool" where
  "desc_on a low high \<longleftrightarrow>
     (\<forall>k < length a. \<forall>l < length a. low \<le> int k \<and> k \<le> l \<and> int l \<le> high \<longrightarrow> a ! k \<ge> a ! l)"

text \<open>A rearrangement of \<open>low..high\<close> keeps every bound that held on all of \<open>low..high\<close>.\<close>

lemma slice_from_bound:
  assumes "slice_from a b low high" and "\<forall>k < length a. low \<le> int k \<and> int k \<le> high \<longrightarrow> P (a ! k)"
    and "k < length a" "low \<le> int k" "int k \<le> high"
  shows "P (b ! k)"
  using assms unfolding slice_from_def by metis

lemma quick_sort_arr_spec:
  assumes "0 \<le> low" "high < int (length a)"
  shows "\<exists>b. quick_sort_arr a low high = Some b \<and> slice_from a b low high \<and> desc_on b low high"
  using assms
proof (induction a low high rule: quick_sort_arr.induct)
  case (1 a low high)
  show ?case
  proof (cases "low < high")
    case False
    then have "quick_sort_arr a low high = Some a" by (subst quick_sort_arr.simps) simp
    moreover have "desc_on a low high"
      unfolding desc_on_def
    proof (intro allI impI)
      fix k l assume "low \<le> int k \<and> k \<le> l \<and> int l \<le> high"
      with False have "k = l" by linarith
      then show "a ! l \<le> a ! k" by simp
    qed
    ultimately show ?thesis by (auto simp: slice_from_refl)
  next
    case True
    obtain i b where p: "sys_get_partition_index (Some a) low high = Some (i, b)"
      and i: "low \<le> i" "i \<le> high" and ab: "slice_from a b low high"
      and ge: "\<forall>k < length a. low \<le> int k \<and> int k < i \<longrightarrow> b ! k \<ge> b ! nat i"
      and le: "\<forall>k < length a. i < int k \<and> int k \<le> high \<longrightarrow> b ! k \<le> b ! nat i"
      using partition_index_spec [OF "1.prems"(1) True "1.prems"(2)] by blast
    have lb: "length b = length a" using ab by (simp add: slice_from_def)
    obtain c where c: "quick_sort_arr b low (i - 1) = Some c"
      and bc: "slice_from b c low (i - 1)" and dc: "desc_on c low (i - 1)"
      using "1.IH"(1) [OF True p refl] "1.prems" i lb by auto
    have lc: "length c = length a" using bc lb by (simp add: slice_from_def)
    obtain d where d: "quick_sort_arr c (i + 1) high = Some d"
      and cd: "slice_from c d (i + 1) high" and dd: "desc_on d (i + 1) high"
      using "1.IH"(2) [OF True p refl c] "1.prems" i lc by auto
    have ld: "length d = length a" using cd lc by (simp add: slice_from_def)
    have e: "quick_sort_arr a low high = Some d"
      using True by (subst quick_sort_arr.simps) (simp add: p c d)
    have ad: "slice_from a d low high"
      using ab bc cd i by (meson order_refl slice_from_mono slice_from_trans diff_le_self
          zle_diff1_eq less_imp_le zle_add1_eq_le order_trans add1_zle_eq)
    let ?v = "b ! nat i"
    have di: "d ! nat i = ?v"
      using cd bc i "1.prems" lb lc unfolding slice_from_def by auto
    have dleft: "d ! k = c ! k \<and> d ! k \<ge> ?v" if k: "k < length a" "low \<le> int k" "int k < i" for k
    proof -
      have "c ! k \<ge> ?v"
        by (rule slice_from_bound [OF bc]) (use ge k lb in auto)
      moreover have "d ! k = c ! k"
        using cd k lc unfolding slice_from_def by auto
      ultimately show ?thesis by simp
    qed
    have dright: "d ! k \<le> ?v" if k: "k < length a" "i < int k" "int k \<le> high" for k
    proof (rule slice_from_bound [OF cd])
      show "\<forall>k<length c. i + 1 \<le> int k \<and> int k \<le> high \<longrightarrow> c ! k \<le> ?v"
        using bc le lb lc unfolding slice_from_def by auto
    qed (use k lc in auto)
    have "desc_on d low high"
      unfolding desc_on_def
    proof (intro allI impI, elim conjE)
      fix k l assume k: "k < length d" and l: "l < length d"
        and o: "low \<le> int k" "k \<le> l" "int l \<le> high"
      consider "int l < i" | "int k < i" "int l \<ge> i" | "int k = i" "int l = i"
        | "int k = i" "int l > i" | "int k > i" using o by linarith
      then show "d ! l \<le> d ! k"
      proof cases
        case 1
        then have "c ! l \<le> c ! k" using dc k l o ld lc unfolding desc_on_def by auto
        with 1 show ?thesis using dleft [of k] dleft [of l] k l o ld by auto
      next
        case 2
        then have "d ! l \<le> ?v" using dright [of l] di l ld o by (cases "int l = i") auto
        also have "\<dots> \<le> d ! k" using 2 dleft [of k] k ld o by auto
        finally show ?thesis .
      next
        case 3
        then have "k = l" by linarith
        then show ?thesis by simp
      next
        case 4
        then have "d ! k = ?v" using di by auto
        with 4 show ?thesis using dright [of l] l ld o by auto
      next
        case 5
        then show ?thesis using dd k l o unfolding desc_on_def by auto
      qed
    qed
    with e ad show ?thesis by blast
  qed
qed

subsection \<open>The sorting system call\<close>

text \<open>
  User memory maps the byte address of each \<open>int32_t\<close> to its value; an unmapped address faults.
  The state counts the outstanding \<open>kmalloc\<close> allocations and keeps the values \<open>printk\<close> logs.
\<close>

datatype kmsg = KernelUnsorted int int | KernelSorted int int

record sort_state =
  umem :: "nat \<rightharpoonup> int"
  kallocs :: int
  klog :: "kmsg list"

definition size_t_of :: "int \<Rightarrow> nat" where
  "size_t_of x = nat (x mod 2 ^ 64)"

text \<open>\<open>copy_from_user\<close> of \<open>n\<close> bytes of \<open>int32_t\<close> cells; \<open>None\<close> when some byte cannot be read.\<close>

fun read_cells :: "(nat \<rightharpoonup> int) \<Rightarrow> nat \<Rightarrow> nat \<Rightarrow> int list option" where
  "read_cells m src 0 = Some []"
| "read_cells m src (Suc n) =
     (case m src of
        None \<Rightarrow> None
      | Some v \<Rightarrow> map_option (Cons v) (read_cells m (src + 4) n))"

definition copy_from_user :: "(nat \<rightharpoonup> int) \<Rightarrow> nat \<Rightarrow> nat \<Rightarrow> int list option" where
  "copy_from_user m src n = read_cells m src (n div 4)"

text \<open>\<open>copy_to_user\<close> writes the cells in order up to the first unmapped one.\<close>

fun copy_to_user :: "(nat \<rightharpoonup> int) \<Rightarrow> nat \<Rightarrow> int list \<Rightarrow> (nat \<rightharpoonup> int) \<times> bool" where
  "copy_to_user m dst [] = (m, True)"
| "copy_to_user m dst (v # vs) =
     (case m dst of
        None \<Rightarrow> (m, False)
      | Some _ \<Rightarrow> copy_to_user (m(dst \<mapsto> v)) (dst + 4) vs)"

text \<open>The loops that print \<open>to_return[0..size-1]\<close> through the checked array.\<close>

fun print_loop :: "(int \<Rightarrow> int \<Rightarrow> kmsg) \<Rightarrow> int list \<Rightarrow> int \<Rightarrow> nat \<Rightarrow> kmsg list option" where
  "print_loop f a j 0 = Some []"
| "print_loop f a j (Suc n) =
     (case rd a j of
        None \<Rightarrow> None
      | Some v \<Rightarrow> map_option (Cons (f j v)) (print_loop f a (j + 1) n))"

definition sys_sorting ::
  "(nat \<Rightarrow> bool) \<Rightarrow> sort_state \<Rightarrow> nat \<Rightarrow> nat \<Rightarrow> int \<Rightarrow> (int \<times> sort_state) option" where
  "sys_sorting kmalloc_ok st unsorted_ptr sorted_ptr sz =
     (let size_of_var = s32 (sz * 4) in
      if sorted_ptr = 0 then Some (- EFAULT, st)
      else if unsorted_ptr = 0 then Some (- EFAULT, st)
      else if sz \<le> 0 then Some (- EFAULT, st)
      else if \<not> kmalloc_ok (size_t_of size_of_var) then Some (- EFAULT, st)
      else
        let st1 = st\<lparr>kallocs := kallocs st + 1\<rparr> in
        case copy_from_user (umem st1) unsorted_ptr (size_t_of size_of_var) of
          None \<Rightarrow> Some (- EFAULT, st1)
        | Some to_return \<Rightarrow>
            do { log1 \<leftarrow> print_loop KernelUnsorted to_return 0 (nat sz);
                 (rc, ptr) \<leftarrow> sys_quick_sort (Some to_return) 0 (sz - 1);
                 to_return' \<leftarrow> ptr;
                 log2 \<leftarrow> print_loop KernelSorted to_return' 0 (nat sz);
                 let (m, ok) = copy_to_user (umem st1) sorted_ptr to_return';
                     st2 = st1\<lparr>umem := m, klog := klog st @ log1 @ log2\<rparr>
                 in if ok then Some (0, st2\<lparr>kallocs := kallocs st2 - 1\<rparr>)
                    else Some (- EFAULT, st2) })"

lemma read_cells_ok:
  "\<forall>k < n. m (src + 4 * k) \<noteq> None \<Longrightarrow>
   read_cells m src n = Some (map (\<lambda>k. the (m (src + 4 * k))) [0..<n])"
proof (induction n arbitrary: src)
  case 0
  then show ?case by simp
next
  case (Suc n)
  have h: "m src \<noteq> None" using Suc.prems by (auto dest: spec [of _ 0])
  have "\<forall>k < n. m (src + 4 + 4 * k) \<noteq> None"
  proof (intro allI impI)
    fix k assume "k < n"
    then have "m (src + 4 * Suc k) \<noteq> None" using Suc.prems by blast
    then show "m (src + 4 + 4 * k) \<noteq> None" by (simp add: algebra_simps)
  qed
  with h have "read_cells m src (Suc n) =
      Some (the (m src) # map (\<lambda>k. the (m (src + 4 + 4 * k))) [0..<n])"
    by (auto simp: Suc.IH)
  also have "\<dots> = Some (map (\<lambda>k. the (m (src + 4 * k))) [0..<Suc n])"
    by (simp add: upt_conv_Cons map_Suc_upt [symmetric] algebra_simps del: upt_Suc)
  finally show ?case .
qed

lemma read_cells_length: "read_cells m src n = Some a \<Longrightarrow> length a = n"
  by (induction m src n arbitrary: a rule: read_cells.induct) (auto split: option.splits)

lemma read_cells_fault:
  "k < n \<Longrightarrow> m (src + 4 * k) = None \<Longrightarrow> read_cells m src n = None"
proof (induction n arbitrary: src k)
  case 0
  then show ?case by simp
next
  case (Suc n)
  show ?case
  proof (cases k)
    case 0
    with Suc.prems show ?thesis by simp
  next
    case (Suc k')
    with Suc.prems have "read_cells m (src + 4) n = None"
      by (intro Suc.IH [of k']) (simp_all add: algebra_simps)
    then show ?thesis by (simp split: option.splits)
  qed
qed

lemma print_loop_ok:
  "0 \<le> j \<Longrightarrow> j + int n \<le> int (length a) \<Longrightarrow> \<exists>l. print_loop f a j n = Some l \<and> length l = n"
  by (induction f a j n rule: print_loop.induct) (auto simp: mem)

lemma print_loop_out:
  "0 \<le> j \<Longrightarrow> j \<le> int (length a) \<Longrightarrow> int (length a) < j + int n \<Longrightarrow>
   print_loop f a j n = None"
  by (induction f a j n rule: print_loop.induct) (auto simp: rd_def)

text \<open>Writing cells that are all mapped succeeds and changes exactly those cells.\<close>

lemma copy_to_user_ok:
  assumes "\<forall>k < length vs. m (dst + 4 * k) \<noteq> None"
  shows "snd (copy_to_user m dst vs) \<and>
    (\<forall>k < length vs. fst (copy_to_user m dst vs) (dst + 4 * k) = Some (vs ! k)) \<and>
    (\<forall>a. (\<forall>k < length vs. a \<noteq> dst + 4 * k) \<longrightarrow> fst (copy_to_user m dst vs) a = m a)"
  using assms
proof (induction vs arbitrary: m dst)
  case Nil
  then show ?case by simp
next
  case (Cons v vs)
  let ?m = "m(dst \<mapsto> v)"
  obtain w where w: "m dst = Some w" using Cons.prems by (auto dest: spec [of _ 0])
  have "\<forall>k < length vs. ?m (dst + 4 + 4 * k) \<noteq> None"
  proof (intro allI impI)
    fix k assume "k < length vs"
    then have "m (dst + 4 * Suc k) \<noteq> None" using Cons.prems by auto
    then show "?m (dst + 4 + 4 * k) \<noteq> None" by (simp add: algebra_simps)
  qed
  note IH = Cons.IH [OF this]
  have e: "copy_to_user m dst (v # vs) = copy_to_user ?m (dst + 4) vs" using w by simp
  have "fst (copy_to_user ?m (dst + 4) vs) (dst + 4 * k) = Some ((v # vs) ! k)"
    if k: "k < length (v # vs)" for k
  proof (cases k)
    case 0
    have "\<forall>l < length vs. dst \<noteq> dst + 4 + 4 * l" by simp
    then have "fst (copy_to_user ?m (dst + 4) vs) dst = ?m dst" using IH by blast
    then show ?thesis using 0 by simp
  next
    case (Suc k')
    then have "k' < length vs" using k by simp
    then have "fst (copy_to_user ?m (dst + 4) vs) (dst + 4 + 4 * k') = Some (vs ! k')"
      using IH by blast
    moreover have "dst + 4 * k = dst + 4 + 4 * k'" using Suc by simp
    ultimately show ?thesis using Suc by (simp only: nth_Cons_Suc)
  qed
  moreover have "fst (copy_to_user ?m (dst + 4) vs) a = m a"
    if a: "\<forall>k < length (v # vs). a \<noteq> dst + 4 * k" for a
  proof -
    have "a \<noteq> dst" using a by (auto dest: spec [of _ 0])
    moreover have "\<forall>k < length vs. a \<noteq> dst + 4 + 4 * k"
      using a by (auto dest: spec [of _ "Suc _"] simp: algebra_simps)
    ultimately have "fst (copy_to_user ?m (dst + 4) vs) a = ?m a" using IH by blast
    with \<open>a \<noteq> dst\<close> show ?thesis by simp
  qed
  moreover have "snd (copy_to_user ?m (dst + 4) vs)" using IH by blast
  ultimately show ?case unfolding e by blast
qed

lemma desc_on_sorted_wrt:
  "desc_on a 0 (int (length a) - 1) \<Longrightarrow> sorted_wrt (\<ge>) a"
  by (auto simp: desc_on_def sorted_wrt_iff_nth_less)

lemma size_of_var_id: "0 < sz \<Longrightarrow> sz < 2 ^ 29 \<Longrightarrow> s32 (sz * 4) = sz * 4"
  by (rule s32_id) auto

lemma sys_sorting_run:
  assumes "unsorted_ptr \<noteq> 0" "sorted_ptr \<noteq> 0" "0 < sz" "sz < 2 ^ 29"
    and "kmalloc_ok (nat (sz * 4))"
    and src: "read_cells (umem st) unsorted_ptr (nat sz) = Some vs"
  shows "\<exists>out log1 log2. length out = nat sz \<and> mset out = mset vs \<and> sorted_wrt (\<ge>) out \<and>
    sys_sorting kmalloc_ok st unsorted_ptr sorted_ptr sz =
      (let (m, ok) = copy_to_user (umem st) sorted_ptr out;
           st2 = st\<lparr>kallocs := kallocs st + 1, umem := m, klog := klog st @ log1 @ log2\<rparr>
       in if ok then Some (0, st2\<lparr>kallocs := kallocs st\<rparr>) else Some (- EFAULT, st2))"
proof -
  have len: "length vs = nat sz" using src by (rule read_cells_length)
  obtain out where q: "quick_sort_arr vs 0 (sz - 1) = Some out"
    and sl: "slice_from vs out 0 (sz - 1)" and de: "desc_on out 0 (sz - 1)"
    using quick_sort_arr_spec [of 0 "sz - 1" vs] len assms(3) by auto
  have lo: "length out = nat sz" using sl len by (simp add: slice_from_def)
  obtain log1 where l1: "print_loop KernelUnsorted vs 0 (nat sz) = Some log1"
    using print_loop_ok [of 0 "nat sz" vs KernelUnsorted] len by auto
  obtain log2 where l2: "print_loop KernelSorted out 0 (nat sz) = Some log2"
    using print_loop_ok [of 0 "nat sz" out KernelSorted] lo by auto
  have szv: "s32 (sz * 4) = sz * 4" using assms(3,4) by (rule size_of_var_id)
  have "size_t_of (sz * 4) = nat (sz * 4)"
    using assms(3,4) by (simp add: size_t_of_def)
  moreover have "nat (sz * 4) div 4 = nat sz" using assms(3) by (simp add: nat_mult_distrib)
  ultimately have "sys_sorting kmalloc_ok st unsorted_ptr sorted_ptr sz =
      (let (m, ok) = copy_to_user (umem st) sorted_ptr out;
           st2 = st\<lparr>kallocs := kallocs st + 1, umem := m, klog := klog st @ log1 @ log2\<rparr>
       in if ok then Some (0, st2\<lparr>kallocs := kallocs st\<rparr>) else Some (- EFAULT, st2))"
    using assms szv q l1 l2
    by (simp add: sys_sorting_def Let_def copy_from_user_def sys_quick_sort_def split: prod.splits)
  moreover have "mset out = mset vs" using sl by (simp add: slice_from_def)
  moreover have "sorted_wrt (\<ge>) out"
    by (rule desc_on_sorted_wrt) (use de lo assms(3) in simp)
  ultimately show ?thesis using lo by blast
qed

subsection \<open>Properties\<close>

text \<open>
  The partition step is memory safe inside \<open>low..high\<close>, returns an index in that range,
  rearranges only that range, and puts every element at or above the pivot before it and every
  element at or below the pivot after it.
\<close>

theorem partition_correct:
  assumes "0 \<le> low" "low < high" "high < int (length a)"
  shows "\<exists>i b. sys_get_partition_index (Some a) low high = Some (i, b) \<and> low \<le> i \<and> i \<le> high \<and>
     mset b = mset a \<and> b ! nat i = a ! nat high \<and>
     (\<forall>k < length a. int k < low \<or> high < int k \<longrightarrow> b ! k = a ! k) \<and>
     (\<forall>k < length a. low \<le> int k \<and> int k < i \<longrightarrow> b ! k \<ge> b ! nat i) \<and>
     (\<forall>k < length a. i < int k \<and> int k \<le> high \<longrightarrow> b ! k \<le> b ! nat i)"
proof -
  obtain i b where "sys_get_partition_index (Some a) low high = Some (i, b)"
    "low \<le> i" "i \<le> high" "slice_from a b low high" "b ! nat i = a ! nat high"
    "\<forall>k < length a. low \<le> int k \<and> int k < i \<longrightarrow> b ! k \<ge> b ! nat i"
    "\<forall>k < length a. i < int k \<and> int k \<le> high \<longrightarrow> b ! k \<le> b ! nat i"
    using partition_index_spec [OF assms] by blast
  then show ?thesis
    by (intro exI [of _ i] exI [of _ b]) (simp add: slice_from_def)
qed

theorem partition_correct_witness:
  "\<exists>i b. sys_get_partition_index (Some [4, 9, 1, 7, 5]) 0 4 = Some (i, b) \<and> 0 \<le> i \<and> i \<le> 4"
  using partition_correct [of 0 4 "[4, 9, 1, 7, 5]"] by auto

text \<open>
  C2. Quick sort terminates without any out-of-range access and leaves the slice
  \<open>low..high\<close> in descending order: it returns 0, permutes the array and touches no cell outside
  the slice.
\<close>

theorem quick_sort_correct:
  assumes "0 \<le> low" "high < int (length a)"
  shows "\<exists>b. sys_quick_sort (Some a) low high = Some (0, Some b) \<and> mset b = mset a \<and>
     (\<forall>k < length a. int k < low \<or> high < int k \<longrightarrow> b ! k = a ! k) \<and>
     (\<forall>k l. low \<le> int k \<and> k \<le> l \<and> int l \<le> high \<longrightarrow> b ! k \<ge> b ! l)"
proof -
  obtain b where "quick_sort_arr a low high = Some b" "slice_from a b low high" "desc_on b low high"
    using quick_sort_arr_spec [OF assms] by blast
  moreover from this have "\<forall>k l. low \<le> int k \<and> k \<le> l \<and> int l \<le> high \<longrightarrow> b ! k \<ge> b ! l"
    using assms by (auto simp: desc_on_def slice_from_def)
  ultimately show ?thesis by (auto simp: sys_quick_sort_def slice_from_def)
qed

theorem quick_sort_correct_witness:
  "\<exists>b. sys_quick_sort (Some [4, 9, 1, 7, 5]) 1 3 = Some (0, Some b) \<and> mset b = mset [4, 9, 1, 7, 5]"
  using quick_sort_correct [of 1 3 "[4, 9, 1, 7, 5]"] by auto

text \<open>
  C1. The sorting system call on readable and writable user buffers of fewer than \<open>2 ^ 29\<close>
  elements returns 0, stores in the destination the descending permutation of the source values
  (read before anything is written, so the buffers may overlap), changes no other cell of user
  memory and frees what it allocated.
\<close>

theorem sys_sorting_correct:
  assumes "unsorted_ptr \<noteq> 0" "sorted_ptr \<noteq> 0" "0 < sz" "sz < 2 ^ 29"
    and "kmalloc_ok (nat (sz * 4))"
    and src: "read_cells (umem st) unsorted_ptr (nat sz) = Some vs"
    and dst: "\<forall>k < nat sz. umem st (sorted_ptr + 4 * k) \<noteq> None"
  shows "\<exists>st' out. sys_sorting kmalloc_ok st unsorted_ptr sorted_ptr sz = Some (0, st') \<and>
    mset out = mset vs \<and> sorted_wrt (\<ge>) out \<and>
    (\<forall>k < nat sz. umem st' (sorted_ptr + 4 * k) = Some (out ! k)) \<and>
    (\<forall>a. (\<forall>k < nat sz. a \<noteq> sorted_ptr + 4 * k) \<longrightarrow> umem st' a = umem st a) \<and>
    kallocs st' = kallocs st"
proof -
  obtain out log1 log2 where o: "length out = nat sz" "mset out = mset vs" "sorted_wrt (\<ge>) out"
    and run: "sys_sorting kmalloc_ok st unsorted_ptr sorted_ptr sz =
      (let (m, ok) = copy_to_user (umem st) sorted_ptr out;
           st2 = st\<lparr>kallocs := kallocs st + 1, umem := m, klog := klog st @ log1 @ log2\<rparr>
       in if ok then Some (0, st2\<lparr>kallocs := kallocs st\<rparr>) else Some (- EFAULT, st2))"
    using sys_sorting_run [of unsorted_ptr sorted_ptr sz kmalloc_ok st vs] assms by blast
  have "\<forall>k < length out. umem st (sorted_ptr + 4 * k) \<noteq> None" using dst o(1) by simp
  note w = copy_to_user_ok [OF this]
  show ?thesis
    unfolding run using w o
    by (auto simp: Let_def split: prod.splits)
qed

theorem sys_sorting_correct_witness:
  "\<exists>st' out. sys_sorting (\<lambda>_. True) \<lparr>umem = [100 \<mapsto> 3, 104 \<mapsto> 5], kallocs = 0, klog = []\<rparr>
      100 100 2 = Some (0, st') \<and> mset out = mset [3, 5] \<and> sorted_wrt (\<ge>) out \<and>
      umem st' 100 = Some (out ! 0) \<and> kallocs st' = 0"
proof -
  let ?st = "\<lparr>umem = [100 \<mapsto> 3, 104 \<mapsto> 5], kallocs = 0, klog = []\<rparr>"
  have src: "read_cells (umem ?st) 100 (nat 2) = Some [3, 5]"
    by (simp add: numeral_2_eq_2)
  have dst: "\<forall>k < nat 2. umem ?st (100 + 4 * k) \<noteq> None"
    by (auto simp: less_Suc_eq numeral_2_eq_2)
  show ?thesis
    using sys_sorting_correct [of 100 100 2 "\<lambda>_. True", OF _ _ _ _ _ src dst]
    by (force dest: spec [of _ 0])
qed

text \<open>
  A NULL pointer or a non-positive size is rejected with \<open>-EFAULT\<close> before anything is
  allocated, read or written, and so is a failing allocation.
\<close>

theorem sys_sorting_rejects:
  assumes "unsorted_ptr = 0 \<or> sorted_ptr = 0 \<or> sz \<le> 0 \<or> \<not> kmalloc_ok (size_t_of (s32 (sz * 4)))"
  shows "sys_sorting kmalloc_ok st unsorted_ptr sorted_ptr sz = Some (- EFAULT, st)"
  using assms by (auto simp: sys_sorting_def Let_def)

theorem sys_sorting_rejects_witness:
  "sys_sorting (\<lambda>_. True) \<lparr>umem = [100 \<mapsto> 3], kallocs = 0, klog = []\<rparr> 100 100 (- 6) =
     Some (- EFAULT, \<lparr>umem = [100 \<mapsto> 3], kallocs = 0, klog = []\<rparr>)"
  by (rule sys_sorting_rejects) simp

text \<open>
  Faults leak: when the source cannot be read the call returns \<open>-EFAULT\<close> and the buffer it
  allocated stays allocated; when only the destination cannot be written the same happens.
\<close>

theorem sys_sorting_leaks:
  assumes "unsorted_ptr \<noteq> 0" "sorted_ptr \<noteq> 0" "0 < sz" "sz < 2 ^ 29"
    and "kmalloc_ok (nat (sz * 4))"
    and fault: "\<exists>k < nat sz. umem st (unsorted_ptr + 4 * k) = None \<or> umem st sorted_ptr = None"
  shows "\<exists>st'. sys_sorting kmalloc_ok st unsorted_ptr sorted_ptr sz = Some (- EFAULT, st') \<and>
    umem st' = umem st \<and> kallocs st' = kallocs st + 1"
proof (cases "read_cells (umem st) unsorted_ptr (nat sz)")
  case None
  have "size_t_of (sz * 4) = nat (sz * 4)" "nat (sz * 4) div 4 = nat sz"
    using assms(3,4) by (simp_all add: size_t_of_def nat_mult_distrib)
  then show ?thesis
    using None assms size_of_var_id [OF assms(3,4)]
    by (simp add: sys_sorting_def Let_def copy_from_user_def)
next
  case (Some vs)
  then have d: "umem st sorted_ptr = None"
    using fault read_cells_fault [of _ "nat sz" "umem st" unsorted_ptr] by auto
  obtain out log1 log2 where o: "length out = nat sz"
    and run: "sys_sorting kmalloc_ok st unsorted_ptr sorted_ptr sz =
      (let (m, ok) = copy_to_user (umem st) sorted_ptr out;
           st2 = st\<lparr>kallocs := kallocs st + 1, umem := m, klog := klog st @ log1 @ log2\<rparr>
       in if ok then Some (0, st2\<lparr>kallocs := kallocs st\<rparr>) else Some (- EFAULT, st2))"
    using sys_sorting_run [of unsorted_ptr sorted_ptr sz kmalloc_ok st vs] assms Some by blast
  have "copy_to_user (umem st) sorted_ptr out = (umem st, False)"
    using o assms(3) d by (cases out) auto
  then show ?thesis unfolding run by simp
qed

theorem sys_sorting_leaks_witness:
  "\<exists>st'. sys_sorting (\<lambda>_. True) \<lparr>umem = [100 \<mapsto> 3], kallocs = 0, klog = []\<rparr> 100 200 1 =
     Some (- EFAULT, st') \<and> kallocs st' = 1"
  using sys_sorting_leaks [of 100 200 1 "\<lambda>_. True" "\<lparr>umem = [100 \<mapsto> 3], kallocs = 0, klog = []\<rparr>"]
  by (auto intro: exI [of _ 0])

text \<open>
  The byte count is kept in an \<open>int32_t\<close>: a size of \<open>2 ^ 30\<close> or a little more wraps it
  to a small value, the allocation and the copy succeed with too few bytes, and the first loop over
  the buffer runs past its end.
\<close>

theorem sys_sorting_overruns:
  assumes "unsorted_ptr \<noteq> 0" "sorted_ptr \<noteq> 0" "2 ^ 30 \<le> sz" "sz < 2 ^ 30 + 2 ^ 29"
    and "kmalloc_ok (nat (sz * 4 - 2 ^ 32))"
    and "\<forall>k < nat (sz - 2 ^ 30). umem st (unsorted_ptr + 4 * k) \<noteq> None"
  shows "sys_sorting kmalloc_ok st unsorted_ptr sorted_ptr sz = None"
proof -
  let ?n = "nat (sz - 2 ^ 30)"
  have "sz * 4 + 2 ^ 31 = (sz * 4 - 2 ^ 31) + 2 ^ 32" by simp
  then have "(sz * 4 + 2 ^ 31) mod 2 ^ 32 = ((sz * 4 - 2 ^ 31) + 2 ^ 32) mod 2 ^ 32"
    by (rule arg_cong)
  also have "\<dots> = (sz * 4 - 2 ^ 31) mod 2 ^ 32" by (rule mod_add_self2)
  also have "\<dots> = sz * 4 - 2 ^ 31" using assms(3,4) by (intro mod_pos_pos_trivial) auto
  finally have v: "s32 (sz * 4) = sz * 4 - 2 ^ 32" unfolding s32_mod by simp
  have n: "size_t_of (sz * 4 - 2 ^ 32) = nat (sz * 4 - 2 ^ 32)"
    using assms(3,4) by (simp add: size_t_of_def)
  have "sz * 4 - 2 ^ 32 = int (4 * ?n)" using assms(3) by simp
  then have d: "nat (sz * 4 - 2 ^ 32) div 4 = ?n" by (simp only: nat_int)
  obtain vs where vs: "read_cells (umem st) unsorted_ptr ?n = Some vs"
    using read_cells_ok [OF assms(6)] by blast
  then have "length vs = ?n" by (rule read_cells_length)
  then have "print_loop KernelUnsorted vs 0 (nat sz) = None"
    using assms(3) by (intro print_loop_out) auto
  then show ?thesis
    using assms v n d vs by (simp add: sys_sorting_def Let_def copy_from_user_def)
qed

theorem sys_sorting_overruns_witness:
  "sys_sorting (\<lambda>_. True) \<lparr>umem = [100 \<mapsto> 3], kallocs = 0, klog = []\<rparr> 100 100 (2 ^ 30 + 1) = None"
  by (rule sys_sorting_overruns) simp_all

end
