(* ===== verification/AnimalList.thy ===== *)
theory AnimalList
  imports Prelude
begin

text \<open>
  The kernel module \<open>HW3/Related Files/list_sort.c\<close>: \<open>list_init\<close> sorts the \<open>animals\<close> parameter
  array, builds a linked list of (animal, count) nodes, filters it into a second list, and
  \<open>list_exit\<close> frees both. The heap maps the addresses of live nodes to their contents, a linked
  list is the list of its node addresses, and a NULL or dangling access is \<open>None\<close>.
  The kernel's \<open>sort\<close> and \<open>kmalloc\<close> are parameters: \<open>kmalloc n\<close> is the answer to the n-th
  request.
\<close>

record animal_node =
  animal_type :: string
  no_of_resp_type :: int

record module_state =
  heap :: "nat \<rightharpoonup> animal_node"
  animal_list :: "nat list"
  animal_filtered_list :: "nat list"
  an_ct :: int
  no_of_nodes :: int
  number_of_filtered :: int
  nalloc :: nat

definition module_loaded :: module_state where
  "module_loaded = \<lparr>heap = Map.empty, animal_list = [], animal_filtered_list = [], an_ct = 1,
     no_of_nodes = 0, number_of_filtered = 0, nalloc = 0\<rparr>"

text \<open>
  \<open>kmalloc\<close> a node and fill it in. The source does not check the result, so a failed allocation
  is a NULL dereference.
\<close>

definition new_node ::
  "(nat \<Rightarrow> nat option) \<Rightarrow> string \<Rightarrow> int \<Rightarrow> module_state \<Rightarrow> (nat \<times> module_state) option" where
  "new_node kmalloc animal n st =
     (case kmalloc (nalloc st) of
        None \<Rightarrow> None
      | Some p \<Rightarrow>
          Some (p, st\<lparr>heap := (heap st)(p \<mapsto> \<lparr>animal_type = animal, no_of_resp_type = n\<rparr>),
                      nalloc := nalloc st + 1\<rparr>))"

text \<open>Append a new node to the list of animals, and count it.\<close>

definition add_animal ::
  "(nat \<Rightarrow> nat option) \<Rightarrow> string \<Rightarrow> module_state \<Rightarrow> module_state option" where
  "add_animal kmalloc animal st =
     do { (p, st') \<leftarrow> new_node kmalloc animal (an_ct st) st;
          Some (st'\<lparr>animal_list := animal_list st' @ [p], no_of_nodes := no_of_nodes st' + 1\<rparr>) }"

text \<open>
  The first \<open>for\<close> loop on the suffix \<open>animals[i..]\<close>: it compares neighbours, and does nothing
  at the last index.
\<close>

fun group_loop ::
  "(nat \<Rightarrow> nat option) \<Rightarrow> string list \<Rightarrow> module_state \<Rightarrow> module_state option" where
  "group_loop kmalloc (x # y # ys) st =
     (if strcmp x y = 0 then group_loop kmalloc (y # ys) (st\<lparr>an_ct := an_ct st + 1\<rparr>)
      else
        case add_animal kmalloc x st of
          None \<Rightarrow> None
        | Some st' \<Rightarrow> group_loop kmalloc (y # ys) (st'\<lparr>an_ct := 1\<rparr>))"
| "group_loop kmalloc _ st = Some st"

text \<open>The filter test of the second loop, with both branches of the source.\<close>

definition passes_filter :: "string \<Rightarrow> int \<Rightarrow> animal_node \<Rightarrow> bool" where
  "passes_filter animal_type_filter animal_count_filter nd =
     (if strcmp animal_type_filter ''none'' = 0
      then no_of_resp_type nd > animal_count_filter
      else strcmp (animal_type nd) animal_type_filter = 0 \<and>
           no_of_resp_type nd > animal_count_filter)"

fun filter_loop ::
  "(nat \<Rightarrow> nat option) \<Rightarrow> string \<Rightarrow> int \<Rightarrow> nat list \<Rightarrow> module_state \<Rightarrow> module_state option" where
  "filter_loop kmalloc tf cf [] st = Some st"
| "filter_loop kmalloc tf cf (access # rest) st =
     (case heap st access of
        None \<Rightarrow> None
      | Some nd \<Rightarrow>
          if passes_filter tf cf nd then
            (case new_node kmalloc (animal_type nd) (no_of_resp_type nd) st of
               None \<Rightarrow> None
             | Some (p, st') \<Rightarrow>
                 filter_loop kmalloc tf cf rest
                   (st'\<lparr>animal_filtered_list := animal_filtered_list st' @ [p],
                        number_of_filtered := number_of_filtered st' + 1\<rparr>))
          else filter_loop kmalloc tf cf rest st)"

text \<open>
  \<open>list_init\<close>. Every element of the array is compared, so a NULL element is dereferenced; with no
  element at all the source reads \<open>animals[-1]\<close>.
\<close>

definition list_init ::
  "((string \<Rightarrow> string \<Rightarrow> int) \<Rightarrow> string list \<Rightarrow> string list) \<Rightarrow> (nat \<Rightarrow> nat option) \<Rightarrow>
   string \<Rightarrow> int \<Rightarrow> string option list \<Rightarrow> module_state \<Rightarrow> module_state option" where
  "list_init ksort kmalloc tf cf animals st =
     do { strs \<leftarrow> those animals;
          let xs = ksort strcmp strs;
          st1 \<leftarrow> group_loop kmalloc xs (st\<lparr>animal_list := [], animal_filtered_list := []\<rparr>);
          st2 \<leftarrow> (if xs = [] then None else add_animal kmalloc (last xs) st1);
          filter_loop kmalloc tf cf (animal_list st2) st2 }"

text \<open>
  \<open>list_exit\<close>: the body of \<open>list_for_each\<close> frees the node the cursor is on, and the loop then
  reads the \<open>next\<close> field of that node.
\<close>

fun free_walk :: "(nat \<rightharpoonup> animal_node) \<Rightarrow> nat list \<Rightarrow> (nat \<rightharpoonup> animal_node) option" where
  "free_walk h [] = Some h"
| "free_walk h (access # rest) =
     (case h access of
        None \<Rightarrow> None
      | Some _ \<Rightarrow>
          let h' = h(access := None) in
          case h' access of None \<Rightarrow> None | Some _ \<Rightarrow> free_walk h' rest)"

definition list_exit :: "module_state \<Rightarrow> module_state option" where
  "list_exit st =
     do { h1 \<leftarrow> free_walk (heap st) (animal_list st);
          h2 \<leftarrow> free_walk h1 (animal_filtered_list st);
          Some (st\<lparr>heap := h2\<rparr>) }"

subsection \<open>Specification: run-length encoding\<close>

fun rle_from :: "int \<Rightarrow> string list \<Rightarrow> animal_node list" where
  "rle_from c [] = []"
| "rle_from c [x] = [\<lparr>animal_type = x, no_of_resp_type = c\<rparr>]"
| "rle_from c (x # y # ys) =
     (if x = y then rle_from (c + 1) (y # ys)
      else \<lparr>animal_type = x, no_of_resp_type = c\<rparr> # rle_from 1 (y # ys))"

definition contents :: "(nat \<rightharpoonup> animal_node) \<Rightarrow> nat list \<Rightarrow> animal_node list" where
  "contents h ps = map (\<lambda>p. the (h p)) ps"

definition good_kmalloc :: "(nat \<Rightarrow> nat option) \<Rightarrow> bool" where
  "good_kmalloc kmalloc \<longleftrightarrow>
     (\<forall>n. kmalloc n \<noteq> None) \<and> (\<forall>m n. kmalloc m = kmalloc n \<longrightarrow> m = n)"

text \<open>The lists hold live nodes only, and every address still to be handed out is unused.\<close>

definition wf_module :: "(nat \<Rightarrow> nat option) \<Rightarrow> module_state \<Rightarrow> bool" where
  "wf_module kmalloc st \<longleftrightarrow>
     set (animal_list st) \<subseteq> dom (heap st) \<and> set (animal_filtered_list st) \<subseteq> dom (heap st) \<and>
     (\<forall>n p. nalloc st \<le> n \<longrightarrow> kmalloc n = Some p \<longrightarrow> heap st p = None)"

lemma wf_module_an_ct [simp]: "wf_module kmalloc (st\<lparr>an_ct := c\<rparr>) = wf_module kmalloc st"
  by (simp add: wf_module_def)

lemma contents_upd_fresh:
  "set ps \<subseteq> dom h \<Longrightarrow> h p = None \<Longrightarrow> contents (h(p \<mapsto> v)) ps = contents h ps"
  by (auto simp: contents_def)

lemma contents_snoc [simp]: "contents h (ps @ [p]) = contents h ps @ [the (h p)]"
  by (simp add: contents_def)

lemma new_node_spec:
  assumes "good_kmalloc kmalloc" "wf_module kmalloc st"
  shows "\<exists>p. new_node kmalloc a n st =
      Some (p, st\<lparr>heap := (heap st)(p \<mapsto> \<lparr>animal_type = a, no_of_resp_type = n\<rparr>),
                  nalloc := nalloc st + 1\<rparr>) \<and> heap st p = None \<and>
      (\<forall>m q. nalloc st + 1 \<le> m \<longrightarrow> kmalloc m = Some q \<longrightarrow> q \<noteq> p \<and> heap st q = None)"
proof -
  obtain p where p: "kmalloc (nalloc st) = Some p"
    using assms(1) unfolding good_kmalloc_def by blast
  have "q \<noteq> p \<and> heap st q = None" if "nalloc st + 1 \<le> m" "kmalloc m = Some q" for m q
  proof
    show "q \<noteq> p"
    proof
      assume "q = p"
      then have "kmalloc m = kmalloc (nalloc st)" using that p by simp
      then have "m = nalloc st" using assms(1) by (simp add: good_kmalloc_def)
      with that show False by simp
    qed
    have "nalloc st \<le> m" using that by simp
    then show "heap st q = None" using assms(2) that unfolding wf_module_def by blast
  qed
  moreover have "heap st p = None" using assms(2) p by (auto simp: wf_module_def)
  ultimately show ?thesis using p by (auto simp: new_node_def)
qed

lemma add_animal_spec:
  assumes "good_kmalloc kmalloc" "wf_module kmalloc st"
  shows "\<exists>st'. add_animal kmalloc a st = Some st' \<and> wf_module kmalloc st' \<and>
     contents (heap st') (animal_list st') =
       contents (heap st) (animal_list st) @ [\<lparr>animal_type = a, no_of_resp_type = an_ct st\<rparr>] \<and>
     animal_filtered_list st' = animal_filtered_list st \<and>
     no_of_nodes st' = no_of_nodes st + 1 \<and> number_of_filtered st' = number_of_filtered st"
proof -
  obtain p where p: "new_node kmalloc a (an_ct st) st =
      Some (p, st\<lparr>heap := (heap st)(p \<mapsto> \<lparr>animal_type = a, no_of_resp_type = an_ct st\<rparr>),
                  nalloc := nalloc st + 1\<rparr>)"
    and f: "heap st p = None"
    and g: "\<forall>m q. nalloc st + 1 \<le> m \<longrightarrow> kmalloc m = Some q \<longrightarrow> q \<noteq> p \<and> heap st q = None"
    using new_node_spec [OF assms] by blast
  show ?thesis
    using assms(2) f g
    by (auto simp: add_animal_def p wf_module_def contents_upd_fresh)
qed

text \<open>The loop and the final node together append the run-length encoding.\<close>

lemma group_loop_spec:
  assumes "good_kmalloc kmalloc" "wf_module kmalloc st" "xs \<noteq> []"
  shows "\<exists>st1 st2. group_loop kmalloc xs st = Some st1 \<and>
     add_animal kmalloc (last xs) st1 = Some st2 \<and> wf_module kmalloc st2 \<and>
     contents (heap st2) (animal_list st2) =
       contents (heap st) (animal_list st) @ rle_from (an_ct st) xs \<and>
     animal_filtered_list st2 = animal_filtered_list st \<and>
     no_of_nodes st2 = no_of_nodes st + int (length (rle_from (an_ct st) xs)) \<and>
     number_of_filtered st2 = number_of_filtered st"
  using assms
proof (induction kmalloc xs st rule: group_loop.induct)
  case (1 kmalloc x y ys st)
  show ?case
  proof (cases "x = y")
    case True
    then show ?thesis using "1.IH"(1) "1.prems" by simp
  next
    case False
    obtain st' where st': "add_animal kmalloc x st = Some st'" "wf_module kmalloc st'"
      "contents (heap st') (animal_list st') =
         contents (heap st) (animal_list st) @ [\<lparr>animal_type = x, no_of_resp_type = an_ct st\<rparr>]"
      "animal_filtered_list st' = animal_filtered_list st"
      "no_of_nodes st' = no_of_nodes st + 1" "number_of_filtered st' = number_of_filtered st"
      using add_animal_spec [OF "1.prems"(1,2)] by blast
    have ne: "strcmp x y \<noteq> 0" using False by simp
    have wf: "wf_module kmalloc (st'\<lparr>an_ct := 1\<rparr>)" using st'(2) by simp
    have l: "last (x # y # ys) = last (y # ys)" by simp
    show ?thesis
      unfolding l using "1.IH"(2) [OF ne st'(1) "1.prems"(1) wf] ne False st'
      by (auto simp del: last.simps)
  qed
qed (use add_animal_spec in \<open>fastforce+\<close>)

lemma filter_loop_spec:
  assumes "good_kmalloc kmalloc" "wf_module kmalloc st" "set ps \<subseteq> dom (heap st)"
  shows "\<exists>st'. filter_loop kmalloc tf cf ps st = Some st' \<and> wf_module kmalloc st' \<and>
     animal_list st' = animal_list st \<and>
     contents (heap st') (animal_list st') = contents (heap st) (animal_list st) \<and>
     contents (heap st') (animal_filtered_list st') =
       contents (heap st) (animal_filtered_list st) @
       filter (passes_filter tf cf) (contents (heap st) ps) \<and>
     no_of_nodes st' = no_of_nodes st \<and>
     number_of_filtered st' = number_of_filtered st +
       int (length (filter (passes_filter tf cf) (contents (heap st) ps)))"
  using assms
proof (induction ps arbitrary: st)
  case Nil
  then show ?case by (simp add: contents_def)
next
  case (Cons a ps)
  obtain nd where nd: "heap st a = Some nd" using Cons.prems(3) by auto
  show ?case
  proof (cases "passes_filter tf cf nd")
    case False
    then show ?thesis using Cons.IH [OF Cons.prems(1,2)] Cons.prems(3) nd
      by (simp add: contents_def)
  next
    case True
    have r: "\<lparr>animal_type = animal_type nd, no_of_resp_type = no_of_resp_type nd\<rparr> = nd" by simp
    obtain p where p: "new_node kmalloc (animal_type nd) (no_of_resp_type nd) st =
        Some (p, st\<lparr>heap := (heap st)(p \<mapsto> nd), nalloc := nalloc st + 1\<rparr>)"
      and f: "heap st p = None"
      and g: "\<forall>m q. nalloc st + 1 \<le> m \<longrightarrow> kmalloc m = Some q \<longrightarrow> q \<noteq> p \<and> heap st q = None"
      using new_node_spec [OF Cons.prems(1,2), of "animal_type nd" "no_of_resp_type nd"]
      unfolding r by blast
    let ?st = "st\<lparr>heap := (heap st)(p \<mapsto> nd), nalloc := nalloc st + 1,
        animal_filtered_list := animal_filtered_list st @ [p],
        number_of_filtered := number_of_filtered st + 1\<rparr>"
    have wf: "wf_module kmalloc ?st" using Cons.prems(2) g by (auto simp: wf_module_def)
    have sub: "set ps \<subseteq> dom (heap ?st)" using Cons.prems(3) by auto
    have c: "contents ((heap st)(p \<mapsto> nd)) ps = contents (heap st) ps"
      "contents ((heap st)(p \<mapsto> nd)) (animal_list st) = contents (heap st) (animal_list st)"
      "contents ((heap st)(p \<mapsto> nd)) (animal_filtered_list st) =
         contents (heap st) (animal_filtered_list st)"
      using Cons.prems(2,3) f by (auto simp: wf_module_def intro!: contents_upd_fresh)
    have e: "filter_loop kmalloc tf cf (a # ps) st = filter_loop kmalloc tf cf ps ?st"
      using nd True p by simp
    have "contents (heap st) (a # ps) = nd # contents (heap st) ps"
      using nd by (simp add: contents_def)
    then show ?thesis
      using Cons.IH [OF Cons.prems(1) wf sub] e c True by (auto simp: fun_upd_same simp del: fun_upd_apply)
  qed
qed

subsection \<open>The run-length encoding of a sorted array counts the animals\<close>

lemma rle_from_set: "animal_type ` set (rle_from c xs) = set xs"
  by (induction c xs rule: rle_from.induct) auto

lemma sorted_strcmp_head:
  "sorted_wrt (\<lambda>a b. strcmp a b \<le> 0) (x # y # ys) \<Longrightarrow> x \<noteq> y \<Longrightarrow> z \<in> set (y # ys) \<Longrightarrow>
   strcmp x z < 0"
proof -
  assume s: "sorted_wrt (\<lambda>a b. strcmp a b \<le> 0) (x # y # ys)" and ne: "x \<noteq> y"
    and z: "z \<in> set (y # ys)"
  have xz: "strcmp x z \<le> 0" using s z by auto
  moreover have "strcmp x z \<noteq> 0"
  proof
    assume "strcmp x z = 0"
    then have "x = z" by simp
    moreover have "strcmp y z \<le> 0" using s z by (auto simp: strcmp_refl)
    ultimately have "strcmp y x \<le> 0" by simp
    moreover have "strcmp x y \<le> 0" using s by simp
    ultimately show False using ne strcmp_antisym by blast
  qed
  ultimately show ?thesis by linarith
qed

lemma rle_from_sorted:
  "sorted_wrt (\<lambda>a b. strcmp a b \<le> 0) xs \<Longrightarrow>
   sorted_wrt (\<lambda>p q. strcmp (animal_type p) (animal_type q) < 0) (rle_from c xs)"
proof (induction c xs rule: rle_from.induct)
  case (3 c x y ys)
  show ?case
  proof (cases "x = y")
    case True
    with 3 show ?thesis by simp
  next
    case False
    have "strcmp x (animal_type q) < 0" if "q \<in> set (rle_from 1 (y # ys))" for q
      using sorted_strcmp_head [OF "3.prems" False, of "animal_type q"]
        rle_from_set [of 1 "y # ys"] that by blast
    with False 3 show ?thesis by simp
  qed
qed auto

lemma rle_from_counts:
  assumes "sorted_wrt (\<lambda>a b. strcmp a b \<le> 0) xs" and "nd \<in> set (rle_from c xs)"
  shows "no_of_resp_type nd = int (count_list xs (animal_type nd)) +
     (if animal_type nd = hd xs then c - 1 else 0)"
  using assms
proof (induction c xs rule: rle_from.induct)
  case (3 c x y ys)
  show ?case
  proof (cases "x = y")
    case True
    with 3 show ?thesis by auto
  next
    case False
    have z: "x \<notin> set (y # ys)"
      using sorted_strcmp_head [OF "3.prems"(1) False, of x] by (auto simp: strcmp_refl)
    show ?thesis
    proof (cases "nd \<in> set (rle_from 1 (y # ys))")
      case True
      then have "animal_type nd \<in> set (y # ys)" using rle_from_set [of 1 "y # ys"] by blast
      then have ne: "animal_type nd \<noteq> x" using z by auto
      have "no_of_resp_type nd = int (count_list (y # ys) (animal_type nd))"
        using "3.IH"(2) [OF False _ True] "3.prems"(1) by simp
      then show ?thesis using ne by simp
    next
      case f: False
      then have "nd = \<lparr>animal_type = x, no_of_resp_type = c\<rparr>" using "3.prems"(2) False by auto
      moreover have "count_list (y # ys) x = 0" using z by (rule count_notin)
      ultimately show ?thesis by simp
    qed
  qed
qed auto

lemma count_list_mset: "mset xs = mset ys \<Longrightarrow> count_list xs a = count_list ys a"
  by (metis count_mset)

subsection \<open>Properties\<close>

text \<open>
  C3. On an array of strings, with a kernel sort that returns a sorted permutation and a
  \<open>kmalloc\<close> that hands out fresh addresses, loading the module never dereferences a bad pointer
  and builds: a list of one node per distinct animal, strictly ordered by \<open>strcmp\<close>, whose count
  is the number of occurrences in the parameter array; and a second list that is the first one
  filtered by the two module parameters. The two node counters are the lengths of the lists.
\<close>

theorem list_init_correct:
  assumes sort: "mset (ksort strcmp strs) = mset strs"
      "sorted_wrt (\<lambda>a b. strcmp a b \<le> 0) (ksort strcmp strs)"
    and km: "good_kmalloc kmalloc" and ne: "strs \<noteq> []"
  shows "\<exists>st nodes. list_init ksort kmalloc tf cf (map Some strs) module_loaded = Some st \<and>
     contents (heap st) (animal_list st) = nodes \<and>
     contents (heap st) (animal_filtered_list st) = filter (passes_filter tf cf) nodes \<and>
     animal_type ` set nodes = set strs \<and>
     (\<forall>nd \<in> set nodes. no_of_resp_type nd = int (count_list strs (animal_type nd))) \<and>
     sorted_wrt (\<lambda>p q. strcmp (animal_type p) (animal_type q) < 0) nodes \<and>
     no_of_nodes st = int (length nodes) \<and>
     number_of_filtered st = int (length (filter (passes_filter tf cf) nodes))"
proof -
  let ?xs = "ksort strcmp strs"
  let ?nodes = "rle_from 1 ?xs"
  have xs: "?xs \<noteq> []" using sort(1) ne by auto
  have wf0: "wf_module kmalloc module_loaded" by (simp add: wf_module_def module_loaded_def)
  obtain st1 st2 where g: "group_loop kmalloc ?xs module_loaded = Some st1"
    "add_animal kmalloc (last ?xs) st1 = Some st2" "wf_module kmalloc st2"
    "contents (heap st2) (animal_list st2) = ?nodes"
    "animal_filtered_list st2 = []" "no_of_nodes st2 = int (length ?nodes)"
    "number_of_filtered st2 = 0"
    using group_loop_spec [OF km wf0 xs] by (auto simp: module_loaded_def contents_def)
  obtain st where f: "filter_loop kmalloc tf cf (animal_list st2) st2 = Some st"
    "contents (heap st) (animal_list st) = ?nodes"
    "contents (heap st) (animal_filtered_list st) = filter (passes_filter tf cf) ?nodes"
    "no_of_nodes st = int (length ?nodes)"
    "number_of_filtered st = int (length (filter (passes_filter tf cf) ?nodes))"
    using filter_loop_spec [OF km g(3), of "animal_list st2" tf cf] g
    by (auto simp: wf_module_def contents_def [of _ "[]"])
  have "those (map Some strs) = Some strs" by (induction strs) auto
  then have "list_init ksort kmalloc tf cf (map Some strs) module_loaded = Some st"
    using g f xs by (simp add: list_init_def module_loaded_def)
  moreover have "\<forall>nd \<in> set ?nodes. no_of_resp_type nd = int (count_list strs (animal_type nd))"
    using rle_from_counts [OF sort(2), of _ 1] count_list_mset [OF sort(1)] by simp
  moreover have "animal_type ` set ?nodes = set strs"
    using rle_from_set [of 1 ?xs] mset_eq_setD [OF sort(1)] by simp
  ultimately show ?thesis
    using f rle_from_sorted [OF sort(2), of 1] by blast
qed

theorem list_init_correct_witness:
  "\<exists>st nodes. list_init (\<lambda>_ _. [''ant'', ''cat'', ''cat'']) Some ''none'' 1
      (map Some [''cat'', ''ant'', ''cat'']) module_loaded = Some st \<and>
    contents (heap st) (animal_list st) = nodes \<and>
    (\<forall>nd \<in> set nodes. no_of_resp_type nd = int (count_list [''cat'', ''ant'', ''cat''] (animal_type nd)))"
proof -
  have 1: "mset [''ant'', ''cat'', ''cat''] = mset [''cat'', ''ant'', ''cat'']" by simp
  have 2: "sorted_wrt (\<lambda>a b. strcmp a b \<le> 0) [''ant'', ''cat'', ''cat'']" by simp
  have 3: "good_kmalloc Some" by (simp add: good_kmalloc_def)
  show ?thesis
    using list_init_correct [of "\<lambda>_ _. [''ant'', ''cat'', ''cat'']" "[''cat'', ''ant'', ''cat'']" Some
        "''none''" 1, OF 1 2 3] by blast
qed

text \<open>
  Unloading is unsafe: after every successful load the first step of \<open>list_exit\<close> frees a
  node and then reads the link inside it, a use after free.
\<close>

theorem list_exit_use_after_free:
  assumes "list_init ksort kmalloc tf cf animals st = Some st'"
    and "good_kmalloc kmalloc" "wf_module kmalloc (st\<lparr>animal_list := [], animal_filtered_list := []\<rparr>)"
  shows "list_exit st' = None"
proof -
  obtain strs st1 st2 where s: "group_loop kmalloc (ksort strcmp strs)
      (st\<lparr>animal_list := [], animal_filtered_list := []\<rparr>) = Some st1"
    "ksort strcmp strs \<noteq> []" "add_animal kmalloc (last (ksort strcmp strs)) st1 = Some st2"
    "filter_loop kmalloc tf cf (animal_list st2) st2 = Some st'"
    using assms(1) by (auto simp: list_init_def Let_def split: Option.bind_splits if_splits)
  have w: "wf_module kmalloc st2"
    using group_loop_spec [OF assms(2,3) s(2)] s(1,3) by auto
  then have "animal_list st' = animal_list st2"
    using filter_loop_spec [OF assms(2) w, of "animal_list st2" tf cf] s(4)
    by (auto simp: wf_module_def)
  moreover have "animal_list st2 \<noteq> []"
    using s(3) by (auto simp: add_animal_def split: Option.bind_splits)
  ultimately obtain p ps where "animal_list st' = p # ps" by (metis neq_Nil_conv)
  then show ?thesis by (cases "heap st' p") (simp_all add: list_exit_def)
qed

theorem list_exit_use_after_free_witness:
  "\<exists>st'. list_init (\<lambda>_ xs. xs) Some ''none'' 0 [Some ''cat''] module_loaded = Some st' \<and>
     list_exit st' = None"
proof -
  have i: "\<exists>st'. list_init (\<lambda>_ xs. xs) Some ''none'' 0 [Some ''cat''] module_loaded = Some st'"
    by (simp add: list_init_def module_loaded_def add_animal_def new_node_def passes_filter_def)
  have "good_kmalloc Some" "wf_module Some (module_loaded\<lparr>animal_list := [], animal_filtered_list := []\<rparr>)"
    by (simp_all add: good_kmalloc_def wf_module_def module_loaded_def)
  then show ?thesis using i list_exit_use_after_free by blast
qed

end
