(* ===== verification/TransitionSystem.thy ===== *)
theory TransitionSystem
  imports Prelude
begin

text \<open>
  The interfaces the concurrent programs of the repository are verified through: a step relation,
  its start state and an invariant; and for programs that end, a measure that every step decreases.
  The client lemmas (the invariant holds in every reachable state, runs are bounded, every run can
  be completed) are proved here once and used through interpretations on the models of the programs.
\<close>

locale preserved_invariant =
  fixes step :: "'s \<Rightarrow> 's \<Rightarrow> bool"
    and inv :: "'s \<Rightarrow> bool"
  assumes inv_step: "inv s \<Longrightarrow> step s t \<Longrightarrow> inv t"
begin

lemma inv_steps: "step\<^sup>*\<^sup>* s t \<Longrightarrow> inv s \<Longrightarrow> inv t"
  by (induction rule: rtranclp_induct) (auto intro: inv_step)

end

text \<open>With a fixed start state.\<close>

locale invariant_system = preserved_invariant step inv
  for start :: "'s" and step :: "'s \<Rightarrow> 's \<Rightarrow> bool" and inv :: "'s \<Rightarrow> bool" +
  assumes inv_start: "inv start"
begin

lemma reachable_inv: "step\<^sup>*\<^sup>* start s \<Longrightarrow> inv s"
  using inv_steps inv_start by blast

end

text \<open>With a measure that every step decreases, runs are bounded and can be completed.\<close>

locale bounded_system = invariant_system start step inv
  for start :: "'s" and step :: "'s \<Rightarrow> 's \<Rightarrow> bool" and inv :: "'s \<Rightarrow> bool" +
  fixes mu :: "'s \<Rightarrow> nat"
  assumes mu_step: "inv s \<Longrightarrow> step s t \<Longrightarrow> mu t < mu s"
begin

lemma run_bounded: "(step ^^ n) start s \<Longrightarrow> n + mu s \<le> mu start"
proof (induction n arbitrary: s)
  case 0
  then show ?case by simp
next
  case (Suc n)
  then obtain t where t: "(step ^^ n) start t" "step t s" by (auto elim: relcomppE)
  have "step\<^sup>*\<^sup>* start t" using t(1) by (metis rtranclp_power)
  then have "mu s < mu t" using t(2) mu_step reachable_inv by blast
  with Suc.IH [OF t(1)] show ?case by simp
qed

lemma completes: "inv s \<Longrightarrow> \<exists>t. step\<^sup>*\<^sup>* s t \<and> (\<forall>u. \<not> step t u)"
proof (induction "mu s" arbitrary: s rule: less_induct)
  case less
  show ?case
  proof (cases "\<exists>t. step s t")
    case True
    then obtain t where t: "step s t" by blast
    with less.prems have "mu t < mu s" "inv t" using mu_step inv_step by auto
    then obtain u where "step\<^sup>*\<^sup>* t u" "\<forall>v. \<not> step u v" using less.hyps by blast
    with t show ?thesis by (meson converse_rtranclp_into_rtranclp)
  next
    case False
    then show ?thesis by blast
  qed
qed

lemma reachable_completes: "step\<^sup>*\<^sup>* start s \<Longrightarrow> \<exists>t. step\<^sup>*\<^sup>* s t \<and> (\<forall>u. \<not> step t u)"
  using reachable_inv completes by blast

end

end
