(* ===== verification/IpcCommon.thy ===== *)
theory IpcCommon
  imports TransitionSystem
begin

text \<open>
  What the four IPC programs of HW4 share: messages (a command flag and a text), fixed-size text
  buffers written by \<open>strcpy\<close> and \<open>strcat\<close> (an overflow is \<open>None\<close>), the log of a process, and the
  specification of a request/response session. Each program's \<open>status_update\<close> and message choice
  are modelled here, since they are the program-specific parts of the same exchange.
\<close>

record message =
  is_command :: int
  body :: string

datatype 'm event = Sent 'm | Received 'm

text \<open>\<open>strcpy\<close> and \<open>strcat\<close> into a \<open>char\<close> array of \<open>cap\<close> bytes, the terminating NUL included.\<close>

definition strcpy :: "nat \<Rightarrow> string \<Rightarrow> string option" where
  "strcpy cap s = (if length s < cap then Some s else None)"

definition strcat :: "nat \<Rightarrow> string \<Rightarrow> string \<Rightarrow> string option" where
  "strcat cap d s = (if length d + length s < cap then Some (d @ s) else None)"

text \<open>\<open>timestamp\<close> of every program: microseconds, or -1 when \<open>gettimeofday\<close> fails.\<close>

definition timestamp_usec :: "(int \<times> int) option \<Rightarrow> int" where
  "timestamp_usec tv = (case tv of Some (sec, usec) \<Rightarrow> sec * 1000000 + usec | None \<Rightarrow> - 1)"

subsection \<open>Pipes\<close>

definition pipe_messages :: "string list" where
  "pipe_messages = [''Hello I am parent'', ''LED ON'', ''LED OFF'', ''Good morning'',
     ''How are you'', ''My last message'']"

definition pipe_select :: "nat \<Rightarrow> message" where
  "pipe_select r = (let data = r mod 6 in
     \<lparr>is_command = (if data > 0 \<and> data < 3 then 1 else 0), body = pipe_messages ! data\<rparr>)"

definition child_status_update :: "int \<Rightarrow> string \<Rightarrow> message" where
  "child_status_update command msg =
     (if command = 1 then
        (if strcmp msg ''LED ON'' = 0 then \<lparr>is_command = 1, body = ''LED is now ON''\<rparr>
         else \<lparr>is_command = 1, body = ''LED is now OFF''\<rparr>)
      else \<lparr>is_command = 0, body = ''Message successfully received''\<rparr>)"

definition pipe_respond :: "message \<Rightarrow> message option" where
  "pipe_respond m = Some (child_status_update (is_command m) (body m))"

subsection \<open>Message queue\<close>

definition msgq_messages :: "string list" where
  "msgq_messages = [''Hello'', ''LED ON'', ''LED OFF'', ''Good morning'', ''Bye bye'']"

text \<open>The client copies the chosen text into \<open>char message[30]\<close>.\<close>

definition msgq_select :: "nat \<Rightarrow> message option" where
  "msgq_select r = (let data = r mod 5 in
     map_option (\<lambda>s. \<lparr>is_command = (if data > 0 \<and> data < 3 then 1 else 0), body = s\<rparr>)
       (strcpy 30 (msgq_messages ! data)))"

definition msgq_status_update :: "int \<Rightarrow> string \<Rightarrow> message option" where
  "msgq_status_update commanded msg =
     (if commanded = 1 then
        (if strcmp msg ''LED ON'' = 0
         then map_option (\<lambda>s. \<lparr>is_command = 1, body = s\<rparr>) (strcpy 30 ''LED is now ON'')
         else map_option (\<lambda>s. \<lparr>is_command = 1, body = s\<rparr>) (strcpy 30 ''LED is now OFF''))
      else
        do { d \<leftarrow> strcpy 30 ''You sent message:'';
             s \<leftarrow> strcat 30 d msg;
             Some \<lparr>is_command = 0, body = s\<rparr> })"

subsection \<open>Shared memory\<close>

definition shmem_messages :: "string list" where
  "shmem_messages = [''Hello'', ''LED ON'', ''LED OFF'', ''Good morning'', ''Bye Bye'']"

definition shmem_select :: "nat \<Rightarrow> message option" where
  "shmem_select r = (let data = r mod 5 in
     map_option (\<lambda>s. \<lparr>is_command = (if data > 0 \<and> data < 3 then 1 else 0), body = s\<rparr>)
       (strcpy 40 (shmem_messages ! data)))"

definition shmem_status_update :: "int \<Rightarrow> string \<Rightarrow> message option" where
  "shmem_status_update command msg =
     (if command = 1 then
        (if strcmp msg ''LED ON'' = 0
         then map_option (\<lambda>s. \<lparr>is_command = 1, body = s\<rparr>) (strcpy 40 ''LED is now ON'')
         else map_option (\<lambda>s. \<lparr>is_command = 1, body = s\<rparr>) (strcpy 40 ''LED is now OFF''))
      else
        do { d \<leftarrow> strcpy 40 ''You sent message:'';
             s \<leftarrow> strcat 40 d msg;
             Some \<lparr>is_command = 0, body = s\<rparr> })"

subsection \<open>Sockets\<close>

definition socket_messages :: "string list" where
  "socket_messages = [''Hello'', ''I am client'', ''LED ON'', ''LED OFF'', ''Bye bye'']"

definition socket_select :: "nat \<Rightarrow> message option" where
  "socket_select r = (let data = r mod 5 in
     map_option (\<lambda>s. \<lparr>is_command = (if data > 1 \<and> data < 4 then 1 else 0), body = s\<rparr>)
       (strcpy 50 (socket_messages ! data)))"

definition socket_status_update :: "int \<Rightarrow> string \<Rightarrow> message option" where
  "socket_status_update command msg =
     (if command = 1 then
        (if strcmp msg ''LED ON'' = 0
         then map_option (\<lambda>s. \<lparr>is_command = 1, body = s\<rparr>) (strcpy 50 ''LED is now ON'')
         else map_option (\<lambda>s. \<lparr>is_command = 1, body = s\<rparr>) (strcpy 50 ''LED is now OFF''))
      else
        do { d \<leftarrow> strcpy 50 ''You sent the message - '';
             s \<leftarrow> strcat 50 d msg;
             Some \<lparr>is_command = 0, body = s\<rparr> })"

subsection \<open>What a responder must satisfy\<close>

text \<open>
  The contract between the two sides: the requester can build every message it chooses, the
  message is flagged as a command exactly when its text names an LED command, and the responder
  answers every such message within its buffer and keeps the flag.
\<close>

locale responder =
  fixes select :: "nat \<Rightarrow> message option"
    and respond :: "message \<Rightarrow> message option"
  assumes select_total: "select r \<noteq> None"
    and select_flag: "select r = Some m \<Longrightarrow>
      is_command m = (if body m = ''LED ON'' \<or> body m = ''LED OFF'' then 1 else 0)"
    and respond_total: "select r = Some m \<Longrightarrow> respond m \<noteq> None"
    and respond_flag: "select r = Some m \<Longrightarrow> respond m = Some a \<Longrightarrow> is_command a = is_command m"
    and respond_on: "select r = Some m \<Longrightarrow> respond m = Some a \<Longrightarrow>
      (body a = ''LED is now ON'') = (body m = ''LED ON'')"
    and respond_off: "select r = Some m \<Longrightarrow> respond m = Some a \<Longrightarrow>
      (body a = ''LED is now OFF'') = (body m = ''LED OFF'')"
begin

lemma answers: "\<exists>m a. select r = Some m \<and> respond m = Some a \<and> is_command a = is_command m \<and>
    (body a = ''LED is now ON'') = (body m = ''LED ON'') \<and>
    (body a = ''LED is now OFF'') = (body m = ''LED OFF'')"
proof -
  obtain m where m: "select r = Some m" using select_total by blast
  obtain a where "respond m = Some a" using respond_total [OF m] by blast
  with m show ?thesis using respond_flag respond_on respond_off by blast
qed

definition request :: "nat \<Rightarrow> message" where
  "request r = the (select r)"

definition reply :: "message \<Rightarrow> message" where
  "reply m = the (respond m)"

lemma select_request: "select r = Some (request r)"
  using select_total by (auto simp: request_def)

lemma respond_reply: "respond (request r) = Some (reply (request r))"
  using respond_total [OF select_request] by (auto simp: reply_def)

end

lemma mod5_cases: "(r::nat) mod 5 = 0 \<or> r mod 5 = 1 \<or> r mod 5 = 2 \<or> r mod 5 = 3 \<or> r mod 5 = 4"
  by linarith

lemma mod6_cases:
  "(r::nat) mod 6 = 0 \<or> r mod 6 = 1 \<or> r mod 6 = 2 \<or> r mod 6 = 3 \<or> r mod 6 = 4 \<or> r mod 6 = 5"
  by linarith

lemmas buffer_defs = strcpy_def strcat_def

interpretation pipes: responder "\<lambda>r. Some (pipe_select r)" pipe_respond
proof unfold_locales
  fix r m assume "Some (pipe_select r) = Some m"
  then show "is_command m = (if body m = ''LED ON'' \<or> body m = ''LED OFF'' then 1 else 0)"
    using mod6_cases [of r] by (elim disjE) (auto simp: pipe_select_def pipe_messages_def)
next
  fix r m a assume "Some (pipe_select r) = Some m" "pipe_respond m = Some a"
  then show "is_command a = is_command m"
    and "(body a = ''LED is now ON'') = (body m = ''LED ON'')"
    and "(body a = ''LED is now OFF'') = (body m = ''LED OFF'')"
    using mod6_cases [of r]
    by (auto simp: pipe_select_def pipe_messages_def pipe_respond_def child_status_update_def)
qed (simp_all add: pipe_respond_def)

lemmas msgq_eval = msgq_select_def msgq_messages_def msgq_status_update_def buffer_defs

definition msgq_respond :: "message \<Rightarrow> message option" where
  "msgq_respond m = msgq_status_update (is_command m) (body m)"

interpretation msgq: responder msgq_select msgq_respond
proof unfold_locales
  fix r
  show "msgq_select r \<noteq> None"
    using mod5_cases [of r] by (elim disjE) (simp_all add: msgq_eval)
next
  fix r m assume "msgq_select r = Some m"
  then show "is_command m = (if body m = ''LED ON'' \<or> body m = ''LED OFF'' then 1 else 0)"
    and "msgq_respond m \<noteq> None"
    using mod5_cases [of r] by (elim disjE; force simp: msgq_eval msgq_respond_def)+
next
  fix r m a assume "msgq_select r = Some m" "msgq_respond m = Some a"
  then show "is_command a = is_command m"
    and "(body a = ''LED is now ON'') = (body m = ''LED ON'')"
    and "(body a = ''LED is now OFF'') = (body m = ''LED OFF'')"
    using mod5_cases [of r] by (elim disjE; force simp: msgq_eval msgq_respond_def)+
qed

lemmas shmem_eval = shmem_select_def shmem_messages_def shmem_status_update_def buffer_defs

definition shmem_respond :: "message \<Rightarrow> message option" where
  "shmem_respond m = shmem_status_update (is_command m) (body m)"

interpretation shmem: responder shmem_select shmem_respond
proof unfold_locales
  fix r
  show "shmem_select r \<noteq> None"
    using mod5_cases [of r] by (elim disjE) (simp_all add: shmem_eval)
next
  fix r m assume "shmem_select r = Some m"
  then show "is_command m = (if body m = ''LED ON'' \<or> body m = ''LED OFF'' then 1 else 0)"
    and "shmem_respond m \<noteq> None"
    using mod5_cases [of r] by (elim disjE; force simp: shmem_eval shmem_respond_def)+
next
  fix r m a assume "shmem_select r = Some m" "shmem_respond m = Some a"
  then show "is_command a = is_command m"
    and "(body a = ''LED is now ON'') = (body m = ''LED ON'')"
    and "(body a = ''LED is now OFF'') = (body m = ''LED OFF'')"
    using mod5_cases [of r] by (elim disjE; force simp: shmem_eval shmem_respond_def)+
qed

lemmas socket_eval = socket_select_def socket_messages_def socket_status_update_def buffer_defs

definition socket_respond :: "message \<Rightarrow> message option" where
  "socket_respond m = socket_status_update (is_command m) (body m)"

interpretation socket: responder socket_select socket_respond
proof unfold_locales
  fix r
  show "socket_select r \<noteq> None"
    using mod5_cases [of r] by (elim disjE) (simp_all add: socket_eval)
next
  fix r m assume "socket_select r = Some m"
  then show "is_command m = (if body m = ''LED ON'' \<or> body m = ''LED OFF'' then 1 else 0)"
    and "socket_respond m \<noteq> None"
    using mod5_cases [of r] by (elim disjE; force simp: socket_eval socket_respond_def)+
next
  fix r m a assume "socket_select r = Some m" "socket_respond m = Some a"
  then show "is_command a = is_command m"
    and "(body a = ''LED is now ON'') = (body m = ''LED ON'')"
    and "(body a = ''LED is now OFF'') = (body m = ''LED OFF'')"
    using mod5_cases [of r] by (elim disjE; force simp: socket_eval socket_respond_def)+
qed

end
