(* ===== verification/IpcDuplex.thy ===== *)
theory IpcDuplex
  imports IpcCommon
begin

text \<open>
  The pipe program (\<open>IPC_pipes.c\<close>, parent and child) and the socket pair
  (\<open>IPC_sockets_client.c\<close>, \<open>IPC_sockets_server.c\<close>): ten request/response rounds over two FIFO
  byte channels. The two processes interleave freely; a read blocks while its channel is empty.
  The reads ask for more bytes than one message has, so finding two messages in a channel would
  run past the receiving structure (pipes) or lose a message (sockets): \<open>merged\<close> records that.
  \<open>rand k\<close> is the value of the requester's k-th call of \<open>rand()\<close>.
\<close>

record duplex =
  p_i :: nat
  p_wait :: bool
  c_i :: nat
  c_got :: "message option"
  to_child :: "message list"
  to_parent :: "message list"
  p_log :: "message event list"
  c_log :: "message event list"
  merged :: bool

definition duplex_start :: duplex where
  "duplex_start = \<lparr>p_i = 0, p_wait = False, c_i = 0, c_got = None, to_child = [], to_parent = [],
     p_log = [], c_log = [], merged = False\<rparr>"

text \<open>One round of the requesting process: log and write the message, then read and log the answer.\<close>

inductive requester ::
  "(nat \<Rightarrow> message option) \<Rightarrow> (nat \<Rightarrow> nat) \<Rightarrow> duplex \<Rightarrow> duplex \<Rightarrow> bool"
  for select and rand where
  p_send: "p_i s < 10 \<Longrightarrow> \<not> p_wait s \<Longrightarrow> select (rand (p_i s)) = Some m \<Longrightarrow>
     requester select rand s
       (s\<lparr>p_wait := True, to_child := to_child s @ [m], p_log := p_log s @ [Sent m]\<rparr>)"
| p_recv: "p_wait s \<Longrightarrow> to_parent s = m # q \<Longrightarrow>
     requester select rand s
       (s\<lparr>p_wait := False, p_i := p_i s + 1, to_parent := q, p_log := p_log s @ [Received m],
          merged := merged s \<or> q \<noteq> []\<rparr>)"

text \<open>One round of the answering process: read and log, compute the answer, log and write it.\<close>

inductive responds :: "(message \<Rightarrow> message option) \<Rightarrow> duplex \<Rightarrow> duplex \<Rightarrow> bool"
  for respond where
  c_recv: "c_i s < 10 \<Longrightarrow> c_got s = None \<Longrightarrow> to_child s = m # q \<Longrightarrow>
     responds respond s
       (s\<lparr>c_got := Some m, to_child := q, c_log := c_log s @ [Received m],
          merged := merged s \<or> q \<noteq> []\<rparr>)"
| c_send: "c_got s = Some m \<Longrightarrow> respond m = Some a \<Longrightarrow>
     responds respond s
       (s\<lparr>c_got := None, c_i := c_i s + 1, to_parent := to_parent s @ [a],
          c_log := c_log s @ [Sent a]\<rparr>)"

definition duplex_step ::
  "(nat \<Rightarrow> message option) \<Rightarrow> (message \<Rightarrow> message option) \<Rightarrow> (nat \<Rightarrow> nat) \<Rightarrow>
   duplex \<Rightarrow> duplex \<Rightarrow> bool" where
  "duplex_step select respond rand s t \<longleftrightarrow> requester select rand s t \<or> responds respond s t"

inductive_cases requesterE: "requester select rand s t"
inductive_cases respondsE: "responds respond s t"

text \<open>The logs of a session of \<open>n\<close> complete rounds.\<close>

definition asker_log :: "(nat \<Rightarrow> message) \<Rightarrow> (message \<Rightarrow> message) \<Rightarrow> nat \<Rightarrow> message event list" where
  "asker_log rq rp n = concat (map (\<lambda>k. [Sent (rq k), Received (rp (rq k))]) [0..<n])"

definition answerer_log :: "(nat \<Rightarrow> message) \<Rightarrow> (message \<Rightarrow> message) \<Rightarrow> nat \<Rightarrow> message event list" where
  "answerer_log rq rp n = concat (map (\<lambda>k. [Received (rq k), Sent (rp (rq k))]) [0..<n])"

lemma asker_log_Suc: "asker_log rq rp (Suc n) = asker_log rq rp n @ [Sent (rq n), Received (rp (rq n))]"
  by (simp add: asker_log_def)

lemma answerer_log_Suc:
  "answerer_log rq rp (Suc n) = answerer_log rq rp n @ [Received (rq n), Sent (rp (rq n))]"
  by (simp add: answerer_log_def)

text \<open>
  The states a session goes through: idle before round \<open>n\<close>, then asked, taken and answered
  within it.
\<close>

datatype phase = Idle | Asked | Taken | Answered

fun snapshot :: "(nat \<Rightarrow> message) \<Rightarrow> (message \<Rightarrow> message) \<Rightarrow> nat \<Rightarrow> phase \<Rightarrow> duplex" where
  "snapshot rq rp n Idle = \<lparr>p_i = n, p_wait = False, c_i = n, c_got = None, to_child = [],
     to_parent = [], p_log = asker_log rq rp n, c_log = answerer_log rq rp n, merged = False\<rparr>"
| "snapshot rq rp n Asked = \<lparr>p_i = n, p_wait = True, c_i = n, c_got = None, to_child = [rq n],
     to_parent = [], p_log = asker_log rq rp n @ [Sent (rq n)], c_log = answerer_log rq rp n,
     merged = False\<rparr>"
| "snapshot rq rp n Taken = \<lparr>p_i = n, p_wait = True, c_i = n, c_got = Some (rq n), to_child = [],
     to_parent = [], p_log = asker_log rq rp n @ [Sent (rq n)],
     c_log = answerer_log rq rp n @ [Received (rq n)], merged = False\<rparr>"
| "snapshot rq rp n Answered = \<lparr>p_i = n, p_wait = True, c_i = n + 1, c_got = None, to_child = [],
     to_parent = [rp (rq n)], p_log = asker_log rq rp n @ [Sent (rq n)],
     c_log = answerer_log rq rp (Suc n), merged = False\<rparr>"

definition duplex_inv :: "(nat \<Rightarrow> message) \<Rightarrow> (message \<Rightarrow> message) \<Rightarrow> duplex \<Rightarrow> bool" where
  "duplex_inv rq rp s \<longleftrightarrow> (\<exists>n ph. n \<le> 10 \<and> (ph \<noteq> Idle \<longrightarrow> n < 10) \<and> s = snapshot rq rp n ph)"

definition duplex_mu :: "duplex \<Rightarrow> nat" where
  "duplex_mu s = 40 - (4 * p_i s +
     (if p_wait s then (if to_child s \<noteq> [] then 1 else if c_got s \<noteq> None then 2 else 3) else 0))"

locale duplex_session = responder +
  fixes rand :: "nat \<Rightarrow> nat"
begin

definition rq :: "nat \<Rightarrow> message" where
  "rq k = request (rand k)"

lemma select_rq: "select (rand k) = Some (rq k)"
  by (simp add: rq_def select_request)

lemma respond_rq: "respond (rq k) = Some (reply (rq k))"
  by (simp add: rq_def respond_reply)

text \<open>The only step from each state leads to the next one.\<close>

lemma step_Idle:
  "duplex_step select respond rand (snapshot rq reply n Idle) t \<longleftrightarrow>
   n < 10 \<and> t = snapshot rq reply n Asked"
  by (auto simp: duplex_step_def select_rq requester.simps responds.simps)

lemma step_Asked:
  "n < 10 \<Longrightarrow> duplex_step select respond rand (snapshot rq reply n Asked) t \<longleftrightarrow>
   t = snapshot rq reply n Taken"
  by (auto simp: duplex_step_def requester.simps responds.simps)

lemma step_Taken:
  "duplex_step select respond rand (snapshot rq reply n Taken) t \<longleftrightarrow>
   t = snapshot rq reply n Answered"
  by (auto simp: duplex_step_def respond_rq requester.simps responds.simps answerer_log_Suc)

lemma step_Answered:
  "duplex_step select respond rand (snapshot rq reply n Answered) t \<longleftrightarrow>
   t = snapshot rq reply (Suc n) Idle"
  by (auto simp: duplex_step_def requester.simps responds.simps asker_log_Suc)

lemmas steps = step_Idle step_Asked step_Taken step_Answered

lemma inv_progress:
  "duplex_inv rq reply s \<Longrightarrow> duplex_step select respond rand s t \<Longrightarrow>
   duplex_inv rq reply t \<and> duplex_mu t < duplex_mu s"
  unfolding duplex_inv_def
proof (elim exE conjE)
  fix n ph assume h: "duplex_step select respond rand s t" "n \<le> 10" "ph \<noteq> Idle \<longrightarrow> n < 10"
    "s = snapshot rq reply n ph"
  show "(\<exists>n ph. n \<le> 10 \<and> (ph \<noteq> Idle \<longrightarrow> n < 10) \<and> t = snapshot rq reply n ph) \<and>
      duplex_mu t < duplex_mu s"
  proof (cases ph)
    case Idle
    with h have "n < 10" "t = snapshot rq reply n Asked" by (simp_all only: steps)
    with h Idle show ?thesis by (auto simp: duplex_mu_def intro!: exI [of _ n] exI [of _ Asked])
  next
    case Asked
    with h(3) have n: "n < 10" by simp
    with h(1,4) Asked have "t = snapshot rq reply n Taken" by (simp only: steps)
    with h n Asked show ?thesis by (auto simp: duplex_mu_def intro!: exI [of _ n] exI [of _ Taken])
  next
    case Taken
    with h(3) have n: "n < 10" by simp
    from h(1,4) Taken have "t = snapshot rq reply n Answered" by (simp only: steps)
    with h n Taken show ?thesis
      by (auto simp: duplex_mu_def intro!: exI [of _ n] exI [of _ Answered])
  next
    case Answered
    with h(3) have n: "n < 10" by simp
    from h(1,4) Answered have "t = snapshot rq reply (Suc n) Idle" by (simp only: steps)
    with h n Answered show ?thesis
      by (auto simp: duplex_mu_def intro!: exI [of _ "Suc n"] exI [of _ Idle])
  qed
qed

end

sublocale duplex_session \<subseteq> sys: bounded_system duplex_start "duplex_step select respond rand"
    "duplex_inv rq reply" duplex_mu
proof unfold_locales
  show "duplex_inv rq reply duplex_start"
    unfolding duplex_inv_def duplex_start_def
    by (intro exI [of _ 0] exI [of _ Idle]) (simp add: asker_log_def answerer_log_def)
qed (simp_all add: inv_progress)

context duplex_session
begin

text \<open>A state with no step is the end of the session.\<close>

lemma stuck_final:
  assumes "duplex_inv rq reply s" "\<forall>t. \<not> duplex_step select respond rand s t"
  shows "s = snapshot rq reply 10 Idle"
proof -
  obtain n ph where n: "n \<le> 10" "ph \<noteq> Idle \<longrightarrow> n < 10" "s = snapshot rq reply n ph"
    using assms(1) by (auto simp: duplex_inv_def)
  show ?thesis
  proof (cases ph)
    case Idle
    with n assms(2) have "\<not> n < 10" by (auto simp del: snapshot.simps simp: steps)
    with n Idle show ?thesis by simp
  qed (use n assms(2) in \<open>auto simp del: snapshot.simps simp: steps\<close>)
qed

lemma session_outcome:
  assumes "(duplex_step select respond rand)\<^sup>*\<^sup>* duplex_start s"
  shows "\<not> merged s \<and> length (to_child s) + length (to_parent s) \<le> 1 \<and>
    (\<exists>t. (duplex_step select respond rand)\<^sup>*\<^sup>* s t \<and> p_i t = 10 \<and> c_i t = 10 \<and>
       p_log t = asker_log rq reply 10 \<and> c_log t = answerer_log rq reply 10)"
proof -
  have i: "duplex_inv rq reply s" using assms by (rule sys.reachable_inv)
  then obtain n ph where "s = snapshot rq reply n ph" by (auto simp: duplex_inv_def)
  then have "\<not> merged s \<and> length (to_child s) + length (to_parent s) \<le> 1" by (cases ph) auto
  moreover obtain t where t: "(duplex_step select respond rand)\<^sup>*\<^sup>* s t"
    "\<forall>u. \<not> duplex_step select respond rand t u"
    using sys.reachable_completes [OF assms] by blast
  moreover have "t = snapshot rq reply 10 Idle"
    using stuck_final [OF sys.inv_steps [OF t(1) i] t(2)] .
  ultimately show ?thesis by auto
qed

end

text \<open>The two programs.\<close>

definition pipes_step :: "(nat \<Rightarrow> nat) \<Rightarrow> duplex \<Rightarrow> duplex \<Rightarrow> bool" where
  "pipes_step = duplex_step (\<lambda>r. Some (pipe_select r)) pipe_respond"

definition socket_client :: "(nat \<Rightarrow> nat) \<Rightarrow> duplex \<Rightarrow> duplex \<Rightarrow> bool" where
  "socket_client = requester socket_select"

definition socket_server :: "duplex \<Rightarrow> duplex \<Rightarrow> bool" where
  "socket_server = responds socket_respond"

interpretation pipes: duplex_session "\<lambda>r. Some (pipe_select r)" pipe_respond rand for rand
  by unfold_locales

interpretation socket: duplex_session socket_select socket_respond rand for rand
  by unfold_locales

lemma pipes_rq: "pipes.rq rand = (\<lambda>k. pipe_select (rand k))"
  by (simp add: fun_eq_iff pipes.rq_def pipes.request_def)

lemma pipes_reply: "pipes.reply = (\<lambda>m. child_status_update (is_command m) (body m))"
  by (simp add: fun_eq_iff pipes.reply_def pipe_respond_def)

lemma socket_rq: "socket.rq rand = (\<lambda>k. the (socket_select (rand k)))"
  by (simp add: fun_eq_iff socket.rq_def socket.request_def)

lemma socket_reply: "socket.reply = (\<lambda>m. the (socket_status_update (is_command m) (body m)))"
  by (simp add: fun_eq_iff socket.reply_def socket_respond_def)

subsection \<open>Properties\<close>

text \<open>
  C5. Pipes: however parent and child interleave and whatever \<open>rand\<close> returns, no read ever finds
  more than one message (so the 30-byte read into the 16-byte response never overruns it), at most
  one message is in flight, and the session can always run to its end, where the two logs show ten
  requests, each answered by \<open>child_status_update\<close> of that request.
\<close>

theorem pipes_session:
  assumes "(pipes_step rand)\<^sup>*\<^sup>* duplex_start s"
  shows "\<not> merged s \<and> length (to_child s) + length (to_parent s) \<le> 1 \<and>
    (\<exists>t. (pipes_step rand)\<^sup>*\<^sup>* s t \<and> p_i t = 10 \<and> c_i t = 10 \<and>
       p_log t = asker_log (\<lambda>k. pipe_select (rand k))
         (\<lambda>m. child_status_update (is_command m) (body m)) 10 \<and>
       c_log t = answerer_log (\<lambda>k. pipe_select (rand k))
         (\<lambda>m. child_status_update (is_command m) (body m)) 10)"
  using pipes.session_outcome [where rand = rand and s = s] assms
  by (simp add: pipes_step_def pipes_rq pipes_reply)

theorem pipes_session_witness:
  "\<exists>t. (pipes_step (\<lambda>_. 1))\<^sup>*\<^sup>* duplex_start t \<and> p_i t = 10 \<and> c_i t = 10"
  using pipes_session [of "\<lambda>_. 1" duplex_start] by blast

text \<open>
  Pipes: every run of the two processes is finite; no interleaving takes more than 40 steps.
\<close>

theorem pipes_terminate: "(pipes_step rand ^^ n) duplex_start s \<Longrightarrow> n \<le> 40"
  using pipes.sys.run_bounded [where rand = rand and n = n and s = s]
  by (simp add: pipes_step_def duplex_start_def duplex_mu_def)

theorem pipes_terminate_witness:
  "\<exists>s. (pipes_step (\<lambda>_. 0) ^^ 1) duplex_start s \<and> (1::nat) \<le> 40"
proof -
  have "pipes_step (\<lambda>_. 0) duplex_start (duplex_start\<lparr>p_wait := True,
      to_child := to_child duplex_start @ [pipe_select 0],
      p_log := p_log duplex_start @ [Sent (pipe_select 0)]\<rparr>)"
    unfolding pipes_step_def duplex_step_def
    by (rule disjI1, rule p_send) (simp_all add: duplex_start_def)
  then obtain s where s: "(pipes_step (\<lambda>_. 0) ^^ 1) duplex_start s" by auto
  with pipes_terminate [OF s] show ?thesis by blast
qed

text \<open>
  Sockets: the same for client and server over the stream socket: no read ever merges two
  messages, and a session always completes with ten requests, each answered by the server's
  \<open>status_update\<close> of that request.
\<close>

theorem socket_session:
  assumes "(\<lambda>s t. socket_client rand s t \<or> socket_server s t)\<^sup>*\<^sup>* duplex_start s"
  shows "\<not> merged s \<and> length (to_child s) + length (to_parent s) \<le> 1 \<and>
    (\<exists>t. (\<lambda>s t. socket_client rand s t \<or> socket_server s t)\<^sup>*\<^sup>* s t \<and> p_i t = 10 \<and> c_i t = 10 \<and>
       p_log t = asker_log (\<lambda>k. the (socket_select (rand k)))
         (\<lambda>m. the (socket_status_update (is_command m) (body m))) 10 \<and>
       c_log t = answerer_log (\<lambda>k. the (socket_select (rand k)))
         (\<lambda>m. the (socket_status_update (is_command m) (body m))) 10)"
proof -
  have e: "(\<lambda>s t. socket_client rand s t \<or> socket_server s t) =
      duplex_step socket_select socket_respond rand"
    by (simp add: fun_eq_iff socket_client_def socket_server_def duplex_step_def)
  show ?thesis
    using socket.session_outcome [where rand = rand and s = s] assms unfolding e by (simp add: socket_rq socket_reply)
qed

theorem socket_session_witness:
  "\<exists>t. (\<lambda>s t. socket_client (\<lambda>_. 2) s t \<or> socket_server s t)\<^sup>*\<^sup>* duplex_start t \<and>
     p_i t = 10 \<and> c_i t = 10"
  using socket_session [of "\<lambda>_. 2" duplex_start] by blast

end
