(* ===== verification/IpcMsgq.thy ===== *)
theory IpcMsgq
  imports IpcCommon
begin

text \<open>
  The message-queue pair (\<open>IPC_msg_p1.c\<close> the client, \<open>IPC_msg_p2.c\<close> the server). Both directions
  go through the one POSIX queue \<open>/my_queue\<close> of eight messages, all of priority 0, so it is one
  FIFO from which each process can also take back what it has put in. A receive blocks on the
  empty queue and a send on the full one. \<open>overrun\<close> records that the server's \<open>status_update\<close>
  wrote past the 30 bytes of its response; no step of the server is modelled after that.
\<close>

record msgq_state =
  c_i :: nat
  c_wait :: bool
  s_i :: nat
  s_got :: "message option"
  queue :: "message list"
  c_log :: "message event list"
  s_log :: "message event list"
  overrun :: bool

definition msgq_start :: msgq_state where
  "msgq_start = \<lparr>c_i = 0, c_wait = False, s_i = 0, s_got = None, queue = [], c_log = [],
     s_log = [], overrun = False\<rparr>"

inductive msgq_client :: "(nat \<Rightarrow> nat) \<Rightarrow> msgq_state \<Rightarrow> msgq_state \<Rightarrow> bool" for rand where
  client_send: "c_i s < 10 \<Longrightarrow> \<not> c_wait s \<Longrightarrow> msgq_select (rand (c_i s)) = Some m \<Longrightarrow>
     length (queue s) < 8 \<Longrightarrow>
     msgq_client rand s
       (s\<lparr>c_wait := True, queue := queue s @ [m], c_log := c_log s @ [Sent m]\<rparr>)"
| client_receive: "c_wait s \<Longrightarrow> queue s = m # q \<Longrightarrow>
     msgq_client rand s
       (s\<lparr>c_wait := False, c_i := c_i s + 1, queue := q, c_log := c_log s @ [Received m]\<rparr>)"

inductive msgq_server :: "msgq_state \<Rightarrow> msgq_state \<Rightarrow> bool" where
  server_receive: "s_i s < 10 \<Longrightarrow> s_got s = None \<Longrightarrow> queue s = m # q \<Longrightarrow> \<not> overrun s \<Longrightarrow>
     msgq_server s (s\<lparr>s_got := Some m, queue := q, s_log := s_log s @ [Received m]\<rparr>)"
| server_send: "s_got s = Some m \<Longrightarrow> msgq_status_update (is_command m) (body m) = Some a \<Longrightarrow>
     length (queue s) < 8 \<Longrightarrow>
     msgq_server s
       (s\<lparr>s_got := None, s_i := s_i s + 1, queue := queue s @ [a], s_log := s_log s @ [Sent a]\<rparr>)"
| server_overrun: "s_got s = Some m \<Longrightarrow> msgq_status_update (is_command m) (body m) = None \<Longrightarrow>
     \<not> overrun s \<Longrightarrow> msgq_server s (s\<lparr>overrun := True\<rparr>)"

definition msgq_step :: "(nat \<Rightarrow> nat) \<Rightarrow> msgq_state \<Rightarrow> msgq_state \<Rightarrow> bool" where
  "msgq_step rand s t \<longleftrightarrow> msgq_client rand s t \<or> msgq_server s t"

inductive_cases msgq_clientE: "msgq_client rand s t"
inductive_cases msgq_serverE: "msgq_server s t"

text \<open>
  One message exists exactly while the client waits: in the queue, or taken by the server.
\<close>

definition msgq_inv :: "msgq_state \<Rightarrow> bool" where
  "msgq_inv s \<longleftrightarrow>
     length (queue s) + (if s_got s = None then 0 else 1) = (if c_wait s then 1 else (0::nat)) \<and>
     c_i s + (if c_wait s then 1 else 0) \<le> 10 \<and>
     s_i s + (if s_got s = None then 0 else 1) \<le> 10 \<and>
     (overrun s \<longrightarrow> (\<exists>m. s_got s = Some m \<and> msgq_status_update (is_command m) (body m) = None))"

definition msgq_mu :: "msgq_state \<Rightarrow> nat" where
  "msgq_mu s = (20 - (2 * c_i s + (if c_wait s then 1 else 0))) +
     (20 - (2 * s_i s + (if s_got s = None then 0 else 1))) + (if overrun s then 0 else 1)"

lemma msgq_progress:
  assumes "msgq_inv s" "msgq_step rand s t"
  shows "msgq_inv t \<and> msgq_mu t < msgq_mu s"
  using assms(2) unfolding msgq_step_def
proof
  assume "msgq_client rand s t"
  then show ?thesis using assms(1)
    by (cases rule: msgq_client.cases) (auto simp: msgq_inv_def msgq_mu_def split: if_splits)
next
  assume "msgq_server s t"
  then show ?thesis using assms(1)
    by (cases rule: msgq_server.cases) (auto simp: msgq_inv_def msgq_mu_def split: if_splits)
qed

interpretation msgq_sys: bounded_system msgq_start "msgq_step rand" msgq_inv msgq_mu for rand
  by unfold_locales (simp_all add: msgq_progress, simp add: msgq_start_def msgq_inv_def)

lemma msgq_stuck:
  assumes "msgq_inv s" "\<forall>t. \<not> msgq_step rand s t"
  shows "overrun s \<or> c_i s = 10"
proof (rule ccontr)
  assume h: "\<not> (overrun s \<or> c_i s = 10)"
  obtain m where m: "msgq_select (rand (c_i s)) = Some m"
    using msgq.select_request by blast
  show False
  proof (cases "c_wait s")
    case False
    then have "\<exists>t. msgq_client rand s t"
      using client_send [of s rand m] m h assms(1) by (auto simp: msgq_inv_def split: if_splits)
    with assms(2) show False by (auto simp: msgq_step_def)
  next
    case True
    have "\<exists>t. msgq_client rand s t \<or> msgq_server s t"
    proof (cases "s_got s")
      case None
      with True assms(1) obtain a q where "queue s = a # q"
        by (cases "queue s") (auto simp: msgq_inv_def)
      with True show ?thesis using client_receive [of s a q rand] by blast
    next
      case (Some a)
      with True assms(1) have "queue s = []" by (auto simp: msgq_inv_def)
      with Some h show ?thesis
        using server_send [of s a] server_overrun [of s a]
        by (cases "msgq_status_update (is_command a) (body a)") auto
    qed
    with assms(2) show False by (auto simp: msgq_step_def)
  qed
qed

text \<open>Exactly which texts the server can acknowledge in its 30-byte response.\<close>

lemma msgq_ack_fits: "msgq_status_update 0 t = None \<longleftrightarrow> 13 \<le> length t"
  by (auto simp: msgq_status_update_def buffer_defs split: Option.bind_splits)

text \<open>The two runs in which the processes meet their own messages.\<close>

definition stale_session :: "(nat \<Rightarrow> nat) \<Rightarrow> nat \<Rightarrow> msgq_state" where
  "stale_session rand n = msgq_start\<lparr>c_i := n,
     c_log := concat (map (\<lambda>k. [Sent (the (msgq_select (rand k))),
       Received (the (msgq_select (rand k)))]) [0..<n])\<rparr>"

lemma stale_reachable: "n \<le> 10 \<Longrightarrow> (msgq_step rand)\<^sup>*\<^sup>* msgq_start (stale_session rand n)"
proof (induction n)
  case 0
  have "stale_session rand 0 = msgq_start" by (simp add: stale_session_def msgq_start_def)
  then show ?case by simp
next
  case (Suc n)
  let ?s = "stale_session rand n"
  define m where "m = the (msgq_select (rand n))"
  have m: "msgq_select (rand n) = Some m"
    using msgq.select_request by (auto simp: m_def)
  let ?t = "?s\<lparr>c_wait := True, queue := queue ?s @ [m], c_log := c_log ?s @ [Sent m]\<rparr>"
  have a: "msgq_step rand ?s ?t" unfolding msgq_step_def
    by (rule disjI1, rule client_send)
      (use Suc.prems m in \<open>simp_all add: stale_session_def msgq_start_def\<close>)
  have "msgq_step rand ?t (?t\<lparr>c_wait := False, c_i := c_i ?t + 1, queue := [],
      c_log := c_log ?t @ [Received m]\<rparr>)"
    unfolding msgq_step_def
    by (rule disjI1, rule client_receive) (simp_all add: stale_session_def msgq_start_def)
  also have "?t\<lparr>c_wait := False, c_i := c_i ?t + 1, queue := [], c_log := c_log ?t @ [Received m]\<rparr>
      = stale_session rand (Suc n)"
    by (simp add: stale_session_def msgq_start_def m_def)
  finally have b: "msgq_step rand ?t (stale_session rand (Suc n))" .
  from Suc have "(msgq_step rand)\<^sup>*\<^sup>* msgq_start ?s" by simp
  from rtranclp.rtrancl_into_rtrancl [OF this a] b show ?case
    by (rule rtranclp.rtrancl_into_rtrancl)
qed

subsection \<open>Properties\<close>

text \<open>
  C6. Message queue: in every interleaving at most one message exists, so the eight-place queue is
  never full and no send blocks; a run has at most 41 steps; and whenever it stops the client has
  finished its ten rounds, or the server has overrun its response buffer.
\<close>

theorem msgq_occupancy:
  assumes "(msgq_step rand ^^ n) msgq_start s"
  shows "length (queue s) \<le> 1 \<and> n \<le> 41 \<and>
    ((\<forall>t. \<not> msgq_step rand s t) \<longrightarrow> overrun s \<or> c_i s = 10)"
proof -
  have "(msgq_step rand)\<^sup>*\<^sup>* msgq_start s" using assms by (metis rtranclp_power)
  then have i: "msgq_inv s" by (rule msgq_sys.reachable_inv)
  then have "length (queue s) \<le> 1" by (auto simp: msgq_inv_def split: if_splits)
  moreover have "n \<le> 41"
    using msgq_sys.run_bounded [OF assms] by (simp add: msgq_mu_def msgq_start_def)
  ultimately show ?thesis using msgq_stuck [OF i] by blast
qed

theorem msgq_occupancy_witness:
  "\<exists>s. (msgq_step (\<lambda>_. 0) ^^ 1) msgq_start s \<and> length (queue s) \<le> 1"
proof -
  have "\<exists>s. msgq_step (\<lambda>_. 0) msgq_start s"
    unfolding msgq_step_def
    using client_send [of msgq_start "\<lambda>_. 0" "the (msgq_select 0)"]
    by (auto simp: msgq_start_def msgq_eval)
  then obtain s where s: "(msgq_step (\<lambda>_. 0) ^^ 1) msgq_start s" by auto
  with msgq_occupancy [OF s] show ?thesis by blast
qed

text \<open>
  Message queue, the shared direction: whatever \<open>rand\<close> returns there is a run in which the
  client takes each of its own ten requests back and logs it as the server's answer, after which
  no step is possible and the server waits forever without having received anything.
\<close>

theorem msgq_client_answers_itself:
  "\<exists>s. (msgq_step rand)\<^sup>*\<^sup>* msgq_start s \<and> c_i s = 10 \<and> s_i s = 0 \<and> s_log s = [] \<and>
     c_log s = concat (map (\<lambda>k. [Sent (the (msgq_select (rand k))),
       Received (the (msgq_select (rand k)))]) [0..<10]) \<and>
     (\<forall>t. \<not> msgq_step rand s t)"
proof (intro exI conjI)
  show "(msgq_step rand)\<^sup>*\<^sup>* msgq_start (stale_session rand 10)" by (rule stale_reachable) simp
  show "\<forall>t. \<not> msgq_step rand (stale_session rand 10) t"
    by (auto simp: msgq_step_def stale_session_def msgq_start_def
        elim!: msgq_clientE msgq_serverE)
qed (simp_all add: stale_session_def msgq_start_def)

text \<open>
  Message queue, the server's side of it: when the first request is not a command, the server
  can take its own acknowledgement back, and acknowledging that text again needs more than the 30
  bytes of its response, so the buffer is overrun.
\<close>

theorem msgq_server_overruns:
  assumes "rand 0 mod 5 = 0 \<or> rand 0 mod 5 = 3 \<or> rand 0 mod 5 = 4"
  shows "\<exists>s. (msgq_step rand)\<^sup>*\<^sup>* msgq_start s \<and> overrun s"
proof -
  define m where "m = the (msgq_select (rand 0))"
  have m: "msgq_select (rand 0) = Some m" "is_command m = 0" "length (body m) < 13"
    using assms by (auto simp: m_def msgq_eval)
  define a where "a = \<lparr>is_command = 0, body = ''You sent message:'' @ body m\<rparr>"
  have a: "msgq_status_update (is_command m) (body m) = Some a"
    using m(2,3) by (simp add: msgq_status_update_def buffer_defs a_def)
  have full: "msgq_status_update (is_command a) (body a) = None"
    by (simp add: a_def msgq_ack_fits)
  let ?s1 = "msgq_start\<lparr>c_wait := True, queue := [m], c_log := [Sent m]\<rparr>"
  let ?s2 = "?s1\<lparr>s_got := Some m, queue := [], s_log := [Received m]\<rparr>"
  let ?s3 = "?s2\<lparr>s_got := None, s_i := 1, queue := [a], s_log := [Received m, Sent a]\<rparr>"
  let ?s4 = "?s3\<lparr>s_got := Some a, queue := [], s_log := [Received m, Sent a, Received a]\<rparr>"
  have 1: "msgq_step rand msgq_start ?s1"
    using client_send [of msgq_start rand m] m(1) by (simp add: msgq_step_def msgq_start_def)
  have 2: "msgq_step rand ?s1 ?s2"
    using server_receive [of ?s1 m "[]"] by (simp add: msgq_step_def msgq_start_def)
  have 3: "msgq_step rand ?s2 ?s3"
    using server_send [of ?s2 m a] a by (simp add: msgq_step_def msgq_start_def)
  have 4: "msgq_step rand ?s3 ?s4"
    using server_receive [of ?s3 a "[]"] by (simp add: msgq_step_def msgq_start_def)
  have 5: "msgq_step rand ?s4 (?s4\<lparr>overrun := True\<rparr>)"
    using server_overrun [of ?s4 a] full by (simp add: msgq_step_def msgq_start_def)
  have "(msgq_step rand)\<^sup>*\<^sup>* msgq_start (?s4\<lparr>overrun := True\<rparr>)"
    by (rule converse_rtranclp_into_rtranclp [of "msgq_step rand", OF 1], rule converse_rtranclp_into_rtranclp [of "msgq_step rand", OF 2],
        rule converse_rtranclp_into_rtranclp [of "msgq_step rand", OF 3], rule converse_rtranclp_into_rtranclp [of "msgq_step rand", OF 4],
        rule r_into_rtranclp [of "msgq_step rand", OF 5])
  moreover have "overrun (?s4\<lparr>overrun := True\<rparr>)" by (simp add: msgq_start_def)
  ultimately show ?thesis by blast
qed

theorem msgq_server_overruns_witness:
  "\<exists>s. (msgq_step (\<lambda>_. 5))\<^sup>*\<^sup>* msgq_start s \<and> overrun s"
  by (rule msgq_server_overruns) simp

end
