(* ===== verification/IpcShmem.thy ===== *)
theory IpcShmem
  imports IpcCommon
begin

text \<open>
  The shared-memory pair (\<open>IPC_shmem_p1.c\<close>, \<open>IPC_shmem_p2.c\<close>): one cell of shared memory and two
  counting semaphores, both created with value 0. Each access to the cell and each semaphore
  operation is a step of its own, so the two processes interleave between them. Process 1 is at
  \<open>pc1\<close> 0 before it writes a request into the cell, 1 before \<open>sem_post(sem1)\<close>, 2 before
  \<open>sem_wait(sem2)\<close>, 3 before it copies the answer out; process 2 at \<open>pc2\<close> 0 before
  \<open>sem_wait(sem1)\<close>, 1 before it copies the request out, 2 before it writes the answer, 3 before
  \<open>sem_post(sem2)\<close>.
\<close>

record shmem_state =
  i1 :: nat
  pc1 :: nat
  i2 :: nat
  pc2 :: nat
  taken :: "message option"
  cell :: "message option"
  sem1 :: nat
  sem2 :: nat
  log1 :: "message event list"
  log2 :: "message event list"

definition shmem_start :: shmem_state where
  "shmem_start = \<lparr>i1 = 0, pc1 = 0, i2 = 0, pc2 = 0, taken = None, cell = None, sem1 = 0, sem2 = 0,
     log1 = [], log2 = []\<rparr>"

inductive shmem_p1 :: "(nat \<Rightarrow> nat) \<Rightarrow> shmem_state \<Rightarrow> shmem_state \<Rightarrow> bool" for rand where
  p1_write: "i1 s < 10 \<Longrightarrow> pc1 s = 0 \<Longrightarrow> shmem_select (rand (i1 s)) = Some m \<Longrightarrow>
     shmem_p1 rand s (s\<lparr>pc1 := 1, cell := Some m, log1 := log1 s @ [Sent m]\<rparr>)"
| p1_post: "i1 s < 10 \<Longrightarrow> pc1 s = 1 \<Longrightarrow> shmem_p1 rand s (s\<lparr>pc1 := 2, sem1 := sem1 s + 1\<rparr>)"
| p1_wait: "i1 s < 10 \<Longrightarrow> pc1 s = 2 \<Longrightarrow> 0 < sem2 s \<Longrightarrow>
     shmem_p1 rand s (s\<lparr>pc1 := 3, sem2 := sem2 s - 1\<rparr>)"
| p1_read: "i1 s < 10 \<Longrightarrow> pc1 s = 3 \<Longrightarrow> cell s = Some m \<Longrightarrow>
     shmem_p1 rand s (s\<lparr>pc1 := 0, i1 := i1 s + 1, log1 := log1 s @ [Received m]\<rparr>)"

inductive shmem_p2 :: "shmem_state \<Rightarrow> shmem_state \<Rightarrow> bool" where
  p2_wait: "i2 s < 10 \<Longrightarrow> pc2 s = 0 \<Longrightarrow> 0 < sem1 s \<Longrightarrow>
     shmem_p2 s (s\<lparr>pc2 := 1, sem1 := sem1 s - 1\<rparr>)"
| p2_read: "i2 s < 10 \<Longrightarrow> pc2 s = 1 \<Longrightarrow> cell s = Some m \<Longrightarrow>
     shmem_p2 s (s\<lparr>pc2 := 2, taken := Some m, log2 := log2 s @ [Received m]\<rparr>)"
| p2_write: "i2 s < 10 \<Longrightarrow> pc2 s = 2 \<Longrightarrow> taken s = Some m \<Longrightarrow>
     shmem_status_update (is_command m) (body m) = Some a \<Longrightarrow>
     shmem_p2 s (s\<lparr>pc2 := 3, cell := Some a, log2 := log2 s @ [Sent a]\<rparr>)"
| p2_post: "i2 s < 10 \<Longrightarrow> pc2 s = 3 \<Longrightarrow>
     shmem_p2 s (s\<lparr>pc2 := 0, i2 := i2 s + 1, sem2 := sem2 s + 1\<rparr>)"

definition shmem_step :: "(nat \<Rightarrow> nat) \<Rightarrow> shmem_state \<Rightarrow> shmem_state \<Rightarrow> bool" where
  "shmem_step rand s t \<longleftrightarrow> shmem_p1 rand s t \<or> shmem_p2 s t"

text \<open>A process is about to touch the shared cell.\<close>

definition p1_at_cell :: "shmem_state \<Rightarrow> bool" where
  "p1_at_cell s \<longleftrightarrow> i1 s < 10 \<and> (pc1 s = 0 \<or> pc1 s = 3)"

definition p2_at_cell :: "shmem_state \<Rightarrow> bool" where
  "p2_at_cell s \<longleftrightarrow> pc2 s = 1 \<or> pc2 s = 2"

text \<open>
  The logs of \<open>n\<close> rounds, and the invariant: exactly one token is in the system (\<open>sem1\<close>, \<open>sem2\<close> or
  the process holding the turn), and what has been logged is the alternation of requests and
  their answers.
\<close>

definition sh_rq :: "(nat \<Rightarrow> nat) \<Rightarrow> nat \<Rightarrow> message" where
  "sh_rq rand k = the (shmem_select (rand k))"

definition sh_rp :: "(nat \<Rightarrow> nat) \<Rightarrow> nat \<Rightarrow> message" where
  "sh_rp rand k = the (shmem_respond (sh_rq rand k))"

definition log1_upto :: "(nat \<Rightarrow> nat) \<Rightarrow> nat \<Rightarrow> message event list" where
  "log1_upto rand n = concat (map (\<lambda>k. [Sent (sh_rq rand k), Received (sh_rp rand k)]) [0..<n])"

definition log2_upto :: "(nat \<Rightarrow> nat) \<Rightarrow> nat \<Rightarrow> message event list" where
  "log2_upto rand n = concat (map (\<lambda>k. [Received (sh_rq rand k), Sent (sh_rp rand k)]) [0..<n])"

lemma log_Suc [simp]:
  "log1_upto rand (Suc n) = log1_upto rand n @ [Sent (sh_rq rand n), Received (sh_rp rand n)]"
  "log2_upto rand (Suc n) = log2_upto rand n @ [Received (sh_rq rand n), Sent (sh_rp rand n)]"
  by (simp_all add: log1_upto_def log2_upto_def)

lemma log_0 [simp]: "log1_upto rand 0 = []" "log2_upto rand 0 = []"
  by (simp_all add: log1_upto_def log2_upto_def)

lemma sh_select: "shmem_select (rand k) = Some (sh_rq rand k)"
  using shmem.select_request by (simp add: sh_rq_def)

lemma sh_respond:
  "shmem_status_update (is_command (sh_rq rand k)) (body (sh_rq rand k)) = Some (sh_rp rand k)"
  using shmem.respond_reply [of "rand k"] shmem.select_request [of "rand k"]
  by (simp add: sh_rp_def sh_rq_def shmem_respond_def)

text \<open>
  The only run there is: the state of round \<open>n\<close> at each of the eight points the semaphores order.
\<close>

datatype sh_phase = Writing | Posting1 | Waking2 | Reading2 | Answering | Posting2 | Waking1 | Reading1

definition before :: "(nat \<Rightarrow> message) \<Rightarrow> nat \<Rightarrow> message option" where
  "before f n = (if n = 0 then None else Some (f (n - 1)))"

fun moment :: "(nat \<Rightarrow> nat) \<Rightarrow> nat \<Rightarrow> sh_phase \<Rightarrow> shmem_state" where
  "moment rand n Writing = \<lparr>i1 = n, pc1 = 0, i2 = n, pc2 = 0, taken = before (sh_rq rand) n,
     cell = before (sh_rp rand) n, sem1 = 0, sem2 = 0, log1 = log1_upto rand n,
     log2 = log2_upto rand n\<rparr>"
| "moment rand n Posting1 = \<lparr>i1 = n, pc1 = 1, i2 = n, pc2 = 0, taken = before (sh_rq rand) n,
     cell = Some (sh_rq rand n), sem1 = 0, sem2 = 0,
     log1 = log1_upto rand n @ [Sent (sh_rq rand n)], log2 = log2_upto rand n\<rparr>"
| "moment rand n Waking2 = \<lparr>i1 = n, pc1 = 2, i2 = n, pc2 = 0, taken = before (sh_rq rand) n,
     cell = Some (sh_rq rand n), sem1 = 1, sem2 = 0,
     log1 = log1_upto rand n @ [Sent (sh_rq rand n)], log2 = log2_upto rand n\<rparr>"
| "moment rand n Reading2 = \<lparr>i1 = n, pc1 = 2, i2 = n, pc2 = 1, taken = before (sh_rq rand) n,
     cell = Some (sh_rq rand n), sem1 = 0, sem2 = 0,
     log1 = log1_upto rand n @ [Sent (sh_rq rand n)], log2 = log2_upto rand n\<rparr>"
| "moment rand n Answering = \<lparr>i1 = n, pc1 = 2, i2 = n, pc2 = 2, taken = Some (sh_rq rand n),
     cell = Some (sh_rq rand n), sem1 = 0, sem2 = 0,
     log1 = log1_upto rand n @ [Sent (sh_rq rand n)],
     log2 = log2_upto rand n @ [Received (sh_rq rand n)]\<rparr>"
| "moment rand n Posting2 = \<lparr>i1 = n, pc1 = 2, i2 = n, pc2 = 3, taken = Some (sh_rq rand n),
     cell = Some (sh_rp rand n), sem1 = 0, sem2 = 0,
     log1 = log1_upto rand n @ [Sent (sh_rq rand n)], log2 = log2_upto rand (Suc n)\<rparr>"
| "moment rand n Waking1 = \<lparr>i1 = n, pc1 = 2, i2 = Suc n, pc2 = 0, taken = Some (sh_rq rand n),
     cell = Some (sh_rp rand n), sem1 = 0, sem2 = 1,
     log1 = log1_upto rand n @ [Sent (sh_rq rand n)], log2 = log2_upto rand (Suc n)\<rparr>"
| "moment rand n Reading1 = \<lparr>i1 = n, pc1 = 3, i2 = Suc n, pc2 = 0, taken = Some (sh_rq rand n),
     cell = Some (sh_rp rand n), sem1 = 0, sem2 = 0,
     log1 = log1_upto rand n @ [Sent (sh_rq rand n)], log2 = log2_upto rand (Suc n)\<rparr>"

fun next_moment :: "nat \<Rightarrow> sh_phase \<Rightarrow> nat \<times> sh_phase" where
  "next_moment n Writing = (n, Posting1)"
| "next_moment n Posting1 = (n, Waking2)"
| "next_moment n Waking2 = (n, Reading2)"
| "next_moment n Reading2 = (n, Answering)"
| "next_moment n Answering = (n, Posting2)"
| "next_moment n Posting2 = (n, Waking1)"
| "next_moment n Waking1 = (n, Reading1)"
| "next_moment n Reading1 = (Suc n, Writing)"

lemma moment_step:
  assumes "n < 10"
  shows "shmem_step rand (moment rand n ph) t \<longleftrightarrow>
    t = case_prod (moment rand) (next_moment n ph)"
  using assms
  by (cases ph)
    (auto simp: shmem_step_def sh_select sh_respond shmem_p1.simps shmem_p2.simps before_def)

lemma moment_end: "\<not> shmem_step rand (moment rand 10 Writing) t"
  by (simp add: shmem_step_def shmem_p1.simps shmem_p2.simps)

definition shmem_inv :: "(nat \<Rightarrow> nat) \<Rightarrow> shmem_state \<Rightarrow> bool" where
  "shmem_inv rand s \<longleftrightarrow> (\<exists>n ph. s = moment rand n ph \<and> (n < 10 \<or> n = 10 \<and> ph = Writing))"

definition shmem_mu :: "shmem_state \<Rightarrow> nat" where
  "shmem_mu s = 80 - (4 * i1 s + pc1 s + 4 * i2 s + pc2 s)"

lemma shmem_inv_cases:
  assumes "shmem_inv rand s"
  obtains n ph where "s = moment rand n ph" "n < 10" | "s = moment rand 10 Writing"
  using assms by (auto simp: shmem_inv_def)

lemma shmem_progress:
  assumes "shmem_inv rand s" "shmem_step rand s t"
  shows "shmem_inv rand t \<and> shmem_mu t < shmem_mu s"
proof (rule shmem_inv_cases [OF assms(1)])
  fix n ph assume s: "s = moment rand n ph" "n < 10"
  with assms(2) have t: "t = case_prod (moment rand) (next_moment n ph)" by (simp add: moment_step)
  have "shmem_inv rand t" unfolding shmem_inv_def t
  proof (cases ph)
    case Reading1
    have "Suc n < 10 \<or> Suc n = 10 \<and> Writing = Writing" using s(2) by auto
    with Reading1 show "\<exists>m q. case_prod (moment rand) (next_moment n ph) = moment rand m q \<and>
        (m < 10 \<or> m = 10 \<and> q = Writing)"
      by (metis next_moment.simps(8) case_prod_conv)
  qed (use s(2) in \<open>simp_all del: moment.simps, blast+\<close>)
  moreover have "shmem_mu t < shmem_mu s" unfolding t s(1)
    by (cases ph) (use s in \<open>simp_all add: shmem_mu_def\<close>)
  ultimately show ?thesis ..
qed (use assms(2) moment_end in simp)

interpretation shmem_sys: bounded_system shmem_start "shmem_step rand" "shmem_inv rand" shmem_mu
  for rand
proof unfold_locales
  show "shmem_inv rand shmem_start"
    unfolding shmem_inv_def shmem_start_def
    by (intro exI [of _ 0] exI [of _ Writing]) (simp add: before_def)
qed (simp_all add: shmem_progress)

lemma shmem_stuck:
  assumes "shmem_inv rand s" "\<forall>t. \<not> shmem_step rand s t"
  shows "s = moment rand 10 Writing"
  by (rule shmem_inv_cases [OF assms(1)]) (use assms(2) in \<open>auto simp: moment_step simp del: moment.simps\<close>)

text \<open>
  The start of both programs: what \<open>shm_open\<close>, the two \<open>sem_open\<close> calls, \<open>ftruncate\<close> and \<open>mmap\<close>
  return, the two pointers as addresses. \<open>p < 0\<close> on a pointer compares addresses, unsigned.
\<close>

datatype startup = ExitFailure string | Running

definition shmem_setup :: "int \<Rightarrow> nat \<Rightarrow> nat \<Rightarrow> int \<Rightarrow> nat \<Rightarrow> nat \<Rightarrow> startup" where
  "shmem_setup shared_mem sem1_ptr sem2_ptr trunc mmap_ptr data_rec =
     (if shared_mem < 0 then ExitFailure ''shared_mem''
      else if sem1_ptr < 0 then ExitFailure ''sem1: ''
      else if sem1_ptr < 0 then ExitFailure ''sem2: ''
      else if sem1_ptr < 0 then ExitFailure ''Truncate ''
      else if data_rec < 0 then ExitFailure ''shared memory: ''
      else Running)"

subsection \<open>Properties\<close>

text \<open>
  C4. Shared memory: in every interleaving of the two processes they are never both about to touch
  the cell, the semaphores are never above one together, at most 80 steps are taken, and when no
  step is left both have done ten rounds and their logs show each request answered by
  \<open>status_update\<close> of that request.
\<close>

theorem shmem_session:
  assumes "(shmem_step rand ^^ n) shmem_start s"
  shows "\<not> (p1_at_cell s \<and> p2_at_cell s) \<and> sem1 s + sem2 s \<le> 1 \<and> n \<le> 80 \<and>
    ((\<forall>t. \<not> shmem_step rand s t) \<longrightarrow> i1 s = 10 \<and> i2 s = 10 \<and>
       log1 s = concat (map (\<lambda>k. [Sent (the (shmem_select (rand k))),
         Received (the (shmem_respond (the (shmem_select (rand k)))))]) [0..<10]) \<and>
       log2 s = concat (map (\<lambda>k. [Received (the (shmem_select (rand k))),
         Sent (the (shmem_respond (the (shmem_select (rand k)))))]) [0..<10]))"
proof -
  have "(shmem_step rand)\<^sup>*\<^sup>* shmem_start s" using assms by (metis rtranclp_power)
  then have i: "shmem_inv rand s" by (rule shmem_sys.reachable_inv)
  then have "\<not> (p1_at_cell s \<and> p2_at_cell s) \<and> sem1 s + sem2 s \<le> 1"
  proof (rule shmem_inv_cases)
    fix m ph assume "s = moment rand m ph"
    then show ?thesis by (cases ph) (auto simp: p1_at_cell_def p2_at_cell_def)
  qed (simp add: p1_at_cell_def)
  moreover have "n \<le> 80"
    using shmem_sys.run_bounded [OF assms] by (simp add: shmem_mu_def shmem_start_def)
  moreover have "(\<forall>t. \<not> shmem_step rand s t) \<longrightarrow> s = moment rand 10 Writing"
    using shmem_stuck [OF i] by blast
  ultimately show ?thesis
    by (auto simp del: log_Suc simp: log1_upto_def log2_upto_def sh_rq_def sh_rp_def)
qed

theorem shmem_session_witness:
  "\<exists>s. (shmem_step (\<lambda>_. 1) ^^ 1) shmem_start s \<and> \<not> (p1_at_cell s \<and> p2_at_cell s)"
proof -
  have "\<exists>s. shmem_step (\<lambda>_. 1) shmem_start s"
    unfolding shmem_step_def
    using p1_write [of shmem_start "\<lambda>_. 1" "sh_rq (\<lambda>_. 1) 0"] sh_select [of "\<lambda>_. 1" 0]
    by (auto simp: shmem_start_def)
  then obtain s where s: "(shmem_step (\<lambda>_. 1) ^^ 1) shmem_start s" by auto
  with shmem_session [OF s] show ?thesis by blast
qed

text \<open>
  Shared memory, the start: once the shared object is open no other failure stops either
  program. A failed \<open>sem_open\<close> returns a null pointer, a failed \<open>ftruncate\<close> -1 and a failed \<open>mmap\<close>
  the highest address; none of the four tests, three of which test \<open>sem1\<close> and the last an
  uninitialised pointer, can be true.
\<close>

theorem shmem_setup_undetected:
  assumes "0 \<le> shared_mem"
  shows "shmem_setup shared_mem 0 0 (-1) (2 ^ 64 - 1) data_rec = Running"
  using assms by (simp add: shmem_setup_def)

theorem shmem_setup_undetected_witness:
  "shmem_setup 3 0 0 (-1) (2 ^ 64 - 1) 0 = Running"
  by (rule shmem_setup_undetected) simp

end
