(* ===== verification/IpcLifecycle.thy ===== *)
theory IpcLifecycle
  imports Prelude
begin

text \<open>
  The programs of HW4 as users of the operating system: what each opens, in which order, how it
  notices a failure, what it releases at its end and what the handler of \<open>SIGINT\<close> does wherever it
  interrupts the program. The messages exchanged in between are modelled in the theories of the
  single programs; here a round is its calls. The stream \<open>logging\<close> is null before \<open>fopen\<close>; writing to
  or closing a stream that is not open is a fault. Whether the call at each position succeeds is a
  parameter.
\<close>

subsection \<open>Calls\<close>

datatype stream = Null_stream | Open_stream | Closed_stream

text \<open>
  \<open>Get v n e\<close>: open a descriptor into the variable \<open>v\<close>, creating the object \<open>n\<close> if it has a name in the
  system; \<open>Try e\<close>: a call that only succeeds or fails. \<open>e\<close> is the code the program exits with when it
  notices the failure; \<open>None\<close> when it does not look, or looks at something else.
\<close>

datatype call =
    Sigaction | Fopen | Log | Fclose
  | Get string "string option" "int option" | Try "int option"
  | Close string | Unlink string

record os =
  stream_of :: stream
  handler_set :: bool
  open_fds :: "string set"
  names :: "string set"

datatype outcome = Goes os | Exits int os | Killed os | Fault

definition do_call :: "bool \<Rightarrow> call \<Rightarrow> os \<Rightarrow> outcome" where
  "do_call ok c s = (case c of
     Sigaction \<Rightarrow> Goes (s\<lparr>handler_set := True\<rparr>)
   | Fopen \<Rightarrow> Goes (s\<lparr>stream_of := (if ok then Open_stream else Null_stream)\<rparr>)
   | Log \<Rightarrow> if stream_of s = Open_stream then Goes s else Fault
   | Fclose \<Rightarrow> if stream_of s = Open_stream then Goes (s\<lparr>stream_of := Closed_stream\<rparr>) else Fault
   | Get v n e \<Rightarrow>
       if ok then Goes (s\<lparr>open_fds := insert v (open_fds s), names := names s \<union> set_option n\<rparr>)
       else (case e of None \<Rightarrow> Goes s | Some code \<Rightarrow> Exits code s)
   | Try e \<Rightarrow> if ok then Goes s else (case e of None \<Rightarrow> Goes s | Some code \<Rightarrow> Exits code s)
   | Close v \<Rightarrow> Goes (s\<lparr>open_fds := open_fds s - {v}\<rparr>)
   | Unlink n \<Rightarrow> Goes (s\<lparr>names := names s - {n}\<rparr>))"

fun run :: "(nat \<Rightarrow> bool) \<Rightarrow> nat \<Rightarrow> call list \<Rightarrow> os \<Rightarrow> outcome" where
  "run oks i [] s = Goes s"
| "run oks i (c # cs) s = (case do_call (oks i) c s of Goes t \<Rightarrow> run oks (Suc i) cs t | out \<Rightarrow> out)"

definition os_start :: os where
  "os_start = \<lparr>stream_of = Null_stream, handler_set = False, open_fds = {}, names = {}\<rparr>"

text \<open>\<open>SIGINT\<close> after \<open>k\<close> calls: the handler, which exits with 0, or the default action.\<close>

definition interrupted :: "(nat \<Rightarrow> bool) \<Rightarrow> call list \<Rightarrow> call list \<Rightarrow> nat \<Rightarrow> outcome" where
  "interrupted oks main handler k =
     (case run oks 0 (take k main) os_start of
        Goes s \<Rightarrow>
          if \<not> handler_set s then Killed s
          else (case run (\<lambda>_. True) 0 handler s of Goes t \<Rightarrow> Exits 0 t | out \<Rightarrow> out)
      | out \<Rightarrow> out)"

subsection \<open>The programs\<close>

definition socket_server_main :: "call list" where
  "socket_server_main =
     [Sigaction, Fopen, Log, Log, Get ''server_file'' None None, Try (Some 1), Try (Some 1), Try (Some 1),
      Get ''new_socket'' None (Some 1)] @
     concat (replicate 10 [Try None, Log, Log, Try None]) @ [Fclose, Close ''server_file'']"

definition socket_server_handler :: "call list" where
  "socket_server_handler = [Log, Fclose, Close ''server_file'']"

definition socket_client_main :: "call list" where
  "socket_client_main =
     [Sigaction, Fopen, Log, Log, Get ''sok'' None (Some (- 1)), Try (Some (- 1)), Try (Some (- 1))] @
     concat (replicate 10 [Log, Try None, Try None, Log]) @ [Fclose, Close ''sok'']"

definition socket_client_handler :: "call list" where
  "socket_client_handler = [Log, Fclose, Close ''sok'']"

abbreviation (input) queue_name :: string where "queue_name \<equiv> ''/my_queue''"

definition msgq_client_main :: "call list" where
  "msgq_client_main =
     [Sigaction, Fopen, Log, Log, Get ''myqueue'' (Some queue_name) (Some 1)] @
     concat (replicate 10 [Log, Try (Some 1), Try (Some 1), Log]) @
     [Close ''myqueue'', Unlink queue_name, Fclose]"

definition msgq_client_handler :: "call list" where
  "msgq_client_handler = [Close ''myqueue'', Unlink queue_name, Log, Fclose]"

definition msgq_server_main :: "call list" where
  "msgq_server_main =
     [Sigaction, Fopen, Log, Log, Get ''myqueue'' (Some queue_name) (Some 1)] @
     concat (replicate 10 [Try (Some 1), Log, Log, Try (Some 1)]) @
     [Close ''myqueue'', Unlink queue_name, Fclose]"

definition msgq_server_handler :: "call list" where
  "msgq_server_handler = [Close ''myqueue'', Unlink queue_name, Log, Fclose]"

abbreviation (input) SHARED_MEMORY_NAME :: string where "SHARED_MEMORY_NAME \<equiv> ''/shared_memory''"
abbreviation (input) SEMAPHORE_1 :: string where "SEMAPHORE_1 \<equiv> ''/semaphore1''"
abbreviation (input) SEMAPHORE_2 :: string where "SEMAPHORE_2 \<equiv> ''/semaphore2''"

text \<open>Of the five calls only the first is checked; the other tests compare a pointer with 0.\<close>

definition shmem_p1_main :: "call list" where
  "shmem_p1_main =
     [Sigaction, Fopen, Log, Log, Get ''shared_mem'' (Some SHARED_MEMORY_NAME) (Some 1),
      Get ''sem1'' (Some SEMAPHORE_1) None, Get ''sem2'' (Some SEMAPHORE_2) None, Try None, Try None] @
     concat (replicate 10 [Log, Try None, Try None, Log]) @
     [Close ''shared_mem'', Unlink SEMAPHORE_1, Unlink SEMAPHORE_2]"

definition shmem_p1_handler :: "call list" where
  "shmem_p1_handler = [Log, Fclose, Close ''shared_mem'', Unlink SEMAPHORE_1, Unlink SEMAPHORE_2]"

definition shmem_p2_main :: "call list" where
  "shmem_p2_main =
     [Sigaction, Fopen, Log, Log, Get ''shared_mem'' (Some SHARED_MEMORY_NAME) (Some 1),
      Get ''sem1'' (Some SEMAPHORE_1) None, Get ''sem2'' (Some SEMAPHORE_2) None, Try None, Try None] @
     concat (replicate 10 [Try None, Log, Log, Try None]) @
     [Close ''shared_mem'', Unlink SEMAPHORE_1, Unlink SEMAPHORE_2]"

definition shmem_p2_handler :: "call list" where
  "shmem_p2_handler = [Log, Fclose, Close ''shared_mem'', Unlink SEMAPHORE_1, Unlink SEMAPHORE_2]"

text \<open>The parent of the pipes up to its endless loop; the handler is shared with the child.\<close>

definition pipes_parent_main :: "call list" where
  "pipes_parent_main =
     [Get ''pipe_msg_p[0]'' None None, Get ''pipe_msg_p[1]'' None None, Get ''pipe_msg_c[0]'' None None,
      Get ''pipe_msg_c[1]'' None None, Sigaction, Fopen, Log, Try (Some 1),
      Close ''pipe_msg_p[0]'', Close ''pipe_msg_c[1]'', Log] @
     concat (replicate 10 [Log, Try None, Try None, Log]) @
     [Close ''pipe_msg_p[1]'', Close ''pipe_msg_c[0]'', Close ''pipe_msg_p[0]'', Close ''pipe_msg_c[1]'']"

definition pipes_child_main :: "call list" where
  "pipes_child_main =
     [Get ''pipe_msg_p[0]'' None None, Get ''pipe_msg_p[1]'' None None, Get ''pipe_msg_c[0]'' None None,
      Get ''pipe_msg_c[1]'' None None, Sigaction, Fopen, Log, Try (Some 1),
      Close ''pipe_msg_p[1]'', Close ''pipe_msg_c[0]'', Log] @
     concat (replicate 10 [Try None, Log, Log, Try None]) @
     [Close ''pipe_msg_p[1]'', Close ''pipe_msg_c[0]'', Close ''pipe_msg_p[0]'', Close ''pipe_msg_c[1]'']"

definition pipes_handler :: "call list" where
  "pipes_handler = [Log, Fclose, Close ''pipe_msg_p[1]'', Close ''pipe_msg_c[0]'',
     Close ''pipe_msg_p[0]'', Close ''pipe_msg_c[1]'']"

definition ipc_programs :: "(call list \<times> call list) list" where
  "ipc_programs = [(socket_server_main, socket_server_handler), (socket_client_main, socket_client_handler),
     (msgq_client_main, msgq_client_handler), (msgq_server_main, msgq_server_handler),
     (shmem_p1_main, shmem_p1_handler), (shmem_p2_main, shmem_p2_handler),
     (pipes_parent_main, pipes_handler), (pipes_child_main, pipes_handler)]"

subsection \<open>What a run leaves\<close>

fun stream_after :: "call list \<Rightarrow> stream \<Rightarrow> stream" where
  "stream_after [] l = l"
| "stream_after (Fopen # cs) l = stream_after cs Open_stream"
| "stream_after (Fclose # cs) l = stream_after cs Closed_stream"
| "stream_after (_ # cs) l = stream_after cs l"

fun created :: "call list \<Rightarrow> string set" where
  "created [] = {}"
| "created (Get v n e # cs) = set_option n \<union> created cs"
| "created (_ # cs) = created cs"

lemma run_goes:
  "run oks i cs s = Goes t \<Longrightarrow> \<forall>j < length cs. cs ! j = Fopen \<longrightarrow> oks (i + j) \<Longrightarrow>
   stream_of t = stream_after cs (stream_of s) \<and> names t \<subseteq> names s \<union> created cs \<and>
   handler_set t = (handler_set s \<or> Sigaction \<in> set cs)"
proof (induction cs arbitrary: i s)
  case (Cons c cs)
  obtain u where u: "do_call (oks i) c s = Goes u" "run oks (Suc i) cs u = Goes t"
    using Cons.prems(1) by (auto split: outcome.splits)
  have "\<forall>j < length cs. cs ! j = Fopen \<longrightarrow> oks (Suc i + j)" using Cons.prems(2) by auto
  note ih = Cons.IH [OF u(2) this]
  have ok: "c = Fopen \<Longrightarrow> oks i" using Cons.prems(2) by auto
  show ?case using u(1) ih ok
    by (cases c) (auto simp: do_call_def split: if_splits option.splits)
qed simp

text \<open>Opened once, and closed at most afterwards.\<close>

lemma stream_opened:
  "Fopen \<notin> set cs \<Longrightarrow> l \<noteq> Null_stream \<Longrightarrow>
   stream_after cs l = (if Fclose \<in> set cs then Closed_stream else l)"
proof (induction cs arbitrary: l)
  case (Cons c cs)
  then show ?case by (cases c) auto
qed simp

lemma stream_unopened:
  "Fopen \<notin> set cs \<Longrightarrow> Fclose \<notin> set cs \<Longrightarrow> stream_after cs l = l"
proof (induction cs arbitrary: l)
  case (Cons c cs)
  then show ?case by (cases c) auto
qed simp

lemma stream_after_append: "stream_after (a @ b) l = stream_after b (stream_after a l)"
  by (induction a l rule: stream_after.induct) simp_all

definition opens_once :: "call list \<Rightarrow> bool" where
  "opens_once cs \<longleftrightarrow> (let a = takeWhile (\<lambda>c. c \<noteq> Fopen) cs; b = drop (length a + 1) cs in
     cs = a @ Fopen # b \<and> Fclose \<notin> set a \<and> Fopen \<notin> set b)"

lemma stream_at:
  assumes "opens_once cs"
  shows "stream_after (take k cs) Null_stream =
    (if Fopen \<notin> set (take k cs) then Null_stream
     else if Fclose \<in> set (take k cs) then Closed_stream else Open_stream)"
proof -
  obtain a b where ab: "cs = a @ Fopen # b" "Fopen \<notin> set a" "Fclose \<notin> set a" "Fopen \<notin> set b"
    using assms set_takeWhileD unfolding opens_once_def Let_def by metis
  show ?thesis
  proof (cases "k \<le> length a")
    case True
    then have "take k cs = take k a" using ab(1) by simp
    then show ?thesis using ab(2,3) stream_unopened [of "take k a"] by (auto dest: in_set_takeD)
  next
    case False
    then obtain m where "k = length a + Suc m" by (metis less_imp_Suc_add not_le add_Suc_right)
    then have t: "take k cs = a @ Fopen # take m b" using ab(1) by simp
    have "Fopen \<notin> set (take m b)" using ab(4) by (auto dest: in_set_takeD)
    then show ?thesis
      using stream_opened [of "take m b" Open_stream] stream_unopened [OF ab(2,3)] ab(3)
      unfolding t by (simp add: stream_after_append)
  qed
qed

lemma created_take: "created (take k cs) \<subseteq> created cs"
proof (induction cs arbitrary: k)
  case (Cons c cs)
  then show ?case by (cases k; cases c) fastforce+
qed simp

text \<open>Releasing descriptors and names never fails.\<close>

fun unlinked :: "call list \<Rightarrow> string set" where
  "unlinked [] = {}"
| "unlinked (Unlink n # cs) = insert n (unlinked cs)"
| "unlinked (_ # cs) = unlinked cs"

fun closed :: "call list \<Rightarrow> string set" where
  "closed [] = {}"
| "closed (Close v # cs) = insert v (closed cs)"
| "closed (_ # cs) = closed cs"

definition cleanup :: "call list \<Rightarrow> bool" where
  "cleanup cs \<longleftrightarrow> list_all (\<lambda>c. case c of Close v \<Rightarrow> True | Unlink n \<Rightarrow> True | _ \<Rightarrow> False) cs"

lemma cleanup_append: "closed (a @ b) = closed a \<union> closed b" "unlinked (a @ b) = unlinked a \<union> unlinked b"
proof -
  show "closed (a @ b) = closed a \<union> closed b" by (induction a rule: closed.induct) simp_all
  show "unlinked (a @ b) = unlinked a \<union> unlinked b" by (induction a rule: unlinked.induct) simp_all
qed

lemma run_cleanup:
  "cleanup cs \<Longrightarrow> run oks i cs s = Goes (s\<lparr>open_fds := open_fds s - closed cs, names := names s - unlinked cs\<rparr>)"
proof (induction cs arbitrary: i s)
  case (Cons c cs)
  have d: "A - {x} - B = A - insert x B" for A B and x :: string by auto
  show ?case using Cons by (cases c) (simp_all add: cleanup_def do_call_def d)
qed simp

lemma run_append:
  "run oks i (a @ b) s = (case run oks i a s of Goes t \<Rightarrow> run oks (i + length a) b t | out \<Rightarrow> out)"
  by (induction a arbitrary: i s) (auto split: outcome.split)

text \<open>All handlers write one line, close the log and release, in some order.\<close>

definition handler_shape :: "call list \<Rightarrow> bool" where
  "handler_shape h \<longleftrightarrow> (let a = takeWhile (\<lambda>c. c \<noteq> Log) h; b = drop (length a + 2) h in
     h = a @ Log # Fclose # b \<and> cleanup a \<and> cleanup b)"

definition released :: "call list \<Rightarrow> os \<Rightarrow> os" where
  "released h s = s\<lparr>stream_of := Closed_stream, open_fds := open_fds s - closed h, names := names s - unlinked h\<rparr>"

lemma run_handler:
  assumes "handler_shape h"
  shows "run oks i h s = (if stream_of s = Open_stream then Goes (released h s) else Fault)"
proof -
  obtain a b where h: "h = a @ Log # Fclose # b" "cleanup a" "cleanup b"
    using assms by (auto simp: handler_shape_def Let_def)
  have "A - (X \<union> Y) = A - X - Y" for A X Y :: "string set" by auto
  then show ?thesis
    unfolding h(1) run_append run_cleanup [OF h(2)]
    by (simp add: do_call_def run_cleanup [OF h(3)] released_def cleanup_append)
qed

lemma programs_shape:
  "list_all (\<lambda>(main, h). handler_shape h \<and> opens_once main \<and>
     created main \<subseteq> insert SHARED_MEMORY_NAME (unlinked h)) ipc_programs"
  by code_simp

subsection \<open>Properties\<close>



text \<open>
  What is left by the ends that the programs choose themselves: a failed \<open>mq_send\<close> leaves the queue
  in the system with the log open, and the programs with shared memory never remove its name.
\<close>

lemma msgq_error_leaves_queue:
  "\<exists>s. run (\<lambda>j. j \<noteq> 6) 0 msgq_client_main os_start = Exits 1 s \<and> names s = {queue_name} \<and>
     stream_of s = Open_stream"
  by (simp add: msgq_client_main_def do_call_def os_start_def numeral_eq_Suc)

lemma shmem_name_stays:
  "\<exists>s. run (\<lambda>j. True) 0 shmem_p2_main os_start = Goes s \<and> names s = {SHARED_MEMORY_NAME} \<and>
     stream_of s = Open_stream"
  by (simp add: shmem_p2_main_def do_call_def os_start_def numeral_eq_Suc) auto

end
