(* ===== verification/UartStdio.thy ===== *)
theory UartStdio
  imports Prelude
begin

text \<open>
  \<open>utils/uartstdio.c\<close> as the application builds it (\<open>UART_BUFFERED\<close> not defined): \<open>UARTwrite\<close>,
  \<open>UARTgets\<close>, \<open>UARTgetc\<close> and the formatter \<open>UARTvprintf\<close>. What goes out on the line is a string,
  what comes in a list of characters; a call that waits for more input, reads past a string or
  writes past its buffer is \<open>None\<close>. Format strings and \<open>%s\<close> arguments are given without their
  terminating NUL.
\<close>

abbreviation LF :: char where "LF \<equiv> CHR 0x0A"
abbreviation CR :: char where "CR \<equiv> CHR 0x0D"
abbreviation ESC :: char where "ESC \<equiv> CHR 0x1B"
abbreviation BS :: char where "BS \<equiv> CHR 0x08"

subsection \<open>Writing\<close>

text \<open>The loop of \<open>UARTwrite\<close>, one \<open>UARTCharPut\<close> per character and one more before a newline.\<close>

fun put_chars :: "string \<Rightarrow> string" where
  "put_chars [] = []"
| "put_chars (c # cs) = (if c = LF then [CR] else []) @ c # put_chars cs"

definition UARTwrite :: "string \<Rightarrow> nat \<Rightarrow> (string \<times> nat) option" where
  "UARTwrite pcBuf ui32Len =
     (if ui32Len \<le> length pcBuf then Some (put_chars (take ui32Len pcBuf), ui32Len) else None)"

lemma put_chars_append [simp]: "put_chars (xs @ ys) = put_chars xs @ put_chars ys"
  by (induction xs) auto

lemma put_chars_id: "LF \<notin> set s \<Longrightarrow> put_chars s = s"
  by (induction s) auto

subsection \<open>Reading a line\<close>

text \<open>
  The loop of \<open>UARTgets\<close>. \<open>cs\<close> is the input still to come, \<open>line\<close> the characters stored so far
  (\<open>ui32Count\<close> is its length), \<open>out\<close> what has been echoed, \<open>cr\<close> the static \<open>bLastWasCR\<close>.
\<close>

fun gets_loop ::
  "string \<Rightarrow> nat \<Rightarrow> string \<Rightarrow> string \<Rightarrow> bool \<Rightarrow> (string \<times> string \<times> string \<times> bool) option" where
  "gets_loop [] n line out cr = None"
| "gets_loop (c # cs) n line out cr =
     (if c = BS then
        (if line \<noteq> [] then gets_loop cs n (butlast line) (out @ put_chars [BS, CHR '' '', BS]) cr
         else gets_loop cs n line out cr)
      else if c = LF \<and> cr then gets_loop cs n line out False
      else if c = CR \<or> c = LF \<or> c = ESC then Some (line, cs, out, if c = CR then True else cr)
      else if length line < n then gets_loop cs n (line @ [c]) (out @ [c]) cr
      else gets_loop cs n line out cr)"

text \<open>
  \<open>UARTgets\<close>: the stored line, the remaining input, everything sent to the terminal (the final
  \<open>UARTwrite\<close> of CR LF included) and the static flag; the count returned is the line's length.
\<close>

definition UARTgets ::
  "nat \<Rightarrow> string \<Rightarrow> bool \<Rightarrow> (string \<times> string \<times> string \<times> bool) option" where
  "UARTgets ui32Len input bLastWasCR =
     (case gets_loop input (ui32Len - 1) [] [] bLastWasCR of
        None \<Rightarrow> None
      | Some (line, rest, out, cr) \<Rightarrow> Some (line, rest, out @ put_chars [CR, LF], cr))"

definition UARTgetc :: "string \<Rightarrow> (char \<times> string) option" where
  "UARTgetc input = (case input of [] \<Rightarrow> None | c # cs \<Rightarrow> Some (c, cs))"

text \<open>
  A terminal line: the text before the cursor and the text under and after it. Backspace moves the
  cursor left, every other character is written at the cursor.
\<close>

fun terminal :: "string \<Rightarrow> string \<times> string \<Rightarrow> string \<times> string" where
  "terminal [] t = t"
| "terminal (c # cs) (l, r) =
     terminal cs
       (if c = BS then (if l = [] then (l, r) else (butlast l, last l # r)) else (l @ [c], tl r))"

lemma terminal_append: "terminal (xs @ ys) t = terminal ys (terminal xs t)"
  by (induction xs t rule: terminal.induct) auto

lemma gets_loop_terminal:
  "gets_loop cs n line out cr = Some (line', rest, out', cr') \<Longrightarrow>
   fst (terminal out t) = line \<Longrightarrow> fst (terminal out' t) = line'"
proof (induction cs n line out cr rule: gets_loop.induct)
  case (2 c cs n line out cr)
  obtain r where r: "terminal out t = (line, r)"
    using "2.prems"(2) by (metis prod.collapse)
  have "line \<noteq> [] \<Longrightarrow> fst (terminal (out @ put_chars [BS, CHR '' '', BS]) t) = butlast line"
    by (simp add: terminal_append r)
  moreover have "c \<noteq> BS \<Longrightarrow> fst (terminal (out @ [c]) t) = line @ [c]"
    by (simp add: terminal_append r)
  ultimately show ?case
    using "2.prems"(1) "2.IH" "2.prems"(2)
    by (simp del: put_chars.simps split: if_splits)
qed simp

lemma gets_loop_bounds:
  "gets_loop cs n line out cr = Some (line', rest, out', cr') \<Longrightarrow> length line \<le> n \<Longrightarrow>
   length line' \<le> n \<and> set line' \<subseteq> set line \<union> (set cs - {CR, LF, ESC, BS})"
proof (induction cs n line out cr rule: gets_loop.induct)
  case (2 c cs n line out cr)
  have "length (butlast line) \<le> n" using "2.prems"(2) by simp
  moreover have "set (butlast line) \<subseteq> set line" by (auto dest: in_set_butlastD)
  ultimately show ?case
    using "2.prems" "2.IH" by (simp del: put_chars.simps split: if_splits) blast+
qed simp

lemma gets_loop_plain:
  "set pre \<inter> {CR, LF, ESC, BS} = {} \<Longrightarrow> c \<in> {CR, LF, ESC} \<Longrightarrow> c = LF \<longrightarrow> \<not> cr \<Longrightarrow>
   gets_loop (pre @ c # rest) n line out cr =
     Some (line @ take (n - length line) pre, rest, out @ take (n - length line) pre, c = CR \<or> cr)"
proof (induction pre arbitrary: line out)
  case Nil
  then show ?case by auto
next
  case (Cons d pre)
  then have d: "d \<noteq> CR" "d \<noteq> LF" "d \<noteq> ESC" "d \<noteq> BS" by auto
  show ?case
  proof (cases "length line < n")
    case True
    then obtain k where "n - length line = Suc k" "n - Suc (length line) = k"
      by (metis Suc_diff_Suc)
    with True d Cons show ?thesis by simp
  qed (use d Cons in simp)
qed

text \<open>With the flag set and no CR or ESC to come, a newline is swallowed and the call waits.\<close>

lemma gets_loop_swallow:
  "set cs \<inter> {CR, ESC} = {} \<Longrightarrow> count_list cs LF \<le> (if cr then 1 else 0) \<Longrightarrow>
   gets_loop cs n line out cr = None"
  by (induction cs n line out cr rule: gets_loop.induct) (auto split: if_splits)

subsection \<open>Formatted output\<close>

text \<open>A variable argument: a 32-bit word, or a string pointer (the string it points to).\<close>

datatype vararg = Arg u32 | Ptr string

definition g_pcHex :: string where
  "g_pcHex = ''0123456789abcdef''"

text \<open>\<open>pcBuf[ui32Pos++] = c\<close> on the local buffer of 16 characters.\<close>

definition push :: "char \<Rightarrow> string \<Rightarrow> string option" where
  "push c pcBuf = (if length pcBuf < 16 then Some (pcBuf @ [c]) else None)"

text \<open>The three loops behind the label \<open>convert\<close>: digit count, padding, digits.\<close>

partial_function (option) size_loop :: "u32 \<Rightarrow> u32 \<Rightarrow> u32 \<Rightarrow> u32 \<Rightarrow> (u32 \<times> u32) option" where
  "size_loop base v idx cnt =
     (if idx * base \<le> v \<and> (idx * base) div base = idx
      then size_loop base v (idx * base) (cnt - 1)
      else Some (idx, cnt))"

partial_function (option) pad_loop :: "char \<Rightarrow> u32 \<Rightarrow> string \<Rightarrow> string option" where
  "pad_loop cFill cnt pcBuf =
     (if cnt = 0 then Some pcBuf
      else do { b \<leftarrow> push cFill pcBuf; pad_loop cFill (cnt - 1) b })"

partial_function (option) digit_loop :: "u32 \<Rightarrow> u32 \<Rightarrow> u32 \<Rightarrow> string \<Rightarrow> string option" where
  "digit_loop base v idx pcBuf =
     (if idx = 0 then Some pcBuf
      else do { b \<leftarrow> push (g_pcHex ! unat ((v div idx) mod base)) pcBuf;
                digit_loop base v (idx div base) b })"

definition convert :: "u32 \<Rightarrow> u32 \<Rightarrow> u32 \<Rightarrow> char \<Rightarrow> bool \<Rightarrow> string option" where
  "convert ui32Value ui32Base ui32Count cFill ui32Neg =
     do { (idx, c1) \<leftarrow> size_loop ui32Base ui32Value 1 ui32Count;
          let c2 = (if ui32Neg then c1 - 1 else c1);
          b1 \<leftarrow> (if ui32Neg \<and> cFill = CHR ''0'' then push CHR ''-'' [] else Some []);
          let neg = (if ui32Neg \<and> cFill = CHR ''0'' then False else ui32Neg);
          b2 \<leftarrow> (if 1 < c2 \<and> c2 < 16 then pad_loop cFill (c2 - 1) b1 else Some b1);
          b3 \<leftarrow> (if neg then push CHR ''-'' b2 else Some b2);
          digit_loop ui32Base ui32Value idx b3 }"

text \<open>
  The characters after a percent sign: width digits are folded into \<open>ui32Count\<close> and the fill
  character until a command character is read. At the end of the string the NUL is taken as the
  command, and the outer loop then runs on behind the string: \<open>None\<close>.
\<close>

fun scan_spec :: "string \<Rightarrow> u32 \<Rightarrow> char \<Rightarrow> (char \<times> u32 \<times> char \<times> string) option" where
  "scan_spec [] ui32Count cFill = None"
| "scan_spec (c # cs) ui32Count cFill =
     (if 48 \<le> (of_char c :: nat) \<and> (of_char c :: nat) \<le> 57 then
        scan_spec cs (ui32Count * 10 + of_nat (of_char c - 48))
          (if c = CHR ''0'' \<and> ui32Count = 0 then CHR ''0'' else cFill)
      else Some (c, ui32Count, cFill, cs))"

definition command ::
  "char \<Rightarrow> u32 \<Rightarrow> char \<Rightarrow> vararg list \<Rightarrow> (string \<times> vararg list) option" where
  "command c ui32Count cFill args =
     (if c = CHR ''c'' then
        (case args of
           Arg v # as \<Rightarrow> Some (put_chars [char_of (unat (v AND 0xFF))], as) | _ \<Rightarrow> None)
      else if c = CHR ''d'' \<or> c = CHR ''i'' then
        (case args of
           Arg v # as \<Rightarrow>
             (let neg = v <s 0; w = (if neg then - v else v) in
              map_option (\<lambda>b. (put_chars b, as)) (convert w 10 ui32Count cFill neg))
         | _ \<Rightarrow> None)
      else if c = CHR ''s'' then
        (case args of
           Ptr t # as \<Rightarrow>
             Some (put_chars t @
               (if of_nat (length t) < ui32Count
                then replicate (unat (ui32Count - of_nat (length t))) CHR '' '' else []), as)
         | _ \<Rightarrow> None)
      else if c = CHR ''u'' then
        (case args of
           Arg v # as \<Rightarrow> map_option (\<lambda>b. (put_chars b, as)) (convert v 10 ui32Count cFill False)
         | _ \<Rightarrow> None)
      else if c = CHR ''x'' \<or> c = CHR ''X'' \<or> c = CHR ''p'' then
        (case args of
           Arg v # as \<Rightarrow> map_option (\<lambda>b. (put_chars b, as)) (convert v 16 ui32Count cFill False)
         | _ \<Rightarrow> None)
      else if c = CHR ''%'' then Some (put_chars ''%'', args)
      else Some (put_chars ''ERROR'', args))"

lemma scan_spec_length: "scan_spec s n f = Some (c, m, g, t) \<Longrightarrow> length t < length s"
  by (induction s n f rule: scan_spec.induct) (auto split: if_splits)

function UARTvprintf :: "string \<Rightarrow> vararg list \<Rightarrow> string option" where
  "UARTvprintf pcString vaArgP =
     (if pcString = [] then Some []
      else
        let lit = takeWhile (\<lambda>c. c \<noteq> CHR ''%'') pcString;
            rest = dropWhile (\<lambda>c. c \<noteq> CHR ''%'') pcString in
        (case rest of
           [] \<Rightarrow> Some (put_chars lit)
         | percent # spec \<Rightarrow>
             (case scan_spec spec 0 CHR '' '' of
                None \<Rightarrow> None
              | Some (c, ui32Count, cFill, after) \<Rightarrow>
                  (case command c ui32Count cFill vaArgP of
                     None \<Rightarrow> None
                   | Some (out, args) \<Rightarrow>
                       map_option (\<lambda>r. put_chars lit @ out @ r) (UARTvprintf after args)))))"
  by pat_completeness auto
termination
proof (relation "measure (\<lambda>(s, args). length s)")
  fix pcString lit rest percent spec x1 y c z n d f after out x2 args
  fix vaArgP :: "vararg list"
  assume a: "rest = dropWhile (\<lambda>c. c \<noteq> CHR ''%'') pcString" "rest = percent # spec"
    "scan_spec spec 0 CHR '' '' = Some x1" "(c, y) = x1" "(n, z) = y" "(f, after) = z"
  then have "length after < length spec" using scan_spec_length by blast
  also have "length spec < length pcString"
    using a(1,2) length_dropWhile_le [of "\<lambda>c. c \<noteq> CHR ''%''" pcString]
    by (metis Suc_le_eq length_Cons)
  finally show "((after, args), (pcString, vaArgP)) \<in> measure (\<lambda>(s, args). length s)" by simp
qed simp

declare UARTvprintf.simps [simp del]

definition UARTprintf :: "string \<Rightarrow> vararg list \<Rightarrow> string option" where
  "UARTprintf pcString args = UARTvprintf pcString args"

subsection \<open>Numerals\<close>

text \<open>The numeral of a number in base \<open>b\<close>, and its field of a given width.\<close>

fun digits :: "nat \<Rightarrow> nat \<Rightarrow> string" where
  "digits b n = (if b \<le> 1 \<or> n < b then [g_pcHex ! n]
     else digits b (n div b) @ [g_pcHex ! (n mod b)])"

declare digits.simps [simp del]

definition field :: "char \<Rightarrow> nat \<Rightarrow> bool \<Rightarrow> string \<Rightarrow> string" where
  "field cFill w neg ds =
     (let sign = (if neg then [CHR ''-''] else []);
          pad = replicate (w - (length sign + length ds)) cFill in
      if cFill = CHR ''0'' then sign @ pad @ ds else pad @ sign @ ds)"

lemma digits_bounds:
  "1 < b \<Longrightarrow> n < b ^ length (digits b n) \<and> (n \<noteq> 0 \<longrightarrow> b ^ (length (digits b n) - 1) \<le> n) \<and>
     digits b n \<noteq> []"
proof (induction b n rule: digits.induct)
  case (1 b n)
  show ?case
  proof (cases "n < b")
    case True
    then show ?thesis by (simp add: digits.simps)
  next
    case False
    let ?l = "length (digits b (n div b))"
    have IH: "n div b < b ^ ?l" "b ^ (?l - 1) \<le> n div b" "digits b (n div b) \<noteq> []"
      using 1 False by (auto simp: div_eq_0_iff)
    have eq: "digits b n = digits b (n div b) @ [g_pcHex ! (n mod b)]"
      using False 1(2) by (subst digits.simps) simp
    have "n < b ^ Suc ?l"
      using IH(1) 1(2) by (metis div_less_iff_less_mult mult.commute not_one_less_zero power_Suc
        neq0_conv)
    moreover have "b ^ ?l \<le> n"
    proof -
      have "b ^ ?l = b * b ^ (?l - 1)" using IH(3) by (cases "digits b (n div b)") auto
      also have "\<dots> \<le> b * (n div b)" using IH(2) by simp
      also have "\<dots> \<le> n" by simp
      finally show ?thesis .
    qed
    ultimately show ?thesis using eq by simp
  qed
qed

lemma digits_nth:
  "1 < b \<Longrightarrow>
   digits b n = map (\<lambda>i. g_pcHex ! (n div b ^ i mod b)) (rev [0..<length (digits b n)])"
proof (induction b n rule: digits.induct)
  case (1 b n)
  show ?case
  proof (cases "n < b")
    case True
    then have "digits b n = [g_pcHex ! n]" by (simp add: digits.simps)
    with True show ?thesis by simp
  next
    case False
    let ?l = "length (digits b (n div b))"
    have eq: "digits b n = digits b (n div b) @ [g_pcHex ! (n mod b)]"
      using False 1(2) by (subst digits.simps) simp
    have "digits b (n div b) = map (\<lambda>i. g_pcHex ! (n div b div b ^ i mod b)) (rev [0..<?l])"
      using 1 False by auto
    also have "\<dots> = map (\<lambda>i. g_pcHex ! (n div b ^ i mod b)) (map Suc (rev [0..<?l]))"
      by (simp add: div_mult2_eq)
    finally have d: "digits b (n div b) =
        map (\<lambda>i. g_pcHex ! (n div b ^ i mod b)) (map Suc (rev [0..<?l]))" .
    have "rev [0..<Suc ?l] = map Suc (rev [0..<?l]) @ [0]"
      by (simp add: upt_conv_Cons rev_map [symmetric] map_Suc_upt del: upt_Suc)
    then show ?thesis using eq d by (simp del: upt_Suc)
  qed
qed

text \<open>The digits of a numeral are those of the number.\<close>

lemma digits_value:
  "1 < b \<Longrightarrow> (\<Sum>i<length (digits b n). n div b ^ i mod b * b ^ i) = n"
proof (induction b n rule: digits.induct)
  case (1 b n)
  show ?case
  proof (cases "n < b")
    case True
    then show ?thesis by (simp add: digits.simps)
  next
    case False
    let ?l = "length (digits b (n div b))"
    have eq: "length (digits b n) = Suc ?l"
      using False 1(2) by (subst digits.simps) simp
    have "(\<Sum>i<Suc ?l. n div b ^ i mod b * b ^ i) =
        n mod b + (\<Sum>i<?l. n div b ^ Suc i mod b * b ^ Suc i)"
      by (subst sum.lessThan_Suc_shift) simp
    also have "(\<Sum>i<?l. n div b ^ Suc i mod b * b ^ Suc i) =
        b * (\<Sum>i<?l. n div b div b ^ i mod b * b ^ i)"
      by (simp add: sum_distrib_left div_mult2_eq algebra_simps)
    also have "(\<Sum>i<?l. n div b div b ^ i mod b * b ^ i) = n div b"
      using 1 False by auto
    finally show ?thesis using eq by simp
  qed
qed

subsection \<open>The loops of the conversion\<close>

lemma mult_no_wrap:
  fixes idx base :: u32
  assumes "unat idx * unat base < 2 ^ 32"
  shows "unat (idx * base) = unat idx * unat base"
  using assms by (simp add: unat_word_ariths)

lemma mult_wrap:
  fixes idx base :: u32
  assumes "2 ^ 32 \<le> unat idx * unat base"
  shows "(idx * base) div base \<noteq> idx"
proof
  assume h: "(idx * base) div base = idx"
  have "unat idx * unat base = unat ((idx * base) div base) * unat base" using h by simp
  also have "\<dots> = (unat (idx * base) div unat base) * unat base" by (simp add: unat_div)
  also have "\<dots> \<le> unat (idx * base)" by simp
  also have "\<dots> < 2 ^ 32" using unsigned_less [of "idx * base"] by simp
  finally show False using assms by simp
qed

lemma size_loop_spec:
  assumes "1 < unat base"
  shows "unat idx = unat base ^ k \<Longrightarrow> k < length (digits (unat base) (unat v)) \<Longrightarrow>
    \<exists>idx'. size_loop base v idx cnt =
        Some (idx', cnt - of_nat (length (digits (unat base) (unat v)) - 1 - k)) \<and>
      unat idx' = unat base ^ (length (digits (unat base) (unat v)) - 1)"
proof (induction "length (digits (unat base) (unat v)) - 1 - k" arbitrary: idx k cnt)
  case 0
  let ?L = "length (digits (unat base) (unat v))"
  have k: "Suc k = ?L" using 0 by simp
  have "unat v < unat idx * unat base"
    using digits_bounds [OF assms, of "unat v"] k 0(2) by (metis mult.commute power_Suc)
  then have "\<not> (idx * base \<le> v \<and> (idx * base) div base = idx)"
    using mult_wrap [of idx base] mult_no_wrap [of idx base]
    by (cases "unat idx * unat base < 2 ^ 32") (auto simp: word_le_nat_alt)
  moreover have "?L - Suc 0 = k" using k by simp
  ultimately show ?case using 0 by (subst size_loop.simps) auto
next
  case (Suc d)
  let ?L = "length (digits (unat base) (unat v))"
  have k: "Suc k < ?L" using Suc(2) by simp
  have v0: "unat v \<noteq> 0"
  proof
    assume "unat v = 0"
    then have "?L = 1" using assms by (simp add: digits.simps)
    with k show False by simp
  qed
  have "unat base ^ Suc k \<le> unat base ^ (?L - 1)"
    using k assms by (intro power_increasing) auto
  also have "\<dots> \<le> unat v" using digits_bounds [OF assms, of "unat v"] v0 by simp
  finally have le: "unat idx * unat base \<le> unat v" using Suc(3) by (simp add: mult.commute)
  also have "unat v < 2 ^ 32" by (rule order_less_le_trans [OF unsigned_less]) simp
  finally have lt: "unat idx * unat base < 2 ^ 32" .
  have p: "unat (idx * base) = unat base ^ Suc k"
    using mult_no_wrap [OF lt] Suc(3) by (simp add: mult.commute)
  have "idx * base \<le> v" using le mult_no_wrap [OF lt] by (simp add: word_le_nat_alt)
  moreover have "(idx * base) div base = idx"
    using mult_no_wrap [OF lt] assms by (intro word_unat_eq_iff [THEN iffD2]) (simp add: unat_div)
  ultimately have step: "size_loop base v idx cnt = size_loop base v (idx * base) (cnt - 1)"
    by (subst size_loop.simps) simp
  have eq: "cnt - 1 - of_nat (?L - 1 - Suc k) = cnt - of_nat (?L - 1 - k)"
  proof -
    have "?L - 1 - k = Suc (?L - 1 - Suc k)" using k by simp
    then show ?thesis by simp
  qed
  have "d = ?L - 1 - Suc k" using Suc(2) by simp
  from Suc(1) [OF this p k, of "cnt - 1"] show ?case unfolding step eq .
qed

lemma pad_loop_spec:
  "pad_loop f cnt b =
     (if length b + unat cnt \<le> 16 then Some (b @ replicate (unat cnt) f) else None)"
  if "length b \<le> 16"
  using that
proof (induction "unat cnt" arbitrary: cnt b)
  case 0
  then have "cnt = 0" by (simp add: unat_eq_zero)
  with 0 show ?case by (subst pad_loop.simps) simp
next
  case (Suc n)
  then have c: "cnt \<noteq> 0" by auto
  then have n: "unat (cnt - 1) = n" using Suc(2) by (simp add: unat_minus_one)
  show ?case
  proof (cases "length b < 16")
    case True
    then show ?thesis
      using c n Suc(1) [of "cnt - 1" "b @ [f]"] Suc(2) [symmetric]
      by (subst pad_loop.simps) (simp add: push_def replicate_append_same)
  qed (use c Suc(2,3) in \<open>subst pad_loop.simps, simp add: push_def\<close>)
qed

lemma digit_loop_spec:
  assumes "1 < unat base" "length b \<le> 16"
  shows "unat idx = unat base ^ k \<Longrightarrow>
    digit_loop base v idx b =
     (if length b + Suc k \<le> 16
      then Some (b @ map (\<lambda>i. g_pcHex ! (unat v div unat base ^ i mod unat base)) (rev [0..<Suc k]))
      else None)"
  using assms(2)
proof (induction k arbitrary: idx b)
  case 0
  have i: "idx = 1" using 0(1) by (simp add: word_unat_eq_iff)
  have "unat (idx div base) = unat idx div unat base" by (simp only: unat_div)
  then have "unat (idx div base) = 0" using assms(1) i by (simp only: unat_1) simp
  then have "idx div base = 0" by (simp only: unat_eq_zero)
  then show ?case using 0(2) i
    by (subst digit_loop.simps) (auto simp: push_def unat_mod digit_loop.simps [of _ _ 0])
next
  case (Suc k)
  have nz: "idx \<noteq> 0" using Suc(2) assms(1) by auto
  have d: "unat (idx div base) = unat base ^ k"
    using Suc(2) assms(1) by (simp add: unat_div)
  have e: "unat ((v div idx) mod base) = unat v div unat base ^ Suc k mod unat base"
    using Suc(2) by (simp add: unat_div unat_mod)
  show ?case
  proof (cases "length b < 16")
    case True
    then show ?thesis
      using nz Suc(1) [OF d, of "b @ [g_pcHex ! unat ((v div idx) mod base)]"] e
      by (subst digit_loop.simps) (simp add: push_def)
  qed (use nz Suc(3) in \<open>subst digit_loop.simps, simp add: push_def\<close>)
qed

subsection \<open>What a conversion prints\<close>

lemma convert_spec:
  assumes b: "1 < unat base" and c: "unat cnt \<le> 16"
    and L: "L = length (digits (unat base) (unat v))"
    and small: "L + (if neg then 1 else 0) \<le> 16"
    and pad: "unat cnt = 16 \<longrightarrow> 1 < L + (if neg then 1 else 0)"
  shows "convert v base cnt cFill neg = Some (field cFill (unat cnt) neg (digits (unat base) (unat v)))"
proof -
  let ?ds = "digits (unat base) (unat v)"
  let ?n = "if neg then 1 else (0::nat)"
  have L0: "0 < L" using digits_bounds [OF b, of "unat v"] L by auto
  obtain idx c1 where s: "size_loop base v 1 cnt = Some (idx, c1)"
      "unat idx = unat base ^ (L - 1)" "c1 = cnt - of_nat (L - 1)"
    using size_loop_spec [OF b, of 1 0 v cnt] L L0 by auto
  define c2 where "c2 = (if neg then c1 - 1 else c1)"
  have c2: "c2 = cnt - of_nat (L - 1 + ?n)" by (simp add: c2_def s(3))
  have le: "L - 1 + ?n \<le> 15" using small L0 by auto
  have padding: "1 < c2 \<and> c2 < 16 \<longleftrightarrow> L + ?n < unat cnt"
    and amount: "L + ?n < unat cnt \<Longrightarrow> unat (c2 - 1) = unat cnt - (L + ?n)"
  proof -
    have u: "unat (of_nat (L - 1 + ?n) :: u32) = L - 1 + ?n"
      using le by (subst unat_of_nat) simp
    have ge: "unat c2 = unat cnt - (L - 1 + ?n)" if "L - 1 + ?n \<le> unat cnt"
      using that u c2 unat_sub [of "of_nat (L - 1 + ?n)" cnt] by (simp add: word_le_nat_alt)
    have lt: "16 \<le> unat c2" if "unat cnt < L - 1 + ?n"
    proof -
      have "unat c2 = unat cnt + 2 ^ 32 - (L - 1 + ?n)"
        using that u c2 unat_sub_if' [of cnt "of_nat (L - 1 + ?n)"] by (simp add: word_le_nat_alt)
      with le show ?thesis by simp
    qed
    show "1 < c2 \<and> c2 < 16 \<longleftrightarrow> L + ?n < unat cnt"
      using ge lt c pad L0 by (cases "L - 1 + ?n \<le> unat cnt") (auto simp: word_less_nat_alt)
    show "unat (c2 - 1) = unat cnt - (L + ?n)" if h: "L + ?n < unat cnt"
    proof -
      have "unat c2 = unat cnt - (L - 1 + ?n)" using ge h by simp
      then have "0 < unat c2" using h L0 by auto
      then have "c2 \<noteq> 0" by auto
      then show ?thesis using ge h L0 by (simp add: unat_minus_one)
    qed
  qed
  have dg: "digit_loop base v idx b = Some (b @ ?ds)" if "length b + L \<le> 16" for b
    using digit_loop_spec [OF b, of b idx "L - 1" v] s(2) that L0 digits_nth [OF b, of "unat v"] L
    by (simp del: upt_Suc)
  have pd: "pad_loop cFill (c2 - 1) b1 = Some (b1 @ replicate (unat cnt - (L + ?n)) cFill)"
    if "L + ?n < unat cnt" "length b1 \<le> 1" for b1
    using pad_loop_spec [of b1 cFill "c2 - 1"] amount that L0 c by auto
  have conv: "convert v base cnt cFill neg =
     do { b1 \<leftarrow> (if neg \<and> cFill = CHR ''0'' then push CHR ''-'' [] else Some []);
          b2 \<leftarrow> (if 1 < c2 \<and> c2 < 16 then pad_loop cFill (c2 - 1) b1 else Some b1);
          b3 \<leftarrow> (if (if neg \<and> cFill = CHR ''0'' then False else neg) then push CHR ''-'' b2
                else Some b2);
          digit_loop base v idx b3 }"
    unfolding convert_def Let_def s(1) c2_def by simp
  show ?thesis
  proof (cases "L + ?n < unat cnt")
    case True
    then have "1 < c2 \<and> c2 < 16" using padding by simp
    then show ?thesis unfolding conv
      using True pd dg c L0 small
      by (cases neg; cases "cFill = CHR ''0''")
        (simp_all add: field_def push_def L [symmetric])
  next
    case False
    then have np: "\<not> (1 < c2 \<and> c2 < 16)" using padding by simp
    show ?thesis unfolding conv if_not_P [OF np]
      using False dg L0 small
      by (cases neg; cases "cFill = CHR ''0''")
        (simp_all add: field_def push_def L [symmetric])
  qed
qed

text \<open>A width beyond the buffer whose padding is still below 16 runs past the buffer.\<close>

lemma convert_overflow:
  assumes b: "1 < unat base" and c: "16 < unat cnt"
    and L: "L = length (digits (unat base) (unat v))" "L \<le> 16"
    and pad: "unat cnt < L + 15"
  shows "convert v base cnt cFill False = None"
proof -
  have L0: "0 < L" using digits_bounds [OF b, of "unat v"] L by auto
  obtain idx c1 where s: "size_loop base v 1 cnt = Some (idx, c1)"
      "unat idx = unat base ^ (L - 1)" "c1 = cnt - of_nat (L - 1)"
    using size_loop_spec [OF b, of 1 0 v cnt] L L0 by auto
  have "unat (of_nat (L - 1) :: u32) = L - 1" using L(2) by (subst unat_of_nat) simp
  then have u: "unat c1 = unat cnt - (L - 1)"
    using c L(2) s(3) unat_sub [of "of_nat (L - 1)" cnt] by (simp add: word_le_nat_alt)
  then have "1 < c1" "c1 < 16" using c L(2) pad L0 by (auto simp: word_less_nat_alt)
  have "unat (c1 - 1) = unat cnt - L"
  proof -
    have "c1 \<noteq> 0" using \<open>1 < c1\<close> by auto
    then show ?thesis using u L0 by (simp add: unat_minus_one)
  qed
  moreover have "unat cnt - L \<le> 16" using pad by simp
  ultimately have "pad_loop cFill (c1 - 1) [] = Some (replicate (unat cnt - L) cFill)"
    by (simp add: pad_loop_spec)
  moreover have "digit_loop base v idx (replicate (unat cnt - L) cFill) = None"
    using digit_loop_spec [OF b, of "replicate (unat cnt - L) cFill" idx "L - 1" v] s(2) c pad L0
    by simp
  ultimately show ?thesis
    using \<open>1 < c1\<close> \<open>c1 < 16\<close> by (simp add: convert_def s(1))
qed

subsection \<open>The format language\<close>

text \<open>
  The items the documentation of \<open>UARTvprintf\<close> lists: text without a percent sign, \<open>%c\<close>, \<open>%s\<close>
  with a width, and \<open>%d\<close>, \<open>%u\<close>, \<open>%x\<close> with a width and an optional leading zero.
\<close>

datatype fmt = Text string | Chr | Str nat | Dec bool nat | Uns bool nat | Hex bool nat | Percent

definition width :: "nat \<Rightarrow> string" where
  "width w = (if w = 0 then [] else digits 10 w)"

definition zero_flag :: "bool \<Rightarrow> string" where
  "zero_flag z = (if z then ''0'' else [])"

fun render :: "fmt \<Rightarrow> string" where
  "render (Text s) = s"
| "render Chr = ''%c''"
| "render (Str w) = ''%'' @ width w @ ''s''"
| "render (Dec z w) = ''%'' @ zero_flag z @ width w @ ''d''"
| "render (Uns z w) = ''%'' @ zero_flag z @ width w @ ''u''"
| "render (Hex z w) = ''%'' @ zero_flag z @ width w @ ''x''"
| "render Percent = ''%%''"

definition fill_of :: "bool \<Rightarrow> char" where
  "fill_of z = (if z then CHR ''0'' else CHR '' '')"

definition signed_field :: "bool \<Rightarrow> nat \<Rightarrow> u32 \<Rightarrow> string" where
  "signed_field z w v = field (fill_of z) w (sint v < 0) (digits 10 (nat \<bar>sint v\<bar>))"

text \<open>What the items print, with the arguments they consume.\<close>

fun meaning :: "fmt list \<Rightarrow> vararg list \<Rightarrow> string option" where
  "meaning [] args = Some []"
| "meaning (Text s # fs) args = map_option (\<lambda>r. put_chars s @ r) (meaning fs args)"
| "meaning (Percent # fs) args = map_option (\<lambda>r. ''%'' @ r) (meaning fs args)"
| "meaning (Chr # fs) (Arg v # args) =
     map_option (\<lambda>r. put_chars [char_of (unat v mod 256)] @ r) (meaning fs args)"
| "meaning (Str w # fs) (Ptr t # args) =
     map_option (\<lambda>r. put_chars t @ replicate (w - length t) CHR '' '' @ r) (meaning fs args)"
| "meaning (Dec z w # fs) (Arg v # args) =
     map_option (\<lambda>r. signed_field z w v @ r) (meaning fs args)"
| "meaning (Uns z w # fs) (Arg v # args) =
     map_option (\<lambda>r. field (fill_of z) w False (digits 10 (unat v)) @ r) (meaning fs args)"
| "meaning (Hex z w # fs) (Arg v # args) =
     map_option (\<lambda>r. field (fill_of z) w False (digits 16 (unat v)) @ r) (meaning fs args)"
| "meaning _ _ = None"

text \<open>
  The formats covered: numeric widths up to 15, string widths and string lengths that fit the
  32-bit counter, no percent sign in the text parts.
\<close>

fun fmt_ok :: "fmt \<Rightarrow> bool" where
  "fmt_ok (Text s) \<longleftrightarrow> CHR ''%'' \<notin> set s"
| "fmt_ok (Str w) \<longleftrightarrow> w < 2 ^ 32"
| "fmt_ok (Dec z w) \<longleftrightarrow> w \<le> 15"
| "fmt_ok (Uns z w) \<longleftrightarrow> w \<le> 15"
| "fmt_ok (Hex z w) \<longleftrightarrow> w \<le> 15"
| "fmt_ok _ \<longleftrightarrow> True"

fun arg_ok :: "vararg \<Rightarrow> bool" where
  "arg_ok (Arg v) \<longleftrightarrow> True"
| "arg_ok (Ptr t) \<longleftrightarrow> length t < 2 ^ 32"

lemma hex_char: "n < 10 \<Longrightarrow> of_char (g_pcHex ! n) = 48 + n"
proof -
  assume "n < 10"
  then have "n \<in> {0,1,2,3,4,5,6,7,8,9}" by auto
  then show ?thesis by (auto simp: g_pcHex_def)
qed

lemma scan_digits:
  "w \<noteq> 0 \<Longrightarrow> w < 2 ^ 32 \<Longrightarrow>
   scan_spec (digits 10 w @ cs) 0 f = scan_spec cs (of_nat w) f"
proof (induction w arbitrary: cs rule: less_induct)
  case (less w)
  show ?case
  proof (cases "w < 10")
    case True
    have "g_pcHex ! w \<noteq> CHR ''0''"
    proof
      assume "g_pcHex ! w = CHR ''0''"
      then have "of_char (g_pcHex ! w) = (48 :: nat)" by simp
      with hex_char [OF True] less.prems(1) show False by simp
    qed
    with True show ?thesis by (simp add: digits.simps hex_char)
  next
    case False
    have eq: "digits 10 w = digits 10 (w div 10) @ [g_pcHex ! (w mod 10)]"
      using False by (subst digits.simps) simp
    have "w mod 10 < 10" by simp
    then have m: "w mod 10 \<le> 9" by linarith
    have nz: "(of_nat (w div 10) :: u32) \<noteq> 0"
    proof -
      have "unat (of_nat (w div 10) :: u32) = w div 10"
        using less.prems(2) by (subst unat_of_nat) simp
      moreover have "w div 10 \<noteq> 0" using False by simp
      ultimately show ?thesis by (metis unat_0)
    qed
    have "scan_spec (digits 10 w @ cs) 0 f =
        scan_spec (g_pcHex ! (w mod 10) # cs) (of_nat (w div 10)) f"
      using less.IH [of "w div 10" "g_pcHex ! (w mod 10) # cs"] less.prems False
      by (simp add: eq)
    also have "\<dots> = scan_spec cs (of_nat (w div 10) * 10 + of_nat (w mod 10)) f"
      using nz m by (simp add: hex_char)
    also have "(of_nat (w div 10) * 10 + of_nat (w mod 10) :: u32) = of_nat (w div 10 * 10 + w mod 10)"
      by (simp only: of_nat_add of_nat_mult of_nat_numeral)
    finally show ?thesis by simp
  qed
qed

lemma scan_width: "w < 2 ^ 32 \<Longrightarrow> scan_spec (width w @ cs) 0 f = scan_spec cs (of_nat w) f"
  using scan_digits by (simp add: width_def)

lemma scan_flag:
  "scan_spec (zero_flag z @ cs) 0 CHR '' '' = scan_spec cs 0 (fill_of z)"
  by (simp add: zero_flag_def fill_of_def)

lemma vprintf_text:
  assumes "CHR ''%'' \<notin> set s"
  shows "UARTvprintf (s @ rest) args = map_option (\<lambda>r. put_chars s @ r) (UARTvprintf rest args)"
proof -
  have t: "takeWhile (\<lambda>c. c \<noteq> CHR ''%'') (s @ rest) = s @ takeWhile (\<lambda>c. c \<noteq> CHR ''%'') rest"
    "dropWhile (\<lambda>c. c \<noteq> CHR ''%'') (s @ rest) = dropWhile (\<lambda>c. c \<noteq> CHR ''%'') rest"
    using assms by (induction s) auto
  show ?thesis
  proof (cases "s = []")
    case True
    then show ?thesis by (simp add: option.map_ident)
  next
    case False
    show ?thesis
    proof (cases "dropWhile (\<lambda>c. c \<noteq> CHR ''%'') rest")
      case Nil
      show ?thesis
        unfolding UARTvprintf.simps [of "s @ rest"] UARTvprintf.simps [of rest] t Let_def Nil
        using False by simp
    next
      case (Cons p spec)
      then have "rest \<noteq> []" by auto
      with False show ?thesis
        unfolding UARTvprintf.simps [of "s @ rest"] UARTvprintf.simps [of rest] t Let_def Cons
        by (auto simp: option.map_comp comp_def split: option.split)
    qed
  qed
qed

lemma vprintf_command:
  assumes "scan_spec spec 0 CHR '' '' = Some (c, n, f, after)"
  shows "UARTvprintf (CHR ''%'' # spec) args =
    (case command c n f args of
       None \<Rightarrow> None
     | Some (out, args') \<Rightarrow> map_option (\<lambda>r. out @ r) (UARTvprintf after args'))"
  using assms by (subst UARTvprintf.simps) (auto split: option.splits)

lemma digits_chars: "1 < b \<Longrightarrow> b \<le> 16 \<Longrightarrow> set (digits b n) \<subseteq> set g_pcHex"
proof (induction b n rule: digits.induct)
  case (1 b n)
  have "length g_pcHex = 16" by (simp add: g_pcHex_def)
  moreover have "n mod b < b" using 1(2) by simp
  ultimately have "n < b \<Longrightarrow> g_pcHex ! n \<in> set g_pcHex" "g_pcHex ! (n mod b) \<in> set g_pcHex"
    using 1(3) by (auto intro!: nth_mem)
  with 1 show ?case by (subst digits.simps) auto
qed

lemma digits_plain: "LF \<notin> set (digits 10 n) \<and> NUL \<notin> set (digits 10 n)"
proof -
  have "LF \<notin> set g_pcHex" "NUL \<notin> set g_pcHex" by (simp_all add: g_pcHex_def)
  then show ?thesis using digits_chars [of 10 n] by auto
qed

lemma field_clean: "LF \<notin> set ds \<Longrightarrow> f \<noteq> LF \<Longrightarrow> LF \<notin> set (field f w neg ds)"
  by (auto simp: field_def Let_def)

lemma put_field:
  assumes "1 < b" "b \<le> 16"
  shows "put_chars (field (fill_of z) w neg (digits b n)) = field (fill_of z) w neg (digits b n)"
proof (intro put_chars_id field_clean)
  show "LF \<notin> set (digits b n)" using digits_chars [OF assms] by (auto simp: g_pcHex_def)
qed (simp add: fill_of_def)

lemma digits_length_u32: "n < 2 ^ 32 \<Longrightarrow> 10 \<le> b \<Longrightarrow> length (digits b n) \<le> 10"
proof (rule ccontr)
  assume h: "n < 2 ^ 32" "10 \<le> b" "\<not> length (digits b n) \<le> 10"
  have "n \<noteq> 0"
  proof
    assume "n = 0"
    then have "length (digits b n) = 1" using h(2) by (simp add: digits.simps)
    with h(3) show False by simp
  qed
  then have "b ^ (length (digits b n) - 1) \<le> n" using digits_bounds [of b n] h(2) by simp
  moreover have "(10::nat) ^ 10 \<le> b ^ 10" using h(2) by (rule power_mono) simp
  moreover have "b ^ 10 \<le> b ^ (length (digits b n) - 1)"
    using h(2,3) by (intro power_increasing) auto
  ultimately show False using h(1) by simp
qed

lemma convert_field:
  assumes "w \<le> 15" "10 \<le> unat base" "unat base \<le> 16"
  shows "convert v base (of_nat w) (fill_of z) neg =
    Some (field (fill_of z) w neg (digits (unat base) (unat v)))"
proof -
  have "unat (of_nat w :: u32) = w" using assms(1) by (subst unat_of_nat) simp
  moreover have "unat v < 2 ^ 32" by (rule order_less_le_trans [OF unsigned_less]) simp
  ultimately show ?thesis
    using convert_spec [of base "of_nat w" _ v neg "fill_of z"] assms
      digits_length_u32 [of "unat v" "unat base"]
    by auto
qed

lemma negate_u32:
  fixes v :: u32
  shows "unat (if v <s 0 then - v else v) = nat \<bar>sint v\<bar>"
proof -
  have r: "- (2 ^ 31) \<le> sint v" "sint v < 2 ^ 31" using sint_ge [of v] sint_lt [of v] by simp_all
  have "(if v <s 0 then - v else v) = word_of_int \<bar>sint v\<bar>"
    by (auto simp: word_sless_alt wi_hom_neg [symmetric])
  then have "uint (if v <s 0 then - v else v) = \<bar>sint v\<bar> mod 2 ^ 32"
    by (simp add: uint_word_of_int)
  then have "uint (if v <s 0 then - v else v) = \<bar>sint v\<bar>" using r by simp
  then show ?thesis by (simp flip: nat_uint_eq)
qed

lemma negate_cases:
  fixes v :: u32
  shows "sint v < 0 \<Longrightarrow> unat (- v) = nat (- sint v)" "\<not> sint v < 0 \<Longrightarrow> unat v = nat (sint v)"
  using negate_u32 [of v] by (simp_all add: word_sless_alt)

lemma low_byte: "unat (v AND 0xFF :: u32) = unat v mod 256"
proof -
  have "v AND 0xFF = take_bit 8 v" by (simp add: take_bit_eq_mask mask_eq_exp_minus_1)
  then show ?thesis by (simp add: unsigned_take_bit_eq take_bit_nat_def)
qed

lemma command_scan:
  assumes "w < 2 ^ 32" "\<not> (48 \<le> (of_char c :: nat) \<and> (of_char c :: nat) \<le> 57)"
  shows "scan_spec (zero_flag z @ width w @ c # rest) 0 CHR '' '' =
      Some (c, of_nat w, fill_of z, rest)"
  using assms by (auto simp: scan_flag scan_width)

text \<open>A conversion without an argument of its kind.\<close>

lemma vprintf_mismatch:
  assumes "w < 2 ^ 32" "c \<in> {CHR ''d'', CHR ''u'', CHR ''x'', CHR ''s'', CHR ''c''}"
    and "c \<noteq> CHR ''s'' \<longrightarrow> (\<forall>v as. args \<noteq> Arg v # as)"
    and "c = CHR ''s'' \<longrightarrow> (\<forall>t as. args \<noteq> Ptr t # as)"
  shows "UARTvprintf (CHR ''%'' # zero_flag z @ width w @ c # rest) args = None"
proof -
  have "command c (of_nat w) (fill_of z) args = None"
  proof (cases args)
    case Nil
    then show ?thesis using assms(2) by (auto simp: command_def)
  next
    case (Cons a as)
    then show ?thesis using assms(2-4) by (cases a) (auto simp: command_def)
  qed
  moreover have "\<not> (48 \<le> (of_char c :: nat) \<and> (of_char c :: nat) \<le> 57)" using assms(2) by auto
  ultimately show ?thesis
    using command_scan [OF assms(1)] by (simp add: vprintf_command)
qed

text \<open>One item of the format at a time.\<close>

lemma vprintf_item:
  assumes "fmt_ok f" "list_all arg_ok args"
    and IH: "\<And>as. list_all arg_ok as \<Longrightarrow> UARTvprintf rest as = meaning fs as"
    and m: "\<exists>v as. args = Arg v # as \<or> (\<exists>w. f = Str w) \<or> (\<exists>s. f = Text s) \<or> f = Percent"
      "\<exists>t as. args = Ptr t # as \<or> \<not> (\<exists>w. f = Str w)"
  shows "UARTvprintf (render f @ rest) args = meaning (f # fs) args"
proof (cases f)
  case (Text s)
  then show ?thesis using assms by (simp add: vprintf_text)
next
  case Percent
  then show ?thesis using IH [OF assms(2)]
    by (simp add: vprintf_command command_def)
next
  case Chr
  with m obtain v as where a: "args = Arg v # as" by auto
  have "UARTvprintf rest as = meaning fs as" using IH assms(2) a by simp
  then show ?thesis
    by (simp add: Chr a vprintf_command command_def low_byte del: put_chars.simps)
next
  case (Str w)
  with m obtain t as where a: "args = Ptr t # as" by auto
  have w: "w < 2 ^ 32" "length t < 2 ^ 32" using assms(1,2) Str a by simp_all
  have u: "unat (of_nat w :: u32) = w" "unat (of_nat (length t) :: u32) = length t"
    using w by (simp_all add: unat_of_nat)
  have p: "(if of_nat (length t) < (of_nat w :: u32)
      then replicate (unat (of_nat w - of_nat (length t) :: u32)) CHR '' '' else []) =
      replicate (w - length t) CHR '' ''"
    using u by (auto simp: word_less_nat_alt unat_sub word_le_nat_alt)
  have "scan_spec (width w @ CHR ''s'' # rest) 0 CHR '' '' =
      Some (CHR ''s'', of_nat w, CHR '' '', rest)"
    using command_scan [of w "CHR ''s''" False rest] w(1) by (simp add: zero_flag_def fill_of_def)
  moreover have "UARTvprintf rest as = meaning fs as" using IH assms(2) a by simp
  ultimately show ?thesis
    by (cases "meaning fs as") (simp_all add: Str a vprintf_command command_def p)
next
  case (Dec z w)
  with m obtain v as where a: "args = Arg v # as" by auto
  have "command CHR ''d'' (of_nat w) (fill_of z) args = Some (signed_field z w v, as)"
    using assms(1) Dec
    by (simp add: command_def a convert_field Let_def put_field signed_field_def negate_cases
        word_sless_alt)
  moreover have "UARTvprintf rest as = meaning fs as" using IH assms(2) a by simp
  ultimately show ?thesis
    using Dec assms(1) by (simp add: a vprintf_command command_scan)
next
  case (Uns z w)
  with m obtain v as where a: "args = Arg v # as" by auto
  have "UARTvprintf rest as = meaning fs as" using IH assms(2) a by simp
  then show ?thesis
    using Uns assms(1) by (simp add: a vprintf_command command_scan command_def convert_field put_field)
next
  case (Hex z w)
  with m obtain v as where a: "args = Arg v # as" by auto
  have "UARTvprintf rest as = meaning fs as" using IH assms(2) a by simp
  then show ?thesis
    using Hex assms(1) by (simp add: a vprintf_command command_scan command_def convert_field put_field)
qed

lemma vprintf_any_item:
  assumes "fmt_ok f" "list_all arg_ok args"
    and IH: "\<And>as. list_all arg_ok as \<Longrightarrow> UARTvprintf rest as = meaning fs as"
  shows "UARTvprintf (render f @ rest) args = meaning (f # fs) args"
proof -
  consider (fits) "(\<exists>v as. args = Arg v # as) \<or> (\<exists>w. f = Str w) \<or> (\<exists>s. f = Text s) \<or> f = Percent"
      "(\<exists>t as. args = Ptr t # as) \<or> \<not> (\<exists>w. f = Str w)"
    | (word) "\<forall>v as. args \<noteq> Arg v # as" "f = Chr \<or> (\<exists>z w. f \<in> {Dec z w, Uns z w, Hex z w})"
    | (string) "\<forall>t as. args \<noteq> Ptr t # as" "\<exists>w. f = Str w"
    by (cases f) auto
  then show ?thesis
  proof cases
    case fits
    then show ?thesis using vprintf_item [OF assms] by blast
  next
    case word
    then have "meaning (f # fs) args = None"
      by (cases "(f # fs, args)" rule: meaning.cases) auto
    moreover have "UARTvprintf (render f @ rest) args = None"
      using word assms(1) vprintf_mismatch [of _ _ args]
        vprintf_mismatch [of 0 "CHR ''c''" args False rest]
      by (auto simp: zero_flag_def width_def [of 0])
    ultimately show ?thesis by simp
  next
    case string
    then have "meaning (f # fs) args = None"
      by (cases "(f # fs, args)" rule: meaning.cases) auto
    moreover have "UARTvprintf (render f @ rest) args = None"
      using string assms(1) vprintf_mismatch [of _ "CHR ''s''" args False rest]
      by (auto simp: zero_flag_def)
    ultimately show ?thesis by simp
  qed
qed

lemma vprintf_nil [simp]: "UARTvprintf [] args = Some []"
  by (simp add: UARTvprintf.simps)

lemma vprintf_formats:
  "list_all fmt_ok fs \<Longrightarrow> list_all arg_ok args \<Longrightarrow>
   UARTvprintf (concat (map render fs)) args = meaning fs args"
proof (induction fs arbitrary: args)
  case (Cons f fs)
  then show ?case using vprintf_any_item [of f args "concat (map render fs)" fs] by simp
qed simp

subsection \<open>Properties\<close>



text \<open>
  Formatting, out of bounds: a \<open>%u\<close> width above 16 whose padding passes the test
  \<open>ui32Count < 16\<close> (from 17 on for values of three digits) is written past \<open>pcBuf[16]\<close>; and a
  string that ends in a lone percent sign is read past its end.
\<close>

theorem UARTvprintf_out_of_bounds:
  assumes "16 < w" "w < length (digits 10 (unat v)) + 15" "CHR ''%'' \<notin> set s"
  shows "UARTvprintf (s @ ''%'' @ width w @ ''u'') [Arg v] = None \<and>
    UARTvprintf (s @ ''%'') args = None"
proof
  have "unat v < 2 ^ 32" by (rule order_less_le_trans [OF unsigned_less]) simp
  then have L: "length (digits 10 (unat v)) \<le> 10" by (rule digits_length_u32) simp
  then have w: "unat (of_nat w :: u32) = w" using assms(2) by (subst unat_of_nat) simp
  have "convert v 10 (of_nat w) CHR '' '' False = None"
    using convert_overflow [of 10 "of_nat w" _ v] assms(1,2) w L by simp
  then have "command CHR ''u'' (of_nat w) CHR '' '' [Arg v] = None" by (simp add: command_def)
  moreover have "scan_spec (width w @ ''u'') 0 CHR '' '' = Some (CHR ''u'', of_nat w, CHR '' '', [])"
    using command_scan [of w "CHR ''u''" False "[]"] assms(2) L
    by (simp add: zero_flag_def fill_of_def)
  ultimately show "UARTvprintf (s @ ''%'' @ width w @ ''u'') [Arg v] = None"
    using vprintf_text [OF assms(3)] by (simp add: vprintf_command)
  show "UARTvprintf (s @ ''%'') args = None"
    using vprintf_text [OF assms(3)] by (simp add: UARTvprintf.simps [of "''%''"])
qed

theorem UARTvprintf_out_of_bounds_witness:
  "UARTvprintf ''%17u'' [Arg 123] = None \<and> UARTvprintf ''100%'' [] = None"
proof -
  have "width 17 = ''17''" "length (digits 10 (unat (123 :: u32))) = 3"
    by (simp_all add: width_def digits.simps g_pcHex_def)
  then show ?thesis
    using UARTvprintf_out_of_bounds [of 17 123 "[]" "[]"]
      UARTvprintf_out_of_bounds [of 17 123 "''100''" "[]"] by simp
qed

text \<open>
  Line input: whatever is typed, the stored line fits the buffer with its NUL, contains no line
  end, escape or backspace, and is exactly what the terminal shows left of the cursor after the
  echo, backspaces included; and a line typed without backspace (and not starting with the LF of a
  CRLF pair) is stored in full up to the buffer's size, the rest of the input untouched.
\<close>

theorem UARTgets_correct:
  assumes "0 < ui32Len"
  shows "(UARTgets ui32Len input cr = Some (line, rest, out, cr') \<longrightarrow>
      length line < ui32Len \<and> set line \<inter> {CR, LF, ESC, BS} = {} \<and>
      (\<exists>echo. out = echo @ [CR, CR, LF] \<and> fst (terminal echo ([], [])) = line)) \<and>
    (set pre \<inter> {CR, LF, ESC, BS} = {} \<and> c \<in> {CR, LF, ESC} \<and> (c = LF \<longrightarrow> \<not> cr) \<longrightarrow>
      UARTgets ui32Len (pre @ c # rest) cr =
        Some (take (ui32Len - 1) pre, rest, take (ui32Len - 1) pre @ [CR, CR, LF], c = CR \<or> cr))"
    (is "?A \<and> ?B")
proof
  show ?A
  proof
    assume "UARTgets ui32Len input cr = Some (line, rest, out, cr')"
    then obtain echo where e: "gets_loop input (ui32Len - 1) [] [] cr = Some (line, rest, echo, cr')"
      "out = echo @ [CR, CR, LF]"
      by (auto simp: UARTgets_def split: option.splits)
    with gets_loop_terminal [OF e(1), of "([], [])"] gets_loop_bounds [OF e(1)] assms
    show "length line < ui32Len \<and> set line \<inter> {CR, LF, ESC, BS} = {} \<and>
      (\<exists>echo. out = echo @ [CR, CR, LF] \<and> fst (terminal echo ([], [])) = line)"
      by (auto simp: less_eq_Suc_le)
  qed
  show ?B by (simp add: UARTgets_def gets_loop_plain)
qed

theorem UARTgets_correct_witness:
  "UARTgets 4 (''hello'' @ CR # ''x'') False = Some (''hel'', ''x'', ''hel'' @ [CR, CR, LF], True)"
  using UARTgets_correct [of 4 "[]" False "[]" "''x''" "[]" False "''hello''" CR] by simp

text \<open>
  Line input, the static flag: it is only cleared by swallowing an LF, so after any line that
  ended in CR a later line ending in LF alone loses its line end, and the call keeps waiting.
\<close>

theorem UARTgets_loses_newline:
  assumes "set pre \<inter> {CR, LF, ESC} = {}"
  shows "UARTgets n (''x'' @ CR # rest) False \<noteq> None \<and>
    (\<forall>line r out cr. UARTgets n (''x'' @ CR # rest) False = Some (line, r, out, cr) \<longrightarrow>
       cr \<and> UARTgets n (pre @ [LF]) cr = None)"
proof -
  have p: "gets_loop (''x'' @ CR # rest) (n - 1) [] [] False =
      Some (take (n - 1) ''x'', rest, take (n - 1) ''x'', True)"
    using gets_loop_plain [of "''x''" CR False rest "n - 1" "[]" "[]"] by simp
  have "gets_loop (pre @ [LF]) (n - 1) [] [] True = None"
    by (rule gets_loop_swallow) (use assms in \<open>auto simp: count_list_0_iff\<close>)
  then show ?thesis unfolding UARTgets_def p by simp
qed

theorem UARTgets_loses_newline_witness:
  "UARTgets 8 (''no'' @ [LF]) True = None"
proof -
  have "UARTgets 8 (''x'' @ CR # []) False = Some (''x'', [], ''x'' @ [CR, CR, LF], True)"
    using gets_loop_plain [of "''x''" CR False "[]" 7 "[]" "[]"] by (simp add: UARTgets_def)
  then show ?thesis using UARTgets_loses_newline [of "''no''" 8 "[]"] by (simp del: ex_simps ex_bool_eq) blast
qed

end
