(* ===== verification/UartBuffered.thy ===== *)
theory UartBuffered
  imports UartStdio
begin

text \<open>
  \<open>utils/uartstdio.c\<close> built with \<open>UART_BUFFERED\<close>: the transmit and receive ring buffers, the calls
  that fill and empty them, and the interrupt handler between them and the UART. The rings are
  verified against lists through the locale \<open>bounded_fifo\<close>, interpreted for both of them.
\<close>

subsection \<open>Bounded FIFOs\<close>

text \<open>
  What a client of a ring buffer relies on: an abstraction to a list, tests for full and empty,
  and the two operations on either end.
\<close>

locale bounded_fifo =
  fixes abs :: "'s \<Rightarrow> 'a list"
    and ok :: "'s \<Rightarrow> bool"
    and full empty :: "'s \<Rightarrow> bool"
    and put :: "'a \<Rightarrow> 's \<Rightarrow> 's"
    and get :: "'s \<Rightarrow> 'a \<times> 's"
    and cap :: nat
  assumes abs_put: "ok s \<Longrightarrow> \<not> full s \<Longrightarrow> ok (put x s) \<and> abs (put x s) = abs s @ [x]"
    and abs_get: "ok s \<Longrightarrow> \<not> empty s \<Longrightarrow>
      ok (snd (get s)) \<and> abs s = fst (get s) # abs (snd (get s))"
    and full_iff: "ok s \<Longrightarrow> full s \<longleftrightarrow> length (abs s) = cap"
    and abs_cap: "ok s \<Longrightarrow> length (abs s) \<le> cap"
    and empty_iff: "ok s \<Longrightarrow> empty s \<longleftrightarrow> abs s = []"
begin

text \<open>Put as many of the elements as fit.\<close>

fun put_all :: "'a list \<Rightarrow> 's \<Rightarrow> 's" where
  "put_all [] s = s"
| "put_all (x # xs) s = (if full s then s else put_all xs (put x s))"

lemma put_all_abs:
  "ok s \<Longrightarrow> ok (put_all xs s) \<and> abs (put_all xs s) = take cap (abs s @ xs)"
proof (induction xs arbitrary: s)
  case Nil
  then show ?case using abs_cap by simp
next
  case (Cons x xs)
  show ?case
  proof (cases "full s")
    case True
    then show ?thesis using Cons.prems full_iff by simp
  next
    case False
    with Cons.IH [of "put x s"] Cons.prems abs_put [of s x] show ?thesis by simp
  qed
qed

text \<open>Take up to \<open>n\<close> elements out.\<close>

fun take_out :: "nat \<Rightarrow> 's \<Rightarrow> 'a list \<times> 's" where
  "take_out 0 s = ([], s)"
| "take_out (Suc n) s =
     (if empty s then ([], s)
      else let (x, s1) = get s; (xs, s2) = take_out n s1 in (x # xs, s2))"

lemma take_out_abs:
  "ok s \<Longrightarrow> ok (snd (take_out n s)) \<and> fst (take_out n s) = take n (abs s) \<and>
     abs (snd (take_out n s)) = drop n (abs s)"
proof (induction n arbitrary: s)
  case (Suc n)
  show ?case
  proof (cases "empty s")
    case True
    then show ?thesis using Suc.prems empty_iff by simp
  next
    case False
    from abs_get [OF Suc.prems False] Suc.IH [of "snd (get s)"] False show ?thesis
      by (auto simp: split_beta Let_def)
  qed
qed simp

end

subsection \<open>Ring buffers\<close>

record ring =
  cells :: string
  write_ix :: nat
  read_ix :: nat

definition IsBufferFull :: "nat \<Rightarrow> nat \<Rightarrow> nat \<Rightarrow> bool" where
  "IsBufferFull ui32Read ui32Write ui32Size \<longleftrightarrow> (ui32Write + 1) mod ui32Size = ui32Read"

definition IsBufferEmpty :: "nat \<Rightarrow> nat \<Rightarrow> bool" where
  "IsBufferEmpty ui32Read ui32Write \<longleftrightarrow> ui32Write = ui32Read"

definition GetBufferCount :: "nat \<Rightarrow> nat \<Rightarrow> nat \<Rightarrow> nat" where
  "GetBufferCount ui32Read ui32Write ui32Size =
     (if ui32Write \<ge> ui32Read then ui32Write - ui32Read
      else ui32Size - (ui32Read - ui32Write))"

definition UART_RX_BUFFER_SIZE :: nat where "UART_RX_BUFFER_SIZE = 128"
definition UART_TX_BUFFER_SIZE :: nat where "UART_TX_BUFFER_SIZE = 1024"

definition ADVANCE :: "nat \<Rightarrow> nat \<Rightarrow> nat" where
  "ADVANCE n ix = (ix + 1) mod n"

definition ring_full :: "nat \<Rightarrow> ring \<Rightarrow> bool" where
  "ring_full n r = IsBufferFull (read_ix r) (write_ix r) n"

definition ring_empty :: "ring \<Rightarrow> bool" where
  "ring_empty r = IsBufferEmpty (read_ix r) (write_ix r)"

definition ring_put :: "nat \<Rightarrow> char \<Rightarrow> ring \<Rightarrow> ring" where
  "ring_put n c r = r\<lparr>cells := (cells r)[write_ix r := c], write_ix := ADVANCE n (write_ix r)\<rparr>"

definition ring_get :: "nat \<Rightarrow> ring \<Rightarrow> char \<times> ring" where
  "ring_get n r = (cells r ! read_ix r, r\<lparr>read_ix := ADVANCE n (read_ix r)\<rparr>)"

definition ring_ok :: "nat \<Rightarrow> ring \<Rightarrow> bool" where
  "ring_ok n r \<longleftrightarrow> length (cells r) = n \<and> write_ix r < n \<and> read_ix r < n"

definition ring_abs :: "nat \<Rightarrow> ring \<Rightarrow> string" where
  "ring_abs n r = map (\<lambda>i. cells r ! ((read_ix r + i) mod n))
     [0..<GetBufferCount (read_ix r) (write_ix r) n]"

lemma count_mod:
  "r < n \<Longrightarrow> w < n \<Longrightarrow> GetBufferCount r w n < n \<and> (r + GetBufferCount r w n) mod n = w"
  by (auto simp: GetBufferCount_def mod_if)

lemma ring_abs_put:
  assumes "1 < n" "ring_ok n r" "\<not> ring_full n r"
  shows "ring_ok n (ring_put n c r) \<and> ring_abs n (ring_put n c r) = ring_abs n r @ [c]"
proof
  let ?k = "GetBufferCount (read_ix r) (write_ix r) n"
  have i: "read_ix r < n" "write_ix r < n" "length (cells r) = n"
    using assms(2) by (auto simp: ring_ok_def)
  show "ring_ok n (ring_put n c r)"
    using assms by (simp add: ring_ok_def ring_put_def ADVANCE_def)
  have k: "GetBufferCount (read_ix r) (ADVANCE n (write_ix r)) n = Suc ?k"
    using assms(3) i by (auto simp: GetBufferCount_def ADVANCE_def ring_full_def IsBufferFull_def mod_if
        split: if_splits)
  have w: "(read_ix r + ?k) mod n = write_ix r" "?k < n" using count_mod i by auto
  have ne: "write_ix r \<noteq> (read_ix r + j) mod n" if "j < ?k" for j
  proof
    assume "write_ix r = (read_ix r + j) mod n"
    with w that i show False by (auto simp: mod_if split: if_splits)
  qed
  show "ring_abs n (ring_put n c r) = ring_abs n r @ [c]"
    using w i ne by (auto simp: ring_abs_def ring_put_def k)
qed

lemma ring_abs_get:
  assumes "1 < n" "ring_ok n r" "\<not> ring_empty r"
  shows "ring_ok n (snd (ring_get n r)) \<and>
    ring_abs n r = fst (ring_get n r) # ring_abs n (snd (ring_get n r))"
proof
  let ?k = "GetBufferCount (read_ix r) (write_ix r) n"
  have i: "read_ix r < n" "write_ix r < n" "length (cells r) = n"
    using assms(2) by (auto simp: ring_ok_def)
  show "ring_ok n (snd (ring_get n r))"
    using assms by (simp add: ring_ok_def ring_get_def ADVANCE_def)
  have k: "?k = Suc (GetBufferCount (ADVANCE n (read_ix r)) (write_ix r) n)"
    using assms(3) i
    by (auto simp: GetBufferCount_def ADVANCE_def ring_empty_def IsBufferEmpty_def mod_if)
  have "(x + Suc (read_ix r) mod n) mod n = Suc (x + read_ix r) mod n" for x
    by (metis add_Suc_right mod_add_right_eq)
  then show "ring_abs n r = fst (ring_get n r) # ring_abs n (snd (ring_get n r))"
    using i unfolding ring_abs_def k
    by (simp add: upt_conv_Cons map_Suc_upt [symmetric] ring_get_def ADVANCE_def
        add.commute add.left_commute del: upt_Suc)
qed

lemma ring_abs_length: "length (ring_abs n r) = GetBufferCount (read_ix r) (write_ix r) n"
  by (simp add: ring_abs_def)

lemma ring_full_iff:
  "1 < n \<Longrightarrow> ring_ok n r \<Longrightarrow> ring_full n r \<longleftrightarrow> length (ring_abs n r) = n - 1"
  by (auto simp: ring_abs_length ring_ok_def ring_full_def IsBufferFull_def GetBufferCount_def mod_if)

lemma ring_empty_iff: "ring_ok n r \<Longrightarrow> ring_empty r \<longleftrightarrow> ring_abs n r = []"
  by (auto simp: ring_ok_def ring_empty_def IsBufferEmpty_def GetBufferCount_def
      simp flip: length_0_conv simp: ring_abs_length)

lemma ring_abs_cap: "ring_ok n r \<Longrightarrow> length (ring_abs n r) \<le> n - 1"
  using count_mod [of "read_ix r" n "write_ix r"] by (auto simp: ring_abs_length ring_ok_def)

lemma ring_fifo:
  "1 < n \<Longrightarrow> bounded_fifo (ring_abs n) (ring_ok n) (ring_full n) ring_empty (ring_put n) (ring_get n)
     (n - 1)"
  by unfold_locales
    (use ring_abs_put ring_abs_get ring_full_iff ring_empty_iff ring_abs_cap in blast)+

interpretation tx: bounded_fifo "ring_abs UART_TX_BUFFER_SIZE" "ring_ok UART_TX_BUFFER_SIZE"
    "ring_full UART_TX_BUFFER_SIZE" ring_empty "ring_put UART_TX_BUFFER_SIZE"
    "ring_get UART_TX_BUFFER_SIZE" "UART_TX_BUFFER_SIZE - 1"
  by (rule ring_fifo) (simp add: UART_TX_BUFFER_SIZE_def)

interpretation rx: bounded_fifo "ring_abs UART_RX_BUFFER_SIZE" "ring_ok UART_RX_BUFFER_SIZE"
    "ring_full UART_RX_BUFFER_SIZE" ring_empty "ring_put UART_RX_BUFFER_SIZE"
    "ring_get UART_RX_BUFFER_SIZE" "UART_RX_BUFFER_SIZE - 1"
  by (rule ring_fifo) (simp add: UART_RX_BUFFER_SIZE_def)

subsection \<open>The driver\<close>

text \<open>
  The state: the two rings, the echo switch, the static flag of the interrupt handler, the
  characters given to the UART so far, how many more its FIFO takes now, and whether its transmit
  interrupt is enabled.
\<close>

record uart =
  txb :: ring
  rxb :: ring
  g_bDisableEcho :: bool
  bLastWasCR :: bool
  line_out :: string
  room :: nat
  tx_int :: bool

text \<open>\<open>UARTPrimeTransmit\<close>: move characters into the FIFO while it has room.\<close>

function prime_loop :: "uart \<Rightarrow> uart" where
  "prime_loop st =
     (if 0 < room st \<and> \<not> ring_empty (txb st) then
        let (c, r) = ring_get UART_TX_BUFFER_SIZE (txb st) in
        prime_loop (st\<lparr>txb := r, line_out := line_out st @ [c], room := room st - 1\<rparr>)
      else st)"
  by pat_completeness auto
termination by (relation "measure room") auto

declare prime_loop.simps [simp del]

definition UARTPrimeTransmit :: "uart \<Rightarrow> uart" where
  "UARTPrimeTransmit st = (if \<not> ring_empty (txb st) then prime_loop st else st)"

text \<open>The loop of the buffered \<open>UARTwrite\<close>, which breaks at the first character without room.\<close>

fun write_loop :: "string \<Rightarrow> nat \<Rightarrow> ring \<Rightarrow> nat \<times> ring" where
  "write_loop [] uIdx r = (uIdx, r)"
| "write_loop (c # cs) uIdx r =
     (if c = LF then
        (if \<not> ring_full UART_TX_BUFFER_SIZE r then
           let r1 = ring_put UART_TX_BUFFER_SIZE CR r in
           (if \<not> ring_full UART_TX_BUFFER_SIZE r1
            then write_loop cs (uIdx + 1) (ring_put UART_TX_BUFFER_SIZE c r1)
            else (uIdx, r1))
         else (uIdx, r))
      else
        (if \<not> ring_full UART_TX_BUFFER_SIZE r
         then write_loop cs (uIdx + 1) (ring_put UART_TX_BUFFER_SIZE c r)
         else (uIdx, r)))"

definition UARTwrite_b :: "string \<Rightarrow> nat \<Rightarrow> uart \<Rightarrow> (nat \<times> uart) option" where
  "UARTwrite_b pcBuf ui32Len st =
     (if ui32Len \<le> length pcBuf then
        let (uIdx, r) = write_loop (take ui32Len pcBuf) 0 (txb st);
            st1 = st\<lparr>txb := r\<rparr> in
        Some (uIdx, if \<not> ring_empty r then (UARTPrimeTransmit st1)\<lparr>tx_int := True\<rparr> else st1)
      else None)"

text \<open>
  The buffered \<open>UARTgets\<close> and \<open>UARTgetc\<close>; on an empty ring they spin until the interrupt handler
  has put something into it, which is \<open>None\<close> here.
\<close>

partial_function (option) gets_ring :: "nat \<Rightarrow> string \<Rightarrow> ring \<Rightarrow> (string \<times> ring) option" where
  "gets_ring n line r =
     (if ring_empty r then None
      else let (c, r1) = ring_get UART_RX_BUFFER_SIZE r in
        (if c = CR \<or> c = LF \<or> c = ESC then Some (line, r1)
         else if length line < n then gets_ring n (line @ [c]) r1
         else gets_ring n line r1))"

definition UARTgets_b :: "nat \<Rightarrow> uart \<Rightarrow> (string \<times> uart) option" where
  "UARTgets_b ui32Len st =
     map_option (\<lambda>(line, r). (line, st\<lparr>rxb := r\<rparr>)) (gets_ring (ui32Len - 1) [] (rxb st))"

definition UARTgetc_b :: "uart \<Rightarrow> (char \<times> uart) option" where
  "UARTgetc_b st =
     (if ring_empty (rxb st) then None
      else let (c, r) = ring_get UART_RX_BUFFER_SIZE (rxb st) in Some (c, st\<lparr>rxb := r\<rparr>))"

definition UARTRxBytesAvail :: "uart \<Rightarrow> nat" where
  "UARTRxBytesAvail st =
     GetBufferCount (read_ix (rxb st)) (write_ix (rxb st)) UART_RX_BUFFER_SIZE"

definition UARTTxBytesFree :: "uart \<Rightarrow> nat" where
  "UARTTxBytesFree st = UART_TX_BUFFER_SIZE -
     GetBufferCount (read_ix (txb st)) (write_ix (txb st)) UART_TX_BUFFER_SIZE"

fun peek_loop :: "char \<Rightarrow> string \<Rightarrow> nat \<Rightarrow> nat \<Rightarrow> nat \<Rightarrow> int" where
  "peek_loop ch buf 0 iCount ui32ReadIndex = -1"
| "peek_loop ch buf (Suc left) iCount ui32ReadIndex =
     (if buf ! ui32ReadIndex = ch then int iCount
      else peek_loop ch buf left (iCount + 1) (ADVANCE UART_RX_BUFFER_SIZE ui32ReadIndex))"

definition UARTPeek :: "char \<Rightarrow> uart \<Rightarrow> int" where
  "UARTPeek ucChar st =
     peek_loop ucChar (cells (rxb st)) (UARTRxBytesAvail st) 0 (read_ix (rxb st))"

definition UARTFlushRx :: "uart \<Rightarrow> uart" where
  "UARTFlushRx st = st\<lparr>rxb := (rxb st)\<lparr>read_ix := 0, write_ix := 0\<rparr>\<rparr>"

text \<open>Without \<open>bDiscard\<close> the call spins until the interrupt handler has emptied the ring.\<close>

definition UARTFlushTx :: "bool \<Rightarrow> uart \<Rightarrow> uart option" where
  "UARTFlushTx bDiscard st =
     (if bDiscard then Some (st\<lparr>txb := (txb st)\<lparr>read_ix := 0, write_ix := 0\<rparr>\<rparr>)
      else if ring_empty (txb st) then Some st else None)"

definition UARTEchoSet :: "bool \<Rightarrow> uart \<Rightarrow> uart" where
  "UARTEchoSet bEnable st = st\<lparr>g_bDisableEcho := \<not> bEnable\<rparr>"

text \<open>
  The receive loop of \<open>UARTStdioIntHandler\<close>, one received character: the echo-mode editing, then
  the store of the received character (not of the CR that \<open>cChar\<close> has become) and its echo.
\<close>

definition echo :: "string \<Rightarrow> uart \<Rightarrow> uart" where
  "echo s st = (case UARTwrite_b s (length s) st of None \<Rightarrow> st | Some (n, st') \<Rightarrow> st')"

definition store_char :: "char \<Rightarrow> char \<Rightarrow> uart \<Rightarrow> uart" where
  "store_char received cChar st =
     (if \<not> ring_full UART_RX_BUFFER_SIZE (rxb st) then
        let st1 = st\<lparr>rxb := ring_put UART_RX_BUFFER_SIZE received (rxb st)\<rparr> in
        (if \<not> g_bDisableEcho st then echo [cChar] st1 else st1)
      else st)"

definition receive_char :: "char \<Rightarrow> uart \<Rightarrow> uart" where
  "receive_char c st =
     (if \<not> g_bDisableEcho st then
        (if c = BS then
           (if \<not> ring_empty (rxb st) then
              let st1 = echo [BS, CHR '' '', BS] st in
              st1\<lparr>rxb := (rxb st1)\<lparr>write_ix :=
                (if write_ix (rxb st1) = 0 then UART_RX_BUFFER_SIZE - 1
                 else write_ix (rxb st1) - 1)\<rparr>\<rparr>
            else st)
         else if c = LF \<and> bLastWasCR st then st\<lparr>bLastWasCR := False\<rparr>
         else if c = CR \<or> c = LF \<or> c = ESC then
           (let st1 = (if c = CR then st\<lparr>bLastWasCR := True\<rparr> else st) in
            store_char c CR (echo [LF] st1))
         else store_char c c st)
      else store_char c c st)"

definition UARTStdioIntHandler :: "bool \<Rightarrow> bool \<Rightarrow> string \<Rightarrow> uart \<Rightarrow> uart" where
  "UARTStdioIntHandler int_tx int_rx received st =
     (let st1 = (if int_tx then
                   let s = UARTPrimeTransmit st in
                   (if ring_empty (txb s) then s\<lparr>tx_int := False\<rparr> else s)
                 else st) in
      if int_rx then (UARTPrimeTransmit (fold receive_char received st1))\<lparr>tx_int := True\<rparr>
      else st1)"

subsection \<open>Refinement to lists\<close>

text \<open>The transmit stream: what the UART has been given, then what is still in the ring.\<close>

definition uart_ok :: "uart \<Rightarrow> bool" where
  "uart_ok st \<longleftrightarrow> ring_ok UART_TX_BUFFER_SIZE (txb st) \<and> ring_ok UART_RX_BUFFER_SIZE (rxb st)"

abbreviation tx_list :: "uart \<Rightarrow> string" where
  "tx_list st \<equiv> ring_abs UART_TX_BUFFER_SIZE (txb st)"

abbreviation rx_list :: "uart \<Rightarrow> string" where
  "rx_list st \<equiv> ring_abs UART_RX_BUFFER_SIZE (rxb st)"

lemma prime_loop_spec:
  "uart_ok st \<Longrightarrow> uart_ok (prime_loop st) \<and>
     line_out (prime_loop st) @ tx_list (prime_loop st) = line_out st @ tx_list st \<and>
     (room (prime_loop st) = 0 \<or> tx_list (prime_loop st) = []) \<and>
     rxb (prime_loop st) = rxb st \<and> g_bDisableEcho (prime_loop st) = g_bDisableEcho st \<and>
     bLastWasCR (prime_loop st) = bLastWasCR st"
proof (induction st rule: prime_loop.induct)
  case (1 st)
  show ?case
  proof (cases "0 < room st \<and> \<not> ring_empty (txb st)")
    case True
    obtain c r where g: "ring_get UART_TX_BUFFER_SIZE (txb st) = (c, r)" by fastforce
    let ?s = "st\<lparr>txb := r, line_out := line_out st @ [c], room := room st - 1\<rparr>"
    have a: "ring_ok UART_TX_BUFFER_SIZE r" "tx_list st = c # ring_abs UART_TX_BUFFER_SIZE r"
      using tx.abs_get [of "txb st"] True "1.prems" g by (auto simp: uart_ok_def)
    have e: "prime_loop st = prime_loop ?s" using True g by (subst prime_loop.simps) simp
    have "uart_ok ?s" using a "1.prems" by (simp add: uart_ok_def)
    with "1.IH" [OF True g [symmetric] refl] show ?thesis unfolding e using a by simp
  next
    case False
    then have "prime_loop st = st" by (subst prime_loop.simps) (simp only: if_False)
    with False "1.prems" tx.empty_iff show ?thesis by (auto simp: uart_ok_def)
  qed
qed

lemma prime_spec:
  "uart_ok st \<Longrightarrow> uart_ok (UARTPrimeTransmit st) \<and>
     line_out (UARTPrimeTransmit st) @ tx_list (UARTPrimeTransmit st) = line_out st @ tx_list st \<and>
     rxb (UARTPrimeTransmit st) = rxb st \<and>
     g_bDisableEcho (UARTPrimeTransmit st) = g_bDisableEcho st \<and>
     bLastWasCR (UARTPrimeTransmit st) = bLastWasCR st"
  using prime_loop_spec [of st] by (simp add: UARTPrimeTransmit_def)

lemma write_loop_put_all:
  "snd (write_loop s k r) = tx.put_all (put_chars s) r"
  by (induction s k r rule: write_loop.induct) (auto simp: Let_def)

lemma put_all_stuck: "ring_full UART_TX_BUFFER_SIZE r \<Longrightarrow> tx.put_all xs r = r"
  by (cases xs) auto

lemma write_loop_count:
  "ring_ok UART_TX_BUFFER_SIZE r \<Longrightarrow>
   fst (write_loop s k r) \<le> k + length s \<and>
   (fst (write_loop s k r) = k + length s \<longleftrightarrow>
      length (ring_abs UART_TX_BUFFER_SIZE r) + length (put_chars s) \<le> UART_TX_BUFFER_SIZE - 1)"
proof (induction s k r rule: write_loop.induct)
  case (1 k r)
  then show ?case using tx.abs_cap by simp
next
  case (2 c cs k r)
  let ?put = "ring_put UART_TX_BUFFER_SIZE" and ?full = "ring_full UART_TX_BUFFER_SIZE"
  let ?abs = "ring_abs UART_TX_BUFFER_SIZE"
  have full: "?full r' \<longleftrightarrow> length (?abs r') = UART_TX_BUFFER_SIZE - 1"
    if "ring_ok UART_TX_BUFFER_SIZE r'" for r' using that by (rule tx.full_iff)
  show ?case
  proof (cases "?full r")
    case True
    with full [OF 2(3)] show ?thesis by auto
  next
    case False
    have p: "ring_ok UART_TX_BUFFER_SIZE (?put d r)" "?abs (?put d r) = ?abs r @ [d]" for d
      using tx.abs_put [OF 2(3) False] by simp_all
    show ?thesis
    proof (cases "c = LF")
      case True
      note lf = True
      show ?thesis
      proof (cases "?full (?put CR r)")
        case True
        with full [OF p(1)] p(2) lf False show ?thesis by auto
      next
        case nf: False
        have q: "ring_ok UART_TX_BUFFER_SIZE (?put c (?put CR r))"
          "?abs (?put c (?put CR r)) = ?abs r @ [CR, c]"
          using tx.abs_put [OF p(1) nf] p(2) by simp_all
        show ?thesis
          using 2(1) [OF lf False refl nf q(1)] False nf lf q(2) by auto
      qed
    next
      case nl: False
      show ?thesis using 2(2) [OF nl False p(1)] False nl p(2) by auto
    qed
  qed
qed

lemma write_b_spec:
  assumes "uart_ok st" "len \<le> length s"
  shows "\<exists>k st'. UARTwrite_b s len st = Some (k, st') \<and> uart_ok st' \<and> rxb st' = rxb st \<and>
    g_bDisableEcho st' = g_bDisableEcho st \<and> bLastWasCR st' = bLastWasCR st \<and>
    line_out st' @ tx_list st' =
      line_out st @ take (UART_TX_BUFFER_SIZE - 1) (tx_list st @ put_chars (take len s)) \<and>
    k \<le> len \<and> (k = len \<longleftrightarrow>
      length (tx_list st) + length (put_chars (take len s)) \<le> UART_TX_BUFFER_SIZE - 1)"
proof -
  have t: "ring_ok UART_TX_BUFFER_SIZE (txb st)" using assms(1) by (simp add: uart_ok_def)
  obtain k r where w: "write_loop (take len s) 0 (txb st) = (k, r)" by fastforce
  then have r: "r = tx.put_all (put_chars (take len s)) (txb st)"
    using write_loop_put_all [of "take len s" 0 "txb st"] by simp
  have a: "ring_ok UART_TX_BUFFER_SIZE r" "ring_abs UART_TX_BUFFER_SIZE r =
      take (UART_TX_BUFFER_SIZE - 1) (tx_list st @ put_chars (take len s))"
    using tx.put_all_abs [OF t] r by simp_all
  have k: "k \<le> len \<and> (k = len \<longleftrightarrow>
      length (tx_list st) + length (put_chars (take len s)) \<le> UART_TX_BUFFER_SIZE - 1)"
    using write_loop_count [OF t, of "take len s" 0] w assms(2) by simp
  have ok: "uart_ok (st\<lparr>txb := r\<rparr>)" using a assms(1) by (simp add: uart_ok_def)
  define st' where "st' = (if \<not> ring_empty r
    then (UARTPrimeTransmit (st\<lparr>txb := r\<rparr>))\<lparr>tx_int := True\<rparr> else st\<lparr>txb := r\<rparr>)"
  have "UARTwrite_b s len st = Some (k, st')"
    using assms(2) by (simp add: UARTwrite_b_def w st'_def Let_def)
  moreover have "uart_ok st' \<and> rxb st' = rxb st \<and> g_bDisableEcho st' = g_bDisableEcho st \<and>
      bLastWasCR st' = bLastWasCR st \<and> line_out st' @ tx_list st' =
        line_out st @ take (UART_TX_BUFFER_SIZE - 1) (tx_list st @ put_chars (take len s))"
    using prime_spec [OF ok] ok a(2) by (simp add: st'_def uart_ok_def)
  ultimately show ?thesis using k by blast
qed

lemma echo_spec:
  assumes "uart_ok st"
  shows "uart_ok (echo s st) \<and> rxb (echo s st) = rxb st \<and>
    g_bDisableEcho (echo s st) = g_bDisableEcho st \<and> bLastWasCR (echo s st) = bLastWasCR st \<and>
    line_out (echo s st) @ tx_list (echo s st) =
      line_out st @ take (UART_TX_BUFFER_SIZE - 1) (tx_list st @ put_chars s)"
  using write_b_spec [OF assms, of "length s" s] by (auto simp: echo_def)

lemma gets_ring_spec:
  "ring_ok UART_RX_BUFFER_SIZE r \<Longrightarrow> ring_abs UART_RX_BUFFER_SIZE r = pre @ c # rest \<Longrightarrow>
   set pre \<inter> {CR, LF, ESC} = {} \<Longrightarrow> c \<in> {CR, LF, ESC} \<Longrightarrow>
   \<exists>r'. gets_ring n line r = Some (line @ take (n - length line) pre, r') \<and>
     ring_ok UART_RX_BUFFER_SIZE r' \<and> ring_abs UART_RX_BUFFER_SIZE r' = rest"
proof (induction pre arbitrary: r line)
  case Nil
  then have ne: "\<not> ring_empty r" using rx.empty_iff by simp
  obtain d r1 where g: "ring_get UART_RX_BUFFER_SIZE r = (d, r1)" by fastforce
  show ?case
    using rx.abs_get [OF Nil(1) ne] Nil g ne by (subst gets_ring.simps) auto
next
  case (Cons x pre)
  then have ne: "\<not> ring_empty r" using rx.empty_iff by simp
  obtain d r1 where g: "ring_get UART_RX_BUFFER_SIZE r = (d, r1)" by fastforce
  then have d: "d = x" "ring_ok UART_RX_BUFFER_SIZE r1"
    "ring_abs UART_RX_BUFFER_SIZE r1 = pre @ c # rest"
    using rx.abs_get [OF Cons(2) ne] Cons(3) by auto
  have step: "gets_ring n line r =
      (if length line < n then gets_ring n (line @ [x]) r1 else gets_ring n line r1)"
    using ne g d Cons(4) by (subst gets_ring.simps) auto
  show ?case
  proof (cases "length line < n")
    case True
    then obtain k where "n - length line = Suc k" "n - Suc (length line) = k"
      by (metis Suc_diff_Suc)
    with Cons(1) [OF d(2,3), of "line @ [x]"] Cons(4,5) True show ?thesis unfolding step by auto
  next
    case False
    with Cons(1) [OF d(2,3), of line] Cons(4,5) show ?thesis unfolding step by auto
  qed
qed

text \<open>The position of a character, as \<open>UARTPeek\<close> reports it.\<close>

fun position :: "char \<Rightarrow> string \<Rightarrow> nat option" where
  "position c [] = None"
| "position c (d # s) = (if d = c then Some 0 else map_option Suc (position c s))"

lemma peek_loop_spec:
  "i < UART_RX_BUFFER_SIZE \<Longrightarrow>
   peek_loop ch buf k n i =
     (case position ch (map (\<lambda>j. buf ! ((i + j) mod UART_RX_BUFFER_SIZE)) [0..<k]) of
        None \<Rightarrow> - 1 | Some p \<Rightarrow> int (n + p))"
proof (induction k arbitrary: n i)
  case (Suc k)
  have e: "map (\<lambda>j. buf ! ((i + j) mod UART_RX_BUFFER_SIZE)) [0..<Suc k] =
      buf ! i # map (\<lambda>j. buf ! ((ADVANCE UART_RX_BUFFER_SIZE i + j) mod UART_RX_BUFFER_SIZE)) [0..<k]"
    using Suc(2) by (simp add: upt_conv_Cons map_Suc_upt [symmetric] ADVANCE_def mod_add_left_eq
        del: upt_Suc)
  have "ADVANCE UART_RX_BUFFER_SIZE i < UART_RX_BUFFER_SIZE"
    by (simp add: ADVANCE_def UART_RX_BUFFER_SIZE_def)
  then show ?case
    using Suc(1) [of "ADVANCE UART_RX_BUFFER_SIZE i" "n + 1"] unfolding e
    by (auto split: option.split)
qed simp

lemma peek_position:
  "uart_ok st \<Longrightarrow> UARTPeek ch st = (case position ch (rx_list st) of None \<Rightarrow> - 1 | Some p \<Rightarrow> int p)"
  unfolding UARTPeek_def
  by (subst peek_loop_spec)
    (auto simp: uart_ok_def ring_ok_def ring_abs_def UARTRxBytesAvail_def split: option.split)

lemma position_None: "position c s = None \<longleftrightarrow> c \<notin> set s"
  by (induction s) auto

subsection \<open>The interrupt handler\<close>

lemma rx_store:
  assumes "uart_ok st"
  shows "uart_ok (store_char c e st) \<and>
    rx_list (store_char c e st) = take (UART_RX_BUFFER_SIZE - 1) (rx_list st @ [c]) \<and>
    g_bDisableEcho (store_char c e st) = g_bDisableEcho st \<and>
    bLastWasCR (store_char c e st) = bLastWasCR st"
proof -
  have r: "ring_ok UART_RX_BUFFER_SIZE (rxb st)" using assms by (simp add: uart_ok_def)
  show ?thesis
  proof (cases "ring_full UART_RX_BUFFER_SIZE (rxb st)")
    case True
    then show ?thesis using assms rx.full_iff [OF r] by (simp add: store_char_def)
  next
    case False
    let ?s = "st\<lparr>rxb := ring_put UART_RX_BUFFER_SIZE c (rxb st)\<rparr>"
    have p: "uart_ok ?s" "rx_list ?s = rx_list st @ [c]"
      using rx.abs_put [OF r False] assms by (simp_all add: uart_ok_def)
    moreover have "length (rx_list ?s) \<le> UART_RX_BUFFER_SIZE - 1"
      using p(1) rx.abs_cap by (simp add: uart_ok_def)
    ultimately show ?thesis
      using False echo_spec [OF p(1), of "[e]"] by (auto simp: store_char_def Let_def)
  qed
qed

lemma ring_abs_back:
  assumes "1 < n" "ring_ok n r" "\<not> ring_empty r"
  defines "r' \<equiv> r\<lparr>write_ix := (if write_ix r = 0 then n - 1 else write_ix r - 1)\<rparr>"
  shows "ring_ok n r' \<and> ring_abs n r' = butlast (ring_abs n r)"
proof
  have i: "read_ix r < n" "write_ix r < n" "length (cells r) = n" "read_ix r \<noteq> write_ix r"
    using assms(2,3) by (auto simp: ring_ok_def ring_empty_def IsBufferEmpty_def)
  show "ring_ok n r'" using assms(1,2) by (auto simp: r'_def ring_ok_def)
  have "GetBufferCount (read_ix r) (write_ix r) n =
      Suc (GetBufferCount (read_ix r) (write_ix r') n)"
    using i by (auto simp: GetBufferCount_def r'_def)
  then show "ring_abs n r' = butlast (ring_abs n r)"
    unfolding ring_abs_def by (simp add: r'_def)
qed

text \<open>What one typed character does to the unread input and to the CR flag, with echo on.\<close>

fun typed :: "char \<Rightarrow> string \<times> bool \<Rightarrow> string \<times> bool" where
  "typed c (l, cr) =
     (if c = BS then (butlast l, cr)
      else if c = LF \<and> cr then (l, False)
      else (take (UART_RX_BUFFER_SIZE - 1) (l @ [c]), cr \<or> c = CR))"

lemma receive_typed:
  assumes "uart_ok st" "\<not> g_bDisableEcho st"
  shows "uart_ok (receive_char c st) \<and> \<not> g_bDisableEcho (receive_char c st) \<and>
    (rx_list (receive_char c st), bLastWasCR (receive_char c st)) =
      typed c (rx_list st, bLastWasCR st)"
proof -
  have r: "ring_ok UART_RX_BUFFER_SIZE (rxb st)" using assms by (simp add: uart_ok_def)
  consider (bs) "c = BS" "\<not> ring_empty (rxb st)" | (nobs) "c = BS" "ring_empty (rxb st)"
    | (gobble) "c = LF" "bLastWasCR st" | (ends) "c \<in> {CR, ESC, LF}" "c = LF \<longrightarrow> \<not> bLastWasCR st"
    | (plain) "c \<notin> {BS, CR, LF, ESC}" by auto
  then show ?thesis
  proof cases
    case bs
    have "(1::nat) < UART_RX_BUFFER_SIZE" by (simp add: UART_RX_BUFFER_SIZE_def)
    from ring_abs_back [OF this r bs(2)] bs echo_spec [OF assms(1), of "[BS, CHR '' '', BS]"] assms(2)
    show ?thesis by (auto simp: receive_char_def Let_def uart_ok_def split: if_splits)
  next
    case nobs
    then show ?thesis using rx.empty_iff [OF r] assms by (simp add: receive_char_def)
  next
    case gobble
    then show ?thesis using assms by (simp add: receive_char_def uart_ok_def)
  next
    case ends
    let ?s = "if c = CR then st\<lparr>bLastWasCR := True\<rparr> else st"
    have o: "uart_ok ?s" using assms by (simp add: uart_ok_def)
    have e: "receive_char c st = store_char c CR (echo [LF] ?s)"
      using ends assms by (auto simp: receive_char_def)
    show ?thesis unfolding e
      using echo_spec [OF o, of "[LF]"] rx_store [of "echo [LF] ?s" c CR] ends assms(2) by auto
  next
    case plain
    then show ?thesis using rx_store [OF assms(1), of c c] assms(2) by (auto simp: receive_char_def)
  qed
qed

lemma receive_all_typed:
  "uart_ok st \<Longrightarrow> \<not> g_bDisableEcho st \<Longrightarrow>
   uart_ok (fold receive_char cs st) \<and> \<not> g_bDisableEcho (fold receive_char cs st) \<and>
   (rx_list (fold receive_char cs st), bLastWasCR (fold receive_char cs st)) =
     fold typed cs (rx_list st, bLastWasCR st)"
proof (induction cs arbitrary: st)
  case (Cons c cs)
  with receive_typed [OF Cons.prems, of c] Cons.IH [of "receive_char c st"] show ?case by simp
qed simp

lemma handler_typed:
  assumes "uart_ok st" "\<not> g_bDisableEcho st"
  shows "uart_ok (UARTStdioIntHandler t True cs st) \<and>
    (rx_list (UARTStdioIntHandler t True cs st), bLastWasCR (UARTStdioIntHandler t True cs st)) =
      fold typed cs (rx_list st, bLastWasCR st)"
proof -
  define st1 where "st1 = (if t then
      let s = UARTPrimeTransmit st in (if ring_empty (txb s) then s\<lparr>tx_int := False\<rparr> else s)
    else st)"
  have 1: "uart_ok st1 \<and> rxb st1 = rxb st \<and> \<not> g_bDisableEcho st1 \<and> bLastWasCR st1 = bLastWasCR st"
    using prime_spec [OF assms(1)] assms by (auto simp: st1_def Let_def uart_ok_def)
  have e: "UARTStdioIntHandler t True cs st =
      (UARTPrimeTransmit (fold receive_char cs st1))\<lparr>tx_int := True\<rparr>"
    by (simp add: UARTStdioIntHandler_def st1_def Let_def)
  from receive_all_typed [of st1 cs] 1
  have "uart_ok (fold receive_char cs st1)"
    "(rx_list (fold receive_char cs st1), bLastWasCR (fold receive_char cs st1)) =
      fold typed cs (rx_list st, bLastWasCR st)" by auto
  with prime_spec [OF this(1)] show ?thesis unfolding e by (simp add: uart_ok_def)
qed

lemma typed_plain:
  "set pre \<inter> {CR, LF, ESC, BS} = {} \<Longrightarrow> length l + length pre < UART_RX_BUFFER_SIZE \<Longrightarrow>
   fold typed pre (l, cr) = (l @ pre, cr)"
  by (induction pre arbitrary: l) auto

subsection \<open>Properties\<close>


definition uart_reset :: "nat \<Rightarrow> uart" where
  "uart_reset n = \<lparr>txb = \<lparr>cells = replicate UART_TX_BUFFER_SIZE (CHR 0x00), write_ix = 0, read_ix = 0\<rparr>,
     rxb = \<lparr>cells = replicate UART_RX_BUFFER_SIZE (CHR 0x00), write_ix = 0, read_ix = 0\<rparr>,
     g_bDisableEcho = False, bLastWasCR = False, line_out = [], room = n, tx_int = False\<rparr>"

lemma reset_ok: "uart_ok (uart_reset n)" "tx_list (uart_reset n) = []" "rx_list (uart_reset n) = []"
  by (simp_all add: uart_ok_def uart_reset_def ring_ok_def ring_abs_def GetBufferCount_def
      UART_RX_BUFFER_SIZE_def UART_TX_BUFFER_SIZE_def)

lemma reset_fields: "line_out (uart_reset n) = []" "\<not> g_bDisableEcho (uart_reset n)"
  "\<not> bLastWasCR (uart_reset n)"
  by (simp_all add: uart_reset_def)




text \<open>
  Looking ahead: after a line ended by LF the receive buffer holds a complete line, but it holds
  the LF and not the CR that the handler's comment and \<open>UARTPeek\<close>'s documentation name as the line
  marker, so \<open>UARTPeek\<close> for CR reports that there is no line.
\<close>

theorem UARTPeek_misses_line:
  assumes "uart_ok st" "\<not> g_bDisableEcho st" "\<not> bLastWasCR st" "rx_list st = []"
    and "set pre \<inter> {CR, LF, ESC, BS} = {}" "length pre < 127"
  shows "UARTPeek CR (UARTStdioIntHandler t True (pre @ [LF]) st) = - 1 \<and>
    UARTPeek LF (UARTStdioIntHandler t True (pre @ [LF]) st) \<noteq> - 1"
proof -
  let ?h = "UARTStdioIntHandler t True (pre @ [LF]) st"
  have "fold typed (pre @ [LF]) ([], False) = (pre @ [LF], False)"
    using typed_plain [of pre "[]" False] assms(5,6) by (auto simp: UART_RX_BUFFER_SIZE_def)
  with handler_typed [OF assms(1,2), of t "pre @ [LF]"] assms(3,4)
  have h: "uart_ok ?h" "rx_list ?h = pre @ [LF]" by auto
  have "position CR (pre @ [LF]) = None" using assms(5) by (simp add: position_None)
  moreover have "position LF (pre @ [LF]) \<noteq> None" by (simp add: position_None)
  ultimately show ?thesis using h by (auto simp: peek_position split: option.splits)
qed

theorem UARTPeek_misses_line_witness:
  "UARTPeek CR (UARTStdioIntHandler False True (''ok'' @ [LF]) (uart_reset 0)) = - 1"
  using UARTPeek_misses_line [OF reset_ok(1), of 0 "''ok''" False] reset_ok(3)
  by (simp add: reset_fields)

end
