(* ===== verification/UartConfig.thy ===== *)
theory UartConfig
  imports UartBuffered
begin

text \<open>
  \<open>uartstdio.c\<close>: the configuration of the console, without and with \<open>UART_BUFFERED\<close>. The calls of the
  driver library are recorded in order; which peripherals exist and the base addresses and numbers
  of its headers are parameters. A failed \<open>ASSERT\<close> or an access outside the tables is \<open>None\<close>.
\<close>

datatype driver_call =
    SysCtlPeripheralEnable u32
  | UARTConfigSetExpClk u32 u32 u32 u32
  | UARTFIFOLevelSet u32 u32 u32
  | UARTIntDisable u32 u32
  | UARTIntEnable u32 u32
  | IntEnable u32
  | UARTEnable u32

record uart_driver =
  g_ui32UARTBase :: "u32 list"
  g_ui32UARTInt :: "u32 list"
  g_ui32UARTPeriph :: "u32 list"
  SysCtlPeripheralPresent :: "u32 \<Rightarrow> bool"
  CONFIG_8N1 :: u32
  FIFO_TX1_8 :: u32
  FIFO_RX1_8 :: u32
  INT_RX_RT :: u32

record console =
  g_ui32Base :: u32
  g_ui32PortNum :: nat
  state :: uart
  calls :: "driver_call list"

text \<open>\<open>debug\<close>: whether \<open>ASSERT\<close> is compiled in; \<open>buffered\<close>: whether \<open>UART_BUFFERED\<close> is defined.\<close>

definition UARTStdioConfig ::
  "bool \<Rightarrow> bool \<Rightarrow> uart_driver \<Rightarrow> nat \<Rightarrow> u32 \<Rightarrow> u32 \<Rightarrow> console \<Rightarrow> console option" where
  "UARTStdioConfig debug buffered D ui32PortNum ui32Baud ui32SrcClock c =
     (if debug \<and> \<not> (ui32PortNum = 0 \<or> ui32PortNum = 1 \<or> ui32PortNum = 2) then None
      else if debug \<and> buffered \<and> g_ui32Base c \<noteq> 0 then None
      else do {
        periph \<leftarrow> rd (g_ui32UARTPeriph D) (int ui32PortNum);
        if \<not> SysCtlPeripheralPresent D periph then Some c
        else do {
          base \<leftarrow> rd (g_ui32UARTBase D) (int ui32PortNum);
          let c = c\<lparr>g_ui32Base := base, calls := calls c @
            [SysCtlPeripheralEnable periph, UARTConfigSetExpClk base ui32SrcClock ui32Baud (CONFIG_8N1 D)]\<rparr>;
          if buffered then do {
            st \<leftarrow> UARTFlushTx True (UARTFlushRx (state c));
            irq \<leftarrow> rd (g_ui32UARTInt D) (int ui32PortNum);
            Some (c\<lparr>state := st, g_ui32PortNum := ui32PortNum, calls := calls c @
              [UARTFIFOLevelSet base (FIFO_TX1_8 D) (FIFO_RX1_8 D), UARTIntDisable base 0xFFFFFFFF,
               UARTIntEnable base (INT_RX_RT D), IntEnable irq, UARTEnable base]\<rparr>)
          }
          else Some (c\<lparr>calls := calls c @ [UARTEnable base]\<rparr>)
        }
      })"

text \<open>The three tables have three entries, and all arrays of the module their sizes.\<close>

definition driver_ok :: "uart_driver \<Rightarrow> bool" where
  "driver_ok D \<longleftrightarrow> length (g_ui32UARTBase D) = 3 \<and> length (g_ui32UARTInt D) = 3 \<and>
     length (g_ui32UARTPeriph D) = 3"

lemma flushed_ok:
  assumes "length (cells (txb st)) = UART_TX_BUFFER_SIZE" "length (cells (rxb st)) = UART_RX_BUFFER_SIZE"
  obtains st' where "UARTFlushTx True (UARTFlushRx st) = Some st'" "uart_ok st'"
    "tx_list st' = []" "rx_list st' = []"
proof
  let ?st = "st\<lparr>rxb := (rxb st)\<lparr>read_ix := 0, write_ix := 0\<rparr>, txb := (txb st)\<lparr>read_ix := 0, write_ix := 0\<rparr>\<rparr>"
  show "UARTFlushTx True (UARTFlushRx st) = Some ?st"
    by (simp add: UARTFlushTx_def UARTFlushRx_def)
  show "uart_ok ?st" "tx_list ?st = []" "rx_list ?st = []"
    using assms by (simp_all add: uart_ok_def ring_ok_def ring_abs_def GetBufferCount_def
      UART_TX_BUFFER_SIZE_def UART_RX_BUFFER_SIZE_def)
qed

text \<open>
  For a port number up to 2 the configuration never leaves its tables. When the peripheral exists and
  the console is buffered, the module's state is well-formed afterwards with both rings empty, so
  that every theorem on reading and writing applies; the receive interrupts are enabled after the
  peripheral is configured, and the UART itself last. When it does not exist nothing happens, and
  the caller is not told.
\<close>

theorem UARTStdioConfig_correct:
  assumes "driver_ok D" "n \<le> 2" "g_ui32Base c = 0" "SysCtlPeripheralPresent D (g_ui32UARTPeriph D ! n)"
    "length (cells (txb (state c))) = UART_TX_BUFFER_SIZE"
    "length (cells (rxb (state c))) = UART_RX_BUFFER_SIZE"
  shows "\<exists>c'. UARTStdioConfig debug True D n baud clock c = Some c' \<and> uart_ok (state c') \<and>
    tx_list (state c') = [] \<and> rx_list (state c') = [] \<and> g_ui32Base c' = g_ui32UARTBase D ! n \<and>
    (\<exists>early. calls c' = calls c @ early @
       [UARTIntEnable (g_ui32Base c') (INT_RX_RT D), IntEnable (g_ui32UARTInt D ! n), UARTEnable (g_ui32Base c')])"
proof -
  obtain st' where st: "UARTFlushTx True (UARTFlushRx (state c)) = Some st'" "uart_ok st'"
      "tx_list st' = []" "rx_list st' = []"
    using flushed_ok [OF assms(5,6)] .
  have n: "n = 0 \<or> n = 1 \<or> n = 2" using assms(2) by linarith
  have t: "rd (g_ui32UARTPeriph D) (int n) = Some (g_ui32UARTPeriph D ! n)"
      "rd (g_ui32UARTBase D) (int n) = Some (g_ui32UARTBase D ! n)"
      "rd (g_ui32UARTInt D) (int n) = Some (g_ui32UARTInt D ! n)"
    using assms(1,2) by (simp_all add: driver_ok_def mem)
  show ?thesis
    using n assms(3,4) st t by (simp add: UARTStdioConfig_def Let_def)
qed

lemma UARTStdioConfig_absent:
  assumes "driver_ok D" "n \<le> 2" "\<not> SysCtlPeripheralPresent D (g_ui32UARTPeriph D ! n)"
  shows "UARTStdioConfig False buffered D n baud clock c = Some c"
  using assms by (simp add: UARTStdioConfig_def driver_ok_def mem)

lemma UARTStdioConfig_outside:
  "driver_ok D \<Longrightarrow> 3 \<le> n \<Longrightarrow> UARTStdioConfig debug buffered D n baud clock c = None"
  by (auto simp: UARTStdioConfig_def driver_ok_def mem)

lemma UARTStdioConfig_correct_witness:
  "\<exists>c'. UARTStdioConfig True True \<lparr>g_ui32UARTBase = [1, 2, 3], g_ui32UARTInt = [21, 22, 49],
       g_ui32UARTPeriph = [10, 11, 12], SysCtlPeripheralPresent = (\<lambda>p. p = 11), CONFIG_8N1 = 0x60,
       FIFO_TX1_8 = 0, FIFO_RX1_8 = 0, INT_RX_RT = 0x50\<rparr> 1 115200 120000000
     \<lparr>g_ui32Base = 0, g_ui32PortNum = 0, state = uart_reset 16, calls = []\<rparr> = Some c' \<and> g_ui32Base c' = 2"
  (is "\<exists>c'. UARTStdioConfig True True ?D 1 115200 120000000 ?c = Some c' \<and> _")
proof -
  have "driver_ok ?D" by (simp add: driver_ok_def)
  moreover have "SysCtlPeripheralPresent ?D (g_ui32UARTPeriph ?D ! 1)" "g_ui32UARTBase ?D ! 1 = 2" by simp_all
  moreover have "length (cells (txb (state ?c))) = UART_TX_BUFFER_SIZE"
      "length (cells (rxb (state ?c))) = UART_RX_BUFFER_SIZE" "g_ui32Base ?c = 0"
    by (simp_all add: uart_reset_def)
  ultimately show ?thesis using UARTStdioConfig_correct [of ?D 1 ?c True 115200 120000000] by fastforce
qed

end
