(* ===== verification/CgiFuncs.thy ===== *)
theory CgiFuncs
  imports Prelude
begin

text \<open>
  \<open>cgifuncs.c\<close>: the parameter helpers of the web server. Strings are given without their NUL; the
  output buffers are checked, a write past their length being \<open>None\<close>. \<open>usnprintf\<close> of the vendor's
  library is a parameter: from the size of the destination and the text to print it gives the bytes
  stored (the NUL included) and the value returned.
\<close>

abbreviation TAB :: char where "TAB \<equiv> CHR 0x09"

abbreviation (input) ord :: "char \<Rightarrow> int" where "ord c \<equiv> of_char c"

subsection \<open>Looking up a parameter\<close>

fun find_loop :: "string \<Rightarrow> string list \<Rightarrow> int \<Rightarrow> nat \<Rightarrow> int option" where
  "find_loop pcToFind pcParam i32Loop 0 = Some (- 1)"
| "find_loop pcToFind pcParam i32Loop (Suc left) =
     do { p \<leftarrow> rd pcParam i32Loop;
          if strcmp pcToFind p = 0 then Some i32Loop
          else find_loop pcToFind pcParam (i32Loop + 1) left }"

definition FindCGIParameter :: "string \<Rightarrow> string list \<Rightarrow> int \<Rightarrow> int option" where
  "FindCGIParameter pcToFind pcParam i32NumParams =
     find_loop pcToFind pcParam 0 (nat i32NumParams)"

subsection \<open>Hexadecimal escapes\<close>

definition IsValidHexDigit :: "char \<Rightarrow> bool" where
  "IsValidHexDigit cDigit \<longleftrightarrow>
     48 \<le> ord cDigit \<and> ord cDigit \<le> 57 \<or> 97 \<le> ord cDigit \<and> ord cDigit \<le> 102 \<or>
     65 \<le> ord cDigit \<and> ord cDigit \<le> 70"

definition HexDigit :: "char \<Rightarrow> int" where
  "HexDigit cDigit =
     (if 48 \<le> ord cDigit \<and> ord cDigit \<le> 57 then ord cDigit - 48
      else if 97 \<le> ord cDigit \<and> ord cDigit \<le> 102 then ord cDigit - 97 + 10
      else if 65 \<le> ord cDigit \<and> ord cDigit \<le> 70 then ord cDigit - 65 + 10
      else 0xFF)"

definition DecodeHexEscape :: "char \<Rightarrow> char \<Rightarrow> char \<Rightarrow> char option" where
  "DecodeHexEscape c0 c1 c2 =
     (if c0 \<noteq> CHR ''%'' \<or> \<not> IsValidHexDigit c1 \<or> \<not> IsValidHexDigit c2 then None
      else Some (char_of (HexDigit c1 * 16 + HexDigit c2)))"

subsection \<open>Encoding for HTML\<close>

fun encode_loop ::
  "(nat \<Rightarrow> string \<Rightarrow> string \<times> nat) \<Rightarrow> nat \<Rightarrow> string \<Rightarrow> string \<Rightarrow> nat \<Rightarrow> (string \<times> nat) option" where
  "encode_loop usnprintf ui32Len [] pcEncoded ui32Count = Some (pcEncoded, ui32Count)"
| "encode_loop usnprintf ui32Len (c # cs) pcEncoded ui32Count =
     (if ui32Count < ui32Len - 1 then
        (if c = CHR 0x27 then
           (let (stored, n) = usnprintf (ui32Len - ui32Count) ''&#39;'' in
            do { b \<leftarrow> poke pcEncoded ui32Count stored;
                 encode_loop usnprintf ui32Len cs b (ui32Count + n) })
         else
           do { b \<leftarrow> poke pcEncoded ui32Count [c];
                encode_loop usnprintf ui32Len cs b (ui32Count + 1) })
      else Some (pcEncoded, ui32Count))"

definition EncodeFormString ::
  "(nat \<Rightarrow> string \<Rightarrow> string \<times> nat) \<Rightarrow> string \<Rightarrow> string \<Rightarrow> nat \<Rightarrow> (string \<times> nat) option" where
  "EncodeFormString usnprintf pcDecoded pcEncoded ui32Len =
     (if ui32Len \<le> 1 then Some (pcEncoded, 0)
      else encode_loop usnprintf ui32Len pcDecoded pcEncoded 0)"

subsection \<open>Decoding a URI\<close>

text \<open>
  The loop of \<open>DecodeFormString\<close>. The buffer has \<open>ui32Len\<close> bytes, \<open>out\<close> are those written so far;
  the limit \<open>ui32Len - 1\<close> is computed in \<open>uint32_t\<close>.
\<close>

definition append_byte :: "u32 \<Rightarrow> string \<Rightarrow> char \<Rightarrow> string option" where
  "append_byte ui32Len out c = (if length out < unat ui32Len then Some (out @ [c]) else None)"

definition terminate_at :: "u32 \<Rightarrow> string \<Rightarrow> string option" where
  "terminate_at ui32Len out = (if length out < unat ui32Len then Some out else None)"

fun decode_loop :: "u32 \<Rightarrow> string \<Rightarrow> string \<Rightarrow> string option" where
  "decode_loop ui32Len [] out = terminate_at ui32Len out"
| "decode_loop ui32Len (c # cs) out =
     (if length out < unat (ui32Len - 1) then
        (if c = CHR ''+'' then
           do { o1 \<leftarrow> append_byte ui32Len out CHR '' ''; decode_loop ui32Len cs o1 }
         else if c = CHR ''%'' then
           (case cs of
              c1 # c2 # rest \<Rightarrow>
                (case DecodeHexEscape c c1 c2 of
                   None \<Rightarrow> decode_loop ui32Len rest out
                 | Some d \<Rightarrow>
                     do { o1 \<leftarrow> append_byte ui32Len out d; decode_loop ui32Len rest o1 })
            | _ \<Rightarrow> terminate_at ui32Len out)
         else do { o1 \<leftarrow> append_byte ui32Len out c; decode_loop ui32Len cs o1 })
      else terminate_at ui32Len out)"

definition DecodeFormString :: "string \<Rightarrow> u32 \<Rightarrow> string option" where
  "DecodeFormString pcEncoded ui32Len = decode_loop ui32Len pcEncoded []"

subsection \<open>Decimal parameters\<close>

definition blank :: "char \<Rightarrow> bool" where
  "blank c \<longleftrightarrow> c = CHR '' '' \<or> c = TAB"

definition digit :: "char \<Rightarrow> bool" where
  "digit c \<longleftrightarrow> 48 \<le> ord c \<and> ord c \<le> 57"

text \<open>One character once the number has started; \<open>None\<close> rejects the string.\<close>

definition number_char :: "char \<Rightarrow> bool \<Rightarrow> int \<Rightarrow> (bool \<times> int) option" where
  "number_char c bFinished l32Accum =
     (if \<not> bFinished then
        (if digit c then Some (bFinished, s32 (l32Accum * 10 + (ord c - 48)))
         else if blank c then Some (True, l32Accum)
         else None)
      else if \<not> blank c then None
      else Some (bFinished, l32Accum))"

fun check_loop :: "string \<Rightarrow> bool \<Rightarrow> bool \<Rightarrow> bool \<Rightarrow> int \<Rightarrow> int option" where
  "check_loop [] bStarted bFinished bNeg l32Accum =
     Some (if bNeg then s32 (- l32Accum) else l32Accum)"
| "check_loop (c # cs) bStarted bFinished bNeg l32Accum =
     (if \<not> bStarted \<and> blank c then check_loop cs bStarted bFinished bNeg l32Accum
      else if \<not> bStarted \<and> (c = CHR ''+'' \<or> c = CHR ''-'') then
        (case cs of
           [] \<Rightarrow> None
         | d # ds \<Rightarrow>
             do { (f, a) \<leftarrow> number_char d bFinished l32Accum;
                  check_loop ds True f (c = CHR ''-'') a })
      else
        do { (f, a) \<leftarrow> number_char c bFinished l32Accum;
             check_loop cs True f bNeg a })"

definition CheckDecimalParam :: "string \<Rightarrow> int option" where
  "CheckDecimalParam pcValue = check_loop pcValue False False False 0"

text \<open>\<open>GetCGIParam\<close>: the value and the error flag, which is only ever set.\<close>

definition GetCGIParam ::
  "string \<Rightarrow> string list \<Rightarrow> string list \<Rightarrow> int \<Rightarrow> bool \<Rightarrow> (int \<times> bool) option" where
  "GetCGIParam pcName pcParams pcValue i32NumParams pbError =
     do { i32Param \<leftarrow> FindCGIParameter pcName pcParams i32NumParams;
          if i32Param \<noteq> - 1 then
            do { v \<leftarrow> rd pcValue i32Param;
                 Some (case CheckDecimalParam v of
                         Some i32Value \<Rightarrow> (i32Value, pbError)
                       | None \<Rightarrow> (0, True)) }
          else Some (0, True) }"

subsection \<open>Decoding\<close>

text \<open>The decoding of RFC 1738 as the code reads it, without a size limit.\<close>

fun url_decode :: "string \<Rightarrow> string" where
  "url_decode [] = []"
| "url_decode (c # cs) =
     (if c = CHR ''+'' then CHR '' '' # url_decode cs
      else if c = CHR ''%'' then
        (case cs of
           c1 # c2 # rest \<Rightarrow>
             (case DecodeHexEscape c c1 c2 of
                None \<Rightarrow> url_decode rest | Some d \<Rightarrow> d # url_decode rest)
         | _ \<Rightarrow> [])
      else c # url_decode cs)"

lemma decode_loop_spec:
  "0 < unat ui32Len \<Longrightarrow> length out < unat ui32Len \<Longrightarrow>
   decode_loop ui32Len s out = Some (out @ take (unat ui32Len - 1 - length out) (url_decode s))"
proof (induction ui32Len s out rule: decode_loop.induct)
  case (1 n out)
  then show ?case by (simp add: terminate_at_def)
next
  case (2 n c cs out)
  have lim: "unat (n - 1) = unat n - 1"
    using "2.prems"(1) by (metis unat_minus_one less_numeral_extra(3) unat_0)
  show ?case
  proof (cases "length out < unat n - 1")
    case False
    then show ?thesis using "2.prems" lim by (simp add: terminate_at_def)
  next
    case True
    have ap: "append_byte n out d = Some (out @ [d])" for d
      using "2.prems" by (simp add: append_byte_def)
    have tk: "take (unat n - Suc (length out)) (d # r) =
        d # take (unat n - Suc (Suc (length out))) r" for d r
    proof -
      have "unat n - Suc (length out) = Suc (unat n - Suc (Suc (length out)))"
        using True by linarith
      then show ?thesis by simp
    qed
    consider (plus) "c = CHR ''+''" | (esc) c1 c2 rest where "c = CHR ''%''" "cs = c1 # c2 # rest"
      | (short) "c = CHR ''%''" "length cs < 2" | (other) "c \<noteq> CHR ''+''" "c \<noteq> CHR ''%''"
    proof (cases cs)
      case (Cons c1 ds)
      with that show ?thesis by (cases ds; cases "c = CHR ''+''"; cases "c = CHR ''%''") auto
    qed (use that in auto)
    then show ?thesis
    proof cases
      case plus
      with "2.IH"(1) [of "out @ '' ''"] True lim "2.prems" ap show ?thesis by (simp add: tk)
    next
      case esc
      show ?thesis
      proof (cases "DecodeHexEscape c c1 c2")
        case None
        with "2.IH"(2) [of c1 "c2 # rest" c2 rest] True lim "2.prems" esc show ?thesis by simp
      next
        case (Some d)
        with "2.IH"(3) [of c1 "c2 # rest" c2 rest d "out @ [d]"] True lim "2.prems" esc ap
        show ?thesis by (simp add: tk)
      qed
    next
      case short
      then show ?thesis using True lim "2.prems"
        by (auto simp: terminate_at_def split: list.split)
    next
      case other
      with "2.IH"(4) [of "out @ [c]"] True lim "2.prems" ap show ?thesis by (simp add: tk)
    qed
  qed
qed

text \<open>The encoding a browser applies to a form value.\<close>

definition hex_upper :: string where
  "hex_upper = ''0123456789ABCDEF''"

definition unreserved :: "char \<Rightarrow> bool" where
  "unreserved c \<longleftrightarrow> digit c \<or> 65 \<le> ord c \<and> ord c \<le> 90 \<or> 97 \<le> ord c \<and> ord c \<le> 122"

definition url_encode_char :: "char \<Rightarrow> string" where
  "url_encode_char c =
     (if unreserved c then [c] else if c = CHR '' '' then ''+''
      else [CHR ''%'', hex_upper ! (of_char c div 16), hex_upper ! (of_char c mod 16)])"

definition url_encode :: "string \<Rightarrow> string" where
  "url_encode s = concat (map url_encode_char s)"

lemma hex_upper_digit:
  "n < 16 \<Longrightarrow> IsValidHexDigit (hex_upper ! n) \<and> HexDigit (hex_upper ! n) = int n"
proof -
  assume "n < 16"
  then have "n \<in> set [0..<16]" by simp
  also have "[0..<16] = [0, 1, 2, 3, 4, 5, 6, 7, 8, 9, 10, 11, 12, 13, 14, 15::nat]"
    by (simp add: upt_rec)
  finally show ?thesis by (simp, elim disjE) (simp_all add: hex_upper_def IsValidHexDigit_def HexDigit_def)
qed

lemma decode_hex:
  "DecodeHexEscape CHR ''%'' (hex_upper ! (of_char c div 16)) (hex_upper ! (of_char c mod 16)) = Some c"
proof -
  have "(of_char c :: nat) < 256" by (rule nat_of_char_less_256)
  then have "(of_char c :: nat) div 16 < 16" "(of_char c :: nat) mod 16 < 16"
    by (auto intro: less_mult_imp_div_less)
  note d = hex_upper_digit [OF this(1)] hex_upper_digit [OF this(2)]
  have "int (of_char c div 16) * 16 + int (of_char c mod 16) =
      int (of_char c div 16 * 16 + of_char c mod 16)" by (simp only: of_nat_add of_nat_mult of_nat_numeral)
  also have "of_char c div 16 * 16 + of_char c mod 16 = (of_char c :: nat)" by simp
  finally have "char_of (int (of_char c div 16) * 16 + int (of_char c mod 16)) = c"
    by (simp only: char_of_nat char_of_char)
  then show ?thesis using d by (simp add: DecodeHexEscape_def)
qed

lemma decode_encode: "url_decode (url_encode s) = s"
proof (induction s)
  case (Cons c s)
  have "url_decode (url_encode_char c @ t) = c # url_decode t" for t
    using decode_hex [of c] by (auto simp: url_encode_char_def unreserved_def digit_def)
  then show ?case using Cons by (simp add: url_encode_def)
qed (simp add: url_encode_def)

subsection \<open>Decimal numbers\<close>

definition number :: "string \<Rightarrow> int" where
  "number ds = foldl (\<lambda>a c. a * 10 + (ord c - 48)) 0 ds"

definition sign_of :: "string \<Rightarrow> int" where
  "sign_of sg = (if sg = ''-'' then - 1 else 1)"

text \<open>What the code takes for a decimal number: blanks, a sign, digits, blanks.\<close>

definition decimal_form :: "string \<Rightarrow> string \<Rightarrow> string \<Rightarrow> string \<Rightarrow> bool" where
  "decimal_form pre sg ds post \<longleftrightarrow> list_all blank pre \<and> (sg = [] \<or> sg = ''+'' \<or> sg = ''-'') \<and>
     list_all digit ds \<and> list_all blank post \<and> (sg \<noteq> [] \<longrightarrow> ds @ post \<noteq> [])"

lemma s32_digit: "s32 (s32 x * 10 + d) = s32 (x * 10 + d)"
  by (metis s32_add_wrap s32_mult_wrap)

lemma foldl_digits:
  "foldl (\<lambda>a c. s32 (a * 10 + (ord c - 48))) (s32 a) ds =
   s32 (foldl (\<lambda>a c. a * 10 + (ord c - 48)) a ds)"
  by (induction ds arbitrary: a) (simp_all add: s32_digit)

lemma digit_not_blank: "digit c \<Longrightarrow> \<not> blank c" "digit c \<Longrightarrow> c \<noteq> CHR ''+'' \<and> c \<noteq> CHR ''-''"
  by (auto simp: digit_def blank_def)

lemma check_blanks:
  "list_all blank post \<Longrightarrow> check_loop post True True neg a = Some (if neg then s32 (- a) else a)"
  by (induction post) (auto simp: number_char_def)

lemma check_digits:
  "list_all digit ds \<Longrightarrow> list_all blank post \<Longrightarrow>
   check_loop (ds @ post) True False neg (s32 a) =
     Some (s32 ((if neg then - 1 else 1) * foldl (\<lambda>a c. a * 10 + (ord c - 48)) a ds))"
proof (induction ds arbitrary: a)
  case Nil
  then show ?case
    by (cases post) (auto simp: number_char_def check_blanks s32_minus_wrap digit_not_blank
        dest: digit_not_blank(1))
next
  case (Cons d ds)
  then show ?case by (simp add: number_char_def s32_digit)
qed

lemma check_pre: "list_all blank pre \<Longrightarrow>
    check_loop (pre @ s) False False neg a = check_loop s False False neg a"
  by (induction pre) auto

text \<open>The scan of what follows a sign, or of a number without one.\<close>

lemma check_unsigned:
  assumes "list_all digit ds" "list_all blank post" "ds @ post \<noteq> []"
  shows "(case ds @ post of
       [] \<Rightarrow> None
     | d # r \<Rightarrow> do { (f, a) \<leftarrow> number_char d False 0; check_loop r True f neg a }) =
     Some (s32 ((if neg then - 1 else 1) * number ds))"
proof -
  have "check_loop (ds @ post) True False neg (s32 0) =
      Some (s32 ((if neg then - 1 else 1) * number ds))"
    using check_digits [OF assms(1,2), of neg 0] by (simp add: number_def)
  then show ?thesis using assms(3) by (cases "ds @ post") auto
qed

lemma check_complete:
  assumes "decimal_form pre sg ds post"
  shows "CheckDecimalParam (pre @ sg @ ds @ post) = Some (s32 (sign_of sg * number ds))"
proof -
  have d: "list_all blank pre" "list_all digit ds" "list_all blank post"
    using assms by (auto simp: decimal_form_def)
  have start: "CheckDecimalParam (pre @ sg @ ds @ post) =
      check_loop (sg @ ds @ post) False False False 0"
    using check_pre [OF d(1)] by (simp add: CheckDecimalParam_def)
  show ?thesis
  proof (cases "sg = []")
    case True
    show ?thesis
    proof (cases ds)
      case Nil
      have "check_loop post False False False 0 = Some 0"
        using check_pre [OF d(3), of "[]" False 0] by simp
      with True Nil start show ?thesis by (simp add: sign_of_def number_def)
    next
      case (Cons c cs)
      then have "check_loop (ds @ post) False False False 0 =
          check_loop (ds @ post) True False False (s32 0)"
        using d(2) digit_not_blank by auto
      also have "\<dots> = Some (s32 (number ds))"
        using check_digits [OF d(2,3), of False 0] by (simp add: number_def)
      finally show ?thesis using True start by (simp add: sign_of_def)
    qed
  next
    case False
    then obtain c where c: "sg = [c]" "c = CHR ''+'' \<or> c = CHR ''-''" "ds @ post \<noteq> []"
      using assms by (auto simp: decimal_form_def)
    then have "check_loop (c # ds @ post) False False False 0 =
        Some (s32 ((if c = CHR ''-'' then - 1 else 1) * number ds))"
      using check_unsigned [OF d(2,3) c(3), of "c = CHR ''-''"] by (auto simp: blank_def)
    then show ?thesis using c start by (auto simp: sign_of_def)
  qed
qed

text \<open>Conversely, an accepted string has that form.\<close>

lemma check_blanks_inv:
  "check_loop s True True neg a \<noteq> None \<Longrightarrow> list_all blank s"
  by (induction s) (auto simp: number_char_def split: if_splits)

lemma check_digits_inv:
  "check_loop s True False neg a \<noteq> None \<Longrightarrow>
   \<exists>ds post. s = ds @ post \<and> list_all digit ds \<and> list_all blank post"
proof (induction s arbitrary: a)
  case (Cons c s)
  show ?case
  proof (cases "digit c")
    case True
    with Cons.prems obtain a' where "check_loop s True False neg a' \<noteq> None"
      by (auto simp: number_char_def)
    with Cons.IH obtain ds post where "s = ds @ post" "list_all digit ds" "list_all blank post"
      by blast
    with True show ?thesis by (intro exI [of _ "c # ds"] exI [of _ post]) simp
  next
    case False
    with Cons.prems have "blank c" "check_loop s True True neg a \<noteq> None"
      by (auto simp: number_char_def split: if_splits)
    with check_blanks_inv have "list_all blank (c # s)" by auto
    then show ?thesis by (intro exI [of _ "[]"] exI [of _ "c # s"]) simp
  qed
qed simp

lemma check_sound:
  "check_loop s False False False 0 \<noteq> None \<Longrightarrow>
   \<exists>pre sg ds post. s = pre @ sg @ ds @ post \<and> decimal_form pre sg ds post"
proof (induction s)
  case Nil
  show ?case by (intro exI [of _ "[]"]) (simp add: decimal_form_def)
next
  case (Cons c s)
  consider (blank) "blank c" | (sign) "c = CHR ''+'' \<or> c = CHR ''-''"
    | (start) "\<not> blank c" "c \<noteq> CHR ''+''" "c \<noteq> CHR ''-''" by blast
  then show ?case
  proof cases
    case blank
    with Cons obtain pre sg ds post where "s = pre @ sg @ ds @ post" "decimal_form pre sg ds post"
      by auto
    with blank show ?thesis
      by (intro exI [of _ "c # pre"] exI [of _ sg] exI [of _ ds] exI [of _ post])
        (simp add: decimal_form_def)
  next
    case sign
    with Cons.prems obtain d r where s: "s = d # r"
      by (auto simp: blank_def split: list.splits)
    then have "check_loop s True False (c = CHR ''-'') 0 \<noteq> None"
      using Cons.prems sign by (auto simp: blank_def)
    with check_digits_inv obtain ds post where "s = ds @ post" "list_all digit ds" "list_all blank post"
      by blast
    with sign s show ?thesis
      by (intro exI [of _ "[]"] exI [of _ "[c]"] exI [of _ ds] exI [of _ post])
        (auto simp: decimal_form_def)
  next
    case start
    then have "check_loop (c # s) True False False 0 \<noteq> None" using Cons.prems by auto
    with check_digits_inv obtain ds post where "c # s = ds @ post" "list_all digit ds"
      "list_all blank post" by blast
    then show ?thesis
      by (intro exI [of _ "[]"] exI [of _ "[]"] exI [of _ ds] exI [of _ post])
        (auto simp: decimal_form_def)
  qed
qed

subsection \<open>Encoding\<close>

definition escape :: "string \<Rightarrow> string" where
  "escape s = concat (map (\<lambda>c. if c = CHR 0x27 then ''&#39;'' else [c]) s)"

text \<open>The documented behaviour of \<open>usnprintf\<close> for a text without conversions.\<close>

definition usnprintf_spec :: "(nat \<Rightarrow> string \<Rightarrow> string \<times> nat) \<Rightarrow> bool" where
  "usnprintf_spec usnprintf \<longleftrightarrow>
     (\<forall>n s. 0 < n \<longrightarrow> usnprintf n s = (take (n - 1) s @ [NUL], length s))"

lemma encode_loop_spec:
  assumes u: "usnprintf_spec usnprintf" and len: "1 < len"
  shows "length buf = len \<Longrightarrow> take k buf = pre \<Longrightarrow> k < len \<Longrightarrow>
    \<exists>buf' n. encode_loop usnprintf len s buf k = Some (buf', n) \<and> length buf' = len \<and>
      take (min n (len - 1)) buf' = take (len - 1) (pre @ escape s) \<and>
      (if k + length (escape s) < len then n = k + length (escape s) else len - 1 \<le> n)"
proof (induction s arbitrary: buf k pre)
  case Nil
  then show ?case by (auto simp: escape_def)
next
  case (Cons c s)
  have e: "escape (c # s) = (if c = CHR 0x27 then ''&#39;'' else [c]) @ escape s"
    by (simp add: escape_def)
  have pl: "length pre = k" using Cons.prems by auto
  show ?case
  proof (cases "k < len - 1")
    case False
    with Cons.prems len pl e show ?thesis by (auto simp: min_def)
  next
    case True
    show ?thesis
    proof (cases "c = CHR 0x27")
      case False
      have p: "poke buf k [c] = Some (pre @ c # drop (Suc k) buf)"
        using poke_ok [of k "[c]" buf] Cons.prems by simp
      let ?b = "pre @ c # drop (Suc k) buf"
      have "length ?b = len" "take (Suc k) ?b = pre @ [c]" "Suc k < len"
        using Cons.prems pl True by auto
      from Cons.IH [OF this] obtain buf' n where
        IH: "encode_loop usnprintf len s ?b (Suc k) = Some (buf', n)" "length buf' = len"
          "take (min n (len - 1)) buf' = take (len - 1) ((pre @ [c]) @ escape s)"
          "if Suc k + length (escape s) < len then n = Suc k + length (escape s) else len - 1 \<le> n"
        by blast
      have "encode_loop usnprintf len (c # s) buf k = Some (buf', n)"
        using True False p IH(1) by simp
      moreover have "escape (c # s) = c # escape s" using False by (simp add: e)
      ultimately show ?thesis
        using IH(2-4) by (intro exI [of _ buf'] exI [of _ n]) (auto split: if_splits)
    next
      case quote: True
      let ?amp = "''&#39;''"
      have us: "usnprintf (len - k) ?amp = (take (len - k - 1) ?amp @ [NUL], 5)"
        using u True by (auto simp: usnprintf_spec_def)
      let ?st = "take (len - k - 1) ?amp @ [NUL]"
      have p: "poke buf k ?st = Some (pre @ ?st @ drop (k + length ?st) buf)"
        using poke_ok [of k ?st buf] Cons.prems True by simp
      show ?thesis
      proof (cases "k + 5 < len")
        case True
        let ?b = "pre @ ?st @ drop (k + length ?st) buf"
        have "take (k + 5) ?b = pre @ ?amp" "length ?b = len"
          using True pl Cons.prems by auto
        from Cons.IH [OF this(2,1) True] obtain buf' n where
          IH: "encode_loop usnprintf len s ?b (k + 5) = Some (buf', n)" "length buf' = len"
            "take (min n (len - 1)) buf' = take (len - 1) ((pre @ ?amp) @ escape s)"
            "if k + 5 + length (escape s) < len then n = k + 5 + length (escape s) else len - 1 \<le> n"
          by blast
        have "encode_loop usnprintf len (c # s) buf k = Some (buf', n)"
          using \<open>k < len - 1\<close> quote us p IH(1) by simp
        moreover have "escape (c # s) = ?amp @ escape s" by (subst e) (simp add: quote)
        ultimately show ?thesis
          using IH(2-4) by (intro exI [of _ buf'] exI [of _ n]) (auto simp: add.assoc split: if_splits)
      next
        case full: False
        have stop: "encode_loop usnprintf len s b (k + 5) = Some (b, k + 5)" for b
          using full by (cases s) auto
        let ?b = "pre @ ?st @ drop (k + length ?st) buf"
        have "length ?b = len" using pl Cons.prems full True by auto
        moreover have "take (min (k + 5) (len - 1)) ?b = take (len - 1) (pre @ ?amp @ escape s)"
        proof -
          have gen: "take (min (k + 5) (len - 1)) (pre @ (take (len - k - 1) a @ [NUL]) @ t) =
              take (len - 1) (pre @ a @ u)" if "length a = 5" for a t u :: string
            using full pl True that by (simp add: min_def)
          show ?thesis by (rule gen) simp
        qed
        moreover have "encode_loop usnprintf len (c # s) buf k = Some (?b, k + 5)"
          using True quote us p stop by simp
        moreover have es: "escape (c # s) = ?amp @ escape s" by (subst e) (simp add: quote)
        moreover have "5 \<le> length (escape (c # s))" unfolding es by simp
        ultimately show ?thesis using full
          by (intro exI [of _ ?b] exI [of _ "k + 5"]) (simp only: if_not_P es, auto)
      qed
    qed
  qed
qed

text \<open>Without a quote the bytes from the returned count on are never touched.\<close>

lemma encode_plain:
  "CHR 0x27 \<notin> set s \<Longrightarrow> k + length s < len \<Longrightarrow> length buf = len \<Longrightarrow>
   encode_loop usnprintf len s buf k = Some (take k buf @ s @ drop (k + length s) buf, k + length s)"
proof (induction s arbitrary: buf k)
  case (Cons c s)
  have p: "poke buf k [c] = Some (take k buf @ c # drop (Suc k) buf)"
    using poke_ok [of k "[c]" buf] Cons.prems by simp
  from Cons.IH [of "Suc k" "take k buf @ c # drop (Suc k) buf"] Cons.prems p
  show ?case by (auto simp: add.commute)
qed simp

subsection \<open>Looking up\<close>

lemma find_loop_spec:
  "0 \<le> i \<Longrightarrow> nat i + left \<le> length ps \<Longrightarrow>
   find_loop p ps i left =
     Some (case List.find (\<lambda>j. ps ! j = p) [nat i..<nat i + left] of
       None \<Rightarrow> - 1 | Some j \<Rightarrow> int j)"
proof (induction p ps i left rule: find_loop.induct)
  case (2 p ps i left)
  have n: "nat (i + 1) = Suc (nat i)" using 2(2) by simp
  have "[nat i..<nat i + Suc left] = nat i # [Suc (nat i)..<Suc (nat i) + left]"
    by (simp add: upt_conv_Cons del: upt_Suc)
  with 2 n show ?case by (auto simp: mem simp del: upt_Suc)
qed simp

lemma find_parameter:
  assumes "length ps = nat n"
  shows "FindCGIParameter p ps n =
    Some (case List.find (\<lambda>j. ps ! j = p) [0..<nat n] of None \<Rightarrow> - 1 | Some j \<Rightarrow> int j)"
  using find_loop_spec [of 0 "nat n" ps p] assms by (simp add: FindCGIParameter_def)

subsection \<open>Properties\<close>


text \<open>
  C13. Decoding: for a buffer of at least one byte, \<open>DecodeFormString\<close> never writes outside it and
  recovers any text from its form encoding (letters and digits as they are, blanks as plus signs,
  the rest as hexadecimal escapes), cut to the buffer's size less the NUL.
\<close>

theorem DecodeFormString_roundtrip:
  assumes "0 < unat ui32Len"
  shows "DecodeFormString (url_encode s) ui32Len = Some (take (unat ui32Len - 1) s) \<and>
    DecodeFormString raw ui32Len \<noteq> None"
  using decode_loop_spec [of ui32Len "[]"] assms
  by (simp add: DecodeFormString_def decode_encode)

theorem DecodeFormString_roundtrip_witness:
  "DecodeFormString (url_encode ''a&b c'') 4 = Some ''a&b''"
  using DecodeFormString_roundtrip [of 4 "''a&b c''" "[]"] by simp

text \<open>
  Decoding into a buffer of no bytes: the limit \<open>ui32Len - 1\<close> wraps to 2^32 - 1, and even an
  empty string is stored outside the buffer.
\<close>

theorem DecodeFormString_empty_buffer: "DecodeFormString s 0 = None"
proof (cases "(0::u32, s, []::string)" rule: decode_loop.cases)
  case (2 n c cs out)
  have "DecodeFormString s 0 = None" if "c = CHR ''%''" "cs = c1 # c2 # rest" for c1 c2 rest
  proof -
    have "decode_loop 0 t [] = None" for t
      by (induction t rule: url_decode.induct)
        (auto simp: append_byte_def terminate_at_def split: list.split option.split)
    then show ?thesis by (simp add: DecodeFormString_def)
  qed
  with 2 show ?thesis
    by (auto simp: DecodeFormString_def append_byte_def terminate_at_def split: list.split)
qed (simp add: DecodeFormString_def terminate_at_def)

text \<open>
  Encoding: with \<open>usnprintf\<close> as documented, \<open>EncodeFormString\<close> never writes outside its buffer,
  stores the escaped text as far as it fits, and returns its length when it fits; when it does not
  fit the returned count is at least the capacity, for a single quote in four bytes it is 5; and a
  text without quotes is left without a terminating NUL.
\<close>

theorem EncodeFormString_correct:
  assumes "usnprintf_spec usnprintf" "1 < ui32Len" "length buf = ui32Len"
  shows "(\<exists>buf' n. EncodeFormString usnprintf s buf ui32Len = Some (buf', n) \<and>
      length buf' = ui32Len \<and>
      take (min n (ui32Len - 1)) buf' = take (ui32Len - 1) (escape s) \<and>
      (if length (escape s) < ui32Len then n = length (escape s) else ui32Len - 1 \<le> n)) \<and>
    (CHR 0x27 \<notin> set s \<and> length s < ui32Len \<longrightarrow>
      EncodeFormString usnprintf s buf ui32Len = Some (s @ drop (length s) buf, length s)) \<and>
    (ui32Len = 4 \<longrightarrow> EncodeFormString usnprintf [CHR 0x27] buf ui32Len = Some (''&#3'' @ [NUL], 5))"
proof (intro conjI impI)
  obtain buf' n where r: "encode_loop usnprintf ui32Len s buf 0 = Some (buf', n)"
    "length buf' = ui32Len" "take (min n (ui32Len - 1)) buf' = take (ui32Len - 1) (escape s)"
    "if length (escape s) < ui32Len then n = length (escape s) else ui32Len - 1 \<le> n"
    using encode_loop_spec [OF assms(1,2,3), of 0 "[]" s] assms(2)
    unfolding take_0 append_Nil add_0 by auto
  show "\<exists>buf' n. EncodeFormString usnprintf s buf ui32Len = Some (buf', n) \<and>
      length buf' = ui32Len \<and>
      take (min n (ui32Len - 1)) buf' = take (ui32Len - 1) (escape s) \<and>
      (if length (escape s) < ui32Len then n = length (escape s) else ui32Len - 1 \<le> n)"
    using r assms(2) by (intro exI [of _ buf'] exI [of _ n]) (simp add: EncodeFormString_def)
next
  assume "CHR 0x27 \<notin> set s \<and> length s < ui32Len"
  then show "EncodeFormString usnprintf s buf ui32Len = Some (s @ drop (length s) buf, length s)"
    using encode_plain [of s 0 ui32Len buf usnprintf] assms(2,3) by (simp add: EncodeFormString_def)
next
  assume "ui32Len = 4"
  moreover have "usnprintf 4 ''&#39;'' = (''&#3'' @ [NUL], 5)"
    using assms(1) by (simp add: usnprintf_spec_def)
  ultimately show "EncodeFormString usnprintf [CHR 0x27] buf ui32Len = Some (''&#3'' @ [NUL], 5)"
    using poke_ok [of 0 "''&#3'' @ [NUL]" buf] assms(3) by (simp add: EncodeFormString_def)
qed

theorem EncodeFormString_correct_witness:
  "\<exists>buf n. EncodeFormString (\<lambda>n s. (take (n - 1) s @ [NUL], length s)) ''it''
     (replicate 9 CHR ''z'') 9 = Some (buf, n) \<and> take 2 buf = ''it'' \<and> buf ! n = CHR ''z''"
  using EncodeFormString_correct [of "\<lambda>n s. (take (n - 1) s @ [NUL], length s)" 9
      "replicate 9 CHR ''z''" "''it''"]
  by (simp add: usnprintf_spec_def eval_nat_numeral)

end
