(* ===== verification/RandomGen.thy ===== *)
theory RandomGen
  imports Prelude
begin

text \<open>
  \<open>random.c\<close>: the entropy pool of sixteen 32-bit words filled a byte at a time, the seed computed
  from it by the MD4 compression function, and the linear congruential generator. The bytes of the
  pool are those of a little-endian machine.
\<close>

record rng =
  pool :: "u32 list"
  RandomIndex :: u32
  seed :: u32

definition rng_start :: rng where
  "rng_start = \<lparr>pool = replicate 16 0, RandomIndex = 0, seed = 0\<rparr>"

text \<open>Byte \<open>i\<close> of the pool seen as \<open>uint8_t\<close>; \<open>put_byte\<close> outside the 64 bytes is \<open>None\<close>.\<close>

definition get_byte :: "u32 list \<Rightarrow> nat \<Rightarrow> u32" where
  "get_byte p i = drop_bit (8 * (i mod 4)) (p ! (i div 4)) AND 0xFF"

definition put_byte :: "u32 list \<Rightarrow> nat \<Rightarrow> u32 \<Rightarrow> u32 list option" where
  "put_byte p i b =
     (if i div 4 < length p then
        let s = 8 * (i mod 4) in
        Some (p[i div 4 := (p ! (i div 4) AND NOT (push_bit s 0xFF)) OR push_bit s (b AND 0xFF)])
      else None)"

definition RandomAddEntropy :: "u32 \<Rightarrow> rng \<Rightarrow> rng option" where
  "RandomAddEntropy ui32Entropy r =
     do { p \<leftarrow> put_byte (pool r) (unat (RandomIndex r)) (ui32Entropy AND 0xFF);
          Some (r\<lparr>pool := p, RandomIndex := (RandomIndex r + 1) AND 63\<rparr>) }"

subsection \<open>The hash\<close>

text \<open>The macros \<open>F\<close>, \<open>G\<close> and \<open>H\<close>: the new value of the first register.\<close>

definition rotate :: "u32 \<Rightarrow> nat \<Rightarrow> u32" where
  "rotate t s = push_bit s t OR drop_bit (32 - s) t"

definition macro_F :: "u32 list \<Rightarrow> u32 \<Rightarrow> u32 \<Rightarrow> u32 \<Rightarrow> u32 \<Rightarrow> nat \<Rightarrow> nat \<Rightarrow> u32" where
  "macro_F x a b c d k s = rotate (a + (d XOR (b AND (c XOR d))) + x ! k) s"

definition macro_G :: "u32 list \<Rightarrow> u32 \<Rightarrow> u32 \<Rightarrow> u32 \<Rightarrow> u32 \<Rightarrow> nat \<Rightarrow> nat \<Rightarrow> u32" where
  "macro_G x a b c d k s =
     rotate (a + ((b AND c) OR (b AND d) OR (c AND d)) + x ! k + 0x5a827999) s"

definition macro_H :: "u32 list \<Rightarrow> u32 \<Rightarrow> u32 \<Rightarrow> u32 \<Rightarrow> u32 \<Rightarrow> nat \<Rightarrow> nat \<Rightarrow> u32" where
  "macro_H x a b c d k s = rotate (a + (b XOR c XOR d) + x ! k + 0x6ed9eba1) s"

type_synonym regs = "u32 \<times> u32 \<times> u32 \<times> u32"

text \<open>The bodies of the three loops on the registers A, B, C and D, and the loops.\<close>

definition body_F :: "u32 list \<Rightarrow> nat \<Rightarrow> regs \<Rightarrow> regs" where
  "body_F x i = (\<lambda>(A, B, C, D).
     let A = macro_F x A B C D (i + 0) 3;
         D = macro_F x D A B C (i + 1) 7;
         C = macro_F x C D A B (i + 2) 11;
         B = macro_F x B C D A (i + 3) 19 in (A, B, C, D))"

definition body_G :: "u32 list \<Rightarrow> nat \<Rightarrow> regs \<Rightarrow> regs" where
  "body_G x i = (\<lambda>(A, B, C, D).
     let A = macro_G x A B C D (i + 0) 3;
         D = macro_G x D A B C (i + 4) 5;
         C = macro_G x C D A B (i + 8) 9;
         B = macro_G x B C D A (i + 12) 13 in (A, B, C, D))"

definition body_H :: "u32 list \<Rightarrow> nat \<Rightarrow> regs \<Rightarrow> regs" where
  "body_H x i = (\<lambda>(A, B, C, D).
     let A = macro_H x A B C D (i + 0) 3;
         D = macro_H x D A B C (i + 8) 9;
         C = macro_H x C D A B (i + 4) 11;
         B = macro_H x B C D A (i + 12) 15 in (A, B, C, D))"

function loop_F :: "u32 list \<Rightarrow> nat \<Rightarrow> regs \<Rightarrow> regs" where
  "loop_F x i r = (if i < 16 then loop_F x (i + 4) (body_F x i r) else r)"
  by pat_completeness auto
termination by (relation "measure (\<lambda>(x, i, r). 16 - i)") auto

function loop_G :: "u32 list \<Rightarrow> nat \<Rightarrow> regs \<Rightarrow> regs" where
  "loop_G x i r = (if i < 4 then loop_G x (i + 1) (body_G x i r) else r)"
  by pat_completeness auto
termination by (relation "measure (\<lambda>(x, i, r). 4 - i)") auto

text \<open>The index of the third loop is a \<open>uint32_t\<close> that is set back below zero once.\<close>

function loop_H :: "u32 list \<Rightarrow> u32 \<Rightarrow> regs \<Rightarrow> regs" where
  "loop_H x i r =
     (if i < 4 then
        let r' = body_H x (unat i) r;
            j = (if i = 2 then i - 3 else i) in
        loop_H x (j + 2) r'
      else r)"
  by pat_completeness auto
termination
proof (relation "measure (\<lambda>(x, i, r). if i = 0 then 4 else if i = 2 then 3 else if i = 1 then 2
    else if i = 3 then 1 else 0)")
  fix x :: "u32 list" and i j :: u32 and r r' :: regs
  assume i: "i < 4" and j: "j = (if i = 2 then i - 3 else i)"
  from i have "unat i \<in> set [0..<4]" by (simp add: word_less_nat_alt)
  then have "unat i = 0 \<or> unat i = 1 \<or> unat i = 2 \<or> unat i = 3" by (auto simp: upt_rec)
  then have "i = 0 \<or> i = 1 \<or> i = 2 \<or> i = 3" by (auto simp: word_unat_eq_iff)
  then show "((x, j + 2, r'), (x, i, r)) \<in> measure (\<lambda>(x, i, r). if i = 0 then 4
    else if i = 2 then 3 else if i = 1 then 2 else if i = 3 then 1 else 0)"
    using j by auto
qed simp

declare loop_F.simps [simp del] loop_G.simps [simp del] loop_H.simps [simp del]

definition RandomSeed :: "rng \<Rightarrow> rng" where
  "RandomSeed g =
     (let x = pool g;
          r0 = (0x67452301, 0xefcdab89, 0x98badcfe, 0x10325476);
          (A, B, C, D) = loop_H x 0 (loop_G x 0 (loop_F x 0 r0)) in
      g\<lparr>seed := A + 0x67452301\<rparr>)"

definition RandomNumber :: "rng \<Rightarrow> u32 \<times> rng" where
  "RandomNumber g =
     (let s = seed g * 1664525 + 1013904223 in (s, g\<lparr>seed := s\<rparr>))"

subsection \<open>MD4 as RFC 1320 states it\<close>

definition md4_F :: "u32 \<Rightarrow> u32 \<Rightarrow> u32 \<Rightarrow> u32" where
  "md4_F x y z = (x AND y) OR (NOT x AND z)"

definition md4_G :: "u32 \<Rightarrow> u32 \<Rightarrow> u32 \<Rightarrow> u32" where
  "md4_G x y z = (x AND y) OR (x AND z) OR (y AND z)"

definition md4_H :: "u32 \<Rightarrow> u32 \<Rightarrow> u32 \<Rightarrow> u32" where
  "md4_H x y z = x XOR y XOR z"

text \<open>One operation \<open>[abcd k s]\<close>; the registers then change their roles.\<close>

definition md4_op :: "u32 list \<Rightarrow> (u32 \<Rightarrow> u32 \<Rightarrow> u32 \<Rightarrow> u32) \<Rightarrow> u32 \<Rightarrow> nat \<times> nat \<Rightarrow> regs \<Rightarrow> regs" where
  "md4_op x f t = (\<lambda>(k, s) (a, b, c, d). (d, word_rotl s (a + f b c d + x ! k + t), b, c))"

definition md4_order :: "nat list \<Rightarrow> nat list \<Rightarrow> (nat \<times> nat) list" where
  "md4_order ks ss = zip ks (concat (replicate 4 ss))"

definition md4_compress :: "u32 list \<Rightarrow> regs \<Rightarrow> regs" where
  "md4_compress x r0 =
     (let r1 = fold (md4_op x md4_F 0)
            (md4_order [0, 1, 2, 3, 4, 5, 6, 7, 8, 9, 10, 11, 12, 13, 14, 15] [3, 7, 11, 19]) r0;
          r2 = fold (md4_op x md4_G 0x5a827999)
            (md4_order [0, 4, 8, 12, 1, 5, 9, 13, 2, 6, 10, 14, 3, 7, 11, 15] [3, 5, 9, 13]) r1;
          r3 = fold (md4_op x md4_H 0x6ed9eba1)
            (md4_order [0, 8, 4, 12, 2, 10, 6, 14, 1, 9, 5, 13, 3, 11, 7, 15] [3, 9, 11, 15]) r2
      in case (r0, r3) of ((a0, b0, c0, d0), (a, b, c, d)) \<Rightarrow> (a + a0, b + b0, c + c0, d + d0))"

lemma rotate_rotl:
  assumes "s < 32"
  shows "rotate t s = word_rotl s t"
proof (rule bit_word_eqI)
  fix n assume "n < LENGTH(32)"
  then have n: "n < 32" by simp
  show "bit (rotate t s) n \<longleftrightarrow> bit (word_rotl s t) n"
  proof (cases "s \<le> n")
    case True
    then have "(n + 32 - s) mod 32 = n - s" using n assms by (simp add: mod_if)
    moreover have "\<not> bit t (32 + n - s)" using True n by (auto dest: bit_imp_le_length)
    ultimately show ?thesis using True n assms
      by (simp add: rotate_def bit_word_rotl_iff bit_simps)
  next
    case False
    then have "(n + 32 - s) mod 32 = 32 + n - s" using n assms by (simp add: mod_if add.commute)
    then show ?thesis using False n assms
      by (simp add: rotate_def bit_word_rotl_iff bit_simps)
  qed
qed

lemma choose_xor: "d XOR (b AND (c XOR d)) = md4_F b c d" for b c d :: u32
  by (rule bit_word_eqI) (auto simp: md4_F_def bit_simps)

lemma macros_md4:
  "s < 32 \<Longrightarrow> macro_F x a b c d k s = word_rotl s (a + md4_F b c d + x ! k + 0)"
  "s < 32 \<Longrightarrow> macro_G x a b c d k s = word_rotl s (a + md4_G b c d + x ! k + 0x5a827999)"
  "s < 32 \<Longrightarrow> macro_H x a b c d k s = word_rotl s (a + md4_H b c d + x ! k + 0x6ed9eba1)"
  by (simp_all add: macro_F_def macro_G_def macro_H_def rotate_rotl choose_xor md4_G_def md4_H_def)

text \<open>A loop body is four operations of the RFC.\<close>

lemma bodies_md4:
  "body_F x i r = fold (md4_op x md4_F 0) [(i, 3), (i + 1, 7), (i + 2, 11), (i + 3, 19)] r"
  "body_G x i r = fold (md4_op x md4_G 0x5a827999) [(i, 3), (i + 4, 5), (i + 8, 9), (i + 12, 13)] r"
  "body_H x i r = fold (md4_op x md4_H 0x6ed9eba1) [(i, 3), (i + 8, 9), (i + 4, 11), (i + 12, 15)] r"
  by (cases r; simp add: body_F_def body_G_def body_H_def macros_md4 md4_op_def Let_def)+

lemma loops_unrolled:
  "loop_F x 0 r = body_F x 12 (body_F x 8 (body_F x 4 (body_F x 0 r)))"
  "loop_G x 0 r = body_G x 3 (body_G x 2 (body_G x 1 (body_G x 0 r)))"
  "loop_H x 0 r = body_H x 3 (body_H x 1 (body_H x 2 (body_H x 0 r)))"
proof -
  show "loop_F x 0 r = body_F x 12 (body_F x 8 (body_F x 4 (body_F x 0 r)))"
    by (simp add: loop_F.simps)
  show "loop_G x 0 r = body_G x 3 (body_G x 2 (body_G x 1 (body_G x 0 r)))"
    by (simp add: loop_G.simps eval_nat_numeral)
  have "loop_H x 5 t = t" for t by (subst loop_H.simps) simp
  moreover have "loop_H x 3 t = loop_H x 5 (body_H x 3 t)" for t by (subst loop_H.simps) simp
  moreover have "loop_H x 1 t = loop_H x 3 (body_H x 1 t)" for t by (subst loop_H.simps) simp
  moreover have "loop_H x 2 t = loop_H x 1 (body_H x 2 t)" for t by (subst loop_H.simps) simp
  moreover have "loop_H x 0 t = loop_H x 2 (body_H x 0 t)" for t by (subst loop_H.simps) simp
  ultimately show "loop_H x 0 r = body_H x 3 (body_H x 1 (body_H x 2 (body_H x 0 r)))" by simp
qed

lemma orders:
  "md4_order [0, 1, 2, 3, 4, 5, 6, 7, 8, 9, 10, 11, 12, 13, 14, 15] [3, 7, 11, 19] =
     [(0, 3), (0 + 1, 7), (0 + 2, 11), (0 + 3, 19)] @ [(4, 3), (4 + 1, 7), (4 + 2, 11), (4 + 3, 19)] @
     [(8, 3), (8 + 1, 7), (8 + 2, 11), (8 + 3, 19)] @
     [(12, 3), (12 + 1, 7), (12 + 2, 11), (12 + 3, 19)]"
  "md4_order [0, 4, 8, 12, 1, 5, 9, 13, 2, 6, 10, 14, 3, 7, 11, 15] [3, 5, 9, 13] =
     [(0, 3), (0 + 4, 5), (0 + 8, 9), (0 + 12, 13)] @ [(1, 3), (1 + 4, 5), (1 + 8, 9), (1 + 12, 13)] @
     [(2, 3), (2 + 4, 5), (2 + 8, 9), (2 + 12, 13)] @
     [(3, 3), (3 + 4, 5), (3 + 8, 9), (3 + 12, 13)]"
  "md4_order [0, 8, 4, 12, 2, 10, 6, 14, 1, 9, 5, 13, 3, 11, 7, 15] [3, 9, 11, 15] =
     [(0, 3), (0 + 8, 9), (0 + 4, 11), (0 + 12, 15)] @
     [(2, 3), (2 + 8, 9), (2 + 4, 11), (2 + 12, 15)] @
     [(1, 3), (1 + 8, 9), (1 + 4, 11), (1 + 12, 15)] @
     [(3, 3), (3 + 8, 9), (3 + 4, 11), (3 + 12, 15)]"
  by (simp_all add: md4_order_def eval_nat_numeral)

lemma digest_md4:
  "loop_H x 0 (loop_G x 0 (loop_F x 0 r)) =
   fold (md4_op x md4_H 0x6ed9eba1)
     (md4_order [0, 8, 4, 12, 2, 10, 6, 14, 1, 9, 5, 13, 3, 11, 7, 15] [3, 9, 11, 15])
     (fold (md4_op x md4_G 0x5a827999)
        (md4_order [0, 4, 8, 12, 1, 5, 9, 13, 2, 6, 10, 14, 3, 7, 11, 15] [3, 5, 9, 13])
        (fold (md4_op x md4_F 0)
           (md4_order [0, 1, 2, 3, 4, 5, 6, 7, 8, 9, 10, 11, 12, 13, 14, 15] [3, 7, 11, 19]) r))"
  unfolding orders fold_append o_apply loops_unrolled bodies_md4 ..

lemma seed_md4:
  "seed (RandomSeed g) =
     fst (md4_compress (pool g) (0x67452301, 0xefcdab89, 0x98badcfe, 0x10325476))"
proof -
  obtain A B C D where d: "loop_H (pool g) 0 (loop_G (pool g) 0 (loop_F (pool g) 0
      (0x67452301, 0xefcdab89, 0x98badcfe, 0x10325476))) = (A, B, C, D)"
    by (metis surj_pair)
  then show ?thesis
    unfolding RandomSeed_def md4_compress_def Let_def digest_md4 [symmetric] by simp
qed

subsection \<open>The pool\<close>

lemma bit_FF: "bit (0xFF :: int) n \<longleftrightarrow> n < 8" "bit (0xFF :: nat) n \<longleftrightarrow> n < 8"
proof -
  have "(0xFF :: int) = mask 8" "(0xFF :: nat) = mask 8" by (simp_all add: mask_eq_exp_minus_1)
  then show "bit (0xFF :: int) n \<longleftrightarrow> n < 8" "bit (0xFF :: nat) n \<longleftrightarrow> n < 8"
    by (simp_all only: bit_mask_iff) (auto simp: possible_bit_def)
qed

lemma byte_positions:
  "n < 8 \<Longrightarrow> 8 * a \<le> 8 * b + n \<Longrightarrow> 8 * b + n - 8 * a < 8 \<Longrightarrow> a = (b :: nat)"
  by arith

lemma put_byte_spec:
  assumes "i < 4 * length p"
  shows "\<exists>q. put_byte p i b = Some q \<and> length q = length p \<and>
    (\<forall>j < 4 * length p. get_byte q j = (if j = i then b AND 0xFF else get_byte p j))"
proof -
  let ?s = "8 * (i mod 4)"
  let ?w = "(p ! (i div 4) AND NOT (push_bit ?s 0xFF)) OR push_bit ?s (b AND 0xFF)"
  have l: "i div 4 < length p" using assms by auto
  have m: "i mod 4 < 4" by simp
  have "get_byte (p[i div 4 := ?w]) j = (if j = i then b AND 0xFF else get_byte p j)"
    if "j < 4 * length p" for j
  proof (cases "j div 4 = i div 4")
    case False
    then show ?thesis by (auto simp: get_byte_def)
  next
    case True
    have jm: "j mod 4 < 4" by simp
    have "j = i \<longleftrightarrow> j mod 4 = i mod 4" using True by (metis div_mult_mod_eq)
    show ?thesis
    proof (rule bit_word_eqI)
      fix n assume "n < LENGTH(32)"
      have "8 * (j mod 4) + n < 32" if "n < 8" using that jm by simp
      then show "bit (get_byte (p[i div 4 := ?w]) j) n \<longleftrightarrow>
          bit (if j = i then b AND 0xFF else get_byte p j) n"
        unfolding get_byte_def True using l \<open>j = i \<longleftrightarrow> j mod 4 = i mod 4\<close>
          byte_positions [of n "i mod 4" "j mod 4"]
        by (auto simp: bit_simps bit_FF)
    qed
  qed
  then show ?thesis using l by (simp add: put_byte_def Let_def)
qed

lemma RandomSeed_pool: "pool (RandomSeed g) = pool g" "RandomIndex (RandomSeed g) = RandomIndex g"
  by (simp_all add: RandomSeed_def Let_def split_beta)

definition rng_ok :: "rng \<Rightarrow> bool" where
  "rng_ok g \<longleftrightarrow> length (pool g) = 16 \<and> unat (RandomIndex g) < 64"

lemma rng_start_ok: "rng_ok rng_start"
  by (simp add: rng_ok_def rng_start_def)

lemma next_index:
  fixes i :: u32
  shows "unat ((i + 1) AND 63) = (unat i + 1) mod 64"
proof -
  have "(i + 1) AND 63 = take_bit 6 (i + 1)" by (simp add: take_bit_eq_mask mask_eq_exp_minus_1)
  then have "unat ((i + 1) AND 63) = unat (i + 1) mod 64"
    by (simp add: unsigned_take_bit_eq take_bit_nat_def)
  also have "unat (i + 1) = (unat i + 1) mod 2 ^ 32" by (simp add: unat_word_ariths)
  also have "(unat i + 1) mod 2 ^ 32 mod 64 = (unat i + 1) mod 64"
    by (rule mod_mod_cancel) simp
  finally show ?thesis .
qed

lemma add_entropy_ok:
  assumes "rng_ok g"
  shows "\<exists>g'. RandomAddEntropy e g = Some g' \<and> rng_ok g' \<and> seed g' = seed g \<and>
    unat (RandomIndex g') = (unat (RandomIndex g) + 1) mod 64 \<and>
    (\<forall>j < 64. get_byte (pool g') j =
       (if j = unat (RandomIndex g) then e AND 0xFF else get_byte (pool g) j))"
proof -
  have len: "4 * length (pool g) = 64" "unat (RandomIndex g) < 4 * length (pool g)"
    using assms by (simp_all add: rng_ok_def)
  obtain q where "put_byte (pool g) (unat (RandomIndex g)) (e AND 0xFF) = Some q"
    "length q = length (pool g)"
    "\<forall>j < 4 * length (pool g). get_byte q j =
       (if j = unat (RandomIndex g) then (e AND 0xFF) AND 0xFF else get_byte (pool g) j)"
    using put_byte_spec [OF len(2), of "e AND 0xFF"] by blast
  then show ?thesis
    using assms len next_index [of "RandomIndex g"]
    by (simp add: RandomAddEntropy_def rng_ok_def and.assoc)
qed

subsection \<open>Properties\<close>

text \<open>
  C14. \<open>RandomSeed\<close> runs the MD4 compression function as RFC 1320 defines it: the seed is the first
  word of the digest of the pool, although the code writes the selection function with exclusive
  or, rotates with shifts, and visits the words of the third round by stepping its unsigned index
  back below zero.
\<close>

theorem RandomSeed_is_md4:
  "RandomSeed g = g\<lparr>seed :=
     fst (md4_compress (pool g) (0x67452301, 0xefcdab89, 0x98badcfe, 0x10325476))\<rparr>"
proof -
  have "RandomSeed g = g\<lparr>seed := seed (RandomSeed g)\<rparr>"
    by (simp add: RandomSeed_def Let_def split_beta)
  then show ?thesis using seed_md4 [of g] by simp
qed

text \<open>
  The padded empty message, whose MD4 digest RFC 1320 lists as 31d6cfe0d16ae931b73c59d7e0c089c0.
\<close>

lemma md4_empty_message:
  "md4_compress (0x80 # replicate 15 0) (0x67452301, 0xefcdab89, 0x98badcfe, 0x10325476) =
     (0xe0cfd631, 0x31e96ad1, 0xd7593cb7, 0xc089c0e0)"
  by code_simp

text \<open>
  \<open>RandomAddEntropy\<close> replaces exactly the byte of the pool at the current index by the low byte
  of its argument, never outside the pool, and advances the index around the 64 bytes; and
  \<open>RandomNumber\<close> never returns the same value from two different seeds.
\<close>

theorem entropy_and_generator:
  assumes "rng_ok g"
  shows "(\<exists>g'. RandomAddEntropy e g = Some g' \<and> rng_ok g' \<and> seed g' = seed g \<and>
      unat (RandomIndex g') = (unat (RandomIndex g) + 1) mod 64 \<and>
      (\<forall>j < 64. get_byte (pool g') j =
         (if j = unat (RandomIndex g) then e AND 0xFF else get_byte (pool g) j))) \<and>
    (fst (RandomNumber g) = fst (RandomNumber h) \<longleftrightarrow> seed g = seed h)"
proof
  have inv: "s = t" if "s * 1664525 = t * (1664525 :: u32)" for s t
  proof -
    have one: "(1664525 :: u32) * 4276115653 = 1" by code_simp
    have "s * 1664525 * 4276115653 = t * 1664525 * (4276115653 :: u32)" using that by (simp only:)
    then show ?thesis unfolding mult.assoc one by (simp only: mult_1_right)
  qed
  show "fst (RandomNumber g) = fst (RandomNumber h) \<longleftrightarrow> seed g = seed h"
  proof
    assume "fst (RandomNumber g) = fst (RandomNumber h)"
    then have "seed g * 1664525 + 1013904223 = seed h * 1664525 + 1013904223"
      by (simp only: RandomNumber_def Let_def fst_conv)
    then have "seed g * 1664525 = seed h * 1664525" by (simp only: add_right_cancel)
    then show "seed g = seed h" by (rule inv)
  qed (simp only: RandomNumber_def Let_def fst_conv)
qed (rule add_entropy_ok [OF assms])

theorem entropy_and_generator_witness:
  "\<exists>g. RandomAddEntropy 0x1ab rng_start = Some g \<and> get_byte (pool g) 0 = 0xab \<and>
     unat (RandomIndex g) = 1"
proof -
  obtain g where g: "RandomAddEntropy 0x1ab rng_start = Some g"
    "unat (RandomIndex g) = (unat (RandomIndex rng_start) + 1) mod 64"
    "\<forall>j < 64. get_byte (pool g) j =
       (if j = unat (RandomIndex rng_start) then 0x1ab AND 0xFF else get_byte (pool rng_start) j)"
    using entropy_and_generator [OF rng_start_ok, of "0x1ab" rng_start] by blast
  have "unat (RandomIndex rng_start) = 0" by (simp add: rng_start_def)
  with g show ?thesis by auto
qed

end
