(* ===== verification/Spider.thy ===== *)
theory Spider
  imports RandomGen TransitionSystem
begin

text \<open>
  \<open>spider_task.c\<close>: the spiders that walk over the display, one task each, the touch callback and the
  control task that creates and kills them. Positions are mathematical integers (they stay far
  inside \<open>int32_t\<close>), the bitmaps of live and killed spiders are 32-bit words whose bits are
  accessed one at a time (\<open>HWREGBITW\<close>). The tasks interleave at every point where the code can be
  preempted or delayed; the kernel's tick counter and its answer to \<open>xTaskCreate\<close> are inputs of the
  steps.
\<close>

definition MAX_SPIDERS :: nat where "MAX_SPIDERS = 32"

abbreviation AREA_X :: int where "AREA_X \<equiv> 8"
abbreviation AREA_Y :: int where "AREA_Y \<equiv> 24"
abbreviation AREA_WIDTH :: int where "AREA_WIDTH \<equiv> 303"
abbreviation AREA_HEIGHT :: int where "AREA_HEIGHT \<equiv> 231 - 24 - 20"
abbreviation SPIDER_WIDTH :: int where "SPIDER_WIDTH \<equiv> 24"
abbreviation SPIDER_HEIGHT :: int where "SPIDER_HEIGHT \<equiv> 24"

definition SPIDER_MIN_X :: int where "SPIDER_MIN_X = AREA_X + SPIDER_WIDTH div 2"
definition SPIDER_MAX_X :: int where "SPIDER_MAX_X = AREA_X + AREA_WIDTH - SPIDER_WIDTH div 2"
definition SPIDER_MIN_Y :: int where "SPIDER_MIN_Y = AREA_Y + SPIDER_HEIGHT div 2"
definition SPIDER_MAX_Y :: int where "SPIDER_MAX_Y = AREA_Y + AREA_HEIGHT - SPIDER_HEIGHT div 2"

lemmas spider_limits = SPIDER_MIN_X_def SPIDER_MAX_X_def SPIDER_MIN_Y_def SPIDER_MAX_Y_def

definition SpiderStepX :: "int list" where
  "SpiderStepX = [1, 1, 0, -1, -1, -1, 0, 1]"

definition SpiderStepY :: "int list" where
  "SpiderStepY = [0, 1, 1, 1, 0, -1, -1, -1]"

text \<open>The shared state of the module.\<close>

record spiders =
  SpiderX :: "int list"
  SpiderY :: "int list"
  SpiderAlive :: u32
  SpiderDead :: u32
  SpiderDelay :: "u32 \<times> u32"
  random :: rng

subsection \<open>Collisions\<close>

text \<open>The difference the code computes with a conditional.\<close>

definition gap :: "int \<Rightarrow> int \<Rightarrow> int" where
  "gap a b = (if a > b then a - b else b - a)"

fun collide_loop :: "spiders \<Rightarrow> int \<Rightarrow> int \<Rightarrow> int \<Rightarrow> nat \<Rightarrow> nat \<Rightarrow> int" where
  "collide_loop st i32Spider i32X i32Y i32Idx 0 = - 1"
| "collide_loop st i32Spider i32X i32Y i32Idx (Suc left) =
     (if \<not> bit (SpiderAlive st) i32Idx \<or> int i32Idx = i32Spider
      then collide_loop st i32Spider i32X i32Y (i32Idx + 1) left
      else
        let i32DX = gap (SpiderX st ! i32Idx) i32X;
            i32DY = gap (SpiderY st ! i32Idx) i32Y in
        (if i32DX < SPIDER_WIDTH \<and> i32DY < SPIDER_HEIGHT then int i32Idx
         else collide_loop st i32Spider i32X i32Y (i32Idx + 1) left))"

definition SpiderCollide :: "spiders \<Rightarrow> int \<Rightarrow> int \<Rightarrow> int \<Rightarrow> int" where
  "SpiderCollide st i32Spider i32X i32Y = collide_loop st i32Spider i32X i32Y 0 MAX_SPIDERS"

text \<open>One of the two loops of \<open>SpiderTouchCollide\<close>; \<open>skip\<close> says which spiders it passes over.\<close>

fun touch_loop ::
  "spiders \<Rightarrow> (nat \<Rightarrow> bool) \<Rightarrow> int \<Rightarrow> int \<Rightarrow> nat \<Rightarrow> nat \<Rightarrow> int \<times> int \<Rightarrow> int \<times> int" where
  "touch_loop st skip i32X i32Y i32Idx 0 best = best"
| "touch_loop st skip i32X i32Y i32Idx (Suc left) (i32Best, i32Dist) =
     (if skip i32Idx then touch_loop st skip i32X i32Y (i32Idx + 1) left (i32Best, i32Dist)
      else
        let i32DX = gap (SpiderX st ! i32Idx) i32X;
            i32DY = gap (SpiderY st ! i32Idx) i32Y in
        (if i32DX < SPIDER_WIDTH + 4 \<and> i32DY < SPIDER_HEIGHT + 4 then
           let d = i32DX * i32DX + i32DY * i32DY in
           (if d < i32Dist then touch_loop st skip i32X i32Y (i32Idx + 1) left (int i32Idx, d)
            else touch_loop st skip i32X i32Y (i32Idx + 1) left (i32Best, i32Dist))
         else touch_loop st skip i32X i32Y (i32Idx + 1) left (i32Best, i32Dist)))"

definition SpiderTouchCollide :: "spiders \<Rightarrow> int \<Rightarrow> int \<Rightarrow> int" where
  "SpiderTouchCollide st i32X i32Y =
     (let r1 = touch_loop st (\<lambda>i. \<not> bit (SpiderAlive st) i \<or> bit (SpiderDead st) i) i32X i32Y 0
            MAX_SPIDERS (- 1, 1000000) in
      if fst r1 \<noteq> - 1 then fst r1
      else fst (touch_loop st (\<lambda>i. \<not> bit (SpiderAlive st) i) i32X i32Y 0 MAX_SPIDERS r1))"

subsection \<open>The spider tasks\<close>

text \<open>Where a task is: created, at the head of its loop, past the test for death, in the delay after
  a move, or in the two seconds before its end.\<close>

datatype place = Created | Top | Checked | Moved | Dying

record spider_task =
  num :: nat
  tx :: int
  ty :: int
  dir :: u32
  image :: u32
  pc :: place

text \<open>A request to draw: the coordinates and the index of the image (\<open>None\<close> for the blank one).\<close>

type_synonym draw = "int \<times> int \<times> nat option"

definition new_task :: "nat \<Rightarrow> spider_task" where
  "new_task i = \<lparr>num = i, tx = 0, ty = 0, dir = 0, image = 0, pc = Created\<rparr>"

definition reseed :: "u32 \<Rightarrow> spiders \<Rightarrow> spiders option" where
  "reseed tick st =
     map_option (\<lambda>g. st\<lparr>random := RandomSeed g\<rparr>) (RandomAddEntropy tick (random st))"

definition spider_enter :: "u32 \<Rightarrow> spiders \<Rightarrow> spider_task \<Rightarrow> (spiders \<times> spider_task) option" where
  "spider_enter tick st t =
     do { st1 \<leftarrow> reseed tick st;
          let (r, g) = RandomNumber (random st1);
          Some (st1\<lparr>SpiderAlive := set_bit (num t) (SpiderAlive st1),
                    SpiderDead := unset_bit (num t) (SpiderDead st1), random := g\<rparr>,
                t\<lparr>tx := SpiderX st1 ! num t, ty := SpiderY st1 ! num t, dir := drop_bit 29 r,
                  image := 0, pc := Top\<rparr>) }"

definition spider_turn :: "u32 \<Rightarrow> u32 \<Rightarrow> u32" where
  "spider_turn ui32Dir ui32Temp =
     (if ui32Temp < 0x10000000 then (ui32Dir + 2) AND 7
      else if ui32Temp < 0x80000000 then (ui32Dir + 1) AND 7
      else if ui32Temp < 0xf0000000 then (ui32Dir - 1) AND 7
      else (ui32Dir - 2) AND 7)"

text \<open>The critical section; the random number in the test is drawn only if all else is false.\<close>

definition spider_move :: "spiders \<Rightarrow> spider_task \<Rightarrow> spiders \<times> spider_task \<times> draw" where
  "spider_move st t =
     (let x = tx t + SpiderStepX ! unat (dir t);
          y = ty t + SpiderStepY ! unat (dir t);
          blocked = (x < SPIDER_MIN_X \<or> x > SPIDER_MAX_X \<or> y < SPIDER_MIN_Y \<or> y > SPIDER_MAX_Y \<or>
             SpiderCollide st (int (num t)) x y \<noteq> - 1);
          (turns, g) = (if blocked then (True, random st)
             else let (r, g) = RandomNumber (random st) in (r < 0x08000000, g));
          (r2, g2) = (if turns then RandomNumber g else (0, g));
          x' = (if turns then x - SpiderStepX ! unat (dir t) else x);
          y' = (if turns then y - SpiderStepY ! unat (dir t) else y);
          d' = (if turns then spider_turn (dir t) r2 else dir t) in
      (st\<lparr>SpiderX := (SpiderX st)[num t := x'], SpiderY := (SpiderY st)[num t := y'], random := g2\<rparr>,
       t\<lparr>tx := x', ty := y', dir := d', image := image t XOR 1, pc := Moved\<rparr>,
       (x' - SPIDER_WIDTH div 2, y' - SPIDER_HEIGHT div 2, Some (unat d' * 2 + unat (image t)))))"

definition spider_die :: "spiders \<Rightarrow> spider_task \<Rightarrow> spiders \<times> draw" where
  "spider_die st t =
     (st\<lparr>SpiderAlive := unset_bit (num t) (SpiderAlive st)\<rparr>,
      (tx t - SPIDER_WIDTH div 2, ty t - SPIDER_HEIGHT div 2, None))"

subsection \<open>Creating spiders and the touch screen\<close>

fun free_loop :: "spiders \<Rightarrow> nat \<Rightarrow> nat \<Rightarrow> nat" where
  "free_loop st i 0 = i"
| "free_loop st i (Suc left) =
     (if \<not> bit (SpiderAlive st) i then i else free_loop st (i + 1) left)"

definition clamp :: "int \<Rightarrow> int \<Rightarrow> int \<Rightarrow> int" where
  "clamp lo hi v = (if v < lo then lo else if v > hi then hi else v)"

text \<open>The return code, the state and the task that \<open>xTaskCreate\<close> has created.\<close>

definition CreateSpider ::
  "bool \<Rightarrow> spiders \<Rightarrow> int \<Rightarrow> int \<Rightarrow> nat \<times> spiders \<times> spider_task option" where
  "CreateSpider created st i32X i32Y =
     (let i = free_loop st 0 MAX_SPIDERS in
      if i = MAX_SPIDERS then (1, st, None)
      else
        let st1 = st\<lparr>SpiderX := (SpiderX st)[i := clamp SPIDER_MIN_X SPIDER_MAX_X i32X],
                     SpiderY := (SpiderY st)[i := clamp SPIDER_MIN_Y SPIDER_MAX_Y i32Y]\<rparr> in
        if \<not> created then (1, st1, None) else (0, st1, Some (new_task i)))"

text \<open>The touch callback packs a position; the queue drops the message when it is full.\<close>

definition pack_touch :: "int \<Rightarrow> int \<Rightarrow> u32" where
  "pack_touch i32X i32Y =
     push_bit 16 (word_of_int i32X AND 65535) OR (word_of_int i32Y AND 65535)"

definition ControlTouchCallback :: "bool \<Rightarrow> int \<Rightarrow> int \<Rightarrow> u32 list \<Rightarrow> u32 list" where
  "ControlTouchCallback pointer_down i32X i32Y q =
     (if \<not> pointer_down then q
      else if length q < 10 then q @ [pack_touch i32X i32Y] else q)"

text \<open>One message of the control task.\<close>

definition control_message :: "bool \<Rightarrow> u32 \<Rightarrow> spiders \<Rightarrow> spiders \<times> spider_task option" where
  "control_message created ui32Message st =
     (let i32X = uint (drop_bit 16 ui32Message); i32Y = uint (ui32Message AND 65535) in
      if AREA_X \<le> i32X \<and> i32X < AREA_X + AREA_WIDTH \<and> AREA_Y \<le> i32Y \<and> i32Y < AREA_Y + AREA_HEIGHT
      then
        let i = SpiderTouchCollide st i32X i32Y in
        if i = - 1 then snd (CreateSpider created st i32X i32Y)
        else (st\<lparr>SpiderDead := set_bit (nat i) (SpiderDead st)\<rparr>, None)
      else (st, None))"

text \<open>\<open>SpiderSpeedSet\<close>, with \<open>portTICK_RATE_MS\<close> equal to 1 (\<open>configTICK_RATE_HZ\<close> is 1000).\<close>

definition SpiderSpeedSet :: "u32 \<Rightarrow> spiders \<Rightarrow> spiders" where
  "SpiderSpeedSet ui32Speed st =
     st\<lparr>SpiderDelay := ((ui32Speed * 1000) div 1000, (ui32Speed * 14 * 1000) div 10000)\<rparr>"

text \<open>
  \<open>SpiderTaskInit\<close>: the return code, the state, and the tasks created, the control task left out.
  \<open>queue_ok\<close>, \<open>control_ok\<close> and \<open>created k\<close> are the kernel's answers.
\<close>

fun init_loop ::
  "(nat \<Rightarrow> bool) \<Rightarrow> nat \<Rightarrow> nat \<Rightarrow> spiders \<Rightarrow> spider_task list \<Rightarrow> nat \<times> spiders \<times> spider_task list" where
  "init_loop created ui32Idx 0 st ts = (0, st, ts)"
| "init_loop created ui32Idx (Suc left) st ts =
     (let (rc, st1, t) = CreateSpider (created ui32Idx) st
            (int ui32Idx * (AREA_WIDTH div 8) + AREA_WIDTH div 16) (AREA_HEIGHT div 2 + AREA_Y) in
      if rc = 1 then (1, st1, ts)
      else init_loop created (ui32Idx + 1) left
             (st1\<lparr>SpiderAlive := set_bit ui32Idx (SpiderAlive st1)\<rparr>)
             (ts @ (case t of None \<Rightarrow> [] | Some t' \<Rightarrow> [t'])))"

definition SpiderTaskInit ::
  "bool \<Rightarrow> bool \<Rightarrow> (nat \<Rightarrow> bool) \<Rightarrow> spiders \<Rightarrow> nat \<times> spiders \<times> spider_task list" where
  "SpiderTaskInit queue_ok control_ok created st =
     (let st0 = SpiderSpeedSet 10 st in
      if \<not> queue_ok then (1, st0, [])
      else if \<not> control_ok then (1, st0, [])
      else init_loop created 0 8 st0 [])"

subsection \<open>The tasks together\<close>

record world =
  shared :: spiders
  tasks :: "spider_task list"
  touches :: "u32 list"
  drawn :: "draw list"

text \<open>Replace, remove, add a task.\<close>

definition put_task :: "world \<Rightarrow> nat \<Rightarrow> spider_task \<Rightarrow> world" where
  "put_task w k t = w\<lparr>tasks := (tasks w)[k := t]\<rparr>"

definition drop_task :: "world \<Rightarrow> nat \<Rightarrow> world" where
  "drop_task w k = w\<lparr>tasks := take k (tasks w) @ drop (Suc k) (tasks w)\<rparr>"

definition add_task :: "world \<Rightarrow> spider_task option \<Rightarrow> world" where
  "add_task w t = (case t of None \<Rightarrow> w | Some t' \<Rightarrow> w\<lparr>tasks := tasks w @ [t']\<rparr>)"

inductive spider_step :: "world \<Rightarrow> world \<Rightarrow> bool" where
  touch: "spider_step w (w\<lparr>touches := ControlTouchCallback down x y (touches w)\<rparr>)"
| control: "touches w = m # q \<Longrightarrow> control_message ok m (shared w) = (st, t) \<Longrightarrow>
     spider_step w (add_task (w\<lparr>shared := st, touches := q\<rparr>) t)"
| enter: "k < length (tasks w) \<Longrightarrow> pc (tasks w ! k) = Created \<Longrightarrow>
     spider_enter tick (shared w) (tasks w ! k) = Some (st, t) \<Longrightarrow>
     spider_step w (put_task (w\<lparr>shared := st\<rparr>) k t)"
| killed: "k < length (tasks w) \<Longrightarrow> pc (tasks w ! k) = Top \<Longrightarrow>
     bit (SpiderDead (shared w)) (num (tasks w ! k)) \<Longrightarrow>
     spider_step w (put_task w k ((tasks w ! k)\<lparr>pc := Dying\<rparr>))"
| lives: "k < length (tasks w) \<Longrightarrow> pc (tasks w ! k) = Top \<Longrightarrow>
     \<not> bit (SpiderDead (shared w)) (num (tasks w ! k)) \<Longrightarrow>
     spider_step w (put_task w k ((tasks w ! k)\<lparr>pc := Checked\<rparr>))"
| move: "k < length (tasks w) \<Longrightarrow> pc (tasks w ! k) = Checked \<Longrightarrow>
     spider_move (shared w) (tasks w ! k) = (st, t, d) \<Longrightarrow>
     spider_step w (put_task (w\<lparr>shared := st, drawn := drawn w @ [d]\<rparr>) k t)"
| wake: "k < length (tasks w) \<Longrightarrow> pc (tasks w ! k) = Moved \<Longrightarrow>
     reseed tick (shared w) = Some st \<Longrightarrow>
     spider_step w (put_task (w\<lparr>shared := st\<rparr>) k ((tasks w ! k)\<lparr>pc := Top\<rparr>))"
| die: "k < length (tasks w) \<Longrightarrow> pc (tasks w ! k) = Dying \<Longrightarrow>
     spider_die (shared w) (tasks w ! k) = (st, d) \<Longrightarrow>
     spider_step w (drop_task (w\<lparr>shared := st, drawn := drawn w @ [d]\<rparr>) k)"

definition spiders_start :: spiders where
  "spiders_start = \<lparr>SpiderX = replicate 32 0, SpiderY = replicate 32 0, SpiderAlive = 0,
     SpiderDead = 0, SpiderDelay = (0, 0), random = rng_start\<rparr>"

definition world_start :: world where
  "world_start = (let (rc, st, ts) = SpiderTaskInit True True (\<lambda>_. True) spiders_start in
     \<lparr>shared = st, tasks = ts, touches = [], drawn = []\<rparr>)"

subsection \<open>What the collision tests compute\<close>

definition near :: "int \<Rightarrow> int \<Rightarrow> spiders \<Rightarrow> nat \<Rightarrow> int \<Rightarrow> int \<Rightarrow> bool" where
  "near w h st i x y \<longleftrightarrow> \<bar>SpiderX st ! i - x\<bar> < w \<and> \<bar>SpiderY st ! i - y\<bar> < h"

abbreviation overlaps :: "spiders \<Rightarrow> nat \<Rightarrow> int \<Rightarrow> int \<Rightarrow> bool" where
  "overlaps \<equiv> near SPIDER_WIDTH SPIDER_HEIGHT"

lemma gap_abs: "gap a b = \<bar>a - b\<bar>"
  by (simp add: gap_def)

lemma interval_Suc: "{i..<i + Suc n} = insert i {Suc i..<Suc i + n}"
  by auto

lemma collide_loop_none:
  "collide_loop st s x y i n = - 1 \<longleftrightarrow>
   (\<forall>j \<in> {i..<i + n}. bit (SpiderAlive st) j \<and> int j \<noteq> s \<longrightarrow> \<not> overlaps st j x y)"
proof (induction n arbitrary: i)
  case (Suc n)
  show ?case
    unfolding interval_Suc using Suc.IH [of "Suc i"] by (simp add: near_def gap_abs Let_def)
qed simp

lemma SpiderCollide_none:
  "SpiderCollide st s x y = - 1 \<longleftrightarrow>
   (\<forall>j < MAX_SPIDERS. bit (SpiderAlive st) j \<and> int j \<noteq> s \<longrightarrow> \<not> overlaps st j x y)"
  unfolding SpiderCollide_def collide_loop_none by auto

text \<open>The square of the distance of a touch from a spider.\<close>

definition dist2 :: "spiders \<Rightarrow> int \<Rightarrow> int \<Rightarrow> nat \<Rightarrow> int" where
  "dist2 st x y i = (SpiderX st ! i - x)\<^sup>2 + (SpiderY st ! i - y)\<^sup>2"

abbreviation touched :: "spiders \<Rightarrow> nat \<Rightarrow> int \<Rightarrow> int \<Rightarrow> bool" where
  "touched \<equiv> near (SPIDER_WIDTH + 4) (SPIDER_HEIGHT + 4)"

lemma near_dist: "touched st i x y \<Longrightarrow> dist2 st x y i < 1000000"
proof -
  assume "touched st i x y"
  then have "\<bar>SpiderX st ! i - x\<bar> \<le> 28" "\<bar>SpiderY st ! i - y\<bar> \<le> 28" by (auto simp: near_def)
  then have "(SpiderX st ! i - x)\<^sup>2 \<le> 28\<^sup>2" "(SpiderY st ! i - y)\<^sup>2 \<le> 28\<^sup>2"
    by (metis abs_le_square_iff abs_numeral)+
  then show ?thesis by (simp add: dist2_def)
qed

text \<open>The spiders among \<open>i, ..., i + n - 1\<close> that a touch at a point can mean.\<close>

definition hits :: "spiders \<Rightarrow> (nat \<Rightarrow> bool) \<Rightarrow> int \<Rightarrow> int \<Rightarrow> nat \<Rightarrow> nat \<Rightarrow> nat set" where
  "hits st skip x y i n = {j \<in> {i..<i + n}. \<not> skip j \<and> touched st j x y}"

lemma hits_Suc: "hits st skip x y i (Suc n) =
    (if \<not> skip i \<and> touched st i x y then insert i (hits st skip x y (Suc i) n)
     else hits st skip x y (Suc i) n)"
  unfolding hits_def interval_Suc by auto

lemma touch_loop_step:
  "touch_loop st skip x y i (Suc n) (b, d) =
   touch_loop st skip x y (Suc i) n
     (if \<not> skip i \<and> touched st i x y \<and> dist2 st x y i < d then (int i, dist2 st x y i) else (b, d))"
  by (simp add: Let_def gap_abs near_def dist2_def power2_eq_square)

text \<open>
  A loop keeps the choice it starts with unless a spider is closer, and then returns a closest one.
\<close>

lemma touch_loop_spec:
  "touch_loop st skip x y i n (b, d) = (b', d') \<Longrightarrow>
   (b', d') = (b, d) \<and> (\<forall>j \<in> hits st skip x y i n. d \<le> dist2 st x y j) \<or>
   (\<exists>k \<in> hits st skip x y i n. b' = int k \<and> d' = dist2 st x y k \<and> d' < d \<and>
      (\<forall>j \<in> hits st skip x y i n. d' \<le> dist2 st x y j))"
proof (induction n arbitrary: i b d)
  case 0
  then show ?case by (simp add: hits_def)
next
  case (Suc n)
  show ?case
  proof (cases "\<not> skip i \<and> touched st i x y \<and> dist2 st x y i < d")
    case True
    then have "touch_loop st skip x y (Suc i) n (int i, dist2 st x y i) = (b', d')"
      using Suc.prems unfolding touch_loop_step by simp
    from Suc.IH [OF this] True show ?thesis unfolding hits_Suc by auto
  next
    case False
    then have "touch_loop st skip x y (Suc i) n (b, d) = (b', d')"
      using Suc.prems unfolding touch_loop_step by auto
    from Suc.IH [OF this] False show ?thesis unfolding hits_Suc by auto
  qed
qed

lemma hits_all:
  "hits st skip x y 0 MAX_SPIDERS = {j. j < MAX_SPIDERS \<and> \<not> skip j \<and> touched st j x y}"
  by (auto simp: hits_def)

text \<open>\<open>closest P st x y k\<close>: among the spiders with \<open>P\<close> under the touch, \<open>k\<close> is a closest one.\<close>

definition closest :: "(nat \<Rightarrow> bool) \<Rightarrow> spiders \<Rightarrow> int \<Rightarrow> int \<Rightarrow> nat \<Rightarrow> bool" where
  "closest P st x y k \<longleftrightarrow> k < MAX_SPIDERS \<and> P k \<and> touched st k x y \<and>
     (\<forall>j < MAX_SPIDERS. P j \<and> touched st j x y \<longrightarrow> dist2 st x y k \<le> dist2 st x y j)"

lemma touch_loop_closest:
  "touch_loop st skip x y 0 MAX_SPIDERS (- 1, 1000000) = (b, d) \<Longrightarrow>
   b = - 1 \<and> d = 1000000 \<and> (\<forall>j < MAX_SPIDERS. \<not> skip j \<longrightarrow> \<not> touched st j x y) \<or>
   (\<exists>k. b = int k \<and> closest (\<lambda>i. \<not> skip i) st x y k)"
proof -
  assume "touch_loop st skip x y 0 MAX_SPIDERS (- 1, 1000000) = (b, d)"
  from touch_loop_spec [OF this] show ?thesis
    unfolding hits_all closest_def using near_dist [of st _ x y]
    by (elim disjE conjE) (fastforce simp: not_le)+
qed

lemma touch_collide_closest:
  "SpiderTouchCollide st x y = - 1 \<and>
     (\<forall>j < MAX_SPIDERS. bit (SpiderAlive st) j \<longrightarrow> \<not> touched st j x y) \<or>
   (\<exists>k. SpiderTouchCollide st x y = int k \<and>
      (closest (\<lambda>i. bit (SpiderAlive st) i \<and> \<not> bit (SpiderDead st) i) st x y k \<or>
       (\<forall>j < MAX_SPIDERS. bit (SpiderAlive st) j \<and> \<not> bit (SpiderDead st) j \<longrightarrow> \<not> touched st j x y) \<and>
       closest (\<lambda>i. bit (SpiderAlive st) i) st x y k))"
proof -
  let ?live = "\<lambda>i. \<not> bit (SpiderAlive st) i \<or> bit (SpiderDead st) i"
  obtain b d where bd: "touch_loop st ?live x y 0 MAX_SPIDERS (- 1, 1000000) = (b, d)"
    by fastforce
  obtain b2 d2 where bd2: "touch_loop st (\<lambda>i. \<not> bit (SpiderAlive st) i) x y 0 MAX_SPIDERS (- 1, 1000000)
      = (b2, d2)" by fastforce
  from touch_loop_closest [OF bd] touch_loop_closest [OF bd2] show ?thesis
    using bd bd2 by (elim disjE) (auto simp: SpiderTouchCollide_def Let_def)
qed

subsection \<open>The invariant\<close>

definition in_area :: "int \<Rightarrow> int \<Rightarrow> bool" where
  "in_area x y \<longleftrightarrow> SPIDER_MIN_X \<le> x \<and> x \<le> SPIDER_MAX_X \<and> SPIDER_MIN_Y \<le> y \<and> y \<le> SPIDER_MAX_Y"

definition spiders_ok :: "spiders \<Rightarrow> bool" where
  "spiders_ok st \<longleftrightarrow> length (SpiderX st) = MAX_SPIDERS \<and> length (SpiderY st) = MAX_SPIDERS \<and>
     rng_ok (random st) \<and>
     (\<forall>i < MAX_SPIDERS. bit (SpiderAlive st) i \<longrightarrow> in_area (SpiderX st ! i) (SpiderY st ! i))"

definition task_ok :: "spiders \<Rightarrow> spider_task \<Rightarrow> bool" where
  "task_ok st t \<longleftrightarrow> num t < MAX_SPIDERS \<and> unat (dir t) < 8 \<and> unat (image t) < 2 \<and>
     in_area (SpiderX st ! num t) (SpiderY st ! num t) \<and> (pc t \<noteq> Created \<longrightarrow> in_area (tx t) (ty t))"

definition draw_ok :: "draw \<Rightarrow> bool" where
  "draw_ok d \<longleftrightarrow> (case d of (x, y, im) \<Rightarrow> 8 \<le> x \<and> x \<le> 287 \<and> 24 \<le> y \<and> y \<le> 187 \<and>
     (case im of None \<Rightarrow> True | Some n \<Rightarrow> n < 16))"

definition world_ok :: "world \<Rightarrow> bool" where
  "world_ok w \<longleftrightarrow> spiders_ok (shared w) \<and> (\<forall>t \<in> set (tasks w). task_ok (shared w) t) \<and>
     (\<forall>d \<in> set (drawn w). draw_ok d) \<and> length (touches w) \<le> 10"

lemma seed_ok: "rng_ok (RandomSeed g) \<longleftrightarrow> rng_ok g" "rng_ok (snd (RandomNumber g)) \<longleftrightarrow> rng_ok g"
  by (simp_all add: RandomSeed_pool RandomNumber_def Let_def rng_ok_def)

lemma reseed_spec:
  assumes "spiders_ok st"
  shows "\<exists>g. reseed tick st = Some (st\<lparr>random := g\<rparr>) \<and> rng_ok g"
  using add_entropy_ok [of "random st" tick] assms seed_ok
  by (auto simp: reseed_def spiders_ok_def)

lemma random_irrelevant [simp]:
  "rng_ok g \<Longrightarrow> spiders_ok st \<Longrightarrow> spiders_ok (st\<lparr>random := g\<rparr>)"
  "task_ok (st\<lparr>random := g\<rparr>) t = task_ok st t"
  by (auto simp: spiders_ok_def task_ok_def)

lemma and_7: "unat (w AND 7 :: u32) < 8"
proof -
  have "w AND 7 = take_bit 3 w" by (simp add: take_bit_eq_mask mask_eq_exp_minus_1)
  then show ?thesis by (simp add: unsigned_take_bit_eq take_bit_nat_def)
qed

lemma turn_ok: "unat (spider_turn d r) < 8"
  by (simp add: spider_turn_def and_7)

lemma top_bits: "unat (drop_bit 29 r :: u32) < 8"
proof -
  have "unat r < 2 ^ 32" by (rule order_less_le_trans [OF unsigned_less]) simp
  then show ?thesis by (simp add: unsigned_drop_bit_eq drop_bit_nat_def take_bit_nat_eq_self
      less_mult_imp_div_less)
qed

lemma image_toggle: "unat (i :: u32) < 2 \<Longrightarrow> unat (i XOR 1) < 2"
proof -
  assume "unat i < 2"
  then have "unat i = 0 \<or> unat i = 1" by auto
  then have "i = 0 \<or> i = 1" by (auto simp: word_unat_eq_iff)
  then show ?thesis by auto
qed

text \<open>Storing a position inside the area keeps every spider and every task in order.\<close>

lemma store_position:
  assumes "spiders_ok st" "in_area x y" "i < MAX_SPIDERS"
  shows "spiders_ok (st\<lparr>SpiderX := (SpiderX st)[i := x], SpiderY := (SpiderY st)[i := y]\<rparr>)"
    and "task_ok st t \<Longrightarrow>
      task_ok (st\<lparr>SpiderX := (SpiderX st)[i := x], SpiderY := (SpiderY st)[i := y]\<rparr>) t"
  using assms by (auto simp: spiders_ok_def task_ok_def nth_list_update)

lemma enter_ok:
  assumes "spiders_ok st" "task_ok st t" "spider_enter tick st t = Some (st', t')"
  shows "spiders_ok st' \<and> task_ok st' t' \<and> (\<forall>u. task_ok st u \<longrightarrow> task_ok st' u)"
proof -
  obtain g where g: "reseed tick st = Some (st\<lparr>random := g\<rparr>)" "rng_ok g"
    using reseed_spec [OF assms(1)] by blast
  obtain r g2 where r: "RandomNumber g = (r, g2)" by fastforce
  then have "rng_ok g2" using seed_ok(2) [of g] g(2) by simp
  then show ?thesis
    using assms g r top_bits [of r]
    by (auto simp: spider_enter_def spiders_ok_def task_ok_def bit_set_bit_iff)
qed

lemma move_ok:
  assumes "spiders_ok st" "task_ok st t" "pc t \<noteq> Created" "spider_move st t = (st', t', d)"
  shows "spiders_ok st' \<and> task_ok st' t' \<and> draw_ok d \<and> (\<forall>u. task_ok st u \<longrightarrow> task_ok st' u)"
proof -
  define x where "x = tx t + SpiderStepX ! unat (dir t)"
  define y where "y = ty t + SpiderStepY ! unat (dir t)"
  define blocked where "blocked = (x < SPIDER_MIN_X \<or> x > SPIDER_MAX_X \<or> y < SPIDER_MIN_Y \<or>
    y > SPIDER_MAX_Y \<or> SpiderCollide st (int (num t)) x y \<noteq> - 1)"
  obtain turns g where tg: "(turns, g) = (if blocked then (True, random st)
    else let (r, g) = RandomNumber (random st) in (r < 0x08000000, g))"
    by (metis surj_pair)
  obtain r2 g2 where rg: "(r2, g2) = (if turns then RandomNumber g else (0, g))" by (metis surj_pair)
  define x' where "x' = (if turns then tx t else x)"
  define y' where "y' = (if turns then ty t else y)"
  define d' where "d' = (if turns then spider_turn (dir t) r2 else dir t)"
  have mv: "st' = st\<lparr>SpiderX := (SpiderX st)[num t := x'], SpiderY := (SpiderY st)[num t := y'],
      random := g2\<rparr>"
    "t' = t\<lparr>tx := x', ty := y', dir := d', image := image t XOR 1, pc := Moved\<rparr>"
    "d = (x' - 12, y' - 12, Some (unat d' * 2 + unat (image t)))"
    using assms(4) tg rg
    by (auto simp: spider_move_def Let_def x_def y_def blocked_def x'_def y'_def d'_def
        split: prod.splits if_splits)
  have "rng_ok (random st)" using assms(1) by (simp add: spiders_ok_def)
  then have "rng_ok g" using tg seed_ok(2) [of "random st"]
    by (auto simp: Let_def split: if_splits prod.splits)
  moreover have "g2 = (if turns then snd (RandomNumber g) else g)"
    using rg by (cases turns) (simp_all add: prod_eq_iff)
  ultimately have g2: "rng_ok g2" using seed_ok(2) [of g] by simp
  have old: "in_area (tx t) (ty t)" "num t < MAX_SPIDERS" "unat (dir t) < 8" "unat (image t) < 2"
    using assms(2,3) by (auto simp: task_ok_def)
  have "\<not> turns \<Longrightarrow> \<not> blocked" using tg by (auto split: if_splits)
  then have new: "in_area x' y'" using old(1) by (auto simp: x'_def y'_def in_area_def blocked_def)
  have d8: "unat d' < 8" using old(3) turn_ok by (simp add: d'_def)
  have len: "length (SpiderX st) = MAX_SPIDERS" "length (SpiderY st) = MAX_SPIDERS"
    using assms(1) by (auto simp: spiders_ok_def)
  show ?thesis
  proof (intro conjI allI impI)
    show "spiders_ok st'"
      unfolding mv(1) using store_position(1) [OF assms(1) new old(2)] g2 by simp
    show "task_ok st' t'"
      unfolding mv(1,2) using new d8 image_toggle [OF old(4)] old(2) len by (simp add: task_ok_def)
    show "draw_ok d"
      unfolding mv(3) using new d8 old(4) by (auto simp: draw_ok_def in_area_def spider_limits)
    show "task_ok st' u" if "task_ok st u" for u
      unfolding mv(1) using store_position(2) [OF assms(1) new old(2) that] by simp
  qed
qed

lemma free_loop_spec:
  "i \<le> free_loop st i n \<and> free_loop st i n \<le> i + n \<and>
   (free_loop st i n < i + n \<longrightarrow> \<not> bit (SpiderAlive st) (free_loop st i n)) \<and>
   (\<forall>j. i \<le> j \<and> j < free_loop st i n \<longrightarrow> bit (SpiderAlive st) j)"
proof (induction n arbitrary: i)
  case (Suc n)
  show ?case
  proof (cases "bit (SpiderAlive st) i")
    case True
    have "bit (SpiderAlive st) j" if "i \<le> j" "j < free_loop st (Suc i) n" for j
      using Suc.IH [of "Suc i"] True that by (cases "j = i") auto
    with True Suc.IH [of "Suc i"] show ?thesis by simp
  qed (auto simp: not_le [symmetric])
qed (auto simp: not_le [symmetric])

lemma clamp_area: "in_area (clamp SPIDER_MIN_X SPIDER_MAX_X x) (clamp SPIDER_MIN_Y SPIDER_MAX_Y y)"
  by (simp add: in_area_def clamp_def spider_limits)

lemma create_ok:
  assumes "spiders_ok st" "CreateSpider created st x y = (rc, st', ts)"
  shows "spiders_ok st' \<and> (\<forall>u. task_ok st u \<longrightarrow> task_ok st' u) \<and>
    (\<forall>t. ts = Some t \<longrightarrow> task_ok st' t)"
proof (cases "free_loop st 0 MAX_SPIDERS = MAX_SPIDERS")
  case True
  then show ?thesis using assms by (auto simp: CreateSpider_def)
next
  case False
  define i where "i = free_loop st 0 MAX_SPIDERS"
  define st1 where "st1 = st\<lparr>SpiderX := (SpiderX st)[i := clamp SPIDER_MIN_X SPIDER_MAX_X x],
    SpiderY := (SpiderY st)[i := clamp SPIDER_MIN_Y SPIDER_MAX_Y y]\<rparr>"
  have i: "i < MAX_SPIDERS" using free_loop_spec [of 0 st MAX_SPIDERS] False by (simp add: i_def)
  have r: "st' = st1" "ts = (if created then Some (new_task i) else None)"
    using assms(2) False by (auto simp: CreateSpider_def Let_def i_def st1_def split: if_splits)
  have "spiders_ok st1" "task_ok st u \<Longrightarrow> task_ok st1 u" for u
    unfolding st1_def using store_position [OF assms(1) clamp_area i] by auto
  moreover have "task_ok st1 (new_task i)"
    using assms(1) i clamp_area by (simp add: task_ok_def new_task_def st1_def spiders_ok_def)
  ultimately show ?thesis using r by auto
qed

lemma control_ok:
  assumes "spiders_ok st" "control_message created m st = (st', ts)"
  shows "spiders_ok st' \<and> (\<forall>u. task_ok st u \<longrightarrow> task_ok st' u) \<and>
    (\<forall>t. ts = Some t \<longrightarrow> task_ok st' t)"
proof -
  let ?x = "uint (drop_bit 16 m)" and ?y = "uint (m AND 65535)"
  have dead: "spiders_ok (st\<lparr>SpiderDead := d\<rparr>)" "task_ok (st\<lparr>SpiderDead := d\<rparr>) u = task_ok st u" for d u
    using assms(1) by (auto simp: spiders_ok_def task_ok_def)
  consider (out) "st' = st" "ts = None"
    | (kill) d where "st' = st\<lparr>SpiderDead := d\<rparr>" "ts = None"
    | (create) rc where "CreateSpider created st ?x ?y = (rc, st', ts)"
    using assms(2) by (auto simp: control_message_def Let_def prod_eq_iff split: if_splits)
  then show ?thesis
  proof cases
    case create
    then show ?thesis using create_ok [OF assms(1)] by blast
  qed (use assms(1) dead in auto)
qed

lemma world_ok_put:
  assumes "\<forall>u. task_ok (shared w) u \<longrightarrow> task_ok st u" "task_ok st t" "spiders_ok st"
    "\<forall>d \<in> set ds. draw_ok d" "world_ok w"
  shows "world_ok (put_task (w\<lparr>shared := st, drawn := drawn w @ ds\<rparr>) k t)"
  using assms by (auto simp: world_ok_def put_task_def dest!: set_update_subset_insert [THEN subsetD])

lemma world_ok_step:
  assumes "spider_step w w'" "world_ok w"
  shows "world_ok w'"
  using assms
proof cases
  case (touch down x y)
  then show ?thesis using assms(2) by (auto simp: world_ok_def ControlTouchCallback_def)
next
  case (control m q ok st t)
  with assms(2) control_ok [of "shared w" ok m st t] show ?thesis
    by (auto simp: world_ok_def add_task_def split: option.splits)
next
  case (enter k tick st t)
  then have "task_ok (shared w) (tasks w ! k)" "spiders_ok (shared w)"
    using assms(2) by (auto simp: world_ok_def)
  with enter enter_ok [of "shared w" "tasks w ! k" tick st t] assms(2) world_ok_put [of w st t "[]" k]
  show ?thesis by simp
next
  case (killed k)
  then have "task_ok (shared w) (tasks w ! k)" using assms(2) by (auto simp: world_ok_def)
  with killed assms(2) world_ok_put [of w "shared w" "(tasks w ! k)\<lparr>pc := Dying\<rparr>" "[]" k]
  show ?thesis by (simp add: world_ok_def task_ok_def)
next
  case (lives k)
  then have "task_ok (shared w) (tasks w ! k)" using assms(2) by (auto simp: world_ok_def)
  with lives assms(2) world_ok_put [of w "shared w" "(tasks w ! k)\<lparr>pc := Checked\<rparr>" "[]" k]
  show ?thesis by (simp add: world_ok_def task_ok_def)
next
  case (move k st t d)
  then have "task_ok (shared w) (tasks w ! k)" "spiders_ok (shared w)"
    using assms(2) by (auto simp: world_ok_def)
  with move move_ok [of "shared w" "tasks w ! k" st t d] assms(2) world_ok_put [of w st t "[d]" k]
  show ?thesis by simp
next
  case (wake k tick st)
  then have t: "task_ok (shared w) (tasks w ! k)" "spiders_ok (shared w)"
    using assms(2) by (auto simp: world_ok_def)
  then obtain g where g: "st = (shared w)\<lparr>random := g\<rparr>" "rng_ok g"
    using reseed_spec [of "shared w" tick] wake by auto
  then have "task_ok st ((tasks w ! k)\<lparr>pc := Top\<rparr>)"
    using t wake by (simp add: task_ok_def)
  with wake g t assms(2) world_ok_put [of w st "(tasks w ! k)\<lparr>pc := Top\<rparr>" "[]" k]
  show ?thesis by simp
next
  case (die k st d)
  then have t: "task_ok (shared w) (tasks w ! k)" using assms(2) by (auto simp: world_ok_def)
  have "draw_ok d" using die t
    by (auto simp: spider_die_def draw_ok_def task_ok_def in_area_def spider_limits)
  moreover have "spiders_ok st \<and> (\<forall>u. task_ok (shared w) u \<longrightarrow> task_ok st u)"
    using die assms(2)
    by (auto simp: spider_die_def world_ok_def spiders_ok_def task_ok_def bit_unset_bit_iff)
  ultimately show ?thesis using die assms(2)
    by (auto simp: world_ok_def drop_task_def dest!: in_set_takeD in_set_dropD)
qed

lemma init_eval:
  "SpiderTaskInit True True (\<lambda>_. True) spiders_start = (0,
     spiders_start\<lparr>SpiderX := [20, 55, 92, 129, 166, 203, 240, 277] @ replicate 24 0,
       SpiderY := replicate 8 117 @ replicate 24 0, SpiderAlive := 255, SpiderDelay := (10, 14)\<rparr>,
     map new_task [0..<8])"
  by code_simp

lemma world_start_ok: "world_ok world_start"
proof -
  have alive: "bit (255 :: u32) i \<longleftrightarrow> i < 8" for i
    using bit_FF(1) [of i] by auto
  have pos: "in_area (([20, 55, 92, 129, 166, 203, 240, 277] @ replicate 24 0) ! i)
      ((replicate 8 117 @ replicate 24 0) ! i)" if "i < 8" for i
  proof -
    from that have "i \<in> set [0..<8]" by simp
    also have "[0..<8] = [0, 1, 2, 3, 4, 5, 6, 7::nat]" by (simp add: upt_rec)
    finally show ?thesis by (simp, elim disjE) (simp_all add: in_area_def spider_limits nth_append)
  qed
  define xs ys :: "int list" where "xs = [20, 55, 92, 129, 166, 203, 240, 277] @ replicate 24 0"
    and "ys = replicate 8 117 @ replicate 24 0"
  have len: "length xs = 32" "length ys = 32" by (simp_all add: xs_def ys_def)
  have ws: "world_start = \<lparr>shared = spiders_start\<lparr>SpiderX := xs, SpiderY := ys,
      SpiderAlive := 255, SpiderDelay := (10, 14)\<rparr>, tasks = map new_task [0..<8],
      touches = [], drawn = []\<rparr>"
    by (simp add: world_start_def init_eval xs_def ys_def)
  show ?thesis
    using pos [folded xs_def ys_def] rng_start_ok len
    by (auto simp: ws world_ok_def spiders_ok_def task_ok_def new_task_def
        spiders_start_def MAX_SPIDERS_def alive simp del: bit_numeral_word_iff)
qed

interpretation spider_world: invariant_system world_start spider_step world_ok
  by unfold_locales (use world_start_ok world_ok_step in auto)

subsection \<open>Keeping apart\<close>

definition apart :: "spiders \<Rightarrow> bool" where
  "apart st \<longleftrightarrow> (\<forall>i < MAX_SPIDERS. \<forall>j < MAX_SPIDERS. i \<noteq> j \<and> bit (SpiderAlive st) i \<and>
     bit (SpiderAlive st) j \<longrightarrow> \<not> overlaps st i (SpiderX st ! j) (SpiderY st ! j))"

text \<open>A move either stays in place or ends where \<open>SpiderCollide\<close> has found nothing.\<close>

lemma move_cases:
  assumes "spider_move st t = (st', t', d)"
  shows "\<exists>x y. SpiderX st' = (SpiderX st)[num t := x] \<and> SpiderY st' = (SpiderY st)[num t := y] \<and>
    SpiderAlive st' = SpiderAlive st \<and> tx t' = x \<and> ty t' = y \<and>
    (x = tx t \<and> y = ty t \<or>
     SpiderCollide st (int (num t)) x y = - 1 \<and> in_area x y \<and>
     x = tx t + SpiderStepX ! unat (dir t) \<and> y = ty t + SpiderStepY ! unat (dir t))"
  using assms
  by (auto simp: spider_move_def Let_def in_area_def split: prod.splits if_splits)

lemma steps_small:
  "unat d < 8 \<Longrightarrow> \<bar>SpiderStepX ! unat d\<bar> \<le> 1 \<and> \<bar>SpiderStepY ! unat d\<bar> \<le> 1"
proof -
  assume "unat d < 8"
  then have "unat d \<in> set [0..<8]" by simp
  also have "[0..<8] = [0, 1, 2, 3, 4, 5, 6, 7::nat]" by (simp add: upt_rec)
  finally show ?thesis by (simp, elim disjE) (simp_all add: SpiderStepX_def SpiderStepY_def)
qed

subsection \<open>Properties\<close>





text \<open>
  Touching: \<open>SpiderTouchCollide\<close> returns a live spider that has not been killed and is closest
  to the touch among those within 28 pixels both ways; failing that, a closest killed one; and -1
  exactly when no live spider is within reach.
\<close>

theorem SpiderTouchCollide_correct:
  "(SpiderTouchCollide st x y = - 1 \<longleftrightarrow>
      (\<forall>j < MAX_SPIDERS. bit (SpiderAlive st) j \<longrightarrow> \<not> touched st j x y)) \<and>
   (SpiderTouchCollide st x y \<noteq> - 1 \<longrightarrow>
      (\<exists>k. SpiderTouchCollide st x y = int k \<and>
         (closest (\<lambda>i. bit (SpiderAlive st) i \<and> \<not> bit (SpiderDead st) i) st x y k \<or>
          (\<forall>j < MAX_SPIDERS. bit (SpiderAlive st) j \<and> \<not> bit (SpiderDead st) j \<longrightarrow>
             \<not> touched st j x y) \<and>
          closest (\<lambda>i. bit (SpiderAlive st) i) st x y k)))"
  using touch_collide_closest [of st x y] by (auto simp: closest_def)

theorem SpiderTouchCollide_correct_witness:
  "SpiderTouchCollide (spiders_start\<lparr>SpiderAlive := 1\<rparr>) 100 100 = - 1"
  using SpiderTouchCollide_correct [of "spiders_start\<lparr>SpiderAlive := 1\<rparr>" 100 100]
  by (auto simp: near_def spiders_start_def MAX_SPIDERS_def)

text \<open>
  Overlapping spiders: a touch near the edge of the area is tested where it is but the new spider
  is placed inside the area, so it can overlap a live one; and once two live spiders overlap by
  more than a step neither of them ever moves. (The touch at (8, 117) with a spider at (36, 117)
  puts the new one at (20, 117), sixteen pixels away.)
\<close>

theorem overlapping_spiders_freeze:
  "(\<exists>st m st' k. apart st \<and> spiders_ok st \<and> control_message True m st = (st', Some (new_task k)) \<and>
      bit (SpiderAlive st') 0 \<and> k \<noteq> 0 \<and>
      \<bar>SpiderX st' ! 0 - SpiderX st' ! k\<bar> < SPIDER_WIDTH - 1 \<and>
      \<bar>SpiderY st' ! 0 - SpiderY st' ! k\<bar> < SPIDER_HEIGHT - 1) \<and>
   (unat (dir t) < 8 \<and> j < MAX_SPIDERS \<and> j \<noteq> num t \<and> bit (SpiderAlive st) j \<and>
      \<bar>SpiderX st ! j - tx t\<bar> < SPIDER_WIDTH - 1 \<and> \<bar>SpiderY st ! j - ty t\<bar> < SPIDER_HEIGHT - 1 \<longrightarrow>
    tx (fst (snd (spider_move st t))) = tx t \<and> ty (fst (snd (spider_move st t))) = ty t)"
proof
  let ?st = "spiders_start\<lparr>SpiderX := replicate 32 36, SpiderY := replicate 32 117, SpiderAlive := 1\<rparr>"
  let ?new = "?st\<lparr>SpiderX := (replicate 32 36)[1 := 20], SpiderY := (replicate 32 117)[1 := 117]\<rparr>"
  have one: "bit (1 :: u32) i \<longleftrightarrow> i = 0" for i by (simp add: bit_1_iff)
  have "apart ?st" by (auto simp: apart_def one)
  moreover have "spiders_ok ?st"
    using rng_start_ok one
    by (auto simp: spiders_ok_def spiders_start_def MAX_SPIDERS_def in_area_def spider_limits)
  moreover have "control_message True (pack_touch 8 117) ?st = (?new, Some (new_task 1))"
    by code_simp
  moreover have "bit (SpiderAlive ?new) 0" "\<bar>SpiderX ?new ! 0 - SpiderX ?new ! 1\<bar> < SPIDER_WIDTH - 1"
    "\<bar>SpiderY ?new ! 0 - SpiderY ?new ! 1\<bar> < SPIDER_HEIGHT - 1"
    by (simp_all add: one)
  ultimately show "\<exists>st m st' k. apart st \<and> spiders_ok st \<and>
      control_message True m st = (st', Some (new_task k)) \<and> bit (SpiderAlive st') 0 \<and> k \<noteq> 0 \<and>
      \<bar>SpiderX st' ! 0 - SpiderX st' ! k\<bar> < SPIDER_WIDTH - 1 \<and>
      \<bar>SpiderY st' ! 0 - SpiderY st' ! k\<bar> < SPIDER_HEIGHT - 1"
    by (metis zero_neq_one)
next
  show "unat (dir t) < 8 \<and> j < MAX_SPIDERS \<and> j \<noteq> num t \<and> bit (SpiderAlive st) j \<and>
      \<bar>SpiderX st ! j - tx t\<bar> < SPIDER_WIDTH - 1 \<and> \<bar>SpiderY st ! j - ty t\<bar> < SPIDER_HEIGHT - 1 \<longrightarrow>
    tx (fst (snd (spider_move st t))) = tx t \<and> ty (fst (snd (spider_move st t))) = ty t"
  proof
    assume h: "unat (dir t) < 8 \<and> j < MAX_SPIDERS \<and> j \<noteq> num t \<and> bit (SpiderAlive st) j \<and>
      \<bar>SpiderX st ! j - tx t\<bar> < SPIDER_WIDTH - 1 \<and> \<bar>SpiderY st ! j - ty t\<bar> < SPIDER_HEIGHT - 1"
    obtain st' t' d where m: "spider_move st t = (st', t', d)" by (metis surj_pair)
    let ?x = "tx t + SpiderStepX ! unat (dir t)" and ?y = "ty t + SpiderStepY ! unat (dir t)"
    have "overlaps st j ?x ?y" using h steps_small [of "dir t"] by (auto simp: near_def)
    then have "SpiderCollide st (int (num t)) ?x ?y \<noteq> - 1" using h by (auto simp: SpiderCollide_none)
    with move_cases [OF m] have "tx t' = tx t \<and> ty t' = ty t" by metis
    with m show "tx (fst (snd (spider_move st t))) = tx t \<and> ty (fst (snd (spider_move st t))) = ty t"
      by simp
  qed
qed

theorem overlapping_spiders_freeze_witness:
  "tx (fst (snd (spider_move (spiders_start\<lparr>SpiderAlive := 2\<rparr>) (new_task 0)))) = 0"
  using overlapping_spiders_freeze [of "new_task 0" 1 "spiders_start\<lparr>SpiderAlive := 2\<rparr>"]
  by (simp add: new_task_def spiders_start_def MAX_SPIDERS_def)

text \<open>
  Two creations before the first new task has run take the same spider number, since only the
  task itself marks its spider as alive: the second overwrites the first one's position and two
  tasks then move one spider.
\<close>

theorem creations_share_a_spider:
  assumes "CreateSpider True st x y = (rc, st1, Some t1)"
    and "CreateSpider True st1 x' y' = (rc', st2, Some t2)"
  shows "num t1 = num t2"
proof -
  have free: "free_loop s i n = free_loop s' i n" if "SpiderAlive s = SpiderAlive s'"
    for s s' :: spiders and i n
    using that by (induction n arbitrary: i) auto
  have "SpiderAlive st1 = SpiderAlive st"
    using assms(1) by (auto simp: CreateSpider_def Let_def split: if_splits)
  from free [OF this] show ?thesis
    using assms by (auto simp: CreateSpider_def Let_def new_task_def split: if_splits)
qed

theorem creations_share_a_spider_witness:
  "num (new_task (free_loop spiders_start 0 32)) = 0"
proof -
  obtain st1 where 1: "CreateSpider True spiders_start 50 60 = (0, st1, Some (new_task 0))"
    by (simp add: CreateSpider_def Let_def spiders_start_def MAX_SPIDERS_def eval_nat_numeral)
  have a: "free_loop s 0 32 = 0" if "SpiderAlive s = 0" for s :: spiders
    using that by (simp add: eval_nat_numeral)
  have "SpiderAlive st1 = 0" using 1
    by (auto simp: CreateSpider_def Let_def spiders_start_def split: if_splits)
  then obtain st2 where 2: "CreateSpider True st1 9 9 = (0, st2, Some (new_task (free_loop spiders_start 0 32)))"
    by (simp add: CreateSpider_def Let_def MAX_SPIDERS_def a spiders_start_def)
  from creations_share_a_spider [OF 1 2] show ?thesis by (simp add: new_task_def)
qed

end
