(* ===== verification/LwipTask.thy ===== *)
theory LwipTask
  imports CgiFuncs Spider UartStdio
begin

text \<open>
  \<open>lwip_task.c\<close> and \<open>led_task.c\<close>: the web server's CGI and SSI handlers over the state they change
  (the toggle delay of the LED task and the delays of the spiders), the LED task that uses the
  delay, and the start of the network. The lwIP counters, \<open>usnprintf\<close>, the HTTP server and the
  kernel are outside the repository: their values are arguments, and \<open>usnprintf\<close> is a parameter
  with its documented behaviour as a hypothesis.
\<close>

record web =
  LEDDelay :: u32
  web_spiders :: spiders

definition web_start :: "spiders \<Rightarrow> web" where
  "web_start sp = \<lparr>LEDDelay = 500, web_spiders = sp\<rparr>"

subsection \<open>CGI handlers\<close>

definition ToggleRateCGIHandler ::
  "int \<Rightarrow> string list \<Rightarrow> string list \<Rightarrow> web \<Rightarrow> (string \<times> web) option" where
  "ToggleRateCGIHandler i32NumParams ppcParam ppcValue w =
     do { (i32Rate, bParamError) \<leftarrow> GetCGIParam ''time'' ppcParam ppcValue i32NumParams False;
          Some (if bParamError \<or> i32Rate < 1 \<or> i32Rate > 10000 then (''/perror.htm'', w)
                else (''/io.ssi'', w\<lparr>LEDDelay := word_of_int i32Rate\<rparr>)) }"

definition SpiderSpeedCGIHandler ::
  "int \<Rightarrow> string list \<Rightarrow> string list \<Rightarrow> web \<Rightarrow> (string \<times> web) option" where
  "SpiderSpeedCGIHandler i32NumParams ppcParam ppcValue w =
     do { (i32Rate, bParamError) \<leftarrow> GetCGIParam ''time'' ppcParam ppcValue i32NumParams False;
          Some (if bParamError then (''/perror.htm'', w)
                else (''/io.ssi'',
                      w\<lparr>web_spiders := SpiderSpeedSet (word_of_int i32Rate) (web_spiders w)\<rparr>)) }"

text \<open>The table \<open>g_psCGIs\<close> the server looks a requested path up in.\<close>

definition g_psCGIs ::
  "(string \<times> (int \<Rightarrow> string list \<Rightarrow> string list \<Rightarrow> web \<Rightarrow> (string \<times> web) option)) list" where
  "g_psCGIs = [(''/toggle_rate.cgi'', ToggleRateCGIHandler),
               (''/spider_rate.cgi'', SpiderSpeedCGIHandler)]"

definition request ::
  "string \<Rightarrow> (string \<times> string) list \<Rightarrow> web \<Rightarrow> (string \<times> web) option" where
  "request path args w =
     (case map_of g_psCGIs path of
        None \<Rightarrow> Some (path, w)
      | Some h \<Rightarrow> h (int (length args)) (map fst args) (map snd args) w)"

subsection \<open>Server side includes\<close>

datatype tag_value = Counter string string | LedRate | SpiderRate

definition tag_groups :: "(string \<times> string) list" where
  "tag_groups = [(''link'', ''link''), (''arp'', ''etharp''), (''icmp'', ''icmp''), (''ip'', ''ip''),
     (''tcp'', ''tcp''), (''udp'', ''udp'')]"

definition tag_fields :: "(string \<times> string) list" where
  "tag_fields = [(''sent'', ''xmit''), (''recv'', ''recv''), (''drop'', ''drop''),
     (''cksm'', ''chkerr''), (''len'', ''lenerr''), (''mem'', ''memerr''), (''rte'', ''rterr''),
     (''prot'', ''proterr''), (''opt'', ''opterr''), (''misc'', ''err'')]"

definition g_psTags :: "(string \<times> tag_value) list" where
  "g_psTags = [(g @ f, Counter s m). (g, s) \<leftarrow> tag_groups, (f, m) \<leftarrow> tag_fields] @
     [(''ledrate'', LedRate), (''spider'', SpiderRate)]"

definition NUM_TAGS :: nat where "NUM_TAGS = length g_psTags"

fun tag_read :: "(string \<Rightarrow> string \<Rightarrow> u32) \<Rightarrow> web \<Rightarrow> tag_value \<Rightarrow> u32" where
  "tag_read stats w (Counter s m) = stats s m"
| "tag_read stats w LedRate = LEDDelay w"
| "tag_read stats w SpiderRate = fst (SpiderDelay (web_spiders w))"

text \<open>\<open>%d\<close> of a 32-bit word.\<close>

definition decimal :: "u32 \<Rightarrow> string" where
  "decimal v = (if sint v < 0 then CHR ''-'' # digits 10 (nat (- sint v)) else digits 10 (nat (sint v)))"

text \<open>The loop at the end of the handler: the position of the NUL (\<open>None\<close>: past the buffer).\<close>

fun text_length :: "string \<Rightarrow> int \<Rightarrow> int option" where
  "text_length [] i = None"
| "text_length (c # cs) i = (if c = NUL then Some i else text_length cs (i + 1))"

text \<open>\<open>usnprintf n s buf\<close> is the buffer after \<open>s\<close> has been printed into its first \<open>n\<close> bytes. The
  tag index is compared with the unsigned \<open>NUM_TAGS\<close>; the returned length is 16 bits wide.\<close>

definition SSIHandler ::
  "(int \<Rightarrow> string \<Rightarrow> string \<Rightarrow> string) \<Rightarrow> (string \<Rightarrow> string \<Rightarrow> u32) \<Rightarrow> int \<Rightarrow> string \<Rightarrow> int \<Rightarrow> web
    \<Rightarrow> (u16 \<times> string) option" where
  "SSIHandler usnprintf stats i32Index pcInsert i32InsertLen w =
     (let i = unat (word_of_int i32Index :: u32);
          buf = (if i < NUM_TAGS
                 then usnprintf i32InsertLen (decimal (tag_read stats w (snd (g_psTags ! i)))) pcInsert
                 else usnprintf i32InsertLen ''??'' pcInsert) in
      do { n \<leftarrow> text_length buf 0; Some (word_of_int n, buf) })"

text \<open>The names of the tags, as \<open>SetupServices\<close> hands them to the server.\<close>

definition g_ppcSSITags :: "string list" where
  "g_ppcSSITags = map (\<lambda>i. fst (g_psTags ! i)) [0..<NUM_TAGS]"

subsection \<open>Starting the network\<close>

text \<open>The return code and the MAC address given to \<open>lwIPInit\<close>.\<close>

definition lwIPTaskInit :: "u32 \<Rightarrow> u32 \<Rightarrow> nat \<times> u8 list option" where
  "lwIPTaskInit ui32User0 ui32User1 =
     (if ui32User0 = 0xffffffff \<or> ui32User1 = 0xffffffff then (1, None)
      else (0, Some [ucast (ui32User0 AND 0xff), ucast (drop_bit 8 ui32User0 AND 0xff),
        ucast (drop_bit 16 ui32User0 AND 0xff), ucast (ui32User1 AND 0xff),
        ucast (drop_bit 8 ui32User1 AND 0xff), ucast (drop_bit 16 ui32User1 AND 0xff)]))"

subsection \<open>The LED task\<close>

text \<open>One half of the loop of \<open>LEDTask\<close>: the pin is written, then the task waits until the last
  wake time plus the delay, read at that moment (\<open>portTICK_RATE_MS\<close> is 1).\<close>

record led_state =
  pin_on :: bool
  LastTime :: u32

definition led_half :: "web \<Rightarrow> led_state \<Rightarrow> led_state \<times> u32" where
  "led_half w t = (let inc = LEDDelay w div 1 in
     (\<lparr>pin_on = \<not> pin_on t, LastTime = LastTime t + inc\<rparr>, inc))"

text \<open>The state after a number of halves; the pin is first turned on.\<close>

fun led_run :: "web list \<Rightarrow> led_state \<Rightarrow> led_state \<times> u32 list" where
  "led_run [] t = (t, [])"
| "led_run (w # ws) t =
     (let (t1, inc) = led_half w t; (t2, incs) = led_run ws t1 in (t2, inc # incs))"

subsection \<open>Lemmas\<close>

text \<open>The first argument of the given name has the decimal value \<open>n\<close>, as the helpers read it.\<close>

definition decimal_arg :: "string \<Rightarrow> (string \<times> string) list \<Rightarrow> int \<Rightarrow> bool" where
  "decimal_arg p args n \<longleftrightarrow> (\<exists>pre sg ds post. map_of args p = Some (pre @ sg @ ds @ post) \<and>
     decimal_form pre sg ds post \<and> n = s32 (sign_of sg * number ds))"

lemma find_map_of:
  "case List.find (\<lambda>j. map fst args ! j = p) [0..<length args] of
     None \<Rightarrow> map_of args p = None
   | Some j \<Rightarrow> j < length args \<and> map_of args p = Some (map snd args ! j)"
proof (induction args)
  case (Cons a args)
  have up: "[0..<Suc (length args)] = 0 # map Suc [0..<length args]"
    by (simp add: map_Suc_upt upt_conv_Cons del: upt_Suc)
  have fm: "List.find P (map f xs) = map_option f (List.find (P \<circ> f) xs)"
    for P and f :: "nat \<Rightarrow> nat" and xs by (induction xs) auto
  show ?case using Cons.IH
    by (cases "fst a = p") (auto simp: up fm comp_def simp del: upt_Suc split: option.splits)
qed simp

lemma get_param:
  "GetCGIParam p (map fst args) (map snd args) (int (length args)) False =
     Some (case Option.bind (map_of args p) CheckDecimalParam of
       None \<Rightarrow> (0, True) | Some n \<Rightarrow> (n, False))"
proof -
  have "FindCGIParameter p (map fst args) (int (length args)) =
      Some (case List.find (\<lambda>j. map fst args ! j = p) [0..<length args] of None \<Rightarrow> - 1 | Some j \<Rightarrow> int j)"
    using find_parameter [of "map fst args" "int (length args)" p] by simp
  then show ?thesis using find_map_of [of args p]
    by (auto simp: GetCGIParam_def rd_def split: option.splits)
qed

lemma decimal_arg_iff:
  "decimal_arg p args n \<longleftrightarrow> Option.bind (map_of args p) CheckDecimalParam = Some n"
proof -
  have sound: "\<exists>pre sg ds post. s = pre @ sg @ ds @ post \<and>
      decimal_form pre sg ds post \<and> n = s32 (sign_of sg * number ds)"
    if c: "CheckDecimalParam s = Some n" for s
  proof -
    obtain pre sg ds post where d: "s = pre @ sg @ ds @ post" "decimal_form pre sg ds post"
      using check_sound [of s] c by (auto simp: CheckDecimalParam_def)
    with c check_complete [OF d(2)] show ?thesis by (intro exI [of _ pre] exI [of _ sg] exI [of _ ds] exI [of _ post]) auto
  qed
  show ?thesis
  proof
    assume "decimal_arg p args n"
    then show "Option.bind (map_of args p) CheckDecimalParam = Some n"
      by (auto simp: decimal_arg_def check_complete)
  next
    assume "Option.bind (map_of args p) CheckDecimalParam = Some n"
    then obtain s where "map_of args p = Some s" "CheckDecimalParam s = Some n"
      by (auto simp: bind_eq_Some_conv)
    with sound [of s] show "decimal_arg p args n" unfolding decimal_arg_def by simp
  qed
qed

lemma toggle_eval:
  "request ''/toggle_rate.cgi'' args w = Some
     (case Option.bind (map_of args ''time'') CheckDecimalParam of
        None \<Rightarrow> (''/perror.htm'', w)
      | Some n \<Rightarrow> if 1 \<le> n \<and> n \<le> 10000 then (''/io.ssi'', w\<lparr>LEDDelay := word_of_int n\<rparr>)
                  else (''/perror.htm'', w))"
  by (auto simp: request_def g_psCGIs_def ToggleRateCGIHandler_def get_param split: option.split)

lemma spider_eval:
  "request ''/spider_rate.cgi'' args w = Some
     (case Option.bind (map_of args ''time'') CheckDecimalParam of
        None \<Rightarrow> (''/perror.htm'', w)
      | Some n \<Rightarrow> (''/io.ssi'', w\<lparr>web_spiders := SpiderSpeedSet (word_of_int n) (web_spiders w)\<rparr>))"
  by (auto simp: request_def g_psCGIs_def SpiderSpeedCGIHandler_def get_param split: option.split)

lemma other_eval:
  "path \<noteq> ''/toggle_rate.cgi'' \<Longrightarrow> path \<noteq> ''/spider_rate.cgi'' \<Longrightarrow>
   request path args w = Some (path, w)"
  by (simp add: request_def g_psCGIs_def)

text \<open>What the web server and the spider tasks do to the state, in any order.\<close>

inductive web_step :: "web \<Rightarrow> web \<Rightarrow> bool" where
  served: "request path args w = Some (page, w') \<Longrightarrow> web_step w w'"
| others: "web_step w (w\<lparr>web_spiders := st\<rparr>)"

definition delay_ok :: "web \<Rightarrow> bool" where
  "delay_ok w \<longleftrightarrow> 1 \<le> unat (LEDDelay w) \<and> unat (LEDDelay w) \<le> 10000"

lemma delay_ok_step: "delay_ok w \<Longrightarrow> web_step w w' \<Longrightarrow> delay_ok w'"
proof -
  have small: "unat (word_of_int n :: u32) = nat n" if "1 \<le> n" "n \<le> 10000" for n
    using that by (simp add: unat_eq_nat_uint uint_word_of_int)
  assume a: "delay_ok w" "web_step w w'"
  from a(2) show "delay_ok w'"
  proof cases
    case (served path args page)
    consider "path = ''/toggle_rate.cgi''" | "path = ''/spider_rate.cgi''"
      | "path \<noteq> ''/toggle_rate.cgi''" "path \<noteq> ''/spider_rate.cgi''" by blast
    then show ?thesis
      using served a(1) other_eval [of path args w]
      by cases (auto simp: toggle_eval spider_eval delay_ok_def small split: option.splits if_splits)
  qed (use a(1) in \<open>auto simp: delay_ok_def\<close>)
qed

interpretation web_sys: invariant_system "web_start sp" web_step delay_ok for sp
  by unfold_locales (rule delay_ok_step, assumption, assumption, simp add: web_start_def delay_ok_def)

lemma led_run_spec:
  "led_run ws t = (t', incs) \<Longrightarrow> incs = map LEDDelay ws \<and>
     LastTime t' = LastTime t + sum_list incs \<and> (pin_on t' \<longleftrightarrow> pin_on t \<noteq> odd (length ws))"
proof (induction ws arbitrary: t t' incs)
  case (Cons w ws)
  obtain t2 ds where r: "led_run ws (fst (led_half w t)) = (t2, ds)" by fastforce
  from Cons.IH [OF r] r Cons.prems show ?case
    by (auto simp: led_half_def Let_def split: prod.splits)
qed simp

subsection \<open>Printing\<close>

text \<open>The documented behaviour of \<open>usnprintf\<close>.\<close>

definition usnprintf_prints :: "(int \<Rightarrow> string \<Rightarrow> string \<Rightarrow> string) \<Rightarrow> bool" where
  "usnprintf_prints usnprintf \<longleftrightarrow> (\<forall>n s buf. 0 < n \<and> nat n \<le> length buf \<longrightarrow>
     usnprintf n s buf = take (nat n - 1) s @ [NUL] @
       drop (Suc (min (nat n - 1) (length s))) buf)"

lemma text_length_spec: "NUL \<notin> set s \<Longrightarrow> text_length (s @ NUL # rest) i = Some (i + int (length s))"
  by (induction s arbitrary: i) auto

lemma decimal_plain: "NUL \<notin> set (decimal v)"
  by (simp add: decimal_def digits_plain)

lemma g_psTags_length: "NUM_TAGS = 62"
  by (simp add: NUM_TAGS_def g_psTags_def tag_groups_def tag_fields_def)

lemma index_unsigned:
  assumes "- (2 ^ 31) \<le> i" "i < 2 ^ 31"
  shows "unat (word_of_int i :: u32) < 62 \<longleftrightarrow> 0 \<le> i \<and> i < 62"
    and "0 \<le> i \<Longrightarrow> unat (word_of_int i :: u32) = nat i"
proof -
  have u: "unat (word_of_int i :: u32) = nat (i mod 2 ^ 32)"
    by (simp add: unat_eq_nat_uint uint_word_of_int)
  have "i mod 2 ^ 32 = (if 0 \<le> i then i else i + 2 ^ 32)"
  proof (cases "0 \<le> i")
    case False
    have "i mod 2 ^ 32 = (i + 2 ^ 32) mod 2 ^ 32" by simp
    also have "\<dots> = i + 2 ^ 32" using False assms by (intro mod_pos_pos_trivial) auto
    finally show ?thesis using False by simp
  qed (use assms in simp)
  then show "unat (word_of_int i :: u32) < 62 \<longleftrightarrow> 0 \<le> i \<and> i < 62"
    and "0 \<le> i \<Longrightarrow> unat (word_of_int i :: u32) = nat i"
    unfolding u using assms by (auto split: if_splits)
qed

lemma ssi_eval:
  assumes "usnprintf_prints usnprintf" "0 < len" "nat len \<le> length buf"
    and "- (2 ^ 31) \<le> i" "i < 2 ^ 31"
  shows "SSIHandler usnprintf stats i buf len w =
    (let s = take (nat len - 1) (if 0 \<le> i \<and> i < 62
           then decimal (tag_read stats w (snd (g_psTags ! nat i))) else ''??'') in
     Some (of_nat (length s), s @ NUL # drop (Suc (length s)) buf))"
proof -
  have plain: "NUL \<notin> set (take k s)" if "NUL \<notin> set s" for k and s :: string
    using that by (meson in_set_takeD)
  have "min (nat len - 1) (length s) = length (take (nat len - 1) s)" for s :: string by simp
  then have p: "usnprintf len s buf = take (nat len - 1) s @ NUL #
      drop (Suc (length (take (nat len - 1) s))) buf" for s
    using assms(1-3) by (simp add: usnprintf_prints_def min.commute)
  show ?thesis
    using index_unsigned [OF assms(4,5)]
    by (auto simp: SSIHandler_def Let_def g_psTags_length p text_length_spec plain decimal_plain)
qed

subsection \<open>Properties\<close>

text \<open>
  Changing the toggle rate: the request is always answered. The first argument called \<open>time\<close>
  must be a decimal number from 1 to 10000 (after wrapping to 32 bits); then it becomes the delay of
  the LED task and the I/O page is shown, and otherwise nothing changes and the error page is shown.
\<close>

theorem toggle_rate_request:
  "request ''/toggle_rate.cgi'' args w = Some r \<longleftrightarrow>
   (\<exists>n. decimal_arg ''time'' args n \<and> 1 \<le> n \<and> n \<le> 10000 \<and>
      r = (''/io.ssi'', w\<lparr>LEDDelay := word_of_int n\<rparr>)) \<or>
   (\<nexists>n. decimal_arg ''time'' args n \<and> 1 \<le> n \<and> n \<le> 10000) \<and> r = (''/perror.htm'', w)"
  unfolding toggle_eval decimal_arg_iff by (auto split: option.split)

text \<open>
  The LED task under the web server: whatever requests are served and whatever the spider tasks
  do in between, every request is answered, every delay the task passes to \<open>vTaskDelayUntil\<close> is
  from 1 to 10000 ticks, its wake times add up from the first tick count without drift, and the LED
  alternates.
\<close>

theorem led_task_delays:
  assumes "\<forall>w \<in> set ws. web_step\<^sup>*\<^sup>* (web_start sp) w" and "led_run ws t = (t', incs)"
  shows "(\<forall>d \<in> set incs. 1 \<le> unat d \<and> unat d \<le> 10000) \<and> length incs = length ws \<and>
    LastTime t' = LastTime t + sum_list incs \<and> (pin_on t' \<longleftrightarrow> pin_on t \<noteq> odd (length ws)) \<and>
    request path args w \<noteq> None"
proof -
  have "request path args w \<noteq> None"
    using toggle_eval spider_eval other_eval [of path args w]
    by (cases "path = ''/toggle_rate.cgi'' \<or> path = ''/spider_rate.cgi''") auto
  then show ?thesis
    using led_run_spec [OF assms(2)] assms(1) web_sys.reachable_inv by (auto simp: delay_ok_def)
qed

theorem led_task_delays_witness:
  "unat (LEDDelay (web_start spiders_start)) \<le> 10000"
  using led_task_delays [of "[web_start spiders_start]" spiders_start
      "\<lparr>pin_on = False, LastTime = 7\<rparr>" "\<lparr>pin_on = True, LastTime = 507\<rparr>" "[500]"]
  by (simp add: led_half_def web_start_def)

text \<open>
  The speed of the spiders, as the handler sets it: any decimal \<open>time\<close> is accepted, whatever its
  size; from 0 to 306783 the spiders then move every \<open>n\<close> milliseconds, or every \<open>7 n / 5\<close> when they
  move diagonally; from 306784 on the product overflows.
\<close>

theorem spider_speed_request:
  assumes "decimal_arg ''time'' args n"
  shows "\<exists>d1 d2. request ''/spider_rate.cgi'' args w = Some (''/io.ssi'',
      w\<lparr>web_spiders := (web_spiders w)\<lparr>SpiderDelay := (d1, d2)\<rparr>\<rparr>) \<and>
    (0 \<le> n \<and> n \<le> 306783 \<longrightarrow> uint d1 = n \<and> uint d2 = 7 * n div 5) \<and>
    (n = 306784 \<longrightarrow> uint d1 = n \<and> uint d2 = 0)"
proof -
  let ?u = "word_of_int n :: u32"
  have d1: "uint (?u * 1000 div 1000) = n * 1000 div 1000" if "0 \<le> n" "n \<le> 306784"
    using that by (simp add: uint_div uint_word_of_int uint_mult_lem uint_word_ariths(3))
  have d2: "uint (?u * 14 * 1000 div 10000) = n * 14000 div 10000" if "0 \<le> n" "n \<le> 306783"
    using that by (simp add: uint_div uint_word_of_int uint_word_ariths(3) mod_mult_left_eq
        mod_mult_eq mult.assoc)
  have over: "(306784 :: u32) * 14 * 1000 div 10000 = 0" by code_simp
  have "request ''/spider_rate.cgi'' args w = Some (''/io.ssi'',
      w\<lparr>web_spiders := (web_spiders w)\<lparr>SpiderDelay := (?u * 1000 div 1000, ?u * 14 * 1000 div 10000)\<rparr>\<rparr>)"
    using assms by (simp add: spider_eval decimal_arg_iff SpiderSpeedSet_def)
  moreover have "uint (?u * 14 * 1000 div 10000) = 7 * n div 5" if "0 \<le> n \<and> n \<le> 306783"
    using d2 that by simp
  moreover have "uint (?u * 14 * 1000 div 10000) = 0" if "n = 306784"
    using over that by simp
  ultimately show ?thesis using d1
    by (intro exI [of _ "?u * 1000 div 1000"] exI [of _ "?u * 14 * 1000 div 10000"]) auto
qed

theorem spider_speed_request_witness:
  "\<exists>d1 d2. request ''/spider_rate.cgi'' [(''time'', ''20'')] (web_start spiders_start) =
     Some (''/io.ssi'', (web_start spiders_start)\<lparr>web_spiders := spiders_start\<lparr>SpiderDelay := (d1, d2)\<rparr>\<rparr>)
     \<and> uint d1 = 20 \<and> uint d2 = 28"
proof -
  have "CheckDecimalParam ''20'' = Some 20" by code_simp
  then have "decimal_arg ''time'' [(''time'', ''20'')] 20" by (simp add: decimal_arg_iff)
  from spider_speed_request [OF this, of "web_start spiders_start"] show ?thesis
    by (simp add: web_start_def)
qed

text \<open>
  Server side includes: with \<open>usnprintf\<close> as documented, for an index of one of the 62 tags the
  handler writes the value of the counter (or delay) the tag is named after, as signed decimal, and
  for any other index (a negative one included) two question marks; the text is cut to the buffer
  and terminated, nothing else is written, and the length is returned.
\<close>

theorem SSIHandler_correct:
  assumes "usnprintf_prints usnprintf" "0 < len" "nat len \<le> length buf"
    and "- (2 ^ 31) \<le> i" "i < 2 ^ 31"
  shows "\<exists>s rest. SSIHandler usnprintf stats i buf len w = Some (of_nat (length s), s @ NUL # rest) \<and>
    length (s @ NUL # rest) = length buf \<and> rest = drop (Suc (length s)) buf \<and>
    s = take (nat len - 1) (if 0 \<le> i \<and> i < int (length g_ppcSSITags)
      then decimal (tag_read stats w (snd (g_psTags ! nat i))) else ''??'')"
proof -
  define s where "s = take (nat len - 1) (if 0 \<le> i \<and> i < int (length g_ppcSSITags)
      then decimal (tag_read stats w (snd (g_psTags ! nat i))) else ''??'')"
  have n: "int (length g_ppcSSITags) = 62" by (simp add: g_ppcSSITags_def g_psTags_length)
  have "length s \<le> nat len - 1" by (simp add: s_def)
  then have "length s < length buf" using assms(2,3) by linarith
  then show ?thesis
    unfolding s_def [symmetric] ssi_eval [OF assms]
    by (intro exI [of _ s] exI [of _ "drop (Suc (length s)) buf"]) (simp add: s_def n Let_def)
qed

theorem SSIHandler_correct_witness:
  "\<exists>rest. SSIHandler (\<lambda>n s buf. take (nat n - 1) s @ [NUL] @ drop (Suc (min (nat n - 1) (length s))) buf)
     (\<lambda>_ _. 0) 60 (replicate 8 CHR ''z'') 8 (web_start spiders_start) = Some (3, ''500'' @ NUL # rest)"
proof -
  have t: "g_psTags ! 60 = (''ledrate'', LedRate)" by code_simp
  have d: "decimal 500 = ''500''" by code_simp
  let ?u = "\<lambda>n s buf. take (nat n - 1) s @ [NUL] @ drop (Suc (min (nat n - 1) (length s))) buf"
  have "usnprintf_prints ?u" by (simp add: usnprintf_prints_def)
  from SSIHandler_correct [OF this, of 8 "replicate 8 CHR ''z''" 60 "\<lambda>_ _. 0" "web_start spiders_start"]
  show ?thesis by (auto simp: g_ppcSSITags_def g_psTags_length t d web_start_def)
qed

text \<open>How the board's flash holds three bytes of the address, below an unused byte.\<close>

definition user_register :: "(nat \<Rightarrow> u8) \<Rightarrow> nat \<Rightarrow> u8 \<Rightarrow> u32" where
  "user_register b k t = ucast (b k) OR push_bit 8 (ucast (b (k + 1))) OR
     push_bit 16 (ucast (b (k + 2))) OR push_bit 24 (ucast t)"

lemma user_register_bytes:
  "ucast (user_register b k t AND 0xff) = b k"
  "ucast (drop_bit 8 (user_register b k t) AND 0xff) = b (k + 1)"
  "ucast (drop_bit 16 (user_register b k t) AND 0xff) = b (k + 2)"
  unfolding user_register_def
  by (rule bit_word_eqI; auto simp: bit_simps bit_FF dest: bit_imp_le_length)+

text \<open>
  The MAC address: whatever the two unused top bytes of the flash registers, programming an
  address into them 24 and 24 bits at a time and starting the network gives that address to lwIP;
  erased registers are refused.
\<close>

theorem mac_address_roundtrip:
  "lwIPTaskInit (user_register b 0 t0) (user_register b 3 t1) =
    (if user_register b 0 t0 = 0xffffffff \<or> user_register b 3 t1 = 0xffffffff then (1, None)
     else (0, Some (map b [0..<6])))"
proof -
  have "[0..<6] = [0, 1, 2, 3, 4, 5::nat]" by (simp add: upt_rec)
  then show ?thesis using user_register_bytes [of b 0 t0] user_register_bytes [of b 3 t1]
    by (simp add: lwIPTaskInit_def numeral_2_eq_2)
qed

end
