(* ===== verification/IdleTask.thy ===== *)
theory IdleTask
  imports CgiFuncs UartStdio TransitionSystem
begin

text \<open>
  \<open>display_task.c\<close> and \<open>idle_task.c\<close>: the display task with its queue and pen, the calls that send it
  requests, and the idle hook that keeps the status line (uptime, tasks, IP address, packet
  counters) up to date. The fixed-size string buffers are byte arrays whose every write is checked.
\<close>

subsection \<open>The display task\<close>

text \<open>An image is known by its index, as in the requests of the spider tasks.\<close>

type_synonym image = "nat option"

datatype display_message =
    DISPLAY_IMAGE u16 u16 image
  | DISPLAY_STRING u16 u16 string
  | DISPLAY_MOVE u16 u16
  | DISPLAY_DRAW u16 u16

text \<open>What it asks of the graphics library.\<close>

datatype gr = GrImageDraw u16 u16 image | GrStringDraw u16 u16 string | GrLineDraw u32 u32 u16 u16

definition DisplayImage :: "u32 \<Rightarrow> u32 \<Rightarrow> image \<Rightarrow> display_message" where
  "DisplayImage x y im = DISPLAY_IMAGE (ucast x) (ucast y) im"

definition DisplayString :: "u32 \<Rightarrow> u32 \<Rightarrow> string \<Rightarrow> display_message" where
  "DisplayString x y s = DISPLAY_STRING (ucast x) (ucast y) s"

definition DisplayMove :: "u32 \<Rightarrow> u32 \<Rightarrow> display_message" where
  "DisplayMove x y = DISPLAY_MOVE (ucast x) (ucast y)"

definition DisplayDraw :: "u32 \<Rightarrow> u32 \<Rightarrow> display_message" where
  "DisplayDraw x y = DISPLAY_DRAW (ucast x) (ucast y)"

text \<open>One message: the pen and what is drawn.\<close>

fun DisplayTask :: "display_message \<Rightarrow> u32 \<times> u32 \<Rightarrow> (u32 \<times> u32) \<times> gr list" where
  "DisplayTask (DISPLAY_IMAGE x y im) pen = (pen, [GrImageDraw x y im])"
| "DisplayTask (DISPLAY_STRING x y s) pen = (pen, [GrStringDraw x y s])"
| "DisplayTask (DISPLAY_MOVE x y) pen = ((ucast x, ucast y), [])"
| "DisplayTask (DISPLAY_DRAW x y) pen =
     ((ucast x, ucast y), [GrLineDraw (fst pen) (snd pen) x y])"

text \<open>The queue between the senders, who wait while it is full, and the task.\<close>

record display =
  queue :: "display_message list"
  pen :: "u32 \<times> u32"
  screen :: "gr list"
  sent :: "display_message list"

definition DISPLAY_QUEUE_SIZE :: nat where "DISPLAY_QUEUE_SIZE = 10"

inductive display_step :: "display \<Rightarrow> display \<Rightarrow> bool" where
  send: "length (queue d) < DISPLAY_QUEUE_SIZE \<Longrightarrow>
     display_step d (d\<lparr>queue := queue d @ [m], sent := sent d @ [m]\<rparr>)"
| receive: "queue d = m # q \<Longrightarrow> DisplayTask m (pen d) = (p, gs) \<Longrightarrow>
     display_step d (d\<lparr>queue := q, pen := p, screen := screen d @ gs\<rparr>)"

definition display_start :: "u32 \<times> u32 \<Rightarrow> display" where
  "display_start p = \<lparr>queue = [], pen = p, screen = [], sent = []\<rparr>"

text \<open>The queue and the task are created; 1 when either fails.\<close>

definition DisplayTaskInit :: "bool \<Rightarrow> bool \<Rightarrow> nat" where
  "DisplayTaskInit queue_ok task_ok = (if \<not> queue_ok then 1 else if \<not> task_ok then 1 else 0)"

subsection \<open>Numbers and addresses\<close>

text \<open>\<open>'0' + n\<close>.\<close>

definition numeral_char :: "nat \<Rightarrow> char" where
  "numeral_char n = char_of (48 + n)"

text \<open>\<open>g_pcIPString[ui32Idx++] = c\<close>.\<close>

definition store :: "char \<Rightarrow> nat \<times> string \<Rightarrow> (nat \<times> string) option" where
  "store c s = map_option (Pair (fst s + 1)) (poke (snd s) (fst s) [c])"

fun store_all :: "string \<Rightarrow> nat \<times> string \<Rightarrow> (nat \<times> string) option" where
  "store_all [] s = Some s"
| "store_all (c # cs) s = do { s1 \<leftarrow> store c s; store_all cs s1 }"

fun ip_loop :: "u32 \<Rightarrow> nat list \<Rightarrow> nat \<times> string \<Rightarrow> (nat \<times> string) option" where
  "ip_loop ui32IP [] s = Some s"
| "ip_loop ui32IP (ui32Loop # ls) s =
     (let ui32Value = unat (drop_bit ui32Loop ui32IP AND 0xff) in
      do { s1 \<leftarrow> (if ui32Value > 99 then store (numeral_char (ui32Value div 100)) s else Some s);
           s2 \<leftarrow> (if ui32Value > 9 then store (numeral_char (ui32Value div 10 mod 10)) s1
                  else Some s1);
           s3 \<leftarrow> store (numeral_char (ui32Value mod 10)) s2;
           s4 \<leftarrow> store CHR ''.'' s3;
           ip_loop ui32IP ls s4 })"

fun blank_loop :: "nat \<Rightarrow> nat \<Rightarrow> string \<Rightarrow> string option" where
  "blank_loop ui32Loop 0 buf = Some buf"
| "blank_loop ui32Loop (Suc left) buf =
     do { buf1 \<leftarrow> poke buf ui32Loop '' ''; blank_loop (ui32Loop + 1) left buf1 }"

text \<open>The buffer and the string sent to the display.\<close>

definition DisplayIP ::
  "u32 \<Rightarrow> string \<Rightarrow> (string \<times> display_message) option" where
  "DisplayIP ui32IP g_pcIPString =
     (if ui32IP = 0 then Some (g_pcIPString, DisplayString 114 (231 - 10) ''  Acquiring...  '')
      else
        do { s0 \<leftarrow> store_all ''    '' (0, g_pcIPString);
             (ui32Idx, buf1) \<leftarrow> ip_loop ui32IP [0, 8, 16, 24] s0;
             buf2 \<leftarrow> blank_loop (ui32Idx - 1) (20 - (ui32Idx - 1)) buf1;
             buf3 \<leftarrow> poke buf2 (ui32Idx + 3 - (ui32Idx - 12) div 2) [NUL];
             t \<leftarrow> text_at (drop ((ui32Idx - 12) div 2) buf3);
             Some (buf3, DisplayString (117 - of_nat (ui32Idx mod 2 * 3)) (231 - 10) t) })"

definition DisplayValue ::
  "string \<Rightarrow> nat \<Rightarrow> u32 \<Rightarrow> u32 \<Rightarrow> (string \<times> display_message) option" where
  "DisplayValue pcBuffer v x y =
     (let (x', ds) =
        (if v < 10 then (x + 15, [v])
         else if v < 100 then (x + 12, [v div 10, v mod 10])
         else if v < 1000 then (x + 9, [v div 100, v div 10 mod 10, v mod 10])
         else if v < 10000 then (x + 6, [v div 1000, v div 100 mod 10, v div 10 mod 10, v mod 10])
         else if v < 100000 then
           (x + 3, [v div 10000, v div 1000 mod 10, v div 100 mod 10, v div 10 mod 10, v mod 10])
         else (x, [v div 100000 mod 10, v div 10000 mod 10, v div 1000 mod 10, v div 100 mod 10,
                   v div 10 mod 10, v mod 10])) in
      do { buf \<leftarrow> poke pcBuffer 0 (map numeral_char ds @ [NUL]);
           t \<leftarrow> text_at buf;
           Some (buf, DisplayString x' y t) })"

subsection \<open>The idle hook\<close>

record idle =
  Tasks :: u32
  PreviousTasks :: u32
  Seconds :: u32
  IPAddress :: u32
  TXPackets :: u32
  RXPackets :: u32
  pcTimeString :: string
  pcTaskString :: string
  pcIPString :: string
  pcTxString :: string
  pcRxString :: string

definition idle_start :: idle where
  "idle_start = \<lparr>Tasks = 0, PreviousTasks = 0, Seconds = 0xffffffff, IPAddress = 0xffffffff,
     TXPackets = 0xffffffff, RXPackets = 0xffffffff, pcTimeString = replicate 12 NUL,
     pcTaskString = replicate 4 NUL, pcIPString = replicate 24 NUL, pcTxString = replicate 8 NUL,
     pcRxString = replicate 8 NUL\<rparr>"

text \<open>What the hook reads from the kernel and the network.\<close>

record readings =
  ticks :: u32
  number_of_tasks :: u32
  address :: u32
  xmit :: u32
  recv :: u32

definition frame :: "display_message list" where
  "frame = [DisplayMove 8 (231 - 20), DisplayDraw 311 (231 - 20), DisplayDraw 311 230,
     DisplayDraw 8 230, DisplayDraw 8 (231 - 20), DisplayMove 69 (231 - 20), DisplayDraw 69 230,
     DisplayMove 111 (231 - 20), DisplayDraw 111 230, DisplayMove 213 (231 - 20),
     DisplayDraw 213 230, DisplayMove 262 (231 - 20), DisplayDraw 262 230,
     DisplayString 21 (231 - 18) ''Uptime'', DisplayString 75 (231 - 18) ''Tasks'',
     DisplayString 133 (231 - 18) ''IP Address'', DisplayString 232 (231 - 18) ''TX'',
     DisplayString 280 (231 - 18) ''RX'']"

definition time_digits :: "nat \<Rightarrow> string" where
  "time_digits s = [numeral_char (s div 36000 mod 10), numeral_char (s div 3600 mod 10), CHR '':'',
     numeral_char (s div 600 mod 6), numeral_char (s div 60 mod 10), CHR '':'',
     numeral_char (s div 10 mod 6), numeral_char (s mod 10)]"

definition show_seconds :: "u32 \<Rightarrow> idle \<Rightarrow> (idle \<times> display_message list) option" where
  "show_seconds t st =
     (if t = Seconds st then Some (st, [])
      else do { buf \<leftarrow> poke (pcTimeString st) 0 (time_digits (unat t) @ [NUL]);
                s \<leftarrow> text_at buf;
                Some (st\<lparr>Seconds := t, pcTimeString := buf\<rparr>, [DisplayString 16 (231 - 10) s]) })"

definition show_tasks :: "u32 \<Rightarrow> idle \<Rightarrow> (idle \<times> display_message list) option" where
  "show_tasks n st =
     (let st1 = st\<lparr>Tasks := n\<rparr> in
      if Tasks st1 = PreviousTasks st1 then Some (st1, [])
      else
        let st2 = st1\<lparr>PreviousTasks := n\<rparr>; v = unat n in
        if v < 10 then
          do { buf \<leftarrow> poke (pcTaskString st2) 0 [CHR 0x20, numeral_char (v mod 10), CHR 0x20, NUL];
               s \<leftarrow> text_at buf;
               Some (st2\<lparr>pcTaskString := buf\<rparr>, [DisplayString 81 (231 - 10) s]) }
        else
          do { buf \<leftarrow> poke (pcTaskString st2) 0
                 [numeral_char (v div 10 mod 10), numeral_char (v mod 10), NUL];
               s \<leftarrow> text_at buf;
               Some (st2\<lparr>pcTaskString := buf\<rparr>, [DisplayString 83 (231 - 10) s]) })"

definition show_address :: "u32 \<Rightarrow> idle \<Rightarrow> (idle \<times> display_message list) option" where
  "show_address ip st =
     (if ip = IPAddress st then Some (st, [])
      else do { (buf, m) \<leftarrow> DisplayIP ip (pcIPString st);
                Some (st\<lparr>IPAddress := ip, pcIPString := buf\<rparr>, [m]) })"

definition show_tx :: "u32 \<Rightarrow> idle \<Rightarrow> (idle \<times> display_message list) option" where
  "show_tx n st =
     (if n = TXPackets st then Some (st, [])
      else do { (buf, m) \<leftarrow> DisplayValue (pcTxString st) (unat n) 219 (231 - 10);
                Some (st\<lparr>TXPackets := n, pcTxString := buf\<rparr>, [m]) })"

definition show_rx :: "u32 \<Rightarrow> idle \<Rightarrow> (idle \<times> display_message list) option" where
  "show_rx n st =
     (if n = RXPackets st then Some (st, [])
      else do { (buf, m) \<leftarrow> DisplayValue (pcRxString st) (unat n) 268 (231 - 10);
                Some (st\<lparr>RXPackets := n, pcRxString := buf\<rparr>, [m]) })"

text \<open>The whole hook (1000 ticks a second).\<close>

definition vApplicationIdleHook ::
  "readings \<Rightarrow> idle \<Rightarrow> (idle \<times> display_message list) option" where
  "vApplicationIdleHook r st =
     do { let ms0 = (if Seconds st = 0xffffffff then frame else []);
          (st1, ms1) \<leftarrow> show_seconds (ticks r div (1000 div 1)) st;
          (st2, ms2) \<leftarrow> show_tasks (number_of_tasks r - 1) st1;
          (st3, ms3) \<leftarrow> show_address (address r) st2;
          (st4, ms4) \<leftarrow> show_tx (xmit r) st3;
          (st5, ms5) \<leftarrow> show_rx (recv r) st4;
          Some (st5, ms0 @ ms1 @ ms2 @ ms3 @ ms4 @ ms5) }"

subsection \<open>What is shown\<close>

text \<open>The dotted form of an address, whose first byte is the lowest.\<close>

definition ip_byte :: "u32 \<Rightarrow> nat \<Rightarrow> string" where
  "ip_byte ip l = digits 10 (unat (drop_bit l ip AND 0xff))"

definition ip_text :: "u32 \<Rightarrow> string" where
  "ip_text ip = ip_byte ip 0 @ ''.'' @ ip_byte ip 8 @ ''.'' @ ip_byte ip 16 @ ''.'' @ ip_byte ip 24"

text \<open>The last \<open>k\<close> characters of a text.\<close>

definition last_chars :: "nat \<Rightarrow> string \<Rightarrow> string" where
  "last_chars k s = drop (length s - k) s"

definition two_digits :: "nat \<Rightarrow> string" where
  "two_digits n = field CHR ''0'' 2 False (digits 10 n)"

definition uptime :: "nat \<Rightarrow> string" where
  "uptime s = two_digits (s div 3600 mod 100) @ '':'' @ two_digits (s div 60 mod 60) @ '':'' @
     two_digits (s mod 60)"

definition blanks :: "nat \<Rightarrow> string" where
  "blanks n = replicate n CHR '' ''"

definition shown_address :: "u32 \<Rightarrow> display_message" where
  "shown_address ip =
     (if ip = 0 then DisplayString 114 221 ''  Acquiring...  ''
      else let t = ip_text ip; p = 4 - (length t - 7) div 2 in
        DisplayString (if odd (length t) then 117 else 114) 221 (blanks p @ t @ blanks p))"

definition shown_value :: "u32 \<Rightarrow> u32 \<Rightarrow> display_message" where
  "shown_value n x = (let t = last_chars 6 (digits 10 (unat n)) in
     DisplayString (x + 3 * of_nat (6 - length t)) 221 t)"

definition shown_tasks :: "u32 \<Rightarrow> display_message" where
  "shown_tasks n = (if unat n < 10 then DisplayString 81 221 ('' '' @ digits 10 (unat n) @ '' '')
     else DisplayString 83 221 (last_chars 2 (digits 10 (unat n))))"

subsection \<open>Characters and buffers\<close>

lemma numeral_char_digit: "n < 10 \<Longrightarrow> g_pcHex ! n = numeral_char n \<and> numeral_char n \<noteq> NUL"
proof -
  assume "n < 10"
  moreover have "list_all (\<lambda>n. g_pcHex ! n = numeral_char n \<and> numeral_char n \<noteq> NUL) [0..<10]"
    by code_simp
  ultimately show ?thesis by (simp add: list_all_iff)
qed

lemma digits_small: "n < 10 \<Longrightarrow> digits 10 n = [numeral_char n]"
  using numeral_char_digit [of n] by (simp add: digits.simps)

lemma digits_step: "10 \<le> n \<Longrightarrow> digits 10 n = digits 10 (n div 10) @ [numeral_char (n mod 10)]"
  using numeral_char_digit [of "n mod 10"] by (simp add: digits.simps [of 10 n])

lemma store_all_app:
  "store_all (a @ b) s = do { s1 \<leftarrow> store_all a s; store_all b s1 }"
  by (induction a arbitrary: s) (auto split: Option.bind_split)

lemma store_all_ok:
  "k + length cs \<le> length buf \<Longrightarrow>
   store_all cs (k, buf) = Some (k + length cs, take k buf @ cs @ drop (k + length cs) buf)"
proof (induction cs arbitrary: k buf)
  case (Cons c cs)
  have "store c (k, buf) = Some (Suc k, buf[k := c])" using Cons.prems by (simp add: store_def)
  moreover have "take (Suc k) (buf[k := c]) = take k buf @ [c]"
    using Cons.prems by (simp add: take_Suc_conv_app_nth)
  ultimately show ?case using Cons.prems Cons.IH [of "Suc k" "buf[k := c]"] by simp
qed simp

lemma byte_digits:
  assumes "v < 1000"
  shows "do { s1 \<leftarrow> (if v > 99 then store (numeral_char (v div 100)) s else Some s);
     s2 \<leftarrow> (if v > 9 then store (numeral_char (v div 10 mod 10)) s1 else Some s1);
     s3 \<leftarrow> store (numeral_char (v mod 10)) s2; f s3 } = do { s3 \<leftarrow> store_all (digits 10 v) s; f s3 }"
proof -
  consider "v < 10" | "10 \<le> v" "v < 100" | "100 \<le> v" by linarith
  then show ?thesis
  proof cases
    case 3
    then have "digits 10 v = [numeral_char (v div 100), numeral_char (v div 10 mod 10),
        numeral_char (v mod 10)]"
      using assms by (simp add: digits_step digits_small div_mult2_eq [symmetric])
    with 3 show ?thesis by simp
  qed (simp_all add: digits_small digits_step)
qed

lemma ip_loop_text:
  "ip_loop ip ls s = store_all (concat (map (\<lambda>l. ip_byte ip l @ ''.'') ls)) s"
proof (induction ls arbitrary: s)
  case (Cons l ls)
  have "unat (drop_bit l ip AND 0xff) \<le> unat (0xff :: u32)"
    by (rule word_le_nat_alt [THEN iffD1]) (rule word_and_le1)
  then have v: "unat (drop_bit l ip AND 0xff) < 1000" by simp
  show ?case
    by (simp add: Let_def byte_digits [OF v, of s "\<lambda>s3. do { s4 \<leftarrow> store CHR ''.'' s3; ip_loop ip ls s4 }"]
        Cons.IH store_all_app ip_byte_def)
qed simp

lemma blank_loop_ok:
  "i + n \<le> length buf \<Longrightarrow> blank_loop i n buf = Some (take i buf @ blanks n @ drop (i + n) buf)"
proof (induction n arbitrary: i buf)
  case (Suc n)
  have "take (Suc i) (buf[i := CHR '' '']) = take i buf @ '' ''"
    using Suc.prems by (simp add: take_Suc_conv_app_nth)
  then show ?case using Suc.prems Suc.IH [of "Suc i" "buf[i := CHR '' '']"] by (simp add: blanks_def)
qed (simp add: blanks_def)

lemma byte_length: "1 \<le> length (ip_byte ip l) \<and> length (ip_byte ip l) \<le> 3 \<and> NUL \<notin> set (ip_byte ip l)"
proof -
  let ?v = "unat (drop_bit l ip AND 0xff)"
  have "?v \<le> unat (0xff :: u32)"
    by (rule word_le_nat_alt [THEN iffD1]) (rule word_and_le1)
  then have v: "?v < 1000" by simp
  consider "?v < 10" | "10 \<le> ?v" "?v < 100" | "100 \<le> ?v" by linarith
  then have "1 \<le> length (digits 10 ?v) \<and> length (digits 10 ?v) \<le> 3"
    by cases (use v in \<open>simp_all add: digits_small digits_step\<close>)
  then show ?thesis by (simp add: ip_byte_def digits_plain)
qed

lemma ip_text_facts:
  "7 \<le> length (ip_text ip) \<and> length (ip_text ip) \<le> 15 \<and> NUL \<notin> set (ip_text ip)"
  using byte_length [of ip 0] byte_length [of ip 8] byte_length [of ip 16] byte_length [of ip 24]
  by (simp add: ip_text_def)

lemma DisplayIP_spec:
  assumes "length buf = 24"
  shows "\<exists>buf'. DisplayIP ip buf = Some (buf', shown_address ip) \<and> length buf' = 24"
proof (cases "ip = 0")
  case True
  then show ?thesis using assms by (simp add: DisplayIP_def shown_address_def)
next
  case False
  define t where "t = ip_text ip"
  define off where "off = (length t - 7) div 2"
  define p where "p = 4 - off"
  have L: "7 \<le> length t" "length t \<le> 15" "NUL \<notin> set t" using ip_text_facts [of ip] by (auto simp: t_def)
  then have off: "off \<le> 4" "length t \<le> 8 + 2 * off" "7 + 2 * off \<le> length t"
    by (auto simp: off_def)
  have cat: "concat (map (\<lambda>l. ip_byte ip l @ ''.'') [0, 8, 16, 24]) = t @ ''.''"
    by (simp add: t_def ip_text_def)
  have loop: "ip_loop ip [0, 8, 16, 24] (4, ''    '' @ drop 4 buf) =
      Some (5 + length t, ''    '' @ t @ ''.'' @ drop (5 + length t) buf)"
    unfolding ip_loop_text cat
    using store_all_ok [of 4 "t @ ''.''" "''    '' @ drop 4 buf"] L assms
    by (simp add: add.commute drop_Cons')
  have blank: "blank_loop (4 + length t) (20 - (4 + length t)) (''    '' @ t @ ''.'' @ drop (5 + length t) buf) =
      Some (''    '' @ t @ blanks (16 - length t) @ drop 20 buf)"
    using L assms by (simp add: blank_loop_ok take_Cons' drop_Cons')
  have split: "blanks (16 - length t) = blanks p @ CHR '' '' # blanks (15 - length t - p)"
  proof -
    have "16 - length t = p + Suc (15 - length t - p)" using off L by (simp add: p_def)
    then show ?thesis unfolding blanks_def by (simp only: replicate_add replicate_Suc)
  qed
  have four: "''    '' = blanks off @ blanks p"
  proof -
    have "''    '' = blanks 4" by (simp add: blanks_def numeral_eq_Suc)
    also have "4 = off + p" using off by (simp add: p_def)
    finally show ?thesis by (simp add: blanks_def replicate_add)
  qed
  define rest where "rest = blanks (15 - length t - p) @ drop 20 buf"
  have fin: "poke (''    '' @ t @ blanks (16 - length t) @ drop 20 buf) (length t + 8 - off) [NUL] =
      Some (blanks off @ (blanks p @ t @ blanks p) @ NUL # rest)"
  proof -
    have n: "length t + 8 - off = length (blanks off @ (blanks p @ t @ blanks p))"
      using off L by (simp add: p_def blanks_def)
    have "poke (a @ c # b) (length a) [d] = Some (a @ d # b)" for a b and c d :: char
      using poke_ok [of "length a" "[d]" "a @ c # b"] by simp
    from this [of "blanks off @ (blanks p @ t @ blanks p)" "CHR '' ''" rest NUL]
    show ?thesis unfolding n split four rest_def by simp
  qed
  have nn: "NUL \<notin> set (blanks p @ t @ blanks p)" using L by (simp add: blanks_def)
  have lo: "length (blanks off) = off" by (simp add: blanks_def)
  have at: "text_at (drop off (blanks off @ (blanks p @ t @ blanks p) @ NUL # rest)) =
      Some (blanks p @ t @ blanks p)"
    using text_at_app [OF nn, of rest] lo by simp
  have s0: "store_all ''    '' (0, buf) = Some (4, ''    '' @ drop 4 buf)"
    using store_all_ok [of 0 "''    ''" buf] assms
    by (simp add: eval_nat_numeral del: store_all.simps)
  have e: "5 + length t - 1 = 4 + length t" "5 + length t + 3 - off = length t + 8 - off"
    "(5 + length t - 12) div 2 = off"
    using L by (auto simp: off_def)
  have "DisplayIP ip buf = Some (blanks off @ (blanks p @ t @ blanks p) @ NUL # rest,
      DisplayString (117 - of_nat ((5 + length t) mod 2 * 3)) (231 - 10) (blanks p @ t @ blanks p))"
    unfolding DisplayIP_def
    by (simp only: False if_False s0 loop blank fin at e bind.bind_lunit prod.case)
  moreover have "(117 - of_nat ((5 + length t) mod 2 * 3) :: u32) = (if odd (length t) then 117 else 114)"
    by (cases "odd (length t)") (auto simp: odd_iff_mod_2_eq_one mod_add_eq [symmetric])
  moreover have "length (blanks off @ (blanks p @ t @ blanks p) @ NUL # rest) = 24"
    using off L assms by (simp add: p_def rest_def blanks_def)
  ultimately show ?thesis
    using False by (auto simp: shown_address_def Let_def t_def p_def off_def)
qed

lemma six_digits:
  "v < 1000000 \<Longrightarrow> length (digits 10 v) \<le> 6"
  "100000 \<le> v \<Longrightarrow> last_chars 6 (digits 10 v) = map numeral_char [v div 100000 mod 10,
     v div 10000 mod 10, v div 1000 mod 10, v div 100 mod 10, v div 10 mod 10, v mod 10]"
proof -
  assume v: "100000 \<le> v"
  define u where "u = v div 100000"
  have "digits 10 v = digits 10 u @ map numeral_char [v div 10000 mod 10, v div 1000 mod 10,
      v div 100 mod 10, v div 10 mod 10, v mod 10]"
    using v by (simp add: digits_step u_def div_mult2_eq [symmetric])
  moreover have "\<exists>d. digits 10 u = d @ [numeral_char (u mod 10)]"
    by (cases "u < 10") (auto simp: digits_small digits_step)
  ultimately show "last_chars 6 (digits 10 v) = map numeral_char [v div 100000 mod 10,
     v div 10000 mod 10, v div 1000 mod 10, v div 100 mod 10, v div 10 mod 10, v mod 10]"
    by (auto simp: last_chars_def u_def)
next
  assume v: "v < 1000000"
  show "length (digits 10 v) \<le> 6"
  proof (rule ccontr)
    assume n: "\<not> length (digits 10 v) \<le> 6"
    have "v \<noteq> 0"
    proof
      assume "v = 0"
      then show False using n by (simp add: digits_small)
    qed
    then have "10 ^ (length (digits 10 v) - 1) \<le> v" using digits_bounds [of 10 v] by simp
    moreover have "(10::nat) ^ 6 \<le> 10 ^ (length (digits 10 v) - 1)"
      using n by (intro power_increasing) auto
    ultimately show False using v by simp
  qed
qed

lemma numeral_chars_plain: "\<forall>d \<in> set ds. d < 10 \<Longrightarrow> NUL \<notin> set (map numeral_char ds)"
  using numeral_char_digit by force

lemma DisplayValue_spec:
  assumes "length buf = 8"
  shows "\<exists>buf'. DisplayValue buf (unat n) x 221 = Some (buf', shown_value n x :: display_message) \<and> length buf' = 8"
proof -
  define v where "v = unat n"
  have go: "\<exists>buf'. do { buf1 \<leftarrow> poke buf 0 (map numeral_char ds @ [NUL]); t \<leftarrow> text_at buf1;
      Some (buf1, DisplayString x' 221 t) } = Some (buf', shown_value n x :: display_message) \<and> length buf' = 8"
    if "\<forall>d \<in> set ds. d < 10" "length ds \<le> 6" "map numeral_char ds = last_chars 6 (digits 10 v)"
      "x' = x + 3 * of_nat (6 - length ds)" for ds x'
  proof -
    have l: "length (last_chars 6 (digits 10 v)) = length ds"
      unfolding that(3) [symmetric] by simp
    have "(shown_value n x :: display_message) = DisplayString x' 221 (map numeral_char ds)"
      using that(4) l by (simp add: shown_value_def Let_def v_def that(3))
    then show ?thesis
      using poke_start [of "map numeral_char ds" buf] numeral_chars_plain [OF that(1)] that(2) assms
      by auto
  qed
  consider "v < 10" | "10 \<le> v" "v < 100" | "100 \<le> v" "v < 1000" | "1000 \<le> v" "v < 10000"
    | "10000 \<le> v" "v < 100000" | "100000 \<le> v" by linarith
  then show ?thesis
  proof cases
    case 1
    have "last_chars 6 (digits 10 v) = map numeral_char [v]"
      using 1 by (simp add: digits_small last_chars_def)
    from go [OF _ _ this [symmetric], of "x + 15"] 1 show ?thesis
      by (simp add: DisplayValue_def v_def [symmetric] del: poke.simps)
  next
    case 2
    have "last_chars 6 (digits 10 v) = map numeral_char [v div 10, v mod 10]"
      using 2 by (simp add: digits_small digits_step last_chars_def)
    from go [OF _ _ this [symmetric], of "x + 12"] 2 show ?thesis
      by (simp add: DisplayValue_def v_def [symmetric] del: poke.simps)
  next
    case 3
    have "last_chars 6 (digits 10 v) = map numeral_char [v div 100, v div 10 mod 10, v mod 10]"
      using 3 by (simp add: digits_small digits_step last_chars_def div_mult2_eq [symmetric])
    from go [OF _ _ this [symmetric], of "x + 9"] 3 show ?thesis
      by (simp add: DisplayValue_def v_def [symmetric] del: poke.simps)
  next
    case 4
    have "last_chars 6 (digits 10 v) =
        map numeral_char [v div 1000, v div 100 mod 10, v div 10 mod 10, v mod 10]"
      using 4 by (simp add: digits_small digits_step last_chars_def div_mult2_eq [symmetric])
    from go [OF _ _ this [symmetric], of "x + 6"] 4 show ?thesis
      by (simp add: DisplayValue_def v_def [symmetric] del: poke.simps)
  next
    case 5
    have "last_chars 6 (digits 10 v) = map numeral_char
        [v div 10000, v div 1000 mod 10, v div 100 mod 10, v div 10 mod 10, v mod 10]"
      using 5 by (simp add: digits_small digits_step last_chars_def div_mult2_eq [symmetric])
    from go [OF _ _ this [symmetric], of "x + 3"] 5 show ?thesis
      by (simp add: DisplayValue_def v_def [symmetric] del: poke.simps)
  next
    case 6
    from go [OF _ _ six_digits(2) [OF 6, symmetric], of x] 6 show ?thesis
      by (simp add: DisplayValue_def v_def [symmetric] del: poke.simps)
  qed
qed

lemma two_digits_eq:
  assumes "n < 100"
  shows "two_digits n = [numeral_char (n div 10), numeral_char (n mod 10)]"
proof (cases "n < 10")
  case True
  have "numeral_char 0 = CHR ''0''" by code_simp
  then show ?thesis using True by (simp add: two_digits_def field_def Let_def digits_small)
next
  case False
  then show ?thesis
    using assms by (simp add: two_digits_def field_def Let_def digits_step digits_small)
qed

lemma uptime_eq: "time_digits s = uptime s"
proof -
  have g: "q mod (10 * k) div 10 = q div 10 mod k" "q mod (10 * k) mod 10 = q mod 10" for q k :: nat
    by (simp_all add: mod_mult2_eq)
  note q = g [of _ 10, simplified] g [of _ 6, simplified]
  show ?thesis by (simp add: uptime_def time_digits_def two_digits_eq q div_mult2_eq [symmetric])
qed

lemma uptime_plain: "NUL \<notin> set (uptime s) \<and> length (uptime s) = 8"
proof -
  have "NUL \<notin> set (two_digits n) \<and> length (two_digits n) = 2" if "n < 100" for n
  proof -
    from that have "n div 10 < 10" by simp
    then show ?thesis
      using that numeral_char_digit [of "n div 10"] numeral_char_digit [of "n mod 10"]
      by (auto simp: two_digits_eq)
  qed
  then show ?thesis by (simp add: uptime_def)
qed

lemma tasks_text:
  "\<exists>buf'. (let v = unat n in
     if v < 10 then
       do { buf1 \<leftarrow> poke buf 0 [CHR 0x20, numeral_char (v mod 10), CHR 0x20, NUL];
            s \<leftarrow> text_at buf1; Some (st\<lparr>pcTaskString := buf1\<rparr>, [DisplayString 81 (231 - 10) s]) }
     else
       do { buf1 \<leftarrow> poke buf 0 [numeral_char (v div 10 mod 10), numeral_char (v mod 10), NUL];
            s \<leftarrow> text_at buf1; Some (st\<lparr>pcTaskString := buf1\<rparr>, [DisplayString 83 (231 - 10) s]) }) =
   Some (st\<lparr>pcTaskString := buf'\<rparr>, [shown_tasks n]) \<and> length buf' = 4"
  if buf: "length buf = 4"
proof (cases "unat n < 10")
  case True
  have p: "NUL \<notin> set ('' '' @ [numeral_char (unat n)] @ '' '')"
    using numeral_char_digit [OF True] by auto
  show ?thesis using True poke_start [of "'' '' @ [numeral_char (unat n)] @ '' ''" buf] p buf
    by (auto simp: shown_tasks_def digits_small simp del: poke.simps)
next
  case False
  define v where "v = unat n"
  have v: "10 \<le> v" "unat n = v" using False by (auto simp: v_def)
  have "\<exists>d. digits 10 (v div 10) = d @ [numeral_char (v div 10 mod 10)]"
    by (cases "v div 10 < 10") (auto simp: digits_small digits_step [of "v div 10"])
  then have l: "last_chars 2 (digits 10 v) = [numeral_char (v div 10 mod 10), numeral_char (v mod 10)]"
    using v by (auto simp: digits_step [of v] last_chars_def)
  have p: "NUL \<notin> set [numeral_char (v div 10 mod 10), numeral_char (v mod 10)]"
    using numeral_char_digit [of "v div 10 mod 10"] numeral_char_digit [of "v mod 10"] by auto
  show ?thesis
    using poke_start [of "[numeral_char (v div 10 mod 10), numeral_char (v mod 10)]" buf] p buf v l
    by (auto simp: shown_tasks_def simp del: poke.simps)
qed

definition buffers_ok :: "idle \<Rightarrow> bool" where
  "buffers_ok st \<longleftrightarrow> length (pcTimeString st) = 12 \<and> length (pcTaskString st) = 4 \<and>
     length (pcIPString st) = 24 \<and> length (pcTxString st) = 8 \<and> length (pcRxString st) = 8"

text \<open>The five parts of the hook: what each sends and saves.\<close>

lemma show_parts:
  assumes "buffers_ok st"
  shows "\<exists>b. show_seconds t st = Some (st\<lparr>Seconds := t, pcTimeString := b\<rparr>,
      if t = Seconds st then [] else [DisplayString 16 221 (uptime (unat t))]) \<and> length b = 12"
    and "\<exists>b. show_tasks n st = Some (st\<lparr>Tasks := n, PreviousTasks := n, pcTaskString := b\<rparr>,
      if n = PreviousTasks st then [] else [shown_tasks n]) \<and> length b = 4"
    and "\<exists>b. show_address ip st = Some (st\<lparr>IPAddress := ip, pcIPString := b\<rparr>,
      if ip = IPAddress st then [] else [shown_address ip]) \<and> length b = 24"
    and "\<exists>b. show_tx n st = Some (st\<lparr>TXPackets := n, pcTxString := b\<rparr>,
      if n = TXPackets st then [] else [shown_value n 219]) \<and> length b = 8"
    and "\<exists>b. show_rx n st = Some (st\<lparr>RXPackets := n, pcRxString := b\<rparr>,
      if n = RXPackets st then [] else [shown_value n 268]) \<and> length b = 8"
proof -
  have l: "length (pcTimeString st) = 12" "length (pcTaskString st) = 4"
    "length (pcIPString st) = 24" "length (pcTxString st) = 8" "length (pcRxString st) = 8"
    using assms by (auto simp: buffers_ok_def)
  show "\<exists>b. show_seconds t st = Some (st\<lparr>Seconds := t, pcTimeString := b\<rparr>,
      if t = Seconds st then [] else [DisplayString 16 221 (uptime (unat t))]) \<and> length b = 12"
  proof (cases "t = Seconds st")
    case True
    then show ?thesis using l by (intro exI [of _ "pcTimeString st"]) (simp add: show_seconds_def)
  next
    case False
    then show ?thesis
      using poke_start [of "uptime (unat t)" "pcTimeString st"] uptime_plain [of "unat t"] l
      by (auto simp: show_seconds_def uptime_eq simp del: poke.simps)
  qed
  show "\<exists>b. show_tasks n st = Some (st\<lparr>Tasks := n, PreviousTasks := n, pcTaskString := b\<rparr>,
      if n = PreviousTasks st then [] else [shown_tasks n]) \<and> length b = 4"
  proof (cases "n = PreviousTasks st")
    case True
    then show ?thesis using l by (intro exI [of _ "pcTaskString st"]) (simp add: show_tasks_def)
  next
    case False
    then show ?thesis
      using tasks_text [OF l(2), of n "st\<lparr>Tasks := n, PreviousTasks := n\<rparr>"]
      by (cases "unat n < 10") (simp_all add: show_tasks_def Let_def del: poke.simps)
  qed
  show "\<exists>b. show_address ip st = Some (st\<lparr>IPAddress := ip, pcIPString := b\<rparr>,
      if ip = IPAddress st then [] else [shown_address ip]) \<and> length b = 24"
  proof (cases "ip = IPAddress st")
    case True
    then show ?thesis using l by (intro exI [of _ "pcIPString st"]) (simp add: show_address_def)
  next
    case False
    obtain b where "DisplayIP ip (pcIPString st) = Some (b, shown_address ip)" "length b = 24"
      using DisplayIP_spec [OF l(3)] by blast
    then show ?thesis using False by (intro exI [of _ b]) (simp add: show_address_def)
  qed
  show "\<exists>b. show_tx n st = Some (st\<lparr>TXPackets := n, pcTxString := b\<rparr>,
      if n = TXPackets st then [] else [shown_value n 219]) \<and> length b = 8"
  proof (cases "n = TXPackets st")
    case True
    then show ?thesis using l by (intro exI [of _ "pcTxString st"]) (simp add: show_tx_def)
  next
    case False
    obtain b where "DisplayValue (pcTxString st) (unat n) 219 221 = Some (b, shown_value n 219)" "length b = 8"
      using DisplayValue_spec [OF l(4)] by blast
    then show ?thesis using False by (intro exI [of _ b]) (simp add: show_tx_def)
  qed
  show "\<exists>b. show_rx n st = Some (st\<lparr>RXPackets := n, pcRxString := b\<rparr>,
      if n = RXPackets st then [] else [shown_value n 268]) \<and> length b = 8"
  proof (cases "n = RXPackets st")
    case True
    then show ?thesis using l by (intro exI [of _ "pcRxString st"]) (simp add: show_rx_def)
  next
    case False
    obtain b where "DisplayValue (pcRxString st) (unat n) 268 221 = Some (b, shown_value n 268)" "length b = 8"
      using DisplayValue_spec [OF l(5)] by blast
    then show ?thesis using False by (intro exI [of _ b]) (simp add: show_rx_def)
  qed
qed

subsection \<open>The display queue\<close>

fun is_pen :: "display_message \<Rightarrow> bool" where
  "is_pen (DISPLAY_MOVE x y) \<longleftrightarrow> True"
| "is_pen (DISPLAY_DRAW x y) \<longleftrightarrow> True"
| "is_pen m \<longleftrightarrow> False"

fun is_line :: "gr \<Rightarrow> bool" where
  "is_line (GrLineDraw x0 y0 x y) \<longleftrightarrow> True"
| "is_line g \<longleftrightarrow> False"

fun drawing :: "display_message \<Rightarrow> gr list" where
  "drawing (DISPLAY_IMAGE x y im) = [GrImageDraw x y im]"
| "drawing (DISPLAY_STRING x y s) = [GrStringDraw x y s]"
| "drawing m = []"

text \<open>The display without its queue.\<close>

fun run_display :: "display_message list \<Rightarrow> u32 \<times> u32 \<Rightarrow> (u32 \<times> u32) \<times> gr list" where
  "run_display [] p = (p, [])"
| "run_display (m # ms) p =
     (let (p1, g) = DisplayTask m p; (p2, gs) = run_display ms p1 in (p2, g @ gs))"

lemma run_display_snoc:
  "run_display (ms @ [m]) p = (let (p1, gs) = run_display ms p; (p2, g) = DisplayTask m p1 in
     (p2, gs @ g))"
  by (induction ms arbitrary: p) (auto split: prod.split)

definition display_inv :: "u32 \<times> u32 \<Rightarrow> display \<Rightarrow> bool" where
  "display_inv p d \<longleftrightarrow> length (queue d) \<le> DISPLAY_QUEUE_SIZE \<and>
     (\<exists>handled. sent d = handled @ queue d \<and> run_display handled p = (pen d, screen d))"

lemma display_inv_step:
  assumes "display_inv p d" "display_step d d'"
  shows "display_inv p d'"
  using assms(2)
proof cases
  case (receive m q p' gs)
  from assms(1) obtain handled where h: "sent d = handled @ queue d"
    "run_display handled p = (pen d, screen d)" by (auto simp: display_inv_def)
  have "run_display (handled @ [m]) p = (p', screen d @ gs)"
    using h(2) receive by (simp add: run_display_snoc)
  then show ?thesis
    using receive h(1) assms(1) by (auto simp: display_inv_def intro!: exI [of _ "handled @ [m]"])
qed (use assms(1) in \<open>auto simp: display_inv_def\<close>)

interpretation display_sys: invariant_system "display_start p" display_step "display_inv p" for p
proof unfold_locales
  show "display_inv p (display_start p)" by (simp add: display_inv_def display_start_def)
qed (rule display_inv_step)

text \<open>Strings and images do not move the pen, and the pen's messages draw only lines.\<close>

lemma run_display_filter:
  "filter is_line (snd (run_display ms p)) = snd (run_display (filter is_pen ms) p) \<and>
   fst (run_display ms p) = fst (run_display (filter is_pen ms) p) \<and>
   filter (\<lambda>g. \<not> is_line g) (snd (run_display ms p)) = concat (map drawing ms)"
proof (induction ms arbitrary: p)
  case (Cons m ms)
  show ?case
    by (cases m; use Cons.IH in \<open>auto simp: split_beta Let_def\<close>)
qed simp

lemma frame_lines:
  "snd (run_display (filter is_pen frame) p) =
     [GrLineDraw 8 211 311 211, GrLineDraw 311 211 311 230, GrLineDraw 311 230 8 230,
      GrLineDraw 8 230 8 211, GrLineDraw 69 211 69 230, GrLineDraw 111 211 111 230,
      GrLineDraw 213 211 213 230, GrLineDraw 262 211 262 230]"
  by (simp add: frame_def DisplayMove_def DisplayDraw_def DisplayString_def)

subsection \<open>Properties\<close>

text \<open>
  C15. The status line: the idle hook never writes outside its five string buffers; the first call
  draws the frame; and then, for each of uptime (hours modulo 100), number of tasks, IP address
  (centred between blanks) and the packet counters (the last six digits), it sends the new text if
  and only if the value has changed since the last call, and saves the value.
\<close>

theorem vApplicationIdleHook_correct:
  assumes "buffers_ok st"
  shows "\<exists>st'. vApplicationIdleHook r st = Some (st',
      (if Seconds st = 0xffffffff then frame else []) @
      (if ticks r div 1000 = Seconds st then []
       else [DisplayString 16 221 (uptime (unat (ticks r div 1000)))]) @
      (if number_of_tasks r - 1 = PreviousTasks st then [] else [shown_tasks (number_of_tasks r - 1)]) @
      (if address r = IPAddress st then [] else [shown_address (address r)]) @
      (if xmit r = TXPackets st then [] else [shown_value (xmit r) 219]) @
      (if recv r = RXPackets st then [] else [shown_value (recv r) 268])) \<and>
    buffers_ok st' \<and> Seconds st' = ticks r div 1000 \<and> Seconds st' \<noteq> 0xffffffff \<and>
    PreviousTasks st' = number_of_tasks r - 1 \<and> IPAddress st' = address r \<and>
    TXPackets st' = xmit r \<and> RXPackets st' = recv r"
proof -
  obtain b1 where 1: "show_seconds (ticks r div 1000) st = Some
      (st\<lparr>Seconds := ticks r div 1000, pcTimeString := b1\<rparr>, if ticks r div 1000 = Seconds st then []
       else [DisplayString 16 221 (uptime (unat (ticks r div 1000)))])" "length b1 = 12"
    using show_parts(1) [OF assms] by blast
  let ?s1 = "st\<lparr>Seconds := ticks r div 1000, pcTimeString := b1\<rparr>"
  have o1: "buffers_ok ?s1" using assms 1 by (simp add: buffers_ok_def)
  let ?n = "number_of_tasks r - 1"
  obtain b2 where 2: "show_tasks ?n ?s1 = Some (?s1\<lparr>Tasks := ?n, PreviousTasks := ?n, pcTaskString := b2\<rparr>,
      if ?n = PreviousTasks st then [] else [shown_tasks ?n])" "length b2 = 4"
    using show_parts(2) [OF o1] by auto
  let ?s2 = "?s1\<lparr>Tasks := ?n, PreviousTasks := ?n, pcTaskString := b2\<rparr>"
  have o2: "buffers_ok ?s2" using o1 2 by (simp add: buffers_ok_def)
  obtain b3 where 3: "show_address (address r) ?s2 = Some (?s2\<lparr>IPAddress := address r, pcIPString := b3\<rparr>,
      if address r = IPAddress st then [] else [shown_address (address r)])" "length b3 = 24"
    using show_parts(3) [OF o2] by auto
  let ?s3 = "?s2\<lparr>IPAddress := address r, pcIPString := b3\<rparr>"
  have o3: "buffers_ok ?s3" using o2 3 by (simp add: buffers_ok_def)
  obtain b4 where 4: "show_tx (xmit r) ?s3 = Some (?s3\<lparr>TXPackets := xmit r, pcTxString := b4\<rparr>,
      if xmit r = TXPackets st then [] else [shown_value (xmit r) 219])" "length b4 = 8"
    using show_parts(4) [OF o3] by auto
  let ?s4 = "?s3\<lparr>TXPackets := xmit r, pcTxString := b4\<rparr>"
  have o4: "buffers_ok ?s4" using o3 4 by (simp add: buffers_ok_def)
  obtain b5 where 5: "show_rx (recv r) ?s4 = Some (?s4\<lparr>RXPackets := recv r, pcRxString := b5\<rparr>,
      if recv r = RXPackets st then [] else [shown_value (recv r) 268])" "length b5 = 8"
    using show_parts(5) [OF o4] by auto
  let ?s5 = "?s4\<lparr>RXPackets := recv r, pcRxString := b5\<rparr>"
  have "unat (ticks r div 1000) \<le> unat (ticks r) div 1000" by (simp add: unat_div)
  moreover have "unat (ticks r) < 2 ^ 32" by (rule order_less_le_trans [OF unsigned_less]) simp
  ultimately have small: "unat (ticks r div 1000) < 4294967295" by simp
  then have ne: "ticks r div 1000 \<noteq> 0xffffffff" by auto
  have "buffers_ok ?s5" using o4 5 by (simp add: buffers_ok_def)
  then show ?thesis
    using ne by (intro exI [of _ ?s5]) (simp add: vApplicationIdleHook_def 1(1) 2(1) 3(1) 4(1) 5(1))
qed

theorem vApplicationIdleHook_correct_witness:
  "\<exists>st' ms. vApplicationIdleHook \<lparr>ticks = 3723999, number_of_tasks = 13, address = 0x0a01a8c0,
      xmit = 7, recv = 42\<rparr> idle_start = Some (st', frame @ ms) \<and>
    ms = [DisplayString 16 221 ''01:02:03'', DisplayString 83 221 ''12'',
      DisplayString 114 221 ''  192.168.1.10  '', DisplayString 234 221 ''7'',
      DisplayString 280 221 ''42'']"
proof -
  let ?r = "\<lparr>ticks = 3723999, number_of_tasks = 13, address = 0x0a01a8c0, xmit = 7, recv = 42\<rparr>"
  have t: "uptime (unat (3723 :: u32)) = ''01:02:03''" by code_simp
  have n: "shown_tasks 12 = DisplayString 83 221 ''12''" by code_simp
  have a: "shown_address 0x0a01a8c0 = DisplayString 114 221 ''  192.168.1.10  ''" by code_simp
  have x: "shown_value 7 219 = DisplayString 234 221 ''7''" by code_simp
  have v: "shown_value 42 268 = DisplayString 280 221 ''42''" by code_simp
  have f: "Seconds idle_start = 0xffffffff" "PreviousTasks idle_start = 0"
    "IPAddress idle_start = 0xffffffff" "TXPackets idle_start = 0xffffffff"
    "RXPackets idle_start = 0xffffffff" by (simp_all add: idle_start_def)
  have w: "(3723999 :: u32) div 1000 = 3723" "(13 :: u32) - 1 = 12" by code_simp+
  have "buffers_ok idle_start" by (simp add: buffers_ok_def idle_start_def)
  from vApplicationIdleHook_correct [OF this, of ?r] obtain st' where
    "vApplicationIdleHook ?r idle_start = Some (st', frame @
       [DisplayString 16 221 (uptime (unat (3723 :: u32)))] @ [shown_tasks 12] @
       [shown_address 0x0a01a8c0] @ [shown_value 7 219] @ [shown_value 42 268])"
    unfolding f readings.simps w by auto
  then show ?thesis unfolding t n a x v by simp
qed



end
