(* ===== verification/Pictures.thy ===== *)
theory Pictures
  imports Prelude
begin

text \<open>
  \<open>images.c\<close>: the pictures of the spiders, byte by byte, and the table by which \<open>spider_task.c\<close> picks
  one. The first byte, the code of the format, is a constant of the graphics library and an
  argument here. The pictures are compressed; their expansion is the library's and not modelled.
  Each picture is its header, its palette (six colours in a line) and its pixels.
\<close>

definition g_pui8SpiderBlankImage :: "u8 \<Rightarrow> u8 list" where
  "g_pui8SpiderBlankImage IMAGE_FMT_1BPP_COMP =
   [IMAGE_FMT_1BPP_COMP, 24, 0, 24, 0,
    0xff, 0x07, 0x07, 0x07, 0x07, 0x07, 0x07, 0x07, 0x07]"

definition g_pui8SpiderL1Image :: "u8 \<Rightarrow> u8 list" where
  "g_pui8SpiderL1Image IMAGE_FMT_8BPP_COMP =
   [IMAGE_FMT_8BPP_COMP, 24, 0, 24, 0, 240] @
   concat [
     [0x00, 0x00, 0x00, 0x01, 0x00, 0x00, 0x00, 0x01, 0x01, 0x01, 0x01, 0x01, 0x02, 0x01, 0x01, 0x00, 0x02, 0x02],
     [0x00, 0x00, 0x06, 0x01, 0x02, 0x02, 0x02, 0x02, 0x02, 0x00, 0x00, 0x07, 0x02, 0x03, 0x03, 0x03, 0x03, 0x03],
     [0x01, 0x04, 0x04, 0x03, 0x04, 0x04, 0x04, 0x04, 0x04, 0x03, 0x05, 0x05, 0x08, 0x05, 0x05, 0x05, 0x06, 0x06],
     [0x0a, 0x06, 0x06, 0x04, 0x07, 0x07, 0x08, 0x07, 0x07, 0x0b, 0x07, 0x07, 0x09, 0x08, 0x08, 0x0b, 0x08, 0x08],
     [0x08, 0x0a, 0x0a, 0x0a, 0x0b, 0x0b, 0x0b, 0x0d, 0x0d, 0x0d, 0x0d, 0x0d, 0x0e, 0x0d, 0x0d, 0x0f, 0x0d, 0x0d],
     [0x0c, 0x0e, 0x0e, 0x0d, 0x0e, 0x0e, 0x0f, 0x0e, 0x0e, 0x0c, 0x10, 0x10, 0x0d, 0x10, 0x10, 0x0e, 0x10, 0x10],
     [0x0d, 0x11, 0x11, 0x13, 0x11, 0x11, 0x11, 0x12, 0x12, 0x12, 0x12, 0x12, 0x15, 0x12, 0x12, 0x0f, 0x15, 0x15],
     [0x14, 0x15, 0x15, 0x15, 0x16, 0x16, 0x16, 0x19, 0x19, 0x17, 0x19, 0x19, 0x19, 0x19, 0x19, 0x15, 0x1c, 0x1c],
     [0x18, 0x1d, 0x1d, 0x19, 0x1d, 0x1d, 0x1b, 0x1d, 0x1d, 0x00, 0x00, 0x60, 0x1e, 0x1d, 0x1d, 0x20, 0x1b, 0x21],
     [0x00, 0x00, 0x67, 0x1a, 0x21, 0x21, 0x24, 0x21, 0x21, 0x26, 0x21, 0x21, 0x21, 0x22, 0x22, 0x17, 0x26, 0x26],
     [0x27, 0x25, 0x25, 0x28, 0x25, 0x25, 0x1e, 0x22, 0x2f, 0x25, 0x26, 0x26, 0x2b, 0x27, 0x27, 0x2b, 0x2b, 0x2b],
     [0x2f, 0x2b, 0x2b, 0x2c, 0x2d, 0x2d, 0x13, 0x00, 0x8f, 0x09, 0x01, 0x93, 0x30, 0x2e, 0x2e, 0x04, 0x03, 0x93],
     [0x30, 0x2f, 0x2f, 0x34, 0x2f, 0x2f, 0x00, 0x00, 0xa1, 0x00, 0x00, 0xa4, 0x30, 0x32, 0x32, 0x0d, 0x00, 0xa2],
     [0x06, 0x03, 0xa7, 0x00, 0x00, 0xb0, 0x38, 0x35, 0x35, 0x2d, 0x37, 0x37, 0x00, 0x00, 0xb4, 0x31, 0x37, 0x37],
     [0x00, 0x00, 0xb6, 0x36, 0x37, 0x37, 0x01, 0x01, 0xb5, 0x08, 0x0a, 0xa1, 0x33, 0x39, 0x39, 0x3c, 0x38, 0x38],
     [0x3d, 0x38, 0x38, 0x25, 0x21, 0x70, 0x1b, 0x18, 0x86, 0x3f, 0x39, 0x39, 0x3b, 0x3b, 0x3b, 0x0e, 0x0e, 0xa7],
     [0x21, 0x1b, 0x88, 0x3c, 0x3e, 0x3e, 0x3d, 0x3e, 0x3e, 0x3b, 0x3f, 0x3f, 0x22, 0x2b, 0x70, 0x15, 0x15, 0xa6],
     [0x3d, 0x41, 0x41, 0x41, 0x42, 0x42, 0x42, 0x42, 0x42, 0x41, 0x43, 0x43, 0x49, 0x45, 0x45, 0x41, 0x47, 0x47],
     [0x24, 0x18, 0xaf, 0x44, 0x47, 0x47, 0x32, 0x33, 0x77, 0x46, 0x49, 0x49, 0x46, 0x4a, 0x4a, 0x48, 0x4b, 0x4b],
     [0x45, 0x4c, 0x4c, 0x25, 0x25, 0xa5, 0x29, 0x21, 0xb2, 0x4b, 0x4e, 0x4e, 0x49, 0x4f, 0x4f, 0x26, 0x26, 0xad],
     [0x4b, 0x51, 0x51, 0x53, 0x50, 0x51, 0x4c, 0x52, 0x52, 0x50, 0x52, 0x52, 0x53, 0x55, 0x55, 0x5e, 0x55, 0x55],
     [0x57, 0x56, 0x56, 0x53, 0x57, 0x57, 0x51, 0x48, 0x79, 0x50, 0x59, 0x59, 0x62, 0x5a, 0x5a, 0x60, 0x5c, 0x5c],
     [0x59, 0x5e, 0x5e, 0x57, 0x5f, 0x5f, 0x5a, 0x61, 0x61, 0x54, 0x53, 0x89, 0x67, 0x67, 0x67, 0x4d, 0x4b, 0xaf],
     [0x69, 0x6d, 0x6d, 0x66, 0x6e, 0x6e, 0x6d, 0x6e, 0x6e, 0x68, 0x6f, 0x6f, 0x6f, 0x6f, 0x6f, 0x71, 0x71, 0x71],
     [0x75, 0x71, 0x71, 0x54, 0x54, 0xb7, 0x5f, 0x5b, 0xab, 0x75, 0x74, 0x74, 0x74, 0x77, 0x77, 0x70, 0x78, 0x7f],
     [0x7f, 0x7e, 0x7e, 0x81, 0x7e, 0x7e, 0x82, 0x7e, 0x7e, 0x7f, 0x80, 0x80, 0x88, 0x7f, 0x7f, 0x81, 0x83, 0x83],
     [0x8c, 0x86, 0x86, 0x86, 0x88, 0x88, 0x88, 0x88, 0x88, 0x8e, 0x88, 0x88, 0x8c, 0x8b, 0x8b, 0x88, 0x8c, 0x8c],
     [0x91, 0x8c, 0x8c, 0x95, 0x90, 0x90, 0x83, 0x7b, 0xc1, 0x98, 0x90, 0x90, 0x91, 0x91, 0x91, 0x8d, 0x92, 0x95],
     [0x99, 0x94, 0x94, 0x84, 0x88, 0xb7, 0x98, 0x98, 0x98, 0x94, 0x9b, 0x9a, 0x96, 0x9b, 0x9b, 0x9f, 0x9d, 0x9d],
     [0xa5, 0xa1, 0xa3, 0xa4, 0xa4, 0xa4, 0xa8, 0xa5, 0xa5, 0xa3, 0xa6, 0xa6, 0xab, 0xa7, 0xa7, 0xb7, 0xa6, 0xa6],
     [0xa8, 0xa8, 0xa8, 0xa3, 0xaa, 0xaa, 0xa5, 0xac, 0xac, 0xb0, 0xab, 0xab, 0xad, 0xae, 0xae, 0xac, 0xaf, 0xaf],
     [0xaf, 0xb2, 0xb2, 0xb2, 0xb5, 0xb5, 0xb5, 0xb6, 0xb6, 0xb5, 0xb7, 0xb7, 0xb9, 0xb8, 0xb8, 0xae, 0xba, 0xba],
     [0xad, 0xae, 0xd6, 0xbd, 0xba, 0xba, 0xbe, 0xbe, 0xbe, 0xbf, 0xb5, 0xd1, 0xbc, 0xc0, 0xc0, 0xc1, 0xc3, 0xc3],
     [0xbd, 0xc4, 0xc4, 0xc0, 0xc5, 0xc5, 0xc4, 0xc5, 0xc5, 0xc7, 0xc8, 0xc8, 0xc9, 0xc8, 0xc8, 0xc3, 0xc9, 0xc9],
     [0xc9, 0xca, 0xca, 0xca, 0xca, 0xca, 0xc2, 0xcc, 0xcc, 0xc8, 0xcc, 0xcc, 0xce, 0xcc, 0xcc, 0xc8, 0xcd, 0xcd],
     [0xd4, 0xcc, 0xcc, 0xd1, 0xcd, 0xcd, 0xd3, 0xcd, 0xcd, 0xd3, 0xcf, 0xcf, 0xcd, 0xd0, 0xd0, 0xd0, 0xd0, 0xd0],
     [0xcd, 0xd1, 0xd1, 0xc8, 0xd4, 0xd4, 0xd0, 0xd4, 0xd4, 0xd5, 0xd6, 0xd5, 0xe3, 0xdc, 0xdc, 0xd8, 0xdd, 0xe1],
     [0xdd, 0xde, 0xde, 0xe3, 0xdf, 0xdf, 0xd8, 0xe2, 0xe2, 0xe4, 0xe2, 0xe2, 0xe3, 0xe5, 0xe5, 0xe4, 0xe6, 0xe6],
     [0xe5, 0xe7, 0xe7, 0xe5, 0xe9, 0xe9, 0xec, 0xea, 0xea, 0xe5, 0xeb, 0xeb, 0xee, 0xeb, 0xeb, 0xf1, 0xed, 0xed],
     [0xf4, 0xed, 0xed, 0xf0, 0xee, 0xee, 0xf5, 0xf1, 0xf1, 0xf5, 0xf7, 0xf7, 0xfa, 0xf7, 0xf7, 0xfc, 0xfb, 0xfb],
     [0xfd, 0xfb, 0xfb]] @
   concat [
     [0xf2, 0x07, 0x07, 0x07, 0x06, 0x2d, 0x04, 0x02, 0x7f, 0xca, 0x07, 0x06],
     [0x66, 0x85, 0x02, 0xa8, 0x47, 0x00, 0x09, 0x00, 0x18, 0x70, 0x0e, 0x02],
     [0xb6, 0x46, 0x01, 0x60, 0xb8, 0x47, 0x01, 0x62, 0xb5, 0x7a, 0x1f, 0x00],
     [0x01, 0x00, 0x55, 0xc8, 0x24, 0x00, 0x00, 0xd4, 0xe1, 0x80, 0x2f, 0x00],
     [0x3a, 0xba, 0xe1, 0xb0, 0x50, 0x03, 0x02, 0xa6, 0xac, 0x0b, 0x00, 0xcb],
     [0x5a, 0x47, 0x00, 0x00, 0x00, 0x1c, 0x2b, 0x07, 0x69, 0xed, 0x58, 0x00],
     [0x02, 0x7d, 0xf0, 0x61, 0x00, 0xb7, 0x96, 0x47, 0x27, 0x00, 0x8f, 0xdf],
     [0xe4, 0x42, 0x26, 0xe2, 0x22, 0x21, 0x01, 0xde, 0xa0, 0x0d, 0x2f, 0xbe],
     [0xc5, 0x04, 0x3b, 0x00, 0x03, 0x3c, 0x8a, 0xad, 0x8c, 0x5d, 0xbb, 0xd5],
     [0x00, 0x32, 0xce, 0x19, 0x97, 0xaa, 0x23, 0x93, 0xe7, 0x11, 0xe8, 0xb2],
     [0x15, 0x43, 0x13, 0x59, 0x20, 0x01, 0x00, 0x17, 0xa1, 0xbc, 0xc6, 0x3f],
     [0xc4, 0x67, 0xc9, 0x18, 0xd8, 0x8b, 0x2e, 0x53, 0x2b, 0x00, 0x00, 0x01],
     [0x00, 0x39, 0x2a, 0x95, 0xc0, 0xa7, 0xc1, 0xc3, 0xa4, 0x18, 0x64, 0x3e],
     [0x0f, 0x47, 0x01, 0x08, 0x9f, 0xa9, 0x00, 0x65, 0x54, 0x77, 0x91, 0x47],
     [0x4d, 0x44, 0x4e, 0x20, 0x5c, 0x35, 0x3f, 0x00, 0x00, 0x03, 0x6f, 0x92],
     [0x00, 0x56, 0x54, 0x54, 0x54, 0x33, 0x06, 0x09, 0x4a, 0x10, 0x54, 0x60],
     [0x08, 0x47, 0x00, 0x03, 0x84, 0x79, 0x00, 0x87, 0x6c, 0x74, 0x89, 0x45],
     [0x4b, 0x36, 0x4f, 0x24, 0x52, 0x5b, 0x4c, 0x29, 0x1e, 0x0b, 0x6b, 0xd7],
     [0x00, 0xab, 0xdb, 0xe0, 0x80, 0x73, 0x5f, 0x57, 0x6e, 0x40, 0x30, 0x44],
     [0x37, 0x9d, 0xa3, 0x5e, 0x10, 0x01, 0x00, 0x75, 0xd3, 0x3d, 0x76, 0xbf],
     [0x86, 0xd1, 0x78, 0x08, 0xae, 0xdd, 0x9b, 0x40, 0x44, 0x00, 0x08, 0x6a],
     [0x00, 0xca, 0xd2, 0x9c, 0xea, 0x63, 0x00, 0x43, 0xcd, 0x00, 0x0a, 0xa2],
     [0xcf, 0x31, 0x51, 0xb1, 0xe5, 0xc2, 0x10, 0x90, 0x48, 0x03, 0x23, 0x16],
     [0x98, 0xee, 0x9a, 0x00, 0x00, 0x00, 0x2c, 0xe6, 0x16, 0x11, 0xaf, 0xda],
     [0x01, 0x41, 0x03, 0x25, 0x82, 0xdc, 0xef, 0xb3, 0x43, 0x00, 0x00, 0x00],
     [0x53, 0x28, 0x07, 0x1b, 0x49, 0xec, 0x00, 0x72, 0x00, 0x18, 0xbd, 0xe9],
     [0x68, 0x00, 0x71, 0x10, 0xeb, 0x99, 0x12, 0x44, 0x02, 0x30, 0x88, 0xb4],
     [0x00, 0xd0, 0xd6, 0xd9, 0xa5, 0x00, 0x4c, 0xe3, 0xb9, 0x04, 0x38, 0x1a],
     [0xc7, 0x7b, 0x02, 0x4c, 0x00, 0x3b, 0x00, 0x94, 0x6d, 0x34, 0x1d, 0x04],
     [0x05, 0x11, 0x2d, 0x03, 0xcc, 0x8d, 0x0c, 0x00, 0x8e, 0x81, 0x4e, 0x15],
     [0x00, 0x00, 0x03, 0x9e, 0x83, 0x07, 0x00, 0x08, 0x7c, 0xc7, 0x4f, 0x0e],
     [0x14, 0x7e, 0x03, 0x6f, 0x27, 0x77, 0x80, 0x2f]]"

definition g_pui8SpiderL2Image :: "u8 \<Rightarrow> u8 list" where
  "g_pui8SpiderL2Image IMAGE_FMT_8BPP_COMP =
   [IMAGE_FMT_8BPP_COMP, 24, 0, 24, 0, 240] @
   concat [
     [0x00, 0x00, 0x00, 0x01, 0x00, 0x00, 0x00, 0x01, 0x01, 0x01, 0x01, 0x01, 0x02, 0x01, 0x01, 0x00, 0x02, 0x02],
     [0x00, 0x00, 0x06, 0x01, 0x02, 0x02, 0x02, 0x02, 0x02, 0x00, 0x00, 0x07, 0x02, 0x03, 0x03, 0x03, 0x03, 0x03],
     [0x01, 0x04, 0x04, 0x03, 0x04, 0x04, 0x04, 0x04, 0x04, 0x03, 0x05, 0x05, 0x08, 0x05, 0x05, 0x05, 0x06, 0x06],
     [0x0a, 0x06, 0x06, 0x04, 0x07, 0x07, 0x08, 0x07, 0x07, 0x0b, 0x07, 0x07, 0x09, 0x08, 0x08, 0x0b, 0x08, 0x08],
     [0x08, 0x0a, 0x0a, 0x0a, 0x0b, 0x0b, 0x0b, 0x0d, 0x0d, 0x0d, 0x0d, 0x0d, 0x0e, 0x0d, 0x0d, 0x0f, 0x0d, 0x0d],
     [0x0c, 0x0e, 0x0e, 0x0d, 0x0e, 0x0e, 0x0f, 0x0e, 0x0e, 0x0c, 0x10, 0x10, 0x0d, 0x10, 0x10, 0x0e, 0x10, 0x10],
     [0x0d, 0x11, 0x11, 0x13, 0x11, 0x11, 0x11, 0x12, 0x12, 0x12, 0x12, 0x12, 0x15, 0x12, 0x12, 0x0f, 0x15, 0x15],
     [0x14, 0x15, 0x15, 0x15, 0x16, 0x16, 0x16, 0x19, 0x19, 0x17, 0x19, 0x19, 0x19, 0x19, 0x19, 0x15, 0x1c, 0x1c],
     [0x18, 0x1d, 0x1d, 0x19, 0x1d, 0x1d, 0x1b, 0x1d, 0x1d, 0x00, 0x00, 0x60, 0x1e, 0x1d, 0x1d, 0x20, 0x1b, 0x21],
     [0x00, 0x00, 0x67, 0x1a, 0x21, 0x21, 0x24, 0x21, 0x21, 0x26, 0x21, 0x21, 0x21, 0x22, 0x22, 0x17, 0x26, 0x26],
     [0x27, 0x25, 0x25, 0x28, 0x25, 0x25, 0x1e, 0x22, 0x2f, 0x25, 0x26, 0x26, 0x2b, 0x27, 0x27, 0x2b, 0x2b, 0x2b],
     [0x2f, 0x2b, 0x2b, 0x2c, 0x2d, 0x2d, 0x13, 0x00, 0x8f, 0x09, 0x01, 0x93, 0x30, 0x2e, 0x2e, 0x04, 0x03, 0x93],
     [0x30, 0x2f, 0x2f, 0x34, 0x2f, 0x2f, 0x00, 0x00, 0xa1, 0x00, 0x00, 0xa4, 0x30, 0x32, 0x32, 0x0d, 0x00, 0xa2],
     [0x06, 0x03, 0xa7, 0x00, 0x00, 0xb0, 0x38, 0x35, 0x35, 0x2d, 0x37, 0x37, 0x00, 0x00, 0xb4, 0x31, 0x37, 0x37],
     [0x00, 0x00, 0xb6, 0x36, 0x37, 0x37, 0x01, 0x01, 0xb5, 0x08, 0x0a, 0xa1, 0x33, 0x39, 0x39, 0x3c, 0x38, 0x38],
     [0x3d, 0x38, 0x38, 0x25, 0x21, 0x70, 0x1b, 0x18, 0x86, 0x3f, 0x39, 0x39, 0x3b, 0x3b, 0x3b, 0x0e, 0x0e, 0xa7],
     [0x21, 0x1b, 0x88, 0x3c, 0x3e, 0x3e, 0x3d, 0x3e, 0x3e, 0x3b, 0x3f, 0x3f, 0x22, 0x2b, 0x70, 0x15, 0x15, 0xa6],
     [0x3d, 0x41, 0x41, 0x41, 0x42, 0x42, 0x42, 0x42, 0x42, 0x41, 0x43, 0x43, 0x49, 0x45, 0x45, 0x41, 0x47, 0x47],
     [0x24, 0x18, 0xaf, 0x44, 0x47, 0x47, 0x32, 0x33, 0x77, 0x46, 0x49, 0x49, 0x46, 0x4a, 0x4a, 0x48, 0x4b, 0x4b],
     [0x45, 0x4c, 0x4c, 0x25, 0x25, 0xa5, 0x29, 0x21, 0xb2, 0x4b, 0x4e, 0x4e, 0x49, 0x4f, 0x4f, 0x26, 0x26, 0xad],
     [0x4b, 0x51, 0x51, 0x53, 0x50, 0x51, 0x4c, 0x52, 0x52, 0x50, 0x52, 0x52, 0x53, 0x55, 0x55, 0x5e, 0x55, 0x55],
     [0x57, 0x56, 0x56, 0x53, 0x57, 0x57, 0x51, 0x48, 0x79, 0x50, 0x59, 0x59, 0x62, 0x5a, 0x5a, 0x60, 0x5c, 0x5c],
     [0x59, 0x5e, 0x5e, 0x57, 0x5f, 0x5f, 0x5a, 0x61, 0x61, 0x54, 0x53, 0x89, 0x67, 0x67, 0x67, 0x4d, 0x4b, 0xaf],
     [0x69, 0x6d, 0x6d, 0x66, 0x6e, 0x6e, 0x6d, 0x6e, 0x6e, 0x68, 0x6f, 0x6f, 0x6f, 0x6f, 0x6f, 0x71, 0x71, 0x71],
     [0x75, 0x71, 0x71, 0x54, 0x54, 0xb7, 0x5f, 0x5b, 0xab, 0x75, 0x74, 0x74, 0x74, 0x77, 0x77, 0x70, 0x78, 0x7f],
     [0x7f, 0x7e, 0x7e, 0x81, 0x7e, 0x7e, 0x82, 0x7e, 0x7e, 0x7f, 0x80, 0x80, 0x88, 0x7f, 0x7f, 0x81, 0x83, 0x83],
     [0x8c, 0x86, 0x86, 0x86, 0x88, 0x88, 0x88, 0x88, 0x88, 0x8e, 0x88, 0x88, 0x8c, 0x8b, 0x8b, 0x88, 0x8c, 0x8c],
     [0x91, 0x8c, 0x8c, 0x95, 0x90, 0x90, 0x98, 0x90, 0x90, 0x83, 0x7b, 0xc1, 0x91, 0x91, 0x91, 0x8d, 0x92, 0x95],
     [0x99, 0x94, 0x94, 0x84, 0x88, 0xb7, 0x98, 0x98, 0x98, 0x94, 0x9b, 0x9a, 0x96, 0x9b, 0x9b, 0x9f, 0x9d, 0x9d],
     [0xa5, 0xa1, 0xa3, 0xa4, 0xa4, 0xa4, 0xa8, 0xa5, 0xa5, 0xa3, 0xa6, 0xa6, 0xab, 0xa7, 0xa7, 0xb7, 0xa6, 0xa6],
     [0xa8, 0xa8, 0xa8, 0xa3, 0xaa, 0xaa, 0xa5, 0xac, 0xac, 0xb0, 0xab, 0xab, 0xad, 0xae, 0xae, 0xac, 0xaf, 0xaf],
     [0xaf, 0xb2, 0xb2, 0xb2, 0xb5, 0xb5, 0xb5, 0xb6, 0xb6, 0xb5, 0xb7, 0xb7, 0xb9, 0xb8, 0xb8, 0xae, 0xba, 0xba],
     [0xad, 0xae, 0xd6, 0xbd, 0xba, 0xba, 0xbe, 0xbe, 0xbe, 0xbf, 0xb5, 0xd1, 0xbc, 0xc0, 0xc0, 0xc1, 0xc3, 0xc3],
     [0xbd, 0xc4, 0xc4, 0xc0, 0xc5, 0xc5, 0xc4, 0xc5, 0xc5, 0xc7, 0xc8, 0xc8, 0xc9, 0xc8, 0xc8, 0xc3, 0xc9, 0xc9],
     [0xc9, 0xca, 0xca, 0xca, 0xca, 0xca, 0xc2, 0xcc, 0xcc, 0xc8, 0xcc, 0xcc, 0xce, 0xcc, 0xcc, 0xc8, 0xcd, 0xcd],
     [0xd4, 0xcc, 0xcc, 0xd1, 0xcd, 0xcd, 0xd3, 0xcd, 0xcd, 0xd3, 0xcf, 0xcf, 0xcd, 0xd0, 0xd0, 0xd0, 0xd0, 0xd0],
     [0xcd, 0xd1, 0xd1, 0xc8, 0xd4, 0xd4, 0xd0, 0xd4, 0xd4, 0xd5, 0xd6, 0xd5, 0xe3, 0xdc, 0xdc, 0xd8, 0xdd, 0xe1],
     [0xdd, 0xde, 0xde, 0xe3, 0xdf, 0xdf, 0xd8, 0xe2, 0xe2, 0xe4, 0xe2, 0xe2, 0xe3, 0xe5, 0xe5, 0xe4, 0xe6, 0xe6],
     [0xe5, 0xe7, 0xe7, 0xe5, 0xe9, 0xe9, 0xec, 0xea, 0xea, 0xe5, 0xeb, 0xeb, 0xee, 0xeb, 0xeb, 0xf1, 0xed, 0xed],
     [0xf4, 0xed, 0xed, 0xf0, 0xee, 0xee, 0xf5, 0xf1, 0xf1, 0xf5, 0xf7, 0xf7, 0xfa, 0xf7, 0xf7, 0xfc, 0xfb, 0xfb],
     [0xfd, 0xfb, 0xfb]] @
   concat [
     [0xf1, 0x07, 0x07, 0x07, 0x07, 0x14, 0x7e, 0x03, 0x07, 0xc0, 0x07, 0x01],
     [0x03, 0x9e, 0x83, 0x07, 0x00, 0x08, 0x20, 0x7c, 0x02, 0x1f, 0x3b, 0x94],
     [0x6d, 0x34, 0x1d, 0x00, 0x04, 0x05, 0x11, 0x2d, 0xcc, 0x8d, 0x0c, 0x00],
     [0x20, 0x8e, 0x81, 0x3f, 0x02, 0x30, 0x88, 0xb4, 0xd0, 0x00, 0xd6, 0xd9],
     [0xa4, 0x00, 0x4c, 0xe3, 0xb9, 0x38, 0x10, 0x1a, 0xc7, 0x7b, 0x3f, 0x53],
     [0x28, 0x07, 0x1b, 0x00, 0x49, 0xec, 0x72, 0x00, 0x18, 0xbd, 0xe9, 0x68],
     [0x04, 0x00, 0x71, 0xeb, 0x99, 0x12, 0x3b, 0x16, 0x98, 0x00, 0xee, 0x9a],
     [0x00, 0x00, 0x2c, 0xe6, 0x16, 0x11, 0x00, 0xaf, 0xda, 0x41, 0x03, 0x25],
     [0x82, 0xdc, 0xef, 0x40, 0xb3, 0x41, 0x08, 0x6a, 0xca, 0xd2, 0x9c, 0xea],
     [0x00, 0x63, 0x00, 0x43, 0xcd, 0x0a, 0xa2, 0xcf, 0x31, 0x00, 0x51, 0xb1],
     [0xe5, 0xc2, 0x90, 0x48, 0x03, 0x00, 0x00, 0x00, 0x37, 0x9d, 0xa3, 0x5e],
     [0x10, 0x01, 0x75, 0x00, 0xd3, 0x3d, 0x76, 0xbf, 0x86, 0xd1, 0x78, 0xae],
     [0x02, 0xdd, 0x9b, 0x40, 0x00, 0x00, 0x00, 0xe9, 0x29, 0x40, 0x1e, 0xc3],
     [0x6b, 0xd7, 0xab, 0xdb, 0xe0, 0x80, 0x06, 0x73, 0x5f, 0x57, 0x6e, 0x30],
     [0x44, 0x13, 0x03, 0x00, 0x84, 0x79, 0x87, 0x6c, 0x74, 0x89, 0x45, 0x4b],
     [0x0c, 0x36, 0x4f, 0x52, 0x5b, 0x47, 0x41, 0x6f, 0x92, 0x00, 0x56, 0x54],
     [0x54, 0x54, 0x33, 0x06, 0x09, 0x4a, 0x10, 0x54, 0x60, 0x08, 0x3f, 0x00],
     [0x08, 0x9f, 0xa9, 0x00, 0x65, 0x54, 0x77, 0x91, 0x47, 0x4d, 0x44, 0x4e],
     [0x20, 0x5c, 0x35, 0x4f, 0x00, 0x00, 0x01, 0x39, 0x2a, 0x00, 0x95, 0xc0],
     [0xa7, 0xc1, 0xc3, 0xa5, 0x64, 0x3e, 0x44, 0x0f, 0x4d, 0x13, 0x59, 0x20],
     [0x01, 0x17, 0xa1, 0x00, 0xbc, 0xc6, 0x3f, 0xc4, 0x67, 0xc9, 0xd8, 0x8b],
     [0x40, 0x2e, 0x45, 0x03, 0x3c, 0x8a, 0xad, 0x8c, 0x5d, 0x00, 0xbb, 0xd5],
     [0x32, 0xce, 0x19, 0x97, 0xaa, 0x23, 0x04, 0x93, 0xe7, 0xe8, 0xb2, 0x15],
     [0x35, 0x00, 0x27, 0x00, 0x8f, 0xdf, 0xe4, 0x42, 0x26, 0xe2, 0x22, 0x21],
     [0x01, 0xde, 0xa0, 0x0d, 0x2f, 0xbe, 0xc5, 0x04, 0x46, 0x00, 0x00, 0x00],
     [0x1c, 0x2b, 0x07, 0x69, 0xed, 0x58, 0x01, 0x00, 0x7d, 0xf0, 0x61, 0x00],
     [0xb7, 0x96, 0x4f, 0x80, 0x01, 0x3a, 0xba, 0xe1, 0xb0, 0x50, 0x03, 0xa6],
     [0x04, 0xac, 0x0b, 0x00, 0xcb, 0x5a, 0x47, 0x00, 0x00, 0x00, 0x62, 0xb5],
     [0x7a, 0x1f, 0x00, 0x00, 0x55, 0xc8, 0x0c, 0x24, 0x00, 0x00, 0xd4, 0xe1],
     [0x36, 0x18, 0x70, 0x4b, 0x0e, 0x02, 0xb6, 0x46, 0x69, 0xb8, 0x4f, 0x06],
     [0x2c, 0x66, 0x85, 0x1a, 0xa8, 0x47, 0x06, 0x2d, 0x04, 0xbc, 0x02, 0x7f],
     [0x47, 0x07, 0x77, 0x2c]]"

definition g_pui8SpiderR1Image :: "u8 \<Rightarrow> u8 list" where
  "g_pui8SpiderR1Image IMAGE_FMT_8BPP_COMP =
   [IMAGE_FMT_8BPP_COMP, 24, 0, 24, 0, 240] @
   concat [
     [0x00, 0x00, 0x00, 0x01, 0x00, 0x00, 0x00, 0x01, 0x01, 0x01, 0x01, 0x01, 0x02, 0x01, 0x01, 0x00, 0x02, 0x02],
     [0x00, 0x00, 0x06, 0x01, 0x02, 0x02, 0x02, 0x02, 0x02, 0x00, 0x00, 0x07, 0x02, 0x03, 0x03, 0x03, 0x03, 0x03],
     [0x01, 0x04, 0x04, 0x03, 0x04, 0x04, 0x04, 0x04, 0x04, 0x03, 0x05, 0x05, 0x08, 0x05, 0x05, 0x05, 0x06, 0x06],
     [0x0a, 0x06, 0x06, 0x04, 0x07, 0x07, 0x08, 0x07, 0x07, 0x0b, 0x07, 0x07, 0x09, 0x08, 0x08, 0x0b, 0x08, 0x08],
     [0x08, 0x0a, 0x0a, 0x0a, 0x0b, 0x0b, 0x0b, 0x0d, 0x0d, 0x0d, 0x0d, 0x0d, 0x0e, 0x0d, 0x0d, 0x0f, 0x0d, 0x0d],
     [0x0c, 0x0e, 0x0e, 0x0d, 0x0e, 0x0e, 0x0f, 0x0e, 0x0e, 0x0c, 0x10, 0x10, 0x0d, 0x10, 0x10, 0x0e, 0x10, 0x10],
     [0x0d, 0x11, 0x11, 0x13, 0x11, 0x11, 0x11, 0x12, 0x12, 0x12, 0x12, 0x12, 0x15, 0x12, 0x12, 0x0f, 0x15, 0x15],
     [0x14, 0x15, 0x15, 0x15, 0x16, 0x16, 0x16, 0x19, 0x19, 0x17, 0x19, 0x19, 0x19, 0x19, 0x19, 0x15, 0x1c, 0x1c],
     [0x18, 0x1d, 0x1d, 0x19, 0x1d, 0x1d, 0x1b, 0x1d, 0x1d, 0x00, 0x00, 0x60, 0x1e, 0x1d, 0x1d, 0x20, 0x1b, 0x21],
     [0x00, 0x00, 0x67, 0x1a, 0x21, 0x21, 0x24, 0x21, 0x21, 0x26, 0x21, 0x21, 0x21, 0x22, 0x22, 0x17, 0x26, 0x26],
     [0x27, 0x25, 0x25, 0x28, 0x25, 0x25, 0x1e, 0x22, 0x2f, 0x25, 0x26, 0x26, 0x2b, 0x27, 0x27, 0x2b, 0x2b, 0x2b],
     [0x2f, 0x2b, 0x2b, 0x2c, 0x2d, 0x2d, 0x13, 0x00, 0x8f, 0x09, 0x01, 0x93, 0x30, 0x2e, 0x2e, 0x04, 0x03, 0x93],
     [0x30, 0x2f, 0x2f, 0x34, 0x2f, 0x2f, 0x00, 0x00, 0xa1, 0x00, 0x00, 0xa4, 0x30, 0x32, 0x32, 0x0d, 0x00, 0xa2],
     [0x06, 0x03, 0xa7, 0x00, 0x00, 0xb0, 0x38, 0x35, 0x35, 0x2d, 0x37, 0x37, 0x00, 0x00, 0xb4, 0x31, 0x37, 0x37],
     [0x00, 0x00, 0xb6, 0x36, 0x37, 0x37, 0x01, 0x01, 0xb5, 0x08, 0x0a, 0xa1, 0x33, 0x39, 0x39, 0x3c, 0x38, 0x38],
     [0x3d, 0x38, 0x38, 0x25, 0x21, 0x70, 0x1b, 0x18, 0x86, 0x3f, 0x39, 0x39, 0x3b, 0x3b, 0x3b, 0x0e, 0x0e, 0xa7],
     [0x21, 0x1b, 0x88, 0x3c, 0x3e, 0x3e, 0x3d, 0x3e, 0x3e, 0x3b, 0x3f, 0x3f, 0x22, 0x2b, 0x70, 0x15, 0x15, 0xa6],
     [0x3d, 0x41, 0x41, 0x41, 0x42, 0x42, 0x42, 0x42, 0x42, 0x41, 0x43, 0x43, 0x49, 0x45, 0x45, 0x41, 0x47, 0x47],
     [0x24, 0x18, 0xaf, 0x44, 0x47, 0x47, 0x32, 0x33, 0x77, 0x46, 0x49, 0x49, 0x46, 0x4a, 0x4a, 0x48, 0x4b, 0x4b],
     [0x45, 0x4c, 0x4c, 0x25, 0x25, 0xa5, 0x29, 0x21, 0xb2, 0x4b, 0x4e, 0x4e, 0x49, 0x4f, 0x4f, 0x26, 0x26, 0xad],
     [0x4b, 0x51, 0x51, 0x53, 0x50, 0x51, 0x4c, 0x52, 0x52, 0x50, 0x52, 0x52, 0x53, 0x55, 0x55, 0x5e, 0x55, 0x55],
     [0x57, 0x56, 0x56, 0x53, 0x57, 0x57, 0x51, 0x48, 0x79, 0x50, 0x59, 0x59, 0x62, 0x5a, 0x5a, 0x60, 0x5c, 0x5c],
     [0x59, 0x5e, 0x5e, 0x57, 0x5f, 0x5f, 0x5a, 0x61, 0x61, 0x54, 0x53, 0x89, 0x67, 0x67, 0x67, 0x4d, 0x4b, 0xaf],
     [0x69, 0x6d, 0x6d, 0x66, 0x6e, 0x6e, 0x6d, 0x6e, 0x6e, 0x68, 0x6f, 0x6f, 0x6f, 0x6f, 0x6f, 0x71, 0x71, 0x71],
     [0x75, 0x71, 0x71, 0x54, 0x54, 0xb7, 0x5f, 0x5b, 0xab, 0x75, 0x74, 0x74, 0x74, 0x77, 0x77, 0x70, 0x78, 0x7f],
     [0x7f, 0x7e, 0x7e, 0x81, 0x7e, 0x7e, 0x82, 0x7e, 0x7e, 0x7f, 0x80, 0x80, 0x88, 0x7f, 0x7f, 0x81, 0x83, 0x83],
     [0x8c, 0x86, 0x86, 0x86, 0x88, 0x88, 0x88, 0x88, 0x88, 0x8e, 0x88, 0x88, 0x8c, 0x8b, 0x8b, 0x88, 0x8c, 0x8c],
     [0x91, 0x8c, 0x8c, 0x95, 0x90, 0x90, 0x98, 0x90, 0x90, 0x83, 0x7b, 0xc1, 0x91, 0x91, 0x91, 0x8d, 0x92, 0x95],
     [0x99, 0x94, 0x94, 0x84, 0x88, 0xb7, 0x98, 0x98, 0x98, 0x94, 0x9b, 0x9a, 0x96, 0x9b, 0x9b, 0x9f, 0x9d, 0x9d],
     [0xa5, 0xa1, 0xa3, 0xa4, 0xa4, 0xa4, 0xa8, 0xa5, 0xa5, 0xa3, 0xa6, 0xa6, 0xab, 0xa7, 0xa7, 0xb7, 0xa6, 0xa6],
     [0xa8, 0xa8, 0xa8, 0xa3, 0xaa, 0xaa, 0xa5, 0xac, 0xac, 0xb0, 0xab, 0xab, 0xad, 0xae, 0xae, 0xac, 0xaf, 0xaf],
     [0xaf, 0xb2, 0xb2, 0xb2, 0xb5, 0xb5, 0xb5, 0xb6, 0xb6, 0xb5, 0xb7, 0xb7, 0xb9, 0xb8, 0xb8, 0xae, 0xba, 0xba],
     [0xad, 0xae, 0xd6, 0xbd, 0xba, 0xba, 0xbe, 0xbe, 0xbe, 0xbf, 0xb5, 0xd1, 0xbc, 0xc0, 0xc0, 0xc1, 0xc3, 0xc3],
     [0xbd, 0xc4, 0xc4, 0xc0, 0xc5, 0xc5, 0xc4, 0xc5, 0xc5, 0xc7, 0xc8, 0xc8, 0xc9, 0xc8, 0xc8, 0xc3, 0xc9, 0xc9],
     [0xc9, 0xca, 0xca, 0xca, 0xca, 0xca, 0xc2, 0xcc, 0xcc, 0xc8, 0xcc, 0xcc, 0xce, 0xcc, 0xcc, 0xc8, 0xcd, 0xcd],
     [0xd4, 0xcc, 0xcc, 0xd1, 0xcd, 0xcd, 0xd3, 0xcd, 0xcd, 0xd3, 0xcf, 0xcf, 0xcd, 0xd0, 0xd0, 0xd0, 0xd0, 0xd0],
     [0xcd, 0xd1, 0xd1, 0xc8, 0xd4, 0xd4, 0xd0, 0xd4, 0xd4, 0xd5, 0xd6, 0xd5, 0xe3, 0xdc, 0xdc, 0xd8, 0xdd, 0xe1],
     [0xdd, 0xde, 0xde, 0xe3, 0xdf, 0xdf, 0xd8, 0xe2, 0xe2, 0xe4, 0xe2, 0xe2, 0xe3, 0xe5, 0xe5, 0xe4, 0xe6, 0xe6],
     [0xe5, 0xe7, 0xe7, 0xe5, 0xe9, 0xe9, 0xec, 0xea, 0xea, 0xe5, 0xeb, 0xeb, 0xee, 0xeb, 0xeb, 0xf1, 0xed, 0xed],
     [0xf4, 0xed, 0xed, 0xf0, 0xee, 0xee, 0xf5, 0xf1, 0xf1, 0xf5, 0xf7, 0xf7, 0xfa, 0xf7, 0xf7, 0xfc, 0xfb, 0xfb],
     [0xfd, 0xfb, 0xfb]] @
   concat [
     [0xf1, 0x07, 0x07, 0x07, 0x04, 0x03, 0x7e, 0x14, 0x07, 0x80, 0x05, 0x02],
     [0x7c, 0x08, 0x00, 0x07, 0x83, 0x9e, 0x60, 0x03, 0x4f, 0x4d, 0x81, 0x8e],
     [0x00, 0x0c, 0x8d, 0x00, 0xcc, 0x2d, 0x11, 0x05, 0x04, 0x1d, 0x34, 0x6d],
     [0x20, 0x94, 0x3b, 0x4e, 0x7b, 0xc7, 0x1a, 0x38, 0xb9, 0x00, 0xe3, 0x4c],
     [0x00, 0xa4, 0xd9, 0xd6, 0xd0, 0xb4, 0x10, 0x88, 0x30, 0x02, 0x44, 0x12],
     [0x99, 0xeb, 0x71, 0x00, 0x00, 0x68, 0xe9, 0xbd, 0x18, 0x00, 0x72, 0xec],
     [0x04, 0x49, 0x1b, 0x07, 0x28, 0x53, 0x4c, 0x00, 0xb3, 0x00, 0xef, 0xdc],
     [0x82, 0x25, 0x03, 0x41, 0xda, 0xaf, 0x00, 0x11, 0x16, 0xe6, 0x2c, 0x00],
     [0x00, 0x9a, 0xee, 0x20, 0x98, 0x16, 0x33, 0x03, 0x48, 0x90, 0xc2, 0xe5],
     [0x00, 0xb1, 0x51, 0x31, 0xcf, 0xa2, 0x0a, 0xcd, 0x43, 0x00, 0x00, 0x63],
     [0xea, 0x9c, 0xd2, 0xca, 0x6a, 0x08, 0x80, 0x33, 0x00, 0x00, 0x40, 0x9b],
     [0xdd, 0xae, 0x78, 0x00, 0xd1, 0x86, 0xbf, 0x76, 0x3d, 0xd3, 0x75, 0x01],
     [0x04, 0x10, 0x5e, 0xa3, 0x9d, 0x37, 0x3c, 0x30, 0x6e, 0x00, 0x57, 0x5f],
     [0x73, 0x80, 0xe0, 0xdb, 0xab, 0xd7, 0x48, 0x6b, 0x7b, 0x1e, 0x29, 0x44],
     [0x5b, 0x52, 0x4f, 0x00, 0x36, 0x4b, 0x45, 0x89, 0x74, 0x6c, 0x87, 0x79],
     [0x30, 0x84, 0x03, 0x6c, 0x02, 0x08, 0x60, 0x54, 0x4a, 0x00, 0x09, 0x06],
     [0x33, 0x54, 0x54, 0x54, 0x56, 0x92, 0x60, 0x6f, 0x47, 0x01, 0x35, 0x5c],
     [0x4e, 0x44, 0x4d, 0x00, 0x47, 0x91, 0x77, 0x54, 0x65, 0xa9, 0x9f, 0x08],
     [0xc0, 0x47, 0x01, 0x0f, 0x3e, 0x64, 0xa5, 0xc3, 0xc1, 0x03, 0xa7, 0xc0],
     [0x95, 0x2a, 0x39, 0x01, 0x47, 0x01, 0x00, 0x2e, 0x8b, 0xd8, 0xc9, 0x67],
     [0xc4, 0x3f, 0xc6, 0x11, 0xbc, 0xa1, 0x17, 0x49, 0x20, 0x59, 0x13, 0x1b],
     [0x00, 0x15, 0xb2, 0xe8, 0xe7, 0x93, 0x23, 0xaa, 0x97, 0x00, 0x19, 0xce],
     [0x32, 0xd5, 0xbb, 0x5d, 0x8c, 0xad, 0x10, 0x8a, 0x3c, 0x03, 0x43, 0x04],
     [0xc5, 0xbe, 0x2f, 0x00, 0x0d, 0xa0, 0xde, 0x21, 0x22, 0xe2, 0x26, 0x42],
     [0x0c, 0xe4, 0xdf, 0x8f, 0x27, 0x5b, 0x32, 0x96, 0xb7, 0x00, 0x00, 0x61],
     [0xf0, 0x7d, 0x00, 0x58, 0xed, 0x69, 0x10, 0x07, 0x2b, 0x1c, 0x57, 0x00],
     [0x00, 0x5a, 0xcb, 0x00, 0x00, 0x0b, 0xac, 0xa6, 0x03, 0x50, 0xb0, 0xe1],
     [0x32, 0xba, 0x3a, 0x4f, 0x01, 0x24, 0xd4, 0xe1, 0xc8, 0x01, 0x55, 0x00],
     [0x00, 0x1f, 0x7a, 0xb5, 0x62, 0x3f, 0xa4, 0x01, 0xb8, 0x01, 0x46, 0xb6],
     [0x72, 0x0e, 0x70, 0x44, 0x18, 0x3f, 0x00, 0x00, 0xa8, 0x02, 0x85, 0x66],
     [0xd3, 0x77, 0x2e, 0x7f, 0x02, 0x04, 0x2d, 0x47, 0x07, 0xc0, 0x77, 0x2f]]"

definition g_pui8SpiderR2Image :: "u8 \<Rightarrow> u8 list" where
  "g_pui8SpiderR2Image IMAGE_FMT_8BPP_COMP =
   [IMAGE_FMT_8BPP_COMP, 24, 0, 24, 0, 240] @
   concat [
     [0x00, 0x00, 0x00, 0x01, 0x00, 0x00, 0x00, 0x01, 0x01, 0x01, 0x01, 0x01, 0x02, 0x01, 0x01, 0x00, 0x02, 0x02],
     [0x00, 0x00, 0x06, 0x01, 0x02, 0x02, 0x02, 0x02, 0x02, 0x00, 0x00, 0x07, 0x02, 0x03, 0x03, 0x03, 0x03, 0x03],
     [0x01, 0x04, 0x04, 0x03, 0x04, 0x04, 0x04, 0x04, 0x04, 0x03, 0x05, 0x05, 0x08, 0x05, 0x05, 0x05, 0x06, 0x06],
     [0x0a, 0x06, 0x06, 0x04, 0x07, 0x07, 0x08, 0x07, 0x07, 0x0b, 0x07, 0x07, 0x09, 0x08, 0x08, 0x0b, 0x08, 0x08],
     [0x08, 0x0a, 0x0a, 0x0a, 0x0b, 0x0b, 0x0b, 0x0d, 0x0d, 0x0d, 0x0d, 0x0d, 0x0e, 0x0d, 0x0d, 0x0f, 0x0d, 0x0d],
     [0x0c, 0x0e, 0x0e, 0x0d, 0x0e, 0x0e, 0x0f, 0x0e, 0x0e, 0x0c, 0x10, 0x10, 0x0d, 0x10, 0x10, 0x0e, 0x10, 0x10],
     [0x0d, 0x11, 0x11, 0x13, 0x11, 0x11, 0x11, 0x12, 0x12, 0x12, 0x12, 0x12, 0x15, 0x12, 0x12, 0x0f, 0x15, 0x15],
     [0x14, 0x15, 0x15, 0x15, 0x16, 0x16, 0x16, 0x19, 0x19, 0x17, 0x19, 0x19, 0x19, 0x19, 0x19, 0x15, 0x1c, 0x1c],
     [0x18, 0x1d, 0x1d, 0x19, 0x1d, 0x1d, 0x1b, 0x1d, 0x1d, 0x00, 0x00, 0x60, 0x1e, 0x1d, 0x1d, 0x20, 0x1b, 0x21],
     [0x00, 0x00, 0x67, 0x1a, 0x21, 0x21, 0x24, 0x21, 0x21, 0x26, 0x21, 0x21, 0x21, 0x22, 0x22, 0x17, 0x26, 0x26],
     [0x27, 0x25, 0x25, 0x28, 0x25, 0x25, 0x1e, 0x22, 0x2f, 0x25, 0x26, 0x26, 0x2b, 0x27, 0x27, 0x2b, 0x2b, 0x2b],
     [0x2f, 0x2b, 0x2b, 0x2c, 0x2d, 0x2d, 0x13, 0x00, 0x8f, 0x09, 0x01, 0x93, 0x30, 0x2e, 0x2e, 0x04, 0x03, 0x93],
     [0x30, 0x2f, 0x2f, 0x34, 0x2f, 0x2f, 0x00, 0x00, 0xa1, 0x00, 0x00, 0xa4, 0x30, 0x32, 0x32, 0x0d, 0x00, 0xa2],
     [0x06, 0x03, 0xa7, 0x00, 0x00, 0xb0, 0x38, 0x35, 0x35, 0x2d, 0x37, 0x37, 0x00, 0x00, 0xb4, 0x31, 0x37, 0x37],
     [0x00, 0x00, 0xb6, 0x36, 0x37, 0x37, 0x01, 0x01, 0xb5, 0x08, 0x0a, 0xa1, 0x33, 0x39, 0x39, 0x3c, 0x38, 0x38],
     [0x3d, 0x38, 0x38, 0x25, 0x21, 0x70, 0x1b, 0x18, 0x86, 0x3f, 0x39, 0x39, 0x3b, 0x3b, 0x3b, 0x0e, 0x0e, 0xa7],
     [0x21, 0x1b, 0x88, 0x3c, 0x3e, 0x3e, 0x3d, 0x3e, 0x3e, 0x3b, 0x3f, 0x3f, 0x22, 0x2b, 0x70, 0x15, 0x15, 0xa6],
     [0x3d, 0x41, 0x41, 0x41, 0x42, 0x42, 0x42, 0x42, 0x42, 0x41, 0x43, 0x43, 0x49, 0x45, 0x45, 0x41, 0x47, 0x47],
     [0x24, 0x18, 0xaf, 0x44, 0x47, 0x47, 0x32, 0x33, 0x77, 0x46, 0x49, 0x49, 0x46, 0x4a, 0x4a, 0x48, 0x4b, 0x4b],
     [0x45, 0x4c, 0x4c, 0x25, 0x25, 0xa5, 0x29, 0x21, 0xb2, 0x4b, 0x4e, 0x4e, 0x49, 0x4f, 0x4f, 0x26, 0x26, 0xad],
     [0x4b, 0x51, 0x51, 0x53, 0x50, 0x51, 0x4c, 0x52, 0x52, 0x50, 0x52, 0x52, 0x53, 0x55, 0x55, 0x5e, 0x55, 0x55],
     [0x57, 0x56, 0x56, 0x53, 0x57, 0x57, 0x51, 0x48, 0x79, 0x50, 0x59, 0x59, 0x62, 0x5a, 0x5a, 0x60, 0x5c, 0x5c],
     [0x59, 0x5e, 0x5e, 0x57, 0x5f, 0x5f, 0x5a, 0x61, 0x61, 0x54, 0x53, 0x89, 0x67, 0x67, 0x67, 0x4d, 0x4b, 0xaf],
     [0x69, 0x6d, 0x6d, 0x66, 0x6e, 0x6e, 0x6d, 0x6e, 0x6e, 0x68, 0x6f, 0x6f, 0x6f, 0x6f, 0x6f, 0x71, 0x71, 0x71],
     [0x75, 0x71, 0x71, 0x54, 0x54, 0xb7, 0x5f, 0x5b, 0xab, 0x75, 0x74, 0x74, 0x74, 0x77, 0x77, 0x70, 0x78, 0x7f],
     [0x7f, 0x7e, 0x7e, 0x81, 0x7e, 0x7e, 0x82, 0x7e, 0x7e, 0x7f, 0x80, 0x80, 0x88, 0x7f, 0x7f, 0x81, 0x83, 0x83],
     [0x8c, 0x86, 0x86, 0x86, 0x88, 0x88, 0x88, 0x88, 0x88, 0x8e, 0x88, 0x88, 0x8c, 0x8b, 0x8b, 0x88, 0x8c, 0x8c],
     [0x91, 0x8c, 0x8c, 0x95, 0x90, 0x90, 0x83, 0x7b, 0xc1, 0x98, 0x90, 0x90, 0x91, 0x91, 0x91, 0x8d, 0x92, 0x95],
     [0x99, 0x94, 0x94, 0x84, 0x88, 0xb7, 0x98, 0x98, 0x98, 0x94, 0x9b, 0x9a, 0x96, 0x9b, 0x9b, 0x9f, 0x9d, 0x9d],
     [0xa5, 0xa1, 0xa3, 0xa4, 0xa4, 0xa4, 0xa8, 0xa5, 0xa5, 0xa3, 0xa6, 0xa6, 0xab, 0xa7, 0xa7, 0xb7, 0xa6, 0xa6],
     [0xa8, 0xa8, 0xa8, 0xa3, 0xaa, 0xaa, 0xa5, 0xac, 0xac, 0xb0, 0xab, 0xab, 0xad, 0xae, 0xae, 0xac, 0xaf, 0xaf],
     [0xaf, 0xb2, 0xb2, 0xb2, 0xb5, 0xb5, 0xb5, 0xb6, 0xb6, 0xb5, 0xb7, 0xb7, 0xb9, 0xb8, 0xb8, 0xae, 0xba, 0xba],
     [0xad, 0xae, 0xd6, 0xbd, 0xba, 0xba, 0xbe, 0xbe, 0xbe, 0xbf, 0xb5, 0xd1, 0xbc, 0xc0, 0xc0, 0xc1, 0xc3, 0xc3],
     [0xbd, 0xc4, 0xc4, 0xc0, 0xc5, 0xc5, 0xc4, 0xc5, 0xc5, 0xc7, 0xc8, 0xc8, 0xc9, 0xc8, 0xc8, 0xc3, 0xc9, 0xc9],
     [0xc9, 0xca, 0xca, 0xca, 0xca, 0xca, 0xc2, 0xcc, 0xcc, 0xc8, 0xcc, 0xcc, 0xce, 0xcc, 0xcc, 0xc8, 0xcd, 0xcd],
     [0xd4, 0xcc, 0xcc, 0xd1, 0xcd, 0xcd, 0xd3, 0xcd, 0xcd, 0xd3, 0xcf, 0xcf, 0xcd, 0xd0, 0xd0, 0xd0, 0xd0, 0xd0],
     [0xcd, 0xd1, 0xd1, 0xc8, 0xd4, 0xd4, 0xd0, 0xd4, 0xd4, 0xd5, 0xd6, 0xd5, 0xe3, 0xdc, 0xdc, 0xd8, 0xdd, 0xe1],
     [0xdd, 0xde, 0xde, 0xe3, 0xdf, 0xdf, 0xd8, 0xe2, 0xe2, 0xe4, 0xe2, 0xe2, 0xe3, 0xe5, 0xe5, 0xe4, 0xe6, 0xe6],
     [0xe5, 0xe7, 0xe7, 0xe5, 0xe9, 0xe9, 0xec, 0xea, 0xea, 0xe5, 0xeb, 0xeb, 0xee, 0xeb, 0xeb, 0xf1, 0xed, 0xed],
     [0xf4, 0xed, 0xed, 0xf0, 0xee, 0xee, 0xf5, 0xf1, 0xf1, 0xf5, 0xf7, 0xf7, 0xfa, 0xf7, 0xf7, 0xfc, 0xfb, 0xfb],
     [0xfd, 0xfb, 0xfb]] @
   concat [
     [0xf4, 0x07, 0x07, 0x07, 0x01, 0x7f, 0x02, 0x04, 0x2d, 0xd3, 0x07, 0x06],
     [0xa8, 0x02, 0x85, 0x66, 0x47, 0x06, 0x48, 0xb8, 0x01, 0x46, 0xb6, 0x1a],
     [0x0e, 0x70, 0x18, 0x88, 0x17, 0x00, 0x24, 0xd4, 0xe1, 0xc8, 0x55, 0x00],
     [0x04, 0x00, 0x1f, 0x7a, 0xb5, 0x62, 0x4f, 0x00, 0x00, 0x00, 0x5a, 0xcb],
     [0x00, 0x0b, 0xac, 0xa6, 0x03, 0x50, 0x0c, 0xb0, 0xe1, 0xba, 0x3a, 0x4f],
     [0x01, 0x96, 0xb7, 0x00, 0x00, 0x61, 0xf0, 0x7d, 0x00, 0x58, 0xed, 0x69],
     [0x10, 0x07, 0x2b, 0x1c, 0x3f, 0x00, 0x04, 0xc5, 0xbe, 0x00, 0x2f, 0x0d],
     [0xa0, 0xde, 0x21, 0x22, 0xe2, 0x26, 0x04, 0x42, 0xe4, 0xdf, 0x8f, 0x27],
     [0x36, 0x15, 0xb2, 0x00, 0xe8, 0xe7, 0x93, 0x23, 0xaa, 0x97, 0x19, 0xce],
     [0x00, 0x32, 0xd5, 0xbb, 0x5d, 0x8c, 0xad, 0x8a, 0x3c, 0x40, 0x03, 0x2d],
     [0x2e, 0x8b, 0xd8, 0xc9, 0x67, 0xc4, 0x04, 0x3f, 0xc6, 0xbc, 0xa1, 0x17],
     [0x71, 0x20, 0x59, 0x40, 0x13, 0x45, 0x0f, 0x3e, 0x64, 0xa4, 0xc3, 0xc1],
     [0x03, 0xa7, 0xc0, 0x95, 0x2a, 0x39, 0x01, 0x6d, 0x32, 0x00, 0x35, 0x5c],
     [0x4e, 0x44, 0x4d, 0x47, 0x91, 0x77, 0x04, 0x54, 0x65, 0xa9, 0x9f, 0x08],
     [0x47, 0x00, 0x08, 0x00, 0x60, 0x54, 0x4a, 0x09, 0x06, 0x33, 0x54, 0x54],
     [0x04, 0x54, 0x56, 0x92, 0x6f, 0x03, 0x47, 0x00, 0x00, 0x00, 0x5b, 0x52],
     [0x4f, 0x36, 0x4b, 0x45, 0x89, 0x74, 0x0c, 0x6c, 0x87, 0x79, 0x84, 0x47],
     [0x01, 0x30, 0x6e, 0x00, 0x57, 0x5f, 0x73, 0x80, 0xe0, 0xdb, 0xab, 0xd7],
     [0x48, 0x6b, 0x53, 0x1e, 0x29, 0x1c, 0x40, 0x9b, 0xdd, 0x00, 0xae, 0x78],
     [0xd1, 0x86, 0xbf, 0x76, 0x3d, 0xd3, 0x00, 0x75, 0x01, 0x10, 0x5e, 0xa3],
     [0x9d, 0x37, 0x00, 0x00, 0x00, 0x03, 0x48, 0x90, 0xc2, 0xe5, 0xb1, 0x51],
     [0x00, 0x31, 0xcf, 0xa2, 0x0a, 0xcd, 0x43, 0x00, 0x63, 0x00, 0xea, 0x9c],
     [0xd2, 0xca, 0x6a, 0x08, 0x00, 0x00, 0x00, 0x00, 0xb3, 0xef, 0xdc, 0x82],
     [0x25, 0x03, 0x41, 0x00, 0xda, 0xaf, 0x11, 0x16, 0xe6, 0x2c, 0x00, 0x00],
     [0x08, 0x9a, 0xee, 0x98, 0x16, 0x51, 0x00, 0x00, 0x12, 0x00, 0x99, 0xeb],
     [0x71, 0x00, 0x68, 0xe9, 0xbd, 0x18, 0x00, 0x00, 0x72, 0xec, 0x49, 0x1b],
     [0x07, 0x28, 0x53, 0xc0, 0x53, 0x29, 0x02, 0x7b, 0xc7, 0x1a, 0x38, 0xb9],
     [0x00, 0xe3, 0x4c, 0x00, 0xa5, 0xd9, 0xd6, 0xd0, 0xb4, 0x10, 0x88, 0x30],
     [0x02, 0x3f, 0x81, 0x8e, 0x00, 0x0c, 0x00, 0x8d, 0xcc, 0x2d, 0x11, 0x05],
     [0x04, 0x1d, 0x34, 0x10, 0x6d, 0x94, 0x3b, 0x46, 0x00, 0x02, 0x7c, 0x08],
     [0x07, 0x00, 0x07, 0x83, 0x9e, 0x03, 0x7f, 0x37, 0x01, 0x1e, 0x03, 0x7e],
     [0x14, 0x47, 0x07, 0x77, 0x2f]]"

definition g_pui8SpiderU1Image :: "u8 \<Rightarrow> u8 list" where
  "g_pui8SpiderU1Image IMAGE_FMT_8BPP_COMP =
   [IMAGE_FMT_8BPP_COMP, 24, 0, 24, 0, 238] @
   concat [
     [0x00, 0x00, 0x00, 0x01, 0x00, 0x00, 0x00, 0x01, 0x01, 0x01, 0x01, 0x01, 0x02, 0x01, 0x01, 0x00, 0x02, 0x02],
     [0x00, 0x00, 0x06, 0x01, 0x02, 0x02, 0x02, 0x02, 0x02, 0x00, 0x00, 0x07, 0x02, 0x03, 0x03, 0x03, 0x03, 0x03],
     [0x01, 0x04, 0x04, 0x04, 0x04, 0x04, 0x03, 0x05, 0x05, 0x08, 0x05, 0x05, 0x05, 0x06, 0x06, 0x08, 0x06, 0x06],
     [0x0a, 0x06, 0x06, 0x04, 0x07, 0x07, 0x0a, 0x07, 0x07, 0x09, 0x08, 0x08, 0x0b, 0x08, 0x08, 0x09, 0x09, 0x09],
     [0x08, 0x0a, 0x0a, 0x0a, 0x0a, 0x0a, 0x0f, 0x0c, 0x0c, 0x0c, 0x0d, 0x0d, 0x0d, 0x0d, 0x0d, 0x0e, 0x0d, 0x0d],
     [0x0c, 0x0e, 0x0e, 0x0f, 0x0e, 0x0e, 0x0c, 0x10, 0x10, 0x0d, 0x10, 0x10, 0x0e, 0x10, 0x10, 0x0d, 0x11, 0x11],
     [0x13, 0x11, 0x11, 0x12, 0x12, 0x12, 0x16, 0x12, 0x12, 0x11, 0x13, 0x13, 0x0f, 0x15, 0x15, 0x14, 0x15, 0x15],
     [0x15, 0x16, 0x16, 0x17, 0x18, 0x18, 0x17, 0x19, 0x19, 0x19, 0x19, 0x19, 0x15, 0x1c, 0x1c, 0x18, 0x1c, 0x1c],
     [0x1b, 0x1c, 0x1c, 0x19, 0x1d, 0x1d, 0x00, 0x00, 0x60, 0x1e, 0x1d, 0x1d, 0x20, 0x1b, 0x21, 0x00, 0x00, 0x67],
     [0x1a, 0x21, 0x21, 0x24, 0x21, 0x21, 0x26, 0x21, 0x21, 0x21, 0x22, 0x22, 0x17, 0x26, 0x26, 0x28, 0x25, 0x25],
     [0x1e, 0x22, 0x2f, 0x25, 0x26, 0x26, 0x27, 0x26, 0x26, 0x2b, 0x26, 0x26, 0x2b, 0x2b, 0x2b, 0x2f, 0x2b, 0x2b],
     [0x12, 0x00, 0x8f, 0x2c, 0x2d, 0x2d, 0x09, 0x01, 0x93, 0x30, 0x2e, 0x2e, 0x04, 0x03, 0x93, 0x34, 0x2e, 0x2e],
     [0x30, 0x2f, 0x2f, 0x00, 0x00, 0xa2, 0x00, 0x00, 0xa4, 0x30, 0x32, 0x32, 0x0d, 0x00, 0xa2, 0x00, 0x00, 0xb0],
     [0x06, 0x04, 0xa7, 0x38, 0x35, 0x35, 0x2d, 0x37, 0x37, 0x00, 0x00, 0xb4, 0x31, 0x37, 0x37, 0x00, 0x00, 0xb6],
     [0x36, 0x37, 0x37, 0x01, 0x01, 0xb5, 0x08, 0x0a, 0xa1, 0x33, 0x39, 0x39, 0x3c, 0x38, 0x38, 0x3d, 0x38, 0x38],
     [0x3f, 0x38, 0x38, 0x25, 0x21, 0x70, 0x1c, 0x17, 0x87, 0x3b, 0x3b, 0x3b, 0x0e, 0x0e, 0xa7, 0x21, 0x1b, 0x88],
     [0x3c, 0x3e, 0x3e, 0x22, 0x2a, 0x6f, 0x3d, 0x3e, 0x3e, 0x3b, 0x40, 0x40, 0x3d, 0x41, 0x41, 0x16, 0x15, 0xa6],
     [0x41, 0x42, 0x42, 0x41, 0x43, 0x43, 0x49, 0x44, 0x44, 0x41, 0x47, 0x47, 0x24, 0x18, 0xaf, 0x44, 0x47, 0x47],
     [0x32, 0x33, 0x77, 0x47, 0x49, 0x49, 0x47, 0x4a, 0x4a, 0x48, 0x4b, 0x4b, 0x25, 0x24, 0xa5, 0x45, 0x4c, 0x4c],
     [0x29, 0x20, 0xb2, 0x4b, 0x4e, 0x4e, 0x49, 0x4f, 0x4f, 0x26, 0x26, 0xad, 0x4b, 0x51, 0x51, 0x53, 0x50, 0x51],
     [0x4c, 0x52, 0x52, 0x50, 0x52, 0x52, 0x53, 0x55, 0x55, 0x5e, 0x55, 0x55, 0x57, 0x56, 0x56, 0x53, 0x57, 0x57],
     [0x50, 0x59, 0x59, 0x51, 0x49, 0x79, 0x62, 0x5a, 0x5a, 0x60, 0x5c, 0x5c, 0x59, 0x5e, 0x5e, 0x57, 0x5f, 0x5f],
     [0x5b, 0x61, 0x61, 0x54, 0x53, 0x89, 0x68, 0x66, 0x66, 0x4d, 0x4b, 0xaf, 0x69, 0x6d, 0x6d, 0x66, 0x6e, 0x6e],
     [0x6d, 0x6e, 0x6e, 0x68, 0x6f, 0x6f, 0x6e, 0x6f, 0x6f, 0x71, 0x71, 0x71, 0x53, 0x53, 0xb7, 0x75, 0x71, 0x71],
     [0x5f, 0x5c, 0xab, 0x76, 0x74, 0x74, 0x74, 0x77, 0x77, 0x70, 0x77, 0x7f, 0x80, 0x7e, 0x7e, 0x82, 0x7e, 0x7e],
     [0x7f, 0x7f, 0x7f, 0x7f, 0x80, 0x80, 0x88, 0x7f, 0x7f, 0x80, 0x83, 0x83, 0x8b, 0x86, 0x86, 0x86, 0x88, 0x88],
     [0x88, 0x88, 0x88, 0x8e, 0x88, 0x88, 0x8c, 0x8b, 0x8b, 0x88, 0x8c, 0x8c, 0x91, 0x8b, 0x8b, 0x83, 0x7a, 0xc1],
     [0x95, 0x90, 0x90, 0x98, 0x90, 0x90, 0x91, 0x91, 0x91, 0x8e, 0x92, 0x95, 0x99, 0x94, 0x94, 0x84, 0x88, 0xb7],
     [0x98, 0x98, 0x98, 0x94, 0x9b, 0x9a, 0x96, 0x9b, 0x9b, 0x9f, 0x9d, 0x9d, 0xa5, 0xa2, 0xa4, 0xa4, 0xa5, 0xa5],
     [0xa7, 0xa5, 0xa5, 0xa3, 0xa6, 0xa6, 0xab, 0xa7, 0xa7, 0xb7, 0xa6, 0xa6, 0xa8, 0xa8, 0xa8, 0xa3, 0xa9, 0xa9],
     [0xa5, 0xac, 0xac, 0xb0, 0xac, 0xac, 0xac, 0xae, 0xae, 0xad, 0xae, 0xae, 0xaf, 0xb2, 0xb2, 0xb2, 0xb5, 0xb5],
     [0xb6, 0xb6, 0xb6, 0xb5, 0xb7, 0xb7, 0xb9, 0xb8, 0xb8, 0xae, 0xba, 0xba, 0xad, 0xae, 0xd6, 0xbe, 0xba, 0xba],
     [0xbe, 0xbe, 0xbe, 0xbf, 0xb5, 0xd1, 0xbc, 0xc0, 0xc0, 0xc1, 0xc3, 0xc3, 0xbd, 0xc4, 0xc4, 0xc0, 0xc5, 0xc5],
     [0xc4, 0xc5, 0xc5, 0xc7, 0xc8, 0xc8, 0xc9, 0xc8, 0xc8, 0xc3, 0xc9, 0xc9, 0xca, 0xc9, 0xc9, 0xca, 0xcb, 0xcb],
     [0xc2, 0xcc, 0xcc, 0xc8, 0xcc, 0xcc, 0xce, 0xcc, 0xcc, 0xc8, 0xcd, 0xcd, 0xd3, 0xcc, 0xcc, 0xd4, 0xcc, 0xcc],
     [0xd1, 0xcd, 0xcd, 0xd3, 0xcf, 0xcf, 0xcd, 0xd0, 0xd0, 0xd0, 0xd0, 0xd0, 0xcc, 0xd1, 0xd1, 0xd0, 0xd3, 0xd3],
     [0xc8, 0xd4, 0xd4, 0xd5, 0xd5, 0xd5, 0xe3, 0xdc, 0xdc, 0xd8, 0xdd, 0xe1, 0xdd, 0xde, 0xde, 0xe3, 0xdf, 0xdf],
     [0xd8, 0xe2, 0xe2, 0xe4, 0xe2, 0xe2, 0xe3, 0xe5, 0xe5, 0xe3, 0xe6, 0xe6, 0xe5, 0xe7, 0xe7, 0xe5, 0xe9, 0xe9],
     [0xec, 0xea, 0xea, 0xe5, 0xeb, 0xeb, 0xee, 0xeb, 0xeb, 0xf1, 0xed, 0xed, 0xf4, 0xed, 0xed, 0xf0, 0xee, 0xee],
     [0xf4, 0xf1, 0xf1, 0xf5, 0xf7, 0xf7, 0xfa, 0xf7, 0xf7, 0xfc, 0xfb, 0xfb, 0xfd, 0xfc, 0xfc]] @
   concat [
     [0xf2, 0x07, 0x07, 0x07, 0x03, 0x36, 0x28, 0x02, 0x13, 0x62, 0x03, 0x07],
     [0x04, 0x08, 0x9b, 0x1e, 0x02, 0x58, 0x64, 0x3e, 0x47, 0x04, 0x68, 0xa2],
     [0x03, 0x1f, 0x88, 0xc4, 0x47, 0x03, 0x17, 0xc8, 0x5d, 0x04, 0xab, 0x25],
     [0x80, 0x3f, 0x00, 0x3a, 0x02, 0x00, 0x95, 0xd1, 0x0f, 0x94, 0x44, 0x8a],
     [0x8d, 0x01, 0x18, 0x24, 0x92, 0x31, 0x00, 0x52, 0xec, 0x9a, 0x00, 0x00],
     [0x03, 0x03, 0x08, 0x00, 0x01, 0x00, 0x5a, 0xdd, 0x1d, 0x00, 0x62, 0x6e],
     [0x80, 0x44, 0x6b, 0x86, 0x26, 0x98, 0xe8, 0x73, 0x00, 0x00, 0x82, 0x6d],
     [0x9d, 0x38, 0x16, 0xb9, 0xe2, 0x2a, 0x10, 0x39, 0xb3, 0x0d, 0x44, 0x33],
     [0xb2, 0x07, 0x01, 0x00, 0x63, 0xd2, 0x69, 0x77, 0x90, 0xa7, 0x29, 0x9f],
     [0x04, 0xd3, 0x41, 0x07, 0xb8, 0x78, 0x4c, 0x00, 0x1a, 0x00, 0xce, 0x1c],
     [0x00, 0x00, 0x3b, 0xd5, 0x85, 0x55, 0x01, 0x65, 0x93, 0xba, 0x30, 0x27],
     [0x67, 0xdf, 0x91, 0x80, 0x33, 0x04, 0xd4, 0x47, 0x2c, 0x43, 0x74, 0xa9],
     [0x00, 0x6a, 0x53, 0x53, 0xbe, 0xc4, 0xcc, 0xe0, 0xeb, 0x40, 0xae, 0x4d],
     [0x00, 0x05, 0xd8, 0xea, 0xe4, 0xcb, 0x00, 0xbd, 0xd9, 0x72, 0x53, 0x75],
     [0xa5, 0x3d, 0x19, 0x00, 0x21, 0x57, 0x4f, 0x00, 0x00, 0x64, 0x2b, 0x00],
     [0x00, 0x00, 0x11, 0x03, 0x10, 0xa3, 0x71, 0x15, 0x0a, 0x00, 0x84, 0xde],
     [0x87, 0x53, 0x8e, 0xbf, 0xc2, 0x94, 0x00, 0x20, 0x00, 0x03, 0x54, 0xb4],
     [0x83, 0x04, 0x00, 0x00, 0x00, 0x7c, 0x9c, 0x2c, 0x00, 0x00, 0x10, 0xa0],
     [0x00, 0xcf, 0x7f, 0x44, 0x32, 0x46, 0xc1, 0x67, 0xa8, 0x00, 0xdc, 0x7b],
     [0xa4, 0xc6, 0x45, 0x00, 0x00, 0x00, 0x00, 0x00, 0x03, 0x81, 0xca, 0x4b],
     [0x18, 0xad, 0xcd, 0x00, 0x76, 0x70, 0x4a, 0x06, 0x4c, 0xa1, 0xc7, 0x22],
     [0x08, 0x9e, 0xee, 0xaa, 0x23, 0x4a, 0x00, 0x00, 0x07, 0x00, 0x8b, 0xe1],
     [0xbb, 0xd7, 0x31, 0xac, 0x5e, 0x35, 0x00, 0x09, 0x42, 0x61, 0xd6, 0x91],
     [0x0e, 0x60, 0x0b, 0x80, 0x4c, 0x00, 0x00, 0x0c, 0xb6, 0xe7, 0x40, 0x50],
     [0x00, 0xdb, 0x56, 0x4d, 0x49, 0x4e, 0x3c, 0x89, 0xe5, 0x40, 0x2e, 0x56],
     [0x00, 0x08, 0x00, 0x37, 0x66, 0x03, 0x00, 0xaf, 0x99, 0x6c, 0x51, 0x53],
     [0x5c, 0x0e, 0x2d, 0x00, 0xe6, 0xbc, 0xb5, 0xc9, 0xd0, 0xb7, 0xa6, 0x7d],
     [0x80, 0x11, 0x7a, 0x8c, 0x1b, 0x00, 0x24, 0xe3, 0x3f, 0x00, 0x2f, 0x5b],
     [0x5f, 0x34, 0x00, 0x00, 0xb0, 0xc3, 0x18, 0x96, 0x59, 0x23, 0x59, 0x41],
     [0x02, 0x7e, 0xc5, 0x14, 0x6f, 0x80, 0xc0, 0xa1, 0x08, 0x81, 0x14, 0x04],
     [0xc3, 0x5c, 0x3b, 0x79, 0xe9, 0xda, 0x8f, 0x8f, 0x47, 0x8e, 0x39, 0x97],
     [0xed, 0x48, 0x47, 0x07, 0x01, 0x12, 0x3e, 0xb1, 0x03, 0x47, 0x07, 0x77],
     [0x2f, 0x07]]"

definition g_pui8SpiderU2Image :: "u8 \<Rightarrow> u8 list" where
  "g_pui8SpiderU2Image IMAGE_FMT_8BPP_COMP =
   [IMAGE_FMT_8BPP_COMP, 24, 0, 24, 0, 238] @
   concat [
     [0x00, 0x00, 0x00, 0x01, 0x00, 0x00, 0x00, 0x01, 0x01, 0x01, 0x01, 0x01, 0x02, 0x01, 0x01, 0x00, 0x02, 0x02],
     [0x00, 0x00, 0x06, 0x01, 0x02, 0x02, 0x02, 0x02, 0x02, 0x00, 0x00, 0x07, 0x02, 0x03, 0x03, 0x03, 0x03, 0x03],
     [0x01, 0x04, 0x04, 0x04, 0x04, 0x04, 0x03, 0x05, 0x05, 0x08, 0x05, 0x05, 0x05, 0x06, 0x06, 0x08, 0x06, 0x06],
     [0x0a, 0x06, 0x06, 0x04, 0x07, 0x07, 0x0a, 0x07, 0x07, 0x09, 0x08, 0x08, 0x0b, 0x08, 0x08, 0x09, 0x09, 0x09],
     [0x08, 0x0a, 0x0a, 0x0a, 0x0a, 0x0a, 0x0f, 0x0c, 0x0c, 0x0c, 0x0d, 0x0d, 0x0d, 0x0d, 0x0d, 0x0e, 0x0d, 0x0d],
     [0x0c, 0x0e, 0x0e, 0x0f, 0x0e, 0x0e, 0x0c, 0x10, 0x10, 0x0d, 0x10, 0x10, 0x0e, 0x10, 0x10, 0x0d, 0x11, 0x11],
     [0x13, 0x11, 0x11, 0x12, 0x12, 0x12, 0x16, 0x12, 0x12, 0x11, 0x13, 0x13, 0x0f, 0x15, 0x15, 0x14, 0x15, 0x15],
     [0x15, 0x16, 0x16, 0x17, 0x18, 0x18, 0x17, 0x19, 0x19, 0x19, 0x19, 0x19, 0x15, 0x1c, 0x1c, 0x18, 0x1c, 0x1c],
     [0x1b, 0x1c, 0x1c, 0x19, 0x1d, 0x1d, 0x00, 0x00, 0x60, 0x1e, 0x1d, 0x1d, 0x20, 0x1b, 0x21, 0x00, 0x00, 0x67],
     [0x1a, 0x21, 0x21, 0x24, 0x21, 0x21, 0x26, 0x21, 0x21, 0x21, 0x22, 0x22, 0x17, 0x26, 0x26, 0x28, 0x25, 0x25],
     [0x1e, 0x22, 0x2f, 0x25, 0x26, 0x26, 0x27, 0x26, 0x26, 0x2b, 0x26, 0x26, 0x2b, 0x2b, 0x2b, 0x2f, 0x2b, 0x2b],
     [0x12, 0x00, 0x8f, 0x2c, 0x2d, 0x2d, 0x09, 0x01, 0x93, 0x30, 0x2e, 0x2e, 0x04, 0x03, 0x93, 0x34, 0x2e, 0x2e],
     [0x30, 0x2f, 0x2f, 0x00, 0x00, 0xa2, 0x00, 0x00, 0xa4, 0x30, 0x32, 0x32, 0x0d, 0x00, 0xa2, 0x00, 0x00, 0xb0],
     [0x06, 0x04, 0xa7, 0x38, 0x35, 0x35, 0x2d, 0x37, 0x37, 0x00, 0x00, 0xb4, 0x31, 0x37, 0x37, 0x00, 0x00, 0xb6],
     [0x36, 0x37, 0x37, 0x01, 0x01, 0xb5, 0x08, 0x0a, 0xa1, 0x33, 0x39, 0x39, 0x3c, 0x38, 0x38, 0x3d, 0x38, 0x38],
     [0x3f, 0x38, 0x38, 0x25, 0x21, 0x70, 0x1c, 0x17, 0x87, 0x3b, 0x3b, 0x3b, 0x0e, 0x0e, 0xa7, 0x21, 0x1b, 0x88],
     [0x3c, 0x3e, 0x3e, 0x22, 0x2a, 0x6f, 0x3d, 0x3e, 0x3e, 0x3b, 0x40, 0x40, 0x3d, 0x41, 0x41, 0x16, 0x15, 0xa6],
     [0x41, 0x42, 0x42, 0x41, 0x43, 0x43, 0x49, 0x44, 0x44, 0x41, 0x47, 0x47, 0x24, 0x18, 0xaf, 0x44, 0x47, 0x47],
     [0x32, 0x33, 0x77, 0x47, 0x49, 0x49, 0x47, 0x4a, 0x4a, 0x48, 0x4b, 0x4b, 0x25, 0x24, 0xa5, 0x45, 0x4c, 0x4c],
     [0x29, 0x20, 0xb2, 0x4b, 0x4e, 0x4e, 0x49, 0x4f, 0x4f, 0x26, 0x26, 0xad, 0x4b, 0x51, 0x51, 0x53, 0x50, 0x51],
     [0x4c, 0x52, 0x52, 0x50, 0x52, 0x52, 0x53, 0x55, 0x55, 0x5e, 0x55, 0x55, 0x57, 0x56, 0x56, 0x53, 0x57, 0x57],
     [0x50, 0x59, 0x59, 0x51, 0x49, 0x79, 0x62, 0x5a, 0x5a, 0x60, 0x5c, 0x5c, 0x59, 0x5e, 0x5e, 0x57, 0x5f, 0x5f],
     [0x5b, 0x61, 0x61, 0x54, 0x53, 0x89, 0x68, 0x66, 0x66, 0x4d, 0x4b, 0xaf, 0x69, 0x6d, 0x6d, 0x66, 0x6e, 0x6e],
     [0x6d, 0x6e, 0x6e, 0x68, 0x6f, 0x6f, 0x6e, 0x6f, 0x6f, 0x71, 0x71, 0x71, 0x53, 0x53, 0xb7, 0x75, 0x71, 0x71],
     [0x5f, 0x5c, 0xab, 0x76, 0x74, 0x74, 0x74, 0x77, 0x77, 0x70, 0x77, 0x7f, 0x80, 0x7e, 0x7e, 0x82, 0x7e, 0x7e],
     [0x7f, 0x7f, 0x7f, 0x7f, 0x80, 0x80, 0x88, 0x7f, 0x7f, 0x80, 0x83, 0x83, 0x8b, 0x86, 0x86, 0x86, 0x88, 0x88],
     [0x88, 0x88, 0x88, 0x8e, 0x88, 0x88, 0x8c, 0x8b, 0x8b, 0x88, 0x8c, 0x8c, 0x91, 0x8b, 0x8b, 0x83, 0x7a, 0xc1],
     [0x95, 0x90, 0x90, 0x98, 0x90, 0x90, 0x91, 0x91, 0x91, 0x8e, 0x92, 0x95, 0x99, 0x94, 0x94, 0x84, 0x88, 0xb7],
     [0x98, 0x98, 0x98, 0x94, 0x9b, 0x9a, 0x96, 0x9b, 0x9b, 0x9f, 0x9d, 0x9d, 0xa5, 0xa2, 0xa4, 0xa4, 0xa5, 0xa5],
     [0xa7, 0xa5, 0xa5, 0xa3, 0xa6, 0xa6, 0xab, 0xa7, 0xa7, 0xb7, 0xa6, 0xa6, 0xa8, 0xa8, 0xa8, 0xa3, 0xa9, 0xa9],
     [0xa5, 0xac, 0xac, 0xb0, 0xac, 0xac, 0xac, 0xae, 0xae, 0xad, 0xae, 0xae, 0xaf, 0xb2, 0xb2, 0xb2, 0xb5, 0xb5],
     [0xb6, 0xb6, 0xb6, 0xb5, 0xb7, 0xb7, 0xb9, 0xb8, 0xb8, 0xae, 0xba, 0xba, 0xad, 0xae, 0xd6, 0xbe, 0xba, 0xba],
     [0xbe, 0xbe, 0xbe, 0xbf, 0xb5, 0xd1, 0xbc, 0xc0, 0xc0, 0xc1, 0xc3, 0xc3, 0xbd, 0xc4, 0xc4, 0xc0, 0xc5, 0xc5],
     [0xc4, 0xc5, 0xc5, 0xc7, 0xc8, 0xc8, 0xc9, 0xc8, 0xc8, 0xc3, 0xc9, 0xc9, 0xca, 0xc9, 0xc9, 0xca, 0xcb, 0xcb],
     [0xc2, 0xcc, 0xcc, 0xc8, 0xcc, 0xcc, 0xce, 0xcc, 0xcc, 0xc8, 0xcd, 0xcd, 0xd3, 0xcc, 0xcc, 0xd4, 0xcc, 0xcc],
     [0xd1, 0xcd, 0xcd, 0xd3, 0xcf, 0xcf, 0xcd, 0xd0, 0xd0, 0xd0, 0xd0, 0xd0, 0xcc, 0xd1, 0xd1, 0xd0, 0xd3, 0xd3],
     [0xc8, 0xd4, 0xd4, 0xd5, 0xd5, 0xd5, 0xe3, 0xdc, 0xdc, 0xd8, 0xdd, 0xe1, 0xdd, 0xde, 0xde, 0xe3, 0xdf, 0xdf],
     [0xd8, 0xe2, 0xe2, 0xe4, 0xe2, 0xe2, 0xe3, 0xe5, 0xe5, 0xe3, 0xe6, 0xe6, 0xe5, 0xe7, 0xe7, 0xe5, 0xe9, 0xe9],
     [0xec, 0xea, 0xea, 0xe5, 0xeb, 0xeb, 0xee, 0xeb, 0xeb, 0xf1, 0xed, 0xed, 0xf4, 0xed, 0xed, 0xf0, 0xee, 0xee],
     [0xf4, 0xf1, 0xf1, 0xf5, 0xf7, 0xf7, 0xfa, 0xf7, 0xf7, 0xfc, 0xfb, 0xfb, 0xfd, 0xfc, 0xfc]] @
   concat [
     [0xf2, 0x07, 0x07, 0x07, 0x03, 0x03, 0x13, 0x02, 0x28, 0x64, 0x36, 0x07],
     [0x05, 0x3e, 0x58, 0x02, 0x1e, 0x9b, 0x64, 0x08, 0x3f, 0x04, 0x88, 0x1f],
     [0x03, 0xa2, 0x68, 0xc8, 0x47, 0x03, 0x25, 0xab, 0x04, 0x5d, 0xc8, 0x17],
     [0xa4, 0x3f, 0x18, 0x01, 0x8d, 0x8a, 0x04, 0x0f, 0xd1, 0x08, 0x95, 0x00],
     [0x02, 0x3a, 0x2c, 0x6e, 0x62, 0x00, 0x00, 0x1d, 0xdd, 0x5a, 0x00, 0x01],
     [0x08, 0x03, 0x03, 0x01, 0x00, 0x00, 0x9a, 0xec, 0x52, 0x31, 0x92, 0x44],
     [0x00, 0x0d, 0xb3, 0x39, 0x2a, 0xe2, 0xb9, 0x16, 0x38, 0x00, 0x9d, 0x6d],
     [0x82, 0x00, 0x73, 0xe8, 0x98, 0x26, 0x20, 0x86, 0x6b, 0x44, 0x00, 0x78],
     [0xb8, 0x07, 0x41, 0x00, 0xd3, 0x9f, 0x29, 0xa7, 0x90, 0x77, 0x69, 0xd2],
     [0x04, 0x63, 0x01, 0x07, 0xb2, 0x33, 0x45, 0x1c, 0xdf, 0x00, 0x67, 0x27],
     [0x30, 0xba, 0x93, 0x65, 0x55, 0x85, 0x24, 0xd5, 0x3b, 0x91, 0xce, 0x1a],
     [0x45, 0x00, 0xae, 0x00, 0xeb, 0xe0, 0xcc, 0xc4, 0xbe, 0x53, 0x53, 0x6a],
     [0x01, 0xa9, 0x74, 0x43, 0x2c, 0x47, 0xd4, 0x04, 0x42, 0x00, 0x2b, 0x64],
     [0x00, 0x00, 0x4f, 0x57, 0x21, 0x19, 0x00, 0x3d, 0xa5, 0x75, 0x53, 0x72],
     [0xd9, 0xbd, 0xcb, 0x08, 0xe4, 0xea, 0xd8, 0x05, 0x42, 0x04, 0x83, 0xb4],
     [0x00, 0x54, 0x03, 0x00, 0x20, 0x94, 0xc2, 0xbf, 0x8e, 0x00, 0x53, 0x87],
     [0xde, 0x84, 0x0a, 0x15, 0x71, 0xa3, 0x10, 0x10, 0x03, 0x11, 0x32, 0x45],
     [0xc6, 0xa4, 0x7b, 0x00, 0xdc, 0xa8, 0x67, 0xc1, 0x46, 0x32, 0x44, 0x7f],
     [0x00, 0xcf, 0xa0, 0x10, 0x00, 0x00, 0x2c, 0x9c, 0x7c, 0x80, 0x42, 0x00],
     [0x23, 0xaa, 0xee, 0x9e, 0x22, 0xc7, 0x00, 0xa1, 0x4c, 0x06, 0x4a, 0x70],
     [0x76, 0xcd, 0xad, 0x04, 0x18, 0x4b, 0xca, 0x81, 0x03, 0x43, 0x00, 0x0b],
     [0x00, 0x60, 0x0e, 0x91, 0xd6, 0x61, 0x42, 0x09, 0x35, 0x00, 0x5e, 0xac],
     [0x31, 0xd7, 0xbb, 0xe1, 0x8b, 0x07, 0xc0, 0x4c, 0x19, 0x2e, 0xe5, 0x89],
     [0x3c, 0x4e, 0x49, 0x00, 0x4d, 0x56, 0xdb, 0x50, 0x40, 0xe7, 0xb6, 0x0c],
     [0x80, 0x4a, 0x7d, 0xa6, 0xb7, 0xd0, 0xc9, 0xb5, 0xbc, 0x00, 0xe6, 0x2d],
     [0x0e, 0x5c, 0x53, 0x51, 0x6c, 0x99, 0x02, 0xaf, 0x03, 0x66, 0x37, 0x00],
     [0x08, 0x3a, 0x00, 0x00, 0x00, 0x23, 0x59, 0x96, 0xc3, 0xb0, 0x00, 0x00],
     [0x00, 0x34, 0x5f, 0x5b, 0x2f, 0x3f, 0xe3, 0x24, 0x00, 0x19, 0x1b, 0x8c],
     [0x7a, 0x44, 0x11, 0x04, 0x14, 0x01, 0x40, 0x08, 0x89, 0xc0, 0x80, 0x6f],
     [0xc5, 0x7e, 0x02, 0xc3, 0x47, 0xbf, 0x8f, 0xda, 0xe9, 0x79, 0x4f, 0x0f],
     [0x07, 0x00, 0x00, 0x48, 0xed, 0x97, 0x4f, 0x0f, 0x01, 0x1e, 0x03, 0xb1],
     [0x12, 0x4f, 0x07, 0x77, 0x2f]]"

definition g_pui8SpiderD1Image :: "u8 \<Rightarrow> u8 list" where
  "g_pui8SpiderD1Image IMAGE_FMT_8BPP_COMP =
   [IMAGE_FMT_8BPP_COMP, 24, 0, 24, 0, 238] @
   concat [
     [0x00, 0x00, 0x00, 0x01, 0x00, 0x00, 0x00, 0x01, 0x01, 0x01, 0x01, 0x01, 0x02, 0x01, 0x01, 0x00, 0x02, 0x02],
     [0x00, 0x00, 0x06, 0x01, 0x02, 0x02, 0x02, 0x02, 0x02, 0x00, 0x00, 0x07, 0x02, 0x03, 0x03, 0x03, 0x03, 0x03],
     [0x01, 0x04, 0x04, 0x04, 0x04, 0x04, 0x03, 0x05, 0x05, 0x08, 0x05, 0x05, 0x05, 0x06, 0x06, 0x08, 0x06, 0x06],
     [0x0a, 0x06, 0x06, 0x04, 0x07, 0x07, 0x0a, 0x07, 0x07, 0x09, 0x08, 0x08, 0x0b, 0x08, 0x08, 0x09, 0x09, 0x09],
     [0x08, 0x0a, 0x0a, 0x0a, 0x0a, 0x0a, 0x0f, 0x0c, 0x0c, 0x0c, 0x0d, 0x0d, 0x0d, 0x0d, 0x0d, 0x0e, 0x0d, 0x0d],
     [0x0c, 0x0e, 0x0e, 0x0f, 0x0e, 0x0e, 0x0c, 0x10, 0x10, 0x0d, 0x10, 0x10, 0x0e, 0x10, 0x10, 0x0d, 0x11, 0x11],
     [0x13, 0x11, 0x11, 0x12, 0x12, 0x12, 0x16, 0x12, 0x12, 0x11, 0x13, 0x13, 0x0f, 0x15, 0x15, 0x14, 0x15, 0x15],
     [0x15, 0x16, 0x16, 0x17, 0x18, 0x18, 0x17, 0x19, 0x19, 0x19, 0x19, 0x19, 0x15, 0x1c, 0x1c, 0x18, 0x1c, 0x1c],
     [0x1b, 0x1c, 0x1c, 0x19, 0x1d, 0x1d, 0x00, 0x00, 0x60, 0x1e, 0x1d, 0x1d, 0x20, 0x1b, 0x21, 0x00, 0x00, 0x67],
     [0x1a, 0x21, 0x21, 0x24, 0x21, 0x21, 0x26, 0x21, 0x21, 0x21, 0x22, 0x22, 0x17, 0x26, 0x26, 0x28, 0x25, 0x25],
     [0x1e, 0x22, 0x2f, 0x25, 0x26, 0x26, 0x27, 0x26, 0x26, 0x2b, 0x26, 0x26, 0x2b, 0x2b, 0x2b, 0x2f, 0x2b, 0x2b],
     [0x12, 0x00, 0x8f, 0x2c, 0x2d, 0x2d, 0x09, 0x01, 0x93, 0x30, 0x2e, 0x2e, 0x04, 0x03, 0x93, 0x34, 0x2e, 0x2e],
     [0x30, 0x2f, 0x2f, 0x00, 0x00, 0xa2, 0x00, 0x00, 0xa4, 0x30, 0x32, 0x32, 0x0d, 0x00, 0xa2, 0x00, 0x00, 0xb0],
     [0x06, 0x04, 0xa7, 0x38, 0x35, 0x35, 0x2d, 0x37, 0x37, 0x00, 0x00, 0xb4, 0x31, 0x37, 0x37, 0x00, 0x00, 0xb6],
     [0x36, 0x37, 0x37, 0x01, 0x01, 0xb5, 0x08, 0x0a, 0xa1, 0x33, 0x39, 0x39, 0x3c, 0x38, 0x38, 0x3d, 0x38, 0x38],
     [0x3f, 0x38, 0x38, 0x25, 0x21, 0x70, 0x1c, 0x17, 0x87, 0x3b, 0x3b, 0x3b, 0x0e, 0x0e, 0xa7, 0x21, 0x1b, 0x88],
     [0x3c, 0x3e, 0x3e, 0x22, 0x2a, 0x6f, 0x3d, 0x3e, 0x3e, 0x3b, 0x40, 0x40, 0x3d, 0x41, 0x41, 0x16, 0x15, 0xa6],
     [0x41, 0x42, 0x42, 0x41, 0x43, 0x43, 0x49, 0x44, 0x44, 0x41, 0x47, 0x47, 0x24, 0x18, 0xaf, 0x44, 0x47, 0x47],
     [0x32, 0x33, 0x77, 0x47, 0x49, 0x49, 0x47, 0x4a, 0x4a, 0x48, 0x4b, 0x4b, 0x25, 0x24, 0xa5, 0x45, 0x4c, 0x4c],
     [0x29, 0x20, 0xb2, 0x4b, 0x4e, 0x4e, 0x49, 0x4f, 0x4f, 0x26, 0x26, 0xad, 0x4b, 0x51, 0x51, 0x53, 0x50, 0x51],
     [0x4c, 0x52, 0x52, 0x50, 0x52, 0x52, 0x53, 0x55, 0x55, 0x5e, 0x55, 0x55, 0x57, 0x56, 0x56, 0x53, 0x57, 0x57],
     [0x50, 0x59, 0x59, 0x51, 0x49, 0x79, 0x62, 0x5a, 0x5a, 0x60, 0x5c, 0x5c, 0x59, 0x5e, 0x5e, 0x57, 0x5f, 0x5f],
     [0x5b, 0x61, 0x61, 0x54, 0x53, 0x89, 0x68, 0x66, 0x66, 0x4d, 0x4b, 0xaf, 0x69, 0x6d, 0x6d, 0x66, 0x6e, 0x6e],
     [0x6d, 0x6e, 0x6e, 0x68, 0x6f, 0x6f, 0x6e, 0x6f, 0x6f, 0x53, 0x53, 0xb7, 0x71, 0x71, 0x71, 0x75, 0x71, 0x71],
     [0x5f, 0x5c, 0xab, 0x76, 0x74, 0x74, 0x74, 0x77, 0x77, 0x70, 0x77, 0x7f, 0x80, 0x7e, 0x7e, 0x82, 0x7e, 0x7e],
     [0x7f, 0x7f, 0x7f, 0x7f, 0x80, 0x80, 0x88, 0x7f, 0x7f, 0x80, 0x83, 0x83, 0x8b, 0x86, 0x86, 0x86, 0x88, 0x88],
     [0x88, 0x88, 0x88, 0x8e, 0x88, 0x88, 0x8c, 0x8b, 0x8b, 0x88, 0x8c, 0x8c, 0x91, 0x8b, 0x8b, 0x83, 0x7a, 0xc1],
     [0x95, 0x90, 0x90, 0x98, 0x90, 0x90, 0x91, 0x91, 0x91, 0x8e, 0x92, 0x95, 0x99, 0x94, 0x94, 0x84, 0x88, 0xb7],
     [0x98, 0x98, 0x98, 0x94, 0x9b, 0x9a, 0x96, 0x9b, 0x9b, 0x9f, 0x9d, 0x9d, 0xa5, 0xa2, 0xa4, 0xa4, 0xa5, 0xa5],
     [0xa7, 0xa5, 0xa5, 0xa3, 0xa6, 0xa6, 0xab, 0xa7, 0xa7, 0xb7, 0xa6, 0xa6, 0xa8, 0xa8, 0xa8, 0xa3, 0xa9, 0xa9],
     [0xa5, 0xac, 0xac, 0xb0, 0xac, 0xac, 0xac, 0xae, 0xae, 0xad, 0xae, 0xae, 0xaf, 0xb2, 0xb2, 0xb2, 0xb5, 0xb5],
     [0xb6, 0xb6, 0xb6, 0xb5, 0xb7, 0xb7, 0xb9, 0xb8, 0xb8, 0xae, 0xba, 0xba, 0xad, 0xae, 0xd6, 0xbe, 0xba, 0xba],
     [0xbe, 0xbe, 0xbe, 0xbf, 0xb5, 0xd1, 0xbc, 0xc0, 0xc0, 0xc1, 0xc3, 0xc3, 0xbd, 0xc4, 0xc4, 0xc0, 0xc5, 0xc5],
     [0xc4, 0xc5, 0xc5, 0xc7, 0xc8, 0xc8, 0xc9, 0xc8, 0xc8, 0xc3, 0xc9, 0xc9, 0xca, 0xc9, 0xc9, 0xca, 0xcb, 0xcb],
     [0xc2, 0xcc, 0xcc, 0xc8, 0xcc, 0xcc, 0xce, 0xcc, 0xcc, 0xc8, 0xcd, 0xcd, 0xd3, 0xcc, 0xcc, 0xd4, 0xcc, 0xcc],
     [0xd1, 0xcd, 0xcd, 0xd3, 0xcf, 0xcf, 0xcd, 0xd0, 0xd0, 0xd0, 0xd0, 0xd0, 0xcc, 0xd1, 0xd1, 0xd0, 0xd3, 0xd3],
     [0xc8, 0xd4, 0xd4, 0xd5, 0xd5, 0xd5, 0xe3, 0xdc, 0xdc, 0xd8, 0xdd, 0xe1, 0xdd, 0xde, 0xde, 0xe3, 0xdf, 0xdf],
     [0xd8, 0xe2, 0xe2, 0xe4, 0xe2, 0xe2, 0xe3, 0xe5, 0xe5, 0xe3, 0xe6, 0xe6, 0xe5, 0xe7, 0xe7, 0xe5, 0xe9, 0xe9],
     [0xec, 0xea, 0xea, 0xe5, 0xeb, 0xeb, 0xee, 0xeb, 0xeb, 0xf1, 0xed, 0xed, 0xf4, 0xed, 0xed, 0xf0, 0xee, 0xee],
     [0xf4, 0xf1, 0xf1, 0xf5, 0xf7, 0xf7, 0xfa, 0xf7, 0xf7, 0xfc, 0xfb, 0xfb, 0xfd, 0xfc, 0xfc]] @
   concat [
     [0xf8, 0x07, 0x07, 0x07, 0x07, 0x02, 0x03, 0xb1, 0x12, 0xe1, 0x07, 0x07],
     [0x01, 0x48, 0xed, 0x97, 0x02, 0x3f, 0x81, 0x07, 0x00, 0x00, 0x8f, 0xda],
     [0xe9, 0x79, 0x3f, 0x0a, 0x00, 0x00, 0x04, 0x14, 0x01, 0x08, 0x01, 0xc0],
     [0x08, 0x80, 0x6f, 0xc5, 0x7e, 0x3d, 0x23, 0x59, 0x96, 0x00, 0xc3, 0xb0],
     [0x00, 0x00, 0x34, 0x5f, 0x5b, 0x2f, 0x01, 0x3f, 0xe3, 0x24, 0x00, 0x1b],
     [0x8c, 0x7a, 0x41, 0x00, 0x7d, 0xa6, 0xb7, 0xd0, 0xc9, 0xb5, 0xbc, 0xe6],
     [0x00, 0x2d, 0x0e, 0x5c, 0x53, 0x51, 0x6c, 0x99, 0xaf, 0x07, 0x03, 0x66],
     [0x37, 0x00, 0x08, 0x41, 0x29, 0x11, 0x00, 0x2e, 0xe5, 0x89, 0x3c, 0x4e],
     [0x49, 0x4d, 0x56, 0x02, 0xdb, 0x50, 0x40, 0xe7, 0xb6, 0x0c, 0x4e, 0x0b],
     [0x00, 0x60, 0x0e, 0x91, 0xd6, 0x61, 0x42, 0x09, 0x35, 0x00, 0x5e, 0xac],
     [0x31, 0xd7, 0xbb, 0xe1, 0x8b, 0x07, 0x80, 0x3c, 0x23, 0xaa, 0xee, 0x9e],
     [0x22, 0xc7, 0xa1, 0x00, 0x4c, 0x06, 0x4a, 0x70, 0x76, 0xcd, 0xad, 0x18],
     [0x08, 0x4b, 0xca, 0x81, 0x03, 0x3a, 0x45, 0xc6, 0xa4, 0x00, 0x7b, 0xdc],
     [0xa8, 0x67, 0xc1, 0x46, 0x32, 0x44, 0x00, 0x7f, 0xcf, 0xa0, 0x10, 0x00],
     [0x00, 0x2c, 0x9c, 0x00, 0x7c, 0x00, 0x00, 0x04, 0x83, 0xb4, 0x54, 0x03],
     [0x00, 0x00, 0x20, 0x94, 0xc2, 0xbf, 0x8d, 0x53, 0x87, 0x00, 0xde, 0x84],
     [0x0a, 0x15, 0x71, 0xa3, 0x10, 0x03, 0x00, 0x11, 0x00, 0x00, 0x2b, 0x64],
     [0x00, 0x00, 0x4f, 0x00, 0x57, 0x21, 0x19, 0x3d, 0xa5, 0x75, 0x53, 0x72],
     [0x00, 0xd9, 0xbd, 0xcb, 0xe4, 0xea, 0xd8, 0x05, 0x00, 0x20, 0x00, 0x00],
     [0xe9, 0x00, 0x00, 0xae, 0xeb, 0xe0, 0x00, 0xcc, 0xc4, 0xbe, 0x53, 0x53],
     [0x6a, 0xa9, 0x74, 0x04, 0x43, 0x2c, 0x47, 0xd4, 0x04, 0x45, 0x1c, 0xdf],
     [0x00, 0x67, 0x27, 0x30, 0xba, 0x93, 0x65, 0x55, 0x85, 0x24, 0xd5, 0x3b],
     [0x91, 0xce, 0x1a, 0x45, 0x78, 0xb8, 0x00, 0x07, 0x41, 0xd3, 0x9f, 0x29],
     [0xa7, 0x90, 0x77, 0x01, 0x69, 0xd2, 0x63, 0x01, 0x07, 0xb2, 0x33, 0x44],
     [0x00, 0x0d, 0xb3, 0x39, 0x2a, 0xe2, 0xb9, 0x16, 0x38, 0x00, 0x9d, 0x6d],
     [0x82, 0x00, 0x73, 0xe8, 0x98, 0x26, 0x20, 0x86, 0x6b, 0x44, 0x6e, 0x62],
     [0x00, 0x1d, 0xdd, 0x00, 0x5a, 0x00, 0x01, 0x08, 0x03, 0x03, 0x00, 0x00],
     [0x05, 0x9a, 0xec, 0x52, 0x31, 0x92, 0x44, 0x18, 0x09, 0x20, 0x8e, 0x8a],
     [0xa4, 0x0f, 0xd1, 0x95, 0x00, 0x02, 0x64, 0x3a, 0x44, 0x12, 0x25, 0xab],
     [0x44, 0x5d, 0xc8, 0x64, 0x17, 0x5f, 0x13, 0x88, 0x1f, 0x03, 0xa2, 0x68],
     [0xc8, 0x4f, 0x04, 0x3e, 0x58, 0x02, 0x1e, 0x9b, 0x08, 0xc9, 0x47, 0x04],
     [0x03, 0x13, 0x02, 0x28, 0x36, 0x4f, 0xe0, 0x07, 0x77, 0x2f]]"

definition g_pui8SpiderD2Image :: "u8 \<Rightarrow> u8 list" where
  "g_pui8SpiderD2Image IMAGE_FMT_8BPP_COMP =
   [IMAGE_FMT_8BPP_COMP, 24, 0, 24, 0, 238] @
   concat [
     [0x00, 0x00, 0x00, 0x01, 0x00, 0x00, 0x00, 0x01, 0x01, 0x01, 0x01, 0x01, 0x02, 0x01, 0x01, 0x00, 0x02, 0x02],
     [0x00, 0x00, 0x06, 0x01, 0x02, 0x02, 0x02, 0x02, 0x02, 0x00, 0x00, 0x07, 0x02, 0x03, 0x03, 0x03, 0x03, 0x03],
     [0x01, 0x04, 0x04, 0x04, 0x04, 0x04, 0x03, 0x05, 0x05, 0x08, 0x05, 0x05, 0x05, 0x06, 0x06, 0x08, 0x06, 0x06],
     [0x0a, 0x06, 0x06, 0x04, 0x07, 0x07, 0x0a, 0x07, 0x07, 0x09, 0x08, 0x08, 0x0b, 0x08, 0x08, 0x09, 0x09, 0x09],
     [0x08, 0x0a, 0x0a, 0x0a, 0x0a, 0x0a, 0x0f, 0x0c, 0x0c, 0x0c, 0x0d, 0x0d, 0x0d, 0x0d, 0x0d, 0x0e, 0x0d, 0x0d],
     [0x0c, 0x0e, 0x0e, 0x0f, 0x0e, 0x0e, 0x0c, 0x10, 0x10, 0x0d, 0x10, 0x10, 0x0e, 0x10, 0x10, 0x0d, 0x11, 0x11],
     [0x13, 0x11, 0x11, 0x12, 0x12, 0x12, 0x16, 0x12, 0x12, 0x11, 0x13, 0x13, 0x0f, 0x15, 0x15, 0x14, 0x15, 0x15],
     [0x15, 0x16, 0x16, 0x17, 0x18, 0x18, 0x17, 0x19, 0x19, 0x19, 0x19, 0x19, 0x15, 0x1c, 0x1c, 0x18, 0x1c, 0x1c],
     [0x1b, 0x1c, 0x1c, 0x19, 0x1d, 0x1d, 0x00, 0x00, 0x60, 0x1e, 0x1d, 0x1d, 0x20, 0x1b, 0x21, 0x00, 0x00, 0x67],
     [0x1a, 0x21, 0x21, 0x24, 0x21, 0x21, 0x26, 0x21, 0x21, 0x21, 0x22, 0x22, 0x17, 0x26, 0x26, 0x28, 0x25, 0x25],
     [0x1e, 0x22, 0x2f, 0x25, 0x26, 0x26, 0x27, 0x26, 0x26, 0x2b, 0x26, 0x26, 0x2b, 0x2b, 0x2b, 0x2f, 0x2b, 0x2b],
     [0x12, 0x00, 0x8f, 0x2c, 0x2d, 0x2d, 0x09, 0x01, 0x93, 0x30, 0x2e, 0x2e, 0x04, 0x03, 0x93, 0x34, 0x2e, 0x2e],
     [0x30, 0x2f, 0x2f, 0x00, 0x00, 0xa2, 0x00, 0x00, 0xa4, 0x30, 0x32, 0x32, 0x0d, 0x00, 0xa2, 0x00, 0x00, 0xb0],
     [0x06, 0x04, 0xa7, 0x38, 0x35, 0x35, 0x2d, 0x37, 0x37, 0x00, 0x00, 0xb4, 0x31, 0x37, 0x37, 0x00, 0x00, 0xb6],
     [0x36, 0x37, 0x37, 0x01, 0x01, 0xb5, 0x08, 0x0a, 0xa1, 0x33, 0x39, 0x39, 0x3c, 0x38, 0x38, 0x3d, 0x38, 0x38],
     [0x3f, 0x38, 0x38, 0x25, 0x21, 0x70, 0x1c, 0x17, 0x87, 0x3b, 0x3b, 0x3b, 0x0e, 0x0e, 0xa7, 0x21, 0x1b, 0x88],
     [0x3c, 0x3e, 0x3e, 0x22, 0x2a, 0x6f, 0x3d, 0x3e, 0x3e, 0x3b, 0x40, 0x40, 0x3d, 0x41, 0x41, 0x16, 0x15, 0xa6],
     [0x41, 0x42, 0x42, 0x41, 0x43, 0x43, 0x49, 0x44, 0x44, 0x41, 0x47, 0x47, 0x24, 0x18, 0xaf, 0x44, 0x47, 0x47],
     [0x32, 0x33, 0x77, 0x47, 0x49, 0x49, 0x47, 0x4a, 0x4a, 0x48, 0x4b, 0x4b, 0x25, 0x24, 0xa5, 0x45, 0x4c, 0x4c],
     [0x29, 0x20, 0xb2, 0x4b, 0x4e, 0x4e, 0x49, 0x4f, 0x4f, 0x26, 0x26, 0xad, 0x4b, 0x51, 0x51, 0x53, 0x50, 0x51],
     [0x4c, 0x52, 0x52, 0x50, 0x52, 0x52, 0x53, 0x55, 0x55, 0x5e, 0x55, 0x55, 0x57, 0x56, 0x56, 0x53, 0x57, 0x57],
     [0x50, 0x59, 0x59, 0x51, 0x49, 0x79, 0x62, 0x5a, 0x5a, 0x60, 0x5c, 0x5c, 0x59, 0x5e, 0x5e, 0x57, 0x5f, 0x5f],
     [0x5b, 0x61, 0x61, 0x54, 0x53, 0x89, 0x68, 0x66, 0x66, 0x4d, 0x4b, 0xaf, 0x69, 0x6d, 0x6d, 0x66, 0x6e, 0x6e],
     [0x6d, 0x6e, 0x6e, 0x68, 0x6f, 0x6f, 0x6e, 0x6f, 0x6f, 0x53, 0x53, 0xb7, 0x71, 0x71, 0x71, 0x75, 0x71, 0x71],
     [0x5f, 0x5c, 0xab, 0x76, 0x74, 0x74, 0x74, 0x77, 0x77, 0x70, 0x77, 0x7f, 0x80, 0x7e, 0x7e, 0x82, 0x7e, 0x7e],
     [0x7f, 0x7f, 0x7f, 0x7f, 0x80, 0x80, 0x88, 0x7f, 0x7f, 0x80, 0x83, 0x83, 0x8b, 0x86, 0x86, 0x86, 0x88, 0x88],
     [0x88, 0x88, 0x88, 0x8e, 0x88, 0x88, 0x8c, 0x8b, 0x8b, 0x88, 0x8c, 0x8c, 0x91, 0x8b, 0x8b, 0x83, 0x7a, 0xc1],
     [0x95, 0x90, 0x90, 0x98, 0x90, 0x90, 0x91, 0x91, 0x91, 0x8e, 0x92, 0x95, 0x99, 0x94, 0x94, 0x84, 0x88, 0xb7],
     [0x98, 0x98, 0x98, 0x94, 0x9b, 0x9a, 0x96, 0x9b, 0x9b, 0x9f, 0x9d, 0x9d, 0xa5, 0xa2, 0xa4, 0xa4, 0xa5, 0xa5],
     [0xa7, 0xa5, 0xa5, 0xa3, 0xa6, 0xa6, 0xab, 0xa7, 0xa7, 0xb7, 0xa6, 0xa6, 0xa8, 0xa8, 0xa8, 0xa3, 0xa9, 0xa9],
     [0xa5, 0xac, 0xac, 0xb0, 0xac, 0xac, 0xac, 0xae, 0xae, 0xad, 0xae, 0xae, 0xaf, 0xb2, 0xb2, 0xb2, 0xb5, 0xb5],
     [0xb6, 0xb6, 0xb6, 0xb5, 0xb7, 0xb7, 0xb9, 0xb8, 0xb8, 0xae, 0xba, 0xba, 0xad, 0xae, 0xd6, 0xbe, 0xba, 0xba],
     [0xbe, 0xbe, 0xbe, 0xbf, 0xb5, 0xd1, 0xbc, 0xc0, 0xc0, 0xc1, 0xc3, 0xc3, 0xbd, 0xc4, 0xc4, 0xc0, 0xc5, 0xc5],
     [0xc4, 0xc5, 0xc5, 0xc7, 0xc8, 0xc8, 0xc9, 0xc8, 0xc8, 0xc3, 0xc9, 0xc9, 0xca, 0xc9, 0xc9, 0xca, 0xcb, 0xcb],
     [0xc2, 0xcc, 0xcc, 0xc8, 0xcc, 0xcc, 0xce, 0xcc, 0xcc, 0xc8, 0xcd, 0xcd, 0xd3, 0xcc, 0xcc, 0xd4, 0xcc, 0xcc],
     [0xd1, 0xcd, 0xcd, 0xd3, 0xcf, 0xcf, 0xcd, 0xd0, 0xd0, 0xd0, 0xd0, 0xd0, 0xcc, 0xd1, 0xd1, 0xd0, 0xd3, 0xd3],
     [0xc8, 0xd4, 0xd4, 0xd5, 0xd5, 0xd5, 0xe3, 0xdc, 0xdc, 0xd8, 0xdd, 0xe1, 0xdd, 0xde, 0xde, 0xe3, 0xdf, 0xdf],
     [0xd8, 0xe2, 0xe2, 0xe4, 0xe2, 0xe2, 0xe3, 0xe5, 0xe5, 0xe3, 0xe6, 0xe6, 0xe5, 0xe7, 0xe7, 0xe5, 0xe9, 0xe9],
     [0xec, 0xea, 0xea, 0xe5, 0xeb, 0xeb, 0xee, 0xeb, 0xeb, 0xf1, 0xed, 0xed, 0xf4, 0xed, 0xed, 0xf0, 0xee, 0xee],
     [0xf4, 0xf1, 0xf1, 0xf5, 0xf7, 0xf7, 0xfa, 0xf7, 0xf7, 0xfc, 0xfb, 0xfb, 0xfd, 0xfc, 0xfc]] @
   concat [
     [0xe0, 0x07, 0x07, 0x07, 0x00, 0x00, 0x12, 0xb1, 0x03, 0xc0, 0x07, 0x07],
     [0x00, 0x00, 0x02, 0x97, 0xed, 0x48, 0xc0, 0x4f, 0x4f, 0x00, 0x02, 0x79],
     [0xe9, 0xda, 0x8f, 0xc0, 0x4f, 0x4f, 0x02, 0x7e, 0xc5, 0x6f, 0x80, 0xc0],
     [0xa4, 0x01, 0x08, 0x21, 0x14, 0x04, 0x07, 0x7a, 0x8c, 0x00, 0x1b, 0x00],
     [0x24, 0xe3, 0x3f, 0x2f, 0x5b, 0x5f, 0x00, 0x34, 0x00, 0x00, 0xb0, 0xc3],
     [0x96, 0x59, 0x23, 0x80, 0x2c, 0x08, 0x00, 0x37, 0x66, 0x03, 0xaf, 0x99],
     [0x00, 0x6c, 0x51, 0x53, 0x5c, 0x0e, 0x2d, 0xe6, 0xbc, 0x02, 0xb5, 0xc9],
     [0xd0, 0xb7, 0xa6, 0x7d, 0x2a, 0x0c, 0x00, 0xb6, 0xe7, 0x40, 0x50, 0xdb],
     [0x56, 0x4d, 0x49, 0x06, 0x4e, 0x3c, 0x89, 0xe5, 0x2e, 0x72, 0x52, 0x00],
     [0x00, 0x07, 0x8b, 0xe1, 0xbb, 0xd7, 0x31, 0xac, 0x5e, 0x00, 0x35, 0x09],
     [0x42, 0x61, 0xd6, 0x91, 0x0e, 0x60, 0x40, 0x0b, 0x34, 0x03, 0x81, 0xca],
     [0x4b, 0x18, 0xad, 0x00, 0xcd, 0x76, 0x70, 0x4a, 0x06, 0x4c, 0xa1, 0xc7],
     [0x04, 0x22, 0x9e, 0xee, 0xaa, 0x23, 0x3b, 0x7c, 0x9c, 0x00, 0x2c, 0x00],
     [0x00, 0x10, 0xa0, 0xcf, 0x7f, 0x44, 0x00, 0x32, 0x46, 0xc1, 0x67, 0xa8],
     [0xdc, 0x7b, 0xa4, 0x20, 0xc6, 0x45, 0x3a, 0x11, 0x03, 0x10, 0xa3, 0x71],
     [0x00, 0x15, 0x0a, 0x84, 0xde, 0x87, 0x53, 0x8d, 0xbf, 0x00, 0xc2, 0x94],
     [0x20, 0x00, 0x03, 0x54, 0xb4, 0x83, 0x40, 0x04, 0x32, 0x05, 0xd8, 0xea],
     [0xe4, 0xcb, 0xbd, 0x00, 0xd9, 0x72, 0x53, 0x75, 0xa5, 0x3d, 0x19, 0x21],
     [0x02, 0x57, 0x4f, 0x00, 0x00, 0x64, 0x2b, 0x42, 0x04, 0x00, 0xd4, 0x47],
     [0x2c, 0x43, 0x74, 0xa9, 0x6a, 0x53, 0x01, 0x53, 0xbe, 0xc4, 0xcc, 0xe0],
     [0xeb, 0xae, 0x62, 0x80, 0x42, 0x1a, 0xce, 0x1c, 0x00, 0x00, 0x3b, 0xd5],
     [0x00, 0x85, 0x55, 0x65, 0x93, 0xba, 0x30, 0x27, 0x67, 0x60, 0xdf, 0x91],
     [0x2b, 0x33, 0xb2, 0x07, 0x01, 0x63, 0x00, 0xd2, 0x69, 0x77, 0x90, 0xa7],
     [0x29, 0x9f, 0xd3, 0x08, 0x41, 0x07, 0xb8, 0x78, 0x45, 0x6b, 0x86, 0x26],
     [0x00, 0x98, 0xe8, 0x73, 0x00, 0x82, 0x6d, 0x9d, 0x38, 0x01, 0x16, 0xb9],
     [0xe2, 0x2a, 0x39, 0xb3, 0x0d, 0x3c, 0x00, 0x92, 0x31, 0x52, 0xec, 0x9a],
     [0x00, 0x00, 0x03, 0x00, 0x03, 0x08, 0x01, 0x00, 0x5a, 0xdd, 0x1d, 0x00],
     [0x20, 0x62, 0x6e, 0x44, 0x3a, 0x02, 0x00, 0x95, 0xd1, 0x4b, 0x0f, 0xa4],
     [0x8a, 0x8e, 0x61, 0x18, 0x44, 0x11, 0x13, 0x17, 0xc8, 0x5d, 0x44, 0xab],
     [0x25, 0x67, 0x1b, 0x26, 0x68, 0xa2, 0x03, 0x1f, 0x88, 0x4f, 0x04, 0x08],
     [0x26, 0x9b, 0x1e, 0x02, 0x58, 0x3e, 0x47, 0x05, 0x36, 0x4f, 0x28, 0x02],
     [0x13, 0x03, 0x47, 0x07, 0x77, 0x2f]]"

definition g_pui8SpiderUL1Image :: "u8 \<Rightarrow> u8 list" where
  "g_pui8SpiderUL1Image IMAGE_FMT_8BPP_COMP =
   [IMAGE_FMT_8BPP_COMP, 24, 0, 24, 0, 236] @
   concat [
     [0x00, 0x00, 0x00, 0x01, 0x00, 0x00, 0x01, 0x01, 0x01, 0x02, 0x01, 0x01, 0x01, 0x02, 0x02, 0x02, 0x02, 0x02],
     [0x02, 0x03, 0x03, 0x03, 0x03, 0x03, 0x05, 0x03, 0x03, 0x03, 0x04, 0x04, 0x05, 0x04, 0x04, 0x05, 0x05, 0x05],
     [0x07, 0x06, 0x06, 0x06, 0x08, 0x08, 0x08, 0x08, 0x08, 0x08, 0x07, 0x0b, 0x09, 0x09, 0x09, 0x0a, 0x09, 0x09],
     [0x09, 0x0a, 0x0a, 0x0d, 0x00, 0x1f, 0x0c, 0x0b, 0x0b, 0x0e, 0x0b, 0x0b, 0x0b, 0x0c, 0x0c, 0x0c, 0x0c, 0x0c],
     [0x0d, 0x0d, 0x0d, 0x00, 0x00, 0x2e, 0x0d, 0x0d, 0x16, 0x0e, 0x10, 0x10, 0x11, 0x10, 0x10, 0x0f, 0x0d, 0x17],
     [0x0f, 0x11, 0x11, 0x11, 0x12, 0x12, 0x15, 0x13, 0x13, 0x13, 0x14, 0x14, 0x17, 0x14, 0x14, 0x04, 0x00, 0x43],
     [0x16, 0x15, 0x15, 0x19, 0x15, 0x15, 0x12, 0x16, 0x16, 0x15, 0x18, 0x18, 0x1b, 0x1a, 0x1a, 0x1d, 0x1c, 0x1c],
     [0x1f, 0x1c, 0x1c, 0x1b, 0x1d, 0x1d, 0x1a, 0x1e, 0x1e, 0x24, 0x1e, 0x1e, 0x1d, 0x1f, 0x1f, 0x21, 0x1f, 0x1f],
     [0x1c, 0x1e, 0x23, 0x00, 0x00, 0x6c, 0x25, 0x20, 0x20, 0x20, 0x1a, 0x2e, 0x1e, 0x22, 0x22, 0x24, 0x22, 0x22],
     [0x00, 0x00, 0x81, 0x1d, 0x29, 0x29, 0x21, 0x29, 0x29, 0x06, 0x01, 0x83, 0x13, 0x00, 0x86, 0x28, 0x2c, 0x2c],
     [0x29, 0x2d, 0x2d, 0x31, 0x2e, 0x2e, 0x34, 0x2f, 0x2f, 0x2c, 0x2f, 0x39, 0x00, 0x00, 0xa8, 0x2e, 0x33, 0x33],
     [0x00, 0x00, 0xab, 0x3a, 0x33, 0x33, 0x2f, 0x35, 0x35, 0x34, 0x35, 0x35, 0x35, 0x36, 0x36, 0x11, 0x0b, 0x99],
     [0x04, 0x03, 0xae, 0x32, 0x37, 0x37, 0x00, 0x00, 0xb6, 0x01, 0x00, 0xb6, 0x36, 0x37, 0x37, 0x09, 0x09, 0xa2],
     [0x01, 0x01, 0xb5, 0x07, 0x04, 0xad, 0x38, 0x37, 0x37, 0x0b, 0x0a, 0xa0, 0x33, 0x38, 0x38, 0x3c, 0x38, 0x38],
     [0x3e, 0x38, 0x38, 0x04, 0x04, 0xb5, 0x05, 0x05, 0xb4, 0x37, 0x3a, 0x3a, 0x1c, 0x15, 0x8d, 0x39, 0x3a, 0x3a],
     [0x3c, 0x3a, 0x3a, 0x3e, 0x3a, 0x3a, 0x36, 0x3b, 0x3b, 0x3b, 0x3b, 0x3b, 0x0b, 0x0b, 0xac, 0x3c, 0x3c, 0x3c],
     [0x22, 0x25, 0x74, 0x14, 0x0b, 0xaf, 0x3c, 0x3e, 0x3e, 0x3e, 0x3e, 0x3e, 0x10, 0x10, 0xad, 0x3e, 0x40, 0x40],
     [0x3f, 0x41, 0x41, 0x1b, 0x1d, 0x97, 0x3f, 0x42, 0x42, 0x3b, 0x44, 0x44, 0x44, 0x43, 0x43, 0x22, 0x21, 0x93],
     [0x48, 0x44, 0x44, 0x4e, 0x44, 0x44, 0x1f, 0x1a, 0xac, 0x4b, 0x46, 0x46, 0x46, 0x47, 0x47, 0x4a, 0x47, 0x46],
     [0x4b, 0x47, 0x47, 0x43, 0x48, 0x48, 0x47, 0x48, 0x48, 0x4b, 0x4d, 0x4d, 0x4d, 0x4d, 0x4d, 0x49, 0x50, 0x50],
     [0x45, 0x4f, 0x5d, 0x4f, 0x53, 0x53, 0x55, 0x53, 0x53, 0x57, 0x55, 0x55, 0x51, 0x57, 0x57, 0x5e, 0x56, 0x56],
     [0x4e, 0x56, 0x5c, 0x58, 0x58, 0x58, 0x32, 0x32, 0xb1, 0x61, 0x58, 0x58, 0x56, 0x5b, 0x5b, 0x57, 0x5e, 0x5e],
     [0x66, 0x5d, 0x5d, 0x5e, 0x5e, 0x5e, 0x43, 0x3c, 0xac, 0x5b, 0x63, 0x63, 0x65, 0x63, 0x63, 0x63, 0x64, 0x64],
     [0x67, 0x64, 0x64, 0x66, 0x65, 0x65, 0x69, 0x66, 0x66, 0x5d, 0x69, 0x69, 0x6a, 0x68, 0x68, 0x67, 0x6a, 0x6a],
     [0x6b, 0x6a, 0x6a, 0x60, 0x6c, 0x6c, 0x74, 0x6e, 0x6e, 0x54, 0x54, 0xb6, 0x71, 0x73, 0x74, 0x6d, 0x75, 0x75],
     [0x71, 0x75, 0x75, 0x7a, 0x77, 0x77, 0x7b, 0x78, 0x78, 0x76, 0x7a, 0x7a, 0x7d, 0x7b, 0x7b, 0x80, 0x7b, 0x7b],
     [0x7a, 0x7c, 0x7c, 0x7d, 0x7c, 0x7c, 0x7e, 0x7c, 0x7c, 0x7d, 0x7d, 0x7d, 0x75, 0x75, 0x90, 0x7d, 0x7e, 0x7e],
     [0x83, 0x7e, 0x7e, 0x80, 0x7f, 0x7f, 0x7d, 0x80, 0x80, 0x80, 0x83, 0x83, 0x7f, 0x86, 0x86, 0x85, 0x87, 0x87],
     [0x88, 0x89, 0x89, 0x85, 0x8c, 0x8c, 0x7b, 0x73, 0xc6, 0x8b, 0x8f, 0x8f, 0x8c, 0x90, 0x90, 0x8e, 0x90, 0x90],
     [0x96, 0x91, 0x91, 0x8f, 0x93, 0x93, 0x85, 0x7f, 0xc2, 0x90, 0x8c, 0xa8, 0x95, 0x95, 0x95, 0x93, 0x97, 0x97],
     [0x94, 0x97, 0x97, 0x88, 0x8a, 0xba, 0x94, 0x99, 0x99, 0x97, 0x99, 0x99, 0x9f, 0x9a, 0x9a, 0x8e, 0x93, 0xb9],
     [0xa6, 0xa1, 0xa1, 0xa3, 0xa3, 0xa3, 0xa7, 0xa3, 0xa4, 0xa6, 0xa6, 0xa6, 0xae, 0xaa, 0xaa, 0xb2, 0xac, 0xac],
     [0xaf, 0xad, 0xad, 0xb6, 0xad, 0xad, 0xb0, 0xae, 0xae, 0xb4, 0xb2, 0xb2, 0xb7, 0xb7, 0xb7, 0xb8, 0xba, 0xba],
     [0xb5, 0xbc, 0xbc, 0xb6, 0xbd, 0xbd, 0xbd, 0xbd, 0xbd, 0xc0, 0xbd, 0xbd, 0xbf, 0xbe, 0xbe, 0xc1, 0xc3, 0xc3],
     [0xc2, 0xc4, 0xc4, 0xcc, 0xca, 0xca, 0xc6, 0xcb, 0xcb, 0xc2, 0xca, 0xcf, 0xca, 0xcb, 0xcb, 0xcb, 0xcc, 0xcc],
     [0xca, 0xce, 0xd0, 0xcc, 0xd1, 0xd1, 0xd2, 0xd2, 0xd2, 0xd3, 0xd2, 0xd2, 0xd1, 0xd1, 0xd6, 0xd5, 0xd3, 0xd3],
     [0xd2, 0xd4, 0xd4, 0xd0, 0xd5, 0xd5, 0xce, 0xd6, 0xd6, 0xd1, 0xd7, 0xd7, 0xd6, 0xd6, 0xdb, 0xd9, 0xd9, 0xd9],
     [0xd7, 0xda, 0xda, 0xde, 0xda, 0xda, 0xe3, 0xde, 0xe3, 0xe2, 0xe0, 0xe0, 0xe1, 0xe1, 0xe1, 0xe5, 0xe3, 0xe3],
     [0xe7, 0xe3, 0xe3, 0xe5, 0xe7, 0xe7, 0xe9, 0xe7, 0xe7, 0xea, 0xe8, 0xe8, 0xeb, 0xea, 0xea, 0xef, 0xec, 0xec],
     [0xee, 0xf1, 0xf1, 0xf4, 0xf3, 0xf3, 0xf6, 0xf6, 0xf6]] @
   concat [
     [0xf3, 0x07, 0x07, 0x07, 0x07, 0x00, 0x79, 0x07, 0x05, 0x09, 0x2e, 0x6c],
     [0x27, 0x05, 0x01, 0xa5, 0x12, 0x3f, 0x80, 0x04, 0x01, 0x2a, 0xa3, 0xb3],
     [0x6a, 0x15, 0x00, 0x2c, 0xa8, 0x69, 0x19, 0x1b, 0x27, 0x02, 0x07, 0x50],
     [0x05, 0xc9, 0xd4, 0x21, 0x83, 0xbf, 0x41, 0x95, 0x45, 0x40, 0x06, 0x05],
     [0x5a, 0xeb, 0x29, 0x1f, 0xe8, 0x5b, 0x11, 0x00, 0x44, 0x99, 0x44, 0x05],
     [0x87, 0x12, 0x02, 0x00, 0x02, 0x03, 0x2d, 0xe3, 0x20, 0x82, 0xea, 0x9a],
     [0x11, 0x00, 0x9c, 0x7a, 0x44, 0x00, 0x85, 0x72, 0x02, 0x00, 0x3e, 0x98],
     [0x1e, 0xd9, 0x68, 0xd3, 0x63, 0x04, 0x01, 0x00, 0xc5, 0x41, 0x00, 0x00],
     [0x02, 0x62, 0x21, 0x00, 0x3d, 0xbe, 0x0b, 0x00, 0x00, 0x66, 0x71, 0xb5],
     [0x00, 0x3f, 0xd2, 0xc7, 0x3c, 0x02, 0x34, 0x7d, 0xe1, 0x04, 0x26, 0x00],
     [0x03, 0x88, 0x8c, 0x41, 0x17, 0xcd, 0x00, 0x43, 0x00, 0x00, 0x5c, 0xb1],
     [0x55, 0x56, 0x93, 0x00, 0x94, 0x97, 0xca, 0xe2, 0xe7, 0xd5, 0x0c, 0x02],
     [0x10, 0x84, 0xb2, 0x0d, 0x41, 0x00, 0xbf, 0xba, 0x6d, 0x00, 0x52, 0x49],
     [0x7e, 0x61, 0x4a, 0x64, 0xd6, 0xad, 0x00, 0x5f, 0x18, 0x02, 0x06, 0x00],
     [0x73, 0xd0, 0x2b, 0x80, 0x4a, 0x00, 0xa1, 0xe9, 0xd7, 0xbd, 0xb8, 0xc6],
     [0x00, 0x86, 0x4b, 0x4e, 0x80, 0xaa, 0xe0, 0xde, 0xc0, 0x08, 0x91, 0x4c],
     [0xdf, 0x7b, 0x4a, 0x37, 0x1e, 0x28, 0x00, 0x32, 0x11, 0x00, 0x00, 0x8f],
     [0xdc, 0xb0, 0x48, 0x00, 0x31, 0x39, 0x6e, 0x78, 0xa9, 0xe5, 0xec, 0xc4],
     [0x40, 0x0e, 0x42, 0x3b, 0xa6, 0x90, 0x16, 0x00, 0x00, 0x00, 0x59, 0xda],
     [0x8d, 0xcf, 0x47, 0x23, 0x13, 0x3a, 0x04, 0x60, 0x09, 0x25, 0x9e, 0x53],
     [0x4a, 0x00, 0x00, 0x00, 0x10, 0x8a, 0xc4, 0x6f, 0x35, 0xd1, 0x76, 0x7c],
     [0x01, 0xbc, 0x6b, 0x40, 0x19, 0x36, 0x4d, 0x1a, 0x5c, 0x80, 0x2b, 0x54],
     [0xce, 0xdd, 0xb7, 0x05, 0x92, 0xac, 0x03, 0xa0, 0x5e, 0x42, 0x4a, 0x4f],
     [0x33, 0x47, 0x01, 0x00, 0x38, 0xd8, 0x46, 0x00, 0x9f, 0xab, 0x8e, 0xb9],
     [0x0c, 0x67, 0x51, 0x58, 0x1d, 0x47, 0x02, 0x22, 0x08, 0x00, 0x00, 0xa7],
     [0xb4, 0x2c, 0xdb, 0x45, 0x30, 0x0f, 0xc0, 0x4f, 0x02, 0x14, 0x57, 0x7f],
     [0x96, 0xcb, 0xc2, 0x18, 0x05, 0xbb, 0x9d, 0x57, 0x0b, 0x0a, 0x89, 0x9b],
     [0x00, 0xaf, 0xb6, 0xcc, 0xc3, 0x05, 0x5d, 0xd4, 0x24, 0xc0, 0x3f, 0x07],
     [0x07, 0x1c, 0x00, 0x0e, 0xc1, 0xa2, 0x60, 0x02, 0x3f, 0x06, 0x21, 0x74],
     [0xa4, 0xc8, 0xe4, 0x30, 0xe6, 0x2f, 0x47, 0x06, 0x65, 0x75, 0x77, 0x70],
     [0x1e, 0x8b, 0xae, 0x81, 0x47, 0x07, 0x77, 0x2f]]"

definition g_pui8SpiderUL2Image :: "u8 \<Rightarrow> u8 list" where
  "g_pui8SpiderUL2Image IMAGE_FMT_8BPP_COMP =
   [IMAGE_FMT_8BPP_COMP, 24, 0, 24, 0, 236] @
   concat [
     [0x00, 0x00, 0x00, 0x01, 0x00, 0x00, 0x01, 0x01, 0x01, 0x02, 0x01, 0x01, 0x01, 0x02, 0x02, 0x02, 0x02, 0x02],
     [0x02, 0x03, 0x03, 0x03, 0x03, 0x03, 0x05, 0x03, 0x03, 0x03, 0x04, 0x04, 0x05, 0x04, 0x04, 0x05, 0x05, 0x05],
     [0x07, 0x06, 0x06, 0x06, 0x08, 0x08, 0x08, 0x08, 0x08, 0x08, 0x07, 0x0a, 0x09, 0x09, 0x09, 0x0a, 0x09, 0x09],
     [0x09, 0x0a, 0x0a, 0x0d, 0x00, 0x1f, 0x0d, 0x0b, 0x0b, 0x0e, 0x0b, 0x0b, 0x0b, 0x0c, 0x0c, 0x0c, 0x0c, 0x0c],
     [0x0d, 0x0d, 0x0d, 0x00, 0x00, 0x2e, 0x0d, 0x0d, 0x16, 0x0e, 0x10, 0x10, 0x11, 0x10, 0x10, 0x0f, 0x0d, 0x17],
     [0x0f, 0x11, 0x11, 0x0f, 0x12, 0x12, 0x11, 0x12, 0x12, 0x15, 0x13, 0x13, 0x13, 0x14, 0x14, 0x17, 0x14, 0x14],
     [0x04, 0x00, 0x43, 0x16, 0x15, 0x15, 0x19, 0x15, 0x15, 0x12, 0x16, 0x16, 0x15, 0x18, 0x18, 0x1b, 0x1a, 0x1a],
     [0x1d, 0x1c, 0x1c, 0x1e, 0x1c, 0x1c, 0x1b, 0x1d, 0x1d, 0x19, 0x1e, 0x1e, 0x24, 0x1e, 0x1e, 0x1d, 0x1f, 0x1f],
     [0x1c, 0x1e, 0x23, 0x22, 0x1f, 0x1f, 0x00, 0x00, 0x6c, 0x25, 0x20, 0x20, 0x20, 0x1a, 0x2e, 0x1e, 0x22, 0x22],
     [0x24, 0x22, 0x22, 0x00, 0x00, 0x81, 0x1d, 0x29, 0x29, 0x21, 0x29, 0x29, 0x06, 0x01, 0x83, 0x14, 0x00, 0x85],
     [0x28, 0x2c, 0x2c, 0x29, 0x2d, 0x2d, 0x31, 0x2e, 0x2e, 0x34, 0x2f, 0x2f, 0x2d, 0x2f, 0x38, 0x00, 0x00, 0xa8],
     [0x2e, 0x33, 0x33, 0x00, 0x00, 0xab, 0x3a, 0x33, 0x33, 0x34, 0x34, 0x35, 0x2f, 0x35, 0x35, 0x35, 0x36, 0x36],
     [0x11, 0x0b, 0x99, 0x04, 0x03, 0xae, 0x32, 0x37, 0x37, 0x00, 0x00, 0xb6, 0x01, 0x01, 0xb4, 0x01, 0x00, 0xb6],
     [0x09, 0x09, 0xa2, 0x0a, 0x0a, 0xa0, 0x07, 0x04, 0xad, 0x38, 0x37, 0x37, 0x33, 0x38, 0x38, 0x36, 0x38, 0x38],
     [0x3c, 0x38, 0x38, 0x3e, 0x38, 0x38, 0x04, 0x04, 0xb5, 0x05, 0x05, 0xb4, 0x1b, 0x15, 0x8d, 0x37, 0x3a, 0x3a],
     [0x39, 0x3a, 0x3a, 0x3c, 0x3a, 0x3a, 0x3d, 0x3a, 0x3a, 0x37, 0x3b, 0x3b, 0x3a, 0x3b, 0x3b, 0x0b, 0x0b, 0xad],
     [0x23, 0x24, 0x74, 0x3c, 0x3c, 0x3c, 0x14, 0x0b, 0xae, 0x3c, 0x3e, 0x3e, 0x3e, 0x3e, 0x3e, 0x10, 0x10, 0xad],
     [0x3f, 0x40, 0x40, 0x3e, 0x41, 0x41, 0x1b, 0x1d, 0x97, 0x3f, 0x42, 0x42, 0x3b, 0x44, 0x44, 0x44, 0x43, 0x43],
     [0x22, 0x21, 0x93, 0x48, 0x44, 0x44, 0x4d, 0x44, 0x44, 0x1f, 0x1a, 0xac, 0x4b, 0x46, 0x46, 0x43, 0x47, 0x47],
     [0x45, 0x47, 0x47, 0x4a, 0x47, 0x47, 0x4b, 0x47, 0x47, 0x47, 0x48, 0x48, 0x4b, 0x4d, 0x4d, 0x4d, 0x4d, 0x4d],
     [0x49, 0x50, 0x50, 0x45, 0x4f, 0x5d, 0x55, 0x52, 0x52, 0x4f, 0x53, 0x53, 0x58, 0x55, 0x55, 0x51, 0x57, 0x57],
     [0x5e, 0x56, 0x56, 0x4e, 0x56, 0x5c, 0x58, 0x58, 0x58, 0x32, 0x32, 0xb1, 0x61, 0x59, 0x59, 0x56, 0x5c, 0x5c],
     [0x57, 0x5e, 0x5e, 0x66, 0x5d, 0x5d, 0x44, 0x3c, 0xac, 0x5e, 0x5f, 0x5f, 0x5c, 0x63, 0x63, 0x63, 0x63, 0x63],
     [0x65, 0x64, 0x64, 0x68, 0x65, 0x65, 0x66, 0x66, 0x66, 0x69, 0x66, 0x66, 0x6a, 0x67, 0x68, 0x5d, 0x69, 0x69],
     [0x67, 0x6a, 0x6a, 0x6b, 0x6a, 0x6a, 0x60, 0x6c, 0x6c, 0x74, 0x6f, 0x6f, 0x54, 0x54, 0xb6, 0x71, 0x74, 0x74],
     [0x6d, 0x75, 0x75, 0x72, 0x75, 0x75, 0x79, 0x77, 0x77, 0x7b, 0x77, 0x77, 0x76, 0x7a, 0x7a, 0x80, 0x7b, 0x7b],
     [0x7a, 0x7c, 0x7c, 0x7d, 0x7c, 0x7c, 0x7e, 0x7c, 0x7c, 0x75, 0x75, 0x8f, 0x7d, 0x7d, 0x7d, 0x7d, 0x7e, 0x7e],
     [0x80, 0x7f, 0x7f, 0x83, 0x7f, 0x7f, 0x7d, 0x80, 0x80, 0x80, 0x83, 0x83, 0x7f, 0x86, 0x86, 0x85, 0x87, 0x87],
     [0x88, 0x8a, 0x8a, 0x85, 0x8c, 0x8c, 0x7b, 0x73, 0xc6, 0x8b, 0x8f, 0x8f, 0x8c, 0x90, 0x90, 0x8e, 0x90, 0x90],
     [0x96, 0x90, 0x90, 0x8f, 0x93, 0x93, 0x84, 0x7e, 0xc2, 0x8f, 0x8c, 0xa7, 0x95, 0x95, 0x95, 0x93, 0x96, 0x96],
     [0x93, 0x97, 0x97, 0x93, 0x99, 0x99, 0x88, 0x8b, 0xba, 0x97, 0x99, 0x99, 0x9f, 0x9a, 0x9a, 0x8e, 0x93, 0xb9],
     [0xa6, 0xa1, 0xa1, 0xa7, 0xa3, 0xa4, 0xa3, 0xa4, 0xa4, 0xa5, 0xa5, 0xa5, 0xae, 0xaa, 0xaa, 0xb2, 0xac, 0xac],
     [0xaf, 0xad, 0xad, 0xb0, 0xae, 0xae, 0xb6, 0xae, 0xae, 0xb4, 0xb2, 0xb2, 0xb7, 0xb6, 0xb6, 0xb7, 0xb7, 0xb7],
     [0xb8, 0xba, 0xba, 0xb5, 0xbc, 0xbc, 0xb6, 0xbd, 0xbd, 0xbd, 0xbd, 0xbd, 0xc0, 0xbd, 0xbd, 0xbf, 0xbe, 0xbe],
     [0xc1, 0xc3, 0xc3, 0xc2, 0xc4, 0xc4, 0xcd, 0xca, 0xca, 0xc6, 0xcb, 0xcb, 0xc2, 0xca, 0xcf, 0xcb, 0xcb, 0xcb],
     [0xca, 0xce, 0xd0, 0xcb, 0xd1, 0xd1, 0xd2, 0xd2, 0xd2, 0xd4, 0xd2, 0xd2, 0xd1, 0xd1, 0xd6, 0xd5, 0xd3, 0xd3],
     [0xd2, 0xd4, 0xd4, 0xd0, 0xd5, 0xd5, 0xce, 0xd6, 0xd6, 0xd1, 0xd7, 0xd7, 0xd7, 0xd6, 0xdb, 0xd7, 0xda, 0xda],
     [0xd9, 0xda, 0xda, 0xde, 0xda, 0xda, 0xe2, 0xde, 0xe3, 0xe2, 0xe0, 0xe0, 0xe0, 0xe1, 0xe1, 0xe5, 0xe4, 0xe4],
     [0xe7, 0xe4, 0xe4, 0xe5, 0xe7, 0xe7, 0xea, 0xe7, 0xe7, 0xea, 0xe8, 0xe8, 0xeb, 0xea, 0xea, 0xef, 0xec, 0xec],
     [0xee, 0xf1, 0xf1, 0xf4, 0xf3, 0xf3, 0xf7, 0xf6, 0xf6]] @
   concat [
     [0xf4, 0x07, 0x07, 0x07, 0x01, 0x04, 0x03, 0x38, 0x3c, 0xc0, 0x07, 0x04],
     [0x06, 0x88, 0x87, 0x3e, 0x17, 0x00, 0x0c, 0x00, 0x1f, 0xa6, 0x10, 0x3f],
     [0x04, 0x12, 0x74, 0x01, 0xbe, 0xce, 0xbf, 0xa1, 0x29, 0x91, 0x8b, 0x47],
     [0x80, 0x06, 0x0b, 0x44, 0xba, 0xe9, 0x33, 0x16, 0xc5, 0x58, 0x55, 0x39],
     [0x0a, 0x1f, 0x03, 0x6e, 0xd7, 0x11, 0x01, 0x00, 0x70, 0xcf, 0x39, 0x00],
     [0x14, 0x89, 0x44, 0x20, 0x2f, 0x01, 0x04, 0x52, 0xbd, 0x00, 0x00, 0x36],
     [0x04, 0xde, 0xd8, 0x23, 0x59, 0x9b, 0x44, 0x6d, 0x2b, 0x80, 0x02, 0x66],
     [0x5d, 0x4a, 0xb8, 0x00, 0x5a, 0xd1, 0x04, 0xb7, 0x47, 0x08, 0x80, 0xaf],
     [0x44, 0x28, 0xa2, 0x00, 0x07, 0x00, 0x01, 0x3f, 0x73, 0xb1, 0x7f, 0xc7],
     [0x00, 0x90, 0xda, 0x77, 0x05, 0x00, 0x00, 0x97, 0xb5, 0x80, 0x44, 0x05],
     [0xb3, 0x51, 0x00, 0x03, 0x99, 0xb6, 0x00, 0x56, 0x62, 0x86, 0xdc, 0x8f],
     [0x7d, 0x93, 0xa0, 0x02, 0xa7, 0xcc, 0xcd, 0x07, 0x22, 0x67, 0x2a, 0x6b],
     [0x00, 0xca, 0x5b, 0x2e, 0x1e, 0x40, 0x57, 0x4b, 0x4d, 0x00, 0xb0, 0xd0],
     [0xbb, 0xac, 0xab, 0xb4, 0xc1, 0xc3, 0x10, 0x1c, 0x75, 0x76, 0x42, 0x15],
     [0xd4, 0xeb, 0xe3, 0x00, 0xd9, 0xd2, 0x94, 0x65, 0x4c, 0x49, 0x48, 0x6c],
     [0x00, 0x9f, 0x8e, 0x2d, 0x05, 0x05, 0x00, 0xa4, 0x78, 0x80, 0x42, 0x00],
     [0x22, 0x2a, 0x21, 0x69, 0xc8, 0x95, 0x00, 0xd6, 0x81, 0x32, 0x24, 0x41],
     [0x5f, 0xb9, 0xdb, 0x00, 0xbc, 0x5e, 0x0e, 0xc9, 0x72, 0x00, 0x00, 0x7b],
     [0x00, 0xa5, 0xa8, 0x84, 0x20, 0x83, 0xd3, 0x3d, 0x98, 0x00, 0xad, 0xaa],
     [0x3a, 0x13, 0x19, 0x43, 0x68, 0x45, 0x00, 0x9d, 0xd4, 0xc2, 0xe4, 0x8c],
     [0x00, 0x00, 0x00, 0x00, 0x10, 0x6a, 0xbf, 0xe8, 0xea, 0x64, 0x02, 0xcb],
     [0x00, 0x61, 0xe0, 0x6f, 0x3b, 0x37, 0x4b, 0x4f, 0x30, 0x06, 0x00, 0x25],
     [0xa3, 0xe6, 0xae, 0x41, 0x29, 0x5c, 0x00, 0x9d, 0x04, 0x35, 0xe2, 0x18],
     [0xdd, 0x79, 0x60, 0x00, 0x4e, 0x50, 0x58, 0x0f, 0x00, 0x00, 0x02, 0x31],
     [0x60, 0x82, 0x44, 0x11, 0x7e, 0xe7, 0x02, 0xc0, 0xa9, 0x0c, 0x09, 0x1a],
     [0x34, 0x1d, 0x77, 0x29, 0x46, 0x9c, 0x01, 0xc6, 0xe1, 0xd5, 0x06, 0x92],
     [0xe5, 0x26, 0x5f, 0x80, 0x12, 0x1b, 0x96, 0x9a, 0x7a, 0x42, 0x27, 0x0c],
     [0x0c, 0x00, 0x53, 0xec, 0x9e, 0x47, 0x07, 0x00, 0x02, 0x0c, 0x71, 0xdf],
     [0xc4, 0x54, 0x47, 0x07, 0x03, 0x85, 0x18, 0xd1, 0x7c, 0x0e, 0x4f, 0x07],
     [0x02, 0x8a, 0xb2, 0x60, 0x2c, 0x57, 0x0f, 0x00, 0x00, 0x63, 0x8d, 0x0d],
     [0xf8, 0x4f, 0x07, 0x77, 0x2f, 0x06]]"

definition g_pui8SpiderUR1Image :: "u8 \<Rightarrow> u8 list" where
  "g_pui8SpiderUR1Image IMAGE_FMT_8BPP_COMP =
   [IMAGE_FMT_8BPP_COMP, 24, 0, 24, 0, 236] @
   concat [
     [0x00, 0x00, 0x00, 0x01, 0x00, 0x00, 0x01, 0x01, 0x01, 0x02, 0x01, 0x01, 0x01, 0x02, 0x02, 0x02, 0x02, 0x02],
     [0x02, 0x03, 0x03, 0x03, 0x03, 0x03, 0x05, 0x03, 0x03, 0x03, 0x04, 0x04, 0x05, 0x04, 0x04, 0x05, 0x05, 0x05],
     [0x07, 0x06, 0x06, 0x06, 0x08, 0x08, 0x08, 0x08, 0x08, 0x08, 0x07, 0x0a, 0x09, 0x09, 0x09, 0x0a, 0x09, 0x09],
     [0x09, 0x0a, 0x0a, 0x0d, 0x00, 0x1f, 0x0d, 0x0b, 0x0b, 0x0e, 0x0b, 0x0b, 0x0b, 0x0c, 0x0c, 0x0c, 0x0c, 0x0c],
     [0x0d, 0x0d, 0x0d, 0x00, 0x00, 0x2e, 0x0d, 0x0d, 0x16, 0x0e, 0x10, 0x10, 0x11, 0x10, 0x10, 0x0f, 0x0d, 0x17],
     [0x0f, 0x11, 0x11, 0x0f, 0x12, 0x12, 0x11, 0x12, 0x12, 0x15, 0x13, 0x13, 0x13, 0x14, 0x14, 0x17, 0x14, 0x14],
     [0x04, 0x00, 0x43, 0x16, 0x15, 0x15, 0x19, 0x15, 0x15, 0x12, 0x16, 0x16, 0x15, 0x18, 0x18, 0x1b, 0x1a, 0x1a],
     [0x1d, 0x1c, 0x1c, 0x1e, 0x1c, 0x1c, 0x1b, 0x1d, 0x1d, 0x19, 0x1e, 0x1e, 0x24, 0x1e, 0x1e, 0x1d, 0x1f, 0x1f],
     [0x1c, 0x1e, 0x23, 0x22, 0x1f, 0x1f, 0x00, 0x00, 0x6c, 0x25, 0x20, 0x20, 0x20, 0x1a, 0x2e, 0x1e, 0x22, 0x22],
     [0x24, 0x22, 0x22, 0x00, 0x00, 0x81, 0x1d, 0x29, 0x29, 0x21, 0x29, 0x29, 0x06, 0x01, 0x83, 0x14, 0x00, 0x85],
     [0x28, 0x2c, 0x2c, 0x29, 0x2d, 0x2d, 0x31, 0x2e, 0x2e, 0x34, 0x2f, 0x2f, 0x2d, 0x2f, 0x38, 0x00, 0x00, 0xa8],
     [0x2e, 0x33, 0x33, 0x00, 0x00, 0xab, 0x3a, 0x33, 0x33, 0x34, 0x34, 0x35, 0x2f, 0x35, 0x35, 0x35, 0x36, 0x36],
     [0x11, 0x0b, 0x99, 0x04, 0x03, 0xae, 0x32, 0x37, 0x37, 0x00, 0x00, 0xb6, 0x01, 0x01, 0xb4, 0x01, 0x00, 0xb6],
     [0x09, 0x09, 0xa2, 0x0a, 0x0a, 0xa0, 0x07, 0x04, 0xad, 0x38, 0x37, 0x37, 0x33, 0x38, 0x38, 0x36, 0x38, 0x38],
     [0x3c, 0x38, 0x38, 0x3e, 0x38, 0x38, 0x04, 0x04, 0xb5, 0x05, 0x05, 0xb4, 0x1b, 0x15, 0x8d, 0x37, 0x3a, 0x3a],
     [0x39, 0x3a, 0x3a, 0x3c, 0x3a, 0x3a, 0x3d, 0x3a, 0x3a, 0x37, 0x3b, 0x3b, 0x3a, 0x3b, 0x3b, 0x0b, 0x0b, 0xad],
     [0x23, 0x24, 0x74, 0x3c, 0x3c, 0x3c, 0x14, 0x0b, 0xae, 0x3c, 0x3e, 0x3e, 0x3e, 0x3e, 0x3e, 0x10, 0x10, 0xad],
     [0x3f, 0x40, 0x40, 0x3e, 0x41, 0x41, 0x1b, 0x1d, 0x97, 0x3f, 0x42, 0x42, 0x3b, 0x44, 0x44, 0x44, 0x43, 0x43],
     [0x22, 0x21, 0x93, 0x48, 0x44, 0x44, 0x4d, 0x44, 0x44, 0x1f, 0x1a, 0xac, 0x4b, 0x46, 0x46, 0x43, 0x47, 0x47],
     [0x45, 0x47, 0x47, 0x4a, 0x47, 0x47, 0x4b, 0x47, 0x47, 0x47, 0x48, 0x48, 0x4b, 0x4d, 0x4d, 0x4d, 0x4d, 0x4d],
     [0x49, 0x50, 0x50, 0x45, 0x4f, 0x5d, 0x55, 0x52, 0x52, 0x4f, 0x53, 0x53, 0x58, 0x55, 0x55, 0x51, 0x57, 0x57],
     [0x5e, 0x56, 0x56, 0x4e, 0x56, 0x5c, 0x58, 0x58, 0x58, 0x32, 0x32, 0xb1, 0x61, 0x59, 0x59, 0x56, 0x5c, 0x5c],
     [0x57, 0x5e, 0x5e, 0x66, 0x5d, 0x5d, 0x44, 0x3c, 0xac, 0x5e, 0x5f, 0x5f, 0x5c, 0x63, 0x63, 0x63, 0x63, 0x63],
     [0x65, 0x64, 0x64, 0x68, 0x65, 0x65, 0x66, 0x66, 0x66, 0x69, 0x66, 0x66, 0x6a, 0x67, 0x68, 0x5d, 0x69, 0x69],
     [0x67, 0x6a, 0x6a, 0x6b, 0x6a, 0x6a, 0x60, 0x6c, 0x6c, 0x74, 0x6f, 0x6f, 0x54, 0x54, 0xb6, 0x71, 0x74, 0x74],
     [0x6d, 0x75, 0x75, 0x72, 0x75, 0x75, 0x79, 0x77, 0x77, 0x7b, 0x77, 0x77, 0x76, 0x7a, 0x7a, 0x80, 0x7b, 0x7b],
     [0x7a, 0x7c, 0x7c, 0x7d, 0x7c, 0x7c, 0x7e, 0x7c, 0x7c, 0x75, 0x75, 0x8f, 0x7d, 0x7d, 0x7d, 0x7d, 0x7e, 0x7e],
     [0x80, 0x7f, 0x7f, 0x83, 0x7f, 0x7f, 0x7d, 0x80, 0x80, 0x80, 0x83, 0x83, 0x7f, 0x86, 0x86, 0x85, 0x87, 0x87],
     [0x88, 0x8a, 0x8a, 0x85, 0x8c, 0x8c, 0x7b, 0x73, 0xc6, 0x8b, 0x8f, 0x8f, 0x8c, 0x90, 0x90, 0x8e, 0x90, 0x90],
     [0x96, 0x90, 0x90, 0x8f, 0x93, 0x93, 0x84, 0x7e, 0xc2, 0x8f, 0x8c, 0xa7, 0x95, 0x95, 0x95, 0x93, 0x96, 0x96],
     [0x93, 0x97, 0x97, 0x93, 0x99, 0x99, 0x88, 0x8b, 0xba, 0x97, 0x99, 0x99, 0x9f, 0x9a, 0x9a, 0x8e, 0x93, 0xb9],
     [0xa6, 0xa1, 0xa1, 0xa7, 0xa3, 0xa4, 0xa3, 0xa4, 0xa4, 0xa5, 0xa5, 0xa5, 0xae, 0xaa, 0xaa, 0xb2, 0xac, 0xac],
     [0xaf, 0xad, 0xad, 0xb0, 0xae, 0xae, 0xb6, 0xae, 0xae, 0xb4, 0xb2, 0xb2, 0xb7, 0xb6, 0xb6, 0xb7, 0xb7, 0xb7],
     [0xb8, 0xba, 0xba, 0xb5, 0xbc, 0xbc, 0xb6, 0xbd, 0xbd, 0xbd, 0xbd, 0xbd, 0xc0, 0xbd, 0xbd, 0xbf, 0xbe, 0xbe],
     [0xc1, 0xc3, 0xc3, 0xc2, 0xc4, 0xc4, 0xcd, 0xca, 0xca, 0xc6, 0xcb, 0xcb, 0xc2, 0xca, 0xcf, 0xcb, 0xcb, 0xcb],
     [0xca, 0xce, 0xd0, 0xcb, 0xd1, 0xd1, 0xd2, 0xd2, 0xd2, 0xd4, 0xd2, 0xd2, 0xd1, 0xd1, 0xd6, 0xd5, 0xd3, 0xd3],
     [0xd2, 0xd4, 0xd4, 0xd0, 0xd5, 0xd5, 0xce, 0xd6, 0xd6, 0xd1, 0xd7, 0xd7, 0xd7, 0xd6, 0xdb, 0xd7, 0xda, 0xda],
     [0xd9, 0xda, 0xda, 0xde, 0xda, 0xda, 0xe2, 0xde, 0xe3, 0xe2, 0xe0, 0xe0, 0xe0, 0xe1, 0xe1, 0xe5, 0xe4, 0xe4],
     [0xe7, 0xe4, 0xe4, 0xe5, 0xe7, 0xe7, 0xea, 0xe7, 0xe7, 0xea, 0xe8, 0xe8, 0xeb, 0xea, 0xea, 0xef, 0xec, 0xec],
     [0xee, 0xf1, 0xf1, 0xf4, 0xf3, 0xf3, 0xf7, 0xf6, 0xf6]] @
   concat [
     [0xf2, 0x07, 0x07, 0x07, 0x05, 0x3c, 0x38, 0x03, 0x04, 0xc0, 0x07, 0x04],
     [0x10, 0xa6, 0x1f, 0x00, 0x00, 0x17, 0x0c, 0x3e, 0x87, 0x88, 0x06, 0x3f],
     [0x03, 0x8b, 0x91, 0x01, 0x29, 0xa1, 0xbf, 0xce, 0xbe, 0x74, 0x12, 0x4f],
     [0x20, 0x00, 0x0a, 0x01, 0x55, 0xc5, 0x16, 0x33, 0xe9, 0x18, 0xba, 0x44],
     [0x0b, 0x57, 0x09, 0x89, 0x14, 0x00, 0x01, 0x39, 0xcf, 0x70, 0x00, 0x11],
     [0xd7, 0x6e, 0x57, 0x80, 0x0b, 0x9b, 0x59, 0x23, 0xd8, 0xde, 0x36, 0x00],
     [0x12, 0x00, 0xbd, 0x52, 0x44, 0x01, 0x2f, 0x04, 0xaf, 0x00, 0x80, 0x08],
     [0x47, 0xb7, 0xd1, 0x5a, 0x00, 0xb8, 0x12, 0x4a, 0x5d, 0x66, 0x32, 0x2b],
     [0x6d, 0x04, 0xb5, 0x00, 0x97, 0x00, 0x00, 0x05, 0x77, 0xda, 0x90, 0xc7],
     [0x00, 0x7f, 0xb1, 0x73, 0x3f, 0x01, 0x00, 0x07, 0xa2, 0x40, 0x28, 0x11],
     [0x67, 0x22, 0x07, 0xcd, 0xcc, 0xa7, 0x00, 0xa0, 0x93, 0x7d, 0x8f, 0xdc],
     [0x86, 0x62, 0x56, 0x01, 0xb6, 0x99, 0x03, 0x00, 0x51, 0xb3, 0x05, 0x41],
     [0x00, 0x76, 0x75, 0x1c, 0xc3, 0xc1, 0xb4, 0xab, 0xac, 0x00, 0xbb, 0xd0],
     [0xb0, 0x4d, 0x4b, 0x57, 0x40, 0x1e, 0x08, 0x2e, 0x5b, 0xca, 0x6b, 0x49],
     [0x00, 0x78, 0xa4, 0x00, 0x00, 0x05, 0x05, 0x2d, 0x8e, 0x9f, 0x6c, 0x48],
     [0x00, 0x49, 0x4c, 0x65, 0x94, 0xd2, 0xd9, 0xe3, 0xeb, 0x20, 0xd4, 0x15],
     [0x42, 0x72, 0xc9, 0x0e, 0x5e, 0xbc, 0x00, 0xdb, 0xb9, 0x5f, 0x41, 0x24],
     [0x32, 0x81, 0xd6, 0x02, 0x95, 0xc8, 0x69, 0x21, 0x2a, 0x22, 0x4a, 0x00],
     [0x00, 0x8c, 0xe4, 0xc2, 0xd4, 0x9d, 0x45, 0x68, 0x43, 0x00, 0x19, 0x13],
     [0x3a, 0xaa, 0xad, 0x98, 0x3d, 0xd3, 0x00, 0x83, 0x20, 0x84, 0xa8, 0xa5],
     [0x7b, 0x00, 0x00, 0x00, 0xae, 0xe6, 0xa3, 0x25, 0x00, 0x30, 0x4f, 0x4b],
     [0x00, 0x37, 0x3b, 0x6f, 0xe0, 0x61, 0xcb, 0x02, 0x64, 0x00, 0xea, 0xe8],
     [0xbf, 0x6a, 0x10, 0x00, 0x00, 0x00, 0x00, 0x82, 0x31, 0x02, 0x00, 0x00],
     [0x0f, 0x58, 0x50, 0x00, 0x4e, 0x60, 0x79, 0xdd, 0x18, 0xe2, 0x35, 0x04],
     [0x38, 0x9d, 0x5c, 0x59, 0x41, 0xd4, 0x1d, 0x34, 0x1a, 0x03, 0x09, 0xa9],
     [0xc0, 0x02, 0xe7, 0x7e, 0x5f, 0x17, 0x00, 0x26, 0xe5, 0x92, 0x06, 0xd5],
     [0xe1, 0xc6, 0x9c, 0x60, 0x46, 0x2f, 0x04, 0x9e, 0xec, 0x53, 0x00, 0x0c],
     [0x03, 0x27, 0x42, 0x7a, 0x9a, 0x96, 0x1b, 0x37, 0x02, 0x06, 0x54, 0xc4],
     [0xdf, 0x71, 0x02, 0x77, 0x2f, 0x00, 0x03, 0x00, 0x0e, 0x7c, 0xd1, 0x85],
     [0x03, 0x3f, 0x07, 0x87, 0x01, 0x2c, 0xb2, 0x8a, 0x02, 0x3f, 0x07, 0x01],
     [0x1e, 0x0d, 0x8d, 0x63, 0x47, 0x07, 0x77, 0x2f]]"

definition g_pui8SpiderUR2Image :: "u8 \<Rightarrow> u8 list" where
  "g_pui8SpiderUR2Image IMAGE_FMT_8BPP_COMP =
   [IMAGE_FMT_8BPP_COMP, 24, 0, 24, 0, 236] @
   concat [
     [0x00, 0x00, 0x00, 0x01, 0x00, 0x00, 0x01, 0x01, 0x01, 0x02, 0x01, 0x01, 0x01, 0x02, 0x02, 0x02, 0x02, 0x02],
     [0x02, 0x03, 0x03, 0x03, 0x03, 0x03, 0x05, 0x03, 0x03, 0x03, 0x04, 0x04, 0x05, 0x04, 0x04, 0x05, 0x05, 0x05],
     [0x07, 0x06, 0x06, 0x06, 0x08, 0x08, 0x08, 0x08, 0x08, 0x08, 0x07, 0x0b, 0x09, 0x09, 0x09, 0x0a, 0x09, 0x09],
     [0x09, 0x0a, 0x0a, 0x0d, 0x00, 0x1f, 0x0c, 0x0b, 0x0b, 0x0e, 0x0b, 0x0b, 0x0b, 0x0c, 0x0c, 0x0c, 0x0c, 0x0c],
     [0x0d, 0x0d, 0x0d, 0x00, 0x00, 0x2e, 0x0d, 0x0d, 0x16, 0x0e, 0x10, 0x10, 0x11, 0x10, 0x10, 0x0f, 0x0d, 0x17],
     [0x0f, 0x11, 0x11, 0x11, 0x12, 0x12, 0x15, 0x13, 0x13, 0x13, 0x14, 0x14, 0x17, 0x14, 0x14, 0x04, 0x00, 0x43],
     [0x16, 0x15, 0x15, 0x19, 0x15, 0x15, 0x12, 0x16, 0x16, 0x15, 0x18, 0x18, 0x1b, 0x1a, 0x1a, 0x1d, 0x1c, 0x1c],
     [0x1f, 0x1c, 0x1c, 0x1b, 0x1d, 0x1d, 0x1a, 0x1e, 0x1e, 0x24, 0x1e, 0x1e, 0x1d, 0x1f, 0x1f, 0x21, 0x1f, 0x1f],
     [0x1c, 0x1e, 0x23, 0x00, 0x00, 0x6c, 0x25, 0x20, 0x20, 0x20, 0x1a, 0x2e, 0x1e, 0x22, 0x22, 0x24, 0x22, 0x22],
     [0x00, 0x00, 0x81, 0x1d, 0x29, 0x29, 0x21, 0x29, 0x29, 0x06, 0x01, 0x83, 0x13, 0x00, 0x86, 0x28, 0x2c, 0x2c],
     [0x29, 0x2d, 0x2d, 0x31, 0x2e, 0x2e, 0x34, 0x2f, 0x2f, 0x2c, 0x2f, 0x39, 0x00, 0x00, 0xa8, 0x2e, 0x33, 0x33],
     [0x00, 0x00, 0xab, 0x3a, 0x33, 0x33, 0x2f, 0x35, 0x35, 0x34, 0x35, 0x35, 0x35, 0x36, 0x36, 0x11, 0x0b, 0x99],
     [0x04, 0x03, 0xae, 0x32, 0x37, 0x37, 0x00, 0x00, 0xb6, 0x01, 0x00, 0xb6, 0x36, 0x37, 0x37, 0x09, 0x09, 0xa2],
     [0x01, 0x01, 0xb5, 0x07, 0x04, 0xad, 0x38, 0x37, 0x37, 0x0b, 0x0a, 0xa0, 0x33, 0x38, 0x38, 0x3c, 0x38, 0x38],
     [0x3e, 0x38, 0x38, 0x04, 0x04, 0xb5, 0x05, 0x05, 0xb4, 0x37, 0x3a, 0x3a, 0x1c, 0x15, 0x8d, 0x39, 0x3a, 0x3a],
     [0x3c, 0x3a, 0x3a, 0x3e, 0x3a, 0x3a, 0x36, 0x3b, 0x3b, 0x3b, 0x3b, 0x3b, 0x0b, 0x0b, 0xac, 0x3c, 0x3c, 0x3c],
     [0x22, 0x25, 0x74, 0x14, 0x0b, 0xaf, 0x3c, 0x3e, 0x3e, 0x3e, 0x3e, 0x3e, 0x10, 0x10, 0xad, 0x3e, 0x40, 0x40],
     [0x3f, 0x41, 0x41, 0x1b, 0x1d, 0x97, 0x3f, 0x42, 0x42, 0x3b, 0x44, 0x44, 0x44, 0x43, 0x43, 0x22, 0x21, 0x93],
     [0x48, 0x44, 0x44, 0x4e, 0x44, 0x44, 0x1f, 0x1a, 0xac, 0x4b, 0x46, 0x46, 0x46, 0x47, 0x47, 0x4a, 0x47, 0x46],
     [0x4b, 0x47, 0x47, 0x43, 0x48, 0x48, 0x47, 0x48, 0x48, 0x4b, 0x4d, 0x4d, 0x4d, 0x4d, 0x4d, 0x49, 0x50, 0x50],
     [0x45, 0x4f, 0x5d, 0x4f, 0x53, 0x53, 0x55, 0x53, 0x53, 0x57, 0x55, 0x55, 0x51, 0x57, 0x57, 0x5e, 0x56, 0x56],
     [0x4e, 0x56, 0x5c, 0x58, 0x58, 0x58, 0x32, 0x32, 0xb1, 0x61, 0x58, 0x58, 0x56, 0x5b, 0x5b, 0x57, 0x5e, 0x5e],
     [0x66, 0x5d, 0x5d, 0x5e, 0x5e, 0x5e, 0x43, 0x3c, 0xac, 0x5b, 0x63, 0x63, 0x65, 0x63, 0x63, 0x63, 0x64, 0x64],
     [0x67, 0x64, 0x64, 0x66, 0x65, 0x65, 0x69, 0x66, 0x66, 0x5d, 0x69, 0x69, 0x6a, 0x68, 0x68, 0x67, 0x6a, 0x6a],
     [0x6b, 0x6a, 0x6a, 0x60, 0x6c, 0x6c, 0x74, 0x6e, 0x6e, 0x54, 0x54, 0xb6, 0x71, 0x73, 0x74, 0x6d, 0x75, 0x75],
     [0x71, 0x75, 0x75, 0x7a, 0x77, 0x77, 0x7b, 0x78, 0x78, 0x76, 0x7a, 0x7a, 0x7d, 0x7b, 0x7b, 0x80, 0x7b, 0x7b],
     [0x7a, 0x7c, 0x7c, 0x7d, 0x7c, 0x7c, 0x7e, 0x7c, 0x7c, 0x7d, 0x7d, 0x7d, 0x75, 0x75, 0x90, 0x7d, 0x7e, 0x7e],
     [0x83, 0x7e, 0x7e, 0x80, 0x7f, 0x7f, 0x7d, 0x80, 0x80, 0x80, 0x83, 0x83, 0x7f, 0x86, 0x86, 0x85, 0x87, 0x87],
     [0x88, 0x89, 0x89, 0x85, 0x8c, 0x8c, 0x7b, 0x73, 0xc6, 0x8b, 0x8f, 0x8f, 0x8c, 0x90, 0x90, 0x8e, 0x90, 0x90],
     [0x96, 0x91, 0x91, 0x8f, 0x93, 0x93, 0x85, 0x7f, 0xc2, 0x90, 0x8c, 0xa8, 0x95, 0x95, 0x95, 0x93, 0x97, 0x97],
     [0x94, 0x97, 0x97, 0x88, 0x8a, 0xba, 0x94, 0x99, 0x99, 0x97, 0x99, 0x99, 0x9f, 0x9a, 0x9a, 0x8e, 0x93, 0xb9],
     [0xa6, 0xa1, 0xa1, 0xa3, 0xa3, 0xa3, 0xa7, 0xa3, 0xa4, 0xa6, 0xa6, 0xa6, 0xae, 0xaa, 0xaa, 0xb2, 0xac, 0xac],
     [0xaf, 0xad, 0xad, 0xb6, 0xad, 0xad, 0xb0, 0xae, 0xae, 0xb4, 0xb2, 0xb2, 0xb7, 0xb7, 0xb7, 0xb8, 0xba, 0xba],
     [0xb5, 0xbc, 0xbc, 0xb6, 0xbd, 0xbd, 0xbd, 0xbd, 0xbd, 0xc0, 0xbd, 0xbd, 0xbf, 0xbe, 0xbe, 0xc1, 0xc3, 0xc3],
     [0xc2, 0xc4, 0xc4, 0xcc, 0xca, 0xca, 0xc6, 0xcb, 0xcb, 0xc2, 0xca, 0xcf, 0xca, 0xcb, 0xcb, 0xcb, 0xcc, 0xcc],
     [0xca, 0xce, 0xd0, 0xcc, 0xd1, 0xd1, 0xd2, 0xd2, 0xd2, 0xd3, 0xd2, 0xd2, 0xd1, 0xd1, 0xd6, 0xd5, 0xd3, 0xd3],
     [0xd2, 0xd4, 0xd4, 0xd0, 0xd5, 0xd5, 0xce, 0xd6, 0xd6, 0xd1, 0xd7, 0xd7, 0xd6, 0xd6, 0xdb, 0xd9, 0xd9, 0xd9],
     [0xd7, 0xda, 0xda, 0xde, 0xda, 0xda, 0xe3, 0xde, 0xe3, 0xe2, 0xe0, 0xe0, 0xe1, 0xe1, 0xe1, 0xe5, 0xe3, 0xe3],
     [0xe7, 0xe3, 0xe3, 0xe5, 0xe7, 0xe7, 0xe9, 0xe7, 0xe7, 0xea, 0xe8, 0xe8, 0xeb, 0xea, 0xea, 0xef, 0xec, 0xec],
     [0xee, 0xf1, 0xf1, 0xf4, 0xf3, 0xf3, 0xf6, 0xf6, 0xf6]] @
   concat [
     [0xf7, 0x07, 0x07, 0x07, 0x05, 0x79, 0x07, 0x07, 0x02, 0x21, 0x12, 0xa5],
     [0x01, 0x05, 0x27, 0x6c, 0x2e, 0x0f, 0x10, 0x00, 0x00, 0x1b, 0x01, 0x69],
     [0xa8, 0x00, 0x15, 0x04, 0x6a, 0xb3, 0xa3, 0x2a, 0x01, 0x47, 0x00, 0x00],
     [0x40, 0x95, 0x01, 0xbf, 0x83, 0x21, 0xd4, 0xc9, 0x50, 0x60, 0x07, 0x57],
     [0x0a, 0x99, 0x44, 0x00, 0x5b, 0xe8, 0x0a, 0x1f, 0x29, 0xeb, 0x5a, 0x55],
     [0x06, 0x15, 0x7a, 0x00, 0x9c, 0x00, 0x9a, 0xea, 0x82, 0x20, 0xe3, 0x2d],
     [0x20, 0x03, 0x02, 0x32, 0x12, 0x87, 0x05, 0x00, 0x00, 0x40, 0x62, 0xa9],
     [0x41, 0xc5, 0x00, 0x04, 0x63, 0xd3, 0x04, 0x68, 0xd9, 0x1e, 0x98, 0x3e],
     [0x42, 0x72, 0x85, 0x80, 0x11, 0x8c, 0x88, 0x03, 0x00, 0x26, 0xe1, 0x7d],
     [0x00, 0x34, 0x02, 0x3c, 0xc7, 0xd2, 0x3f, 0xb5, 0x71, 0x02, 0x66, 0x00],
     [0x00, 0x0b, 0xbe, 0x3d, 0x11, 0x0d, 0x00, 0xb2, 0x84, 0x02, 0x0c, 0xd5],
     [0xe7, 0xe2, 0xca, 0x00, 0x97, 0x94, 0x93, 0x56, 0x55, 0xb1, 0x5c, 0x00],
     [0x08, 0x00, 0x43, 0xcd, 0x17, 0x41, 0x00, 0x2b, 0xd0, 0x00, 0x73, 0x00],
     [0x06, 0x02, 0x18, 0x5f, 0xad, 0xd6, 0x00, 0x64, 0x4a, 0x61, 0x7e, 0x49],
     [0x52, 0x6d, 0xba, 0x40, 0xbf, 0x4a, 0x00, 0x00, 0x7b, 0xdf, 0x4c, 0x91],
     [0x00, 0xc0, 0xde, 0xe0, 0xaa, 0x80, 0x4e, 0x4b, 0x86, 0x02, 0xc6, 0xb8],
     [0xbd, 0xd7, 0xe9, 0xa1, 0x44, 0x0e, 0x00, 0xc4, 0xec, 0xe5, 0xa9, 0x78],
     [0x6e, 0x39, 0x31, 0x00, 0x48, 0xb0, 0xdc, 0x8f, 0x00, 0x00, 0x11, 0x32],
     [0x10, 0x28, 0x1e, 0x37, 0x33, 0x53, 0x9e, 0x25, 0x09, 0x00, 0x60, 0x3a],
     [0x13, 0x23, 0x47, 0xcf, 0x8d, 0xda, 0x01, 0x59, 0x00, 0x00, 0x16, 0x90],
     [0xa6, 0x3b, 0x43, 0x80, 0x19, 0x1a, 0x4d, 0x36, 0x19, 0x40, 0x6b, 0xbc],
     [0x00, 0x7c, 0x76, 0xd1, 0x35, 0x6f, 0xc4, 0x8a, 0x10, 0x80, 0x4e, 0x00],
     [0x33, 0x4f, 0x4a, 0x42, 0x5e, 0xa0, 0x01, 0xac, 0x92, 0x05, 0xb7, 0xdd],
     [0xce, 0x54, 0x57, 0x00, 0x00, 0x00, 0x1d, 0x58, 0x51, 0x67, 0xb9, 0x8e],
     [0x03, 0xab, 0x9f, 0x00, 0x46, 0xd8, 0x38, 0x4f, 0x02, 0x00, 0x0f, 0x30],
     [0x45, 0xdb, 0x2c, 0xb4, 0xa7, 0x00, 0x30, 0x08, 0x22, 0x4f, 0x05, 0x9d],
     [0xbb, 0x05, 0xc2, 0x06, 0xcb, 0x96, 0x7f, 0x57, 0x14, 0x3f, 0x03, 0x24],
     [0x00, 0xd4, 0x5d, 0x05, 0xc3, 0xcc, 0xb6, 0xaf, 0x9b, 0x30, 0x89, 0x0a],
     [0x3f, 0x01, 0x02, 0xa2, 0xc1, 0x0e, 0x18, 0x00, 0x1c, 0x07, 0x6f, 0x26],
     [0x2f, 0xe6, 0xe4, 0x0c, 0xc8, 0xa4, 0x74, 0x21, 0x47, 0x06, 0x81, 0xae],
     [0x07, 0x8b, 0x70, 0x77, 0x75, 0x65, 0x47, 0x07, 0x77, 0x80, 0x2f]]"

definition g_pui8SpiderDL1Image :: "u8 \<Rightarrow> u8 list" where
  "g_pui8SpiderDL1Image IMAGE_FMT_8BPP_COMP =
   [IMAGE_FMT_8BPP_COMP, 24, 0, 24, 0, 236] @
   concat [
     [0x00, 0x00, 0x00, 0x01, 0x00, 0x00, 0x01, 0x01, 0x01, 0x02, 0x01, 0x01, 0x01, 0x02, 0x02, 0x02, 0x02, 0x02],
     [0x02, 0x03, 0x03, 0x03, 0x03, 0x03, 0x05, 0x03, 0x03, 0x03, 0x04, 0x04, 0x05, 0x04, 0x04, 0x05, 0x05, 0x05],
     [0x07, 0x06, 0x06, 0x06, 0x08, 0x08, 0x08, 0x08, 0x08, 0x08, 0x07, 0x0a, 0x09, 0x09, 0x09, 0x0a, 0x09, 0x09],
     [0x09, 0x0a, 0x0a, 0x0d, 0x00, 0x1f, 0x0d, 0x0b, 0x0b, 0x0e, 0x0b, 0x0b, 0x0b, 0x0c, 0x0c, 0x0c, 0x0c, 0x0c],
     [0x0d, 0x0d, 0x0d, 0x00, 0x00, 0x2e, 0x0d, 0x0d, 0x16, 0x0e, 0x10, 0x10, 0x11, 0x10, 0x10, 0x0f, 0x0d, 0x17],
     [0x0f, 0x11, 0x11, 0x0f, 0x12, 0x12, 0x11, 0x12, 0x12, 0x15, 0x13, 0x13, 0x13, 0x14, 0x14, 0x17, 0x14, 0x14],
     [0x04, 0x00, 0x43, 0x16, 0x15, 0x15, 0x19, 0x15, 0x15, 0x12, 0x16, 0x16, 0x15, 0x18, 0x18, 0x1b, 0x1a, 0x1a],
     [0x1d, 0x1c, 0x1c, 0x1e, 0x1c, 0x1c, 0x1b, 0x1d, 0x1d, 0x19, 0x1e, 0x1e, 0x24, 0x1e, 0x1e, 0x1d, 0x1f, 0x1f],
     [0x1c, 0x1e, 0x23, 0x22, 0x1f, 0x1f, 0x00, 0x00, 0x6c, 0x25, 0x20, 0x20, 0x20, 0x1a, 0x2e, 0x1e, 0x22, 0x22],
     [0x24, 0x22, 0x22, 0x00, 0x00, 0x81, 0x1d, 0x29, 0x29, 0x21, 0x29, 0x29, 0x06, 0x01, 0x83, 0x14, 0x00, 0x85],
     [0x28, 0x2c, 0x2c, 0x29, 0x2d, 0x2d, 0x31, 0x2e, 0x2e, 0x34, 0x2f, 0x2f, 0x2d, 0x2f, 0x38, 0x00, 0x00, 0xa8],
     [0x2e, 0x33, 0x33, 0x00, 0x00, 0xab, 0x3a, 0x33, 0x33, 0x34, 0x34, 0x35, 0x2f, 0x35, 0x35, 0x35, 0x36, 0x36],
     [0x11, 0x0b, 0x99, 0x04, 0x03, 0xae, 0x32, 0x37, 0x37, 0x00, 0x00, 0xb6, 0x01, 0x01, 0xb4, 0x01, 0x00, 0xb6],
     [0x09, 0x09, 0xa2, 0x0a, 0x0a, 0xa0, 0x07, 0x04, 0xad, 0x38, 0x37, 0x37, 0x33, 0x38, 0x38, 0x36, 0x38, 0x38],
     [0x3c, 0x38, 0x38, 0x3e, 0x38, 0x38, 0x04, 0x04, 0xb5, 0x05, 0x05, 0xb4, 0x1b, 0x15, 0x8d, 0x37, 0x3a, 0x3a],
     [0x39, 0x3a, 0x3a, 0x3c, 0x3a, 0x3a, 0x3d, 0x3a, 0x3a, 0x37, 0x3b, 0x3b, 0x3a, 0x3b, 0x3b, 0x0b, 0x0b, 0xad],
     [0x23, 0x24, 0x74, 0x3c, 0x3c, 0x3c, 0x14, 0x0b, 0xae, 0x3c, 0x3e, 0x3e, 0x3e, 0x3e, 0x3e, 0x10, 0x10, 0xad],
     [0x3f, 0x40, 0x40, 0x3e, 0x41, 0x41, 0x1b, 0x1d, 0x97, 0x3f, 0x42, 0x42, 0x3b, 0x44, 0x44, 0x44, 0x43, 0x43],
     [0x22, 0x21, 0x93, 0x48, 0x44, 0x44, 0x4d, 0x44, 0x44, 0x1f, 0x1a, 0xac, 0x4b, 0x46, 0x46, 0x43, 0x47, 0x47],
     [0x45, 0x47, 0x47, 0x4a, 0x47, 0x47, 0x4b, 0x47, 0x47, 0x47, 0x48, 0x48, 0x4b, 0x4d, 0x4d, 0x4d, 0x4d, 0x4d],
     [0x49, 0x50, 0x50, 0x45, 0x4f, 0x5d, 0x55, 0x52, 0x52, 0x4f, 0x53, 0x53, 0x58, 0x55, 0x55, 0x51, 0x57, 0x57],
     [0x5e, 0x56, 0x56, 0x4e, 0x56, 0x5c, 0x58, 0x58, 0x58, 0x32, 0x32, 0xb1, 0x61, 0x59, 0x59, 0x56, 0x5c, 0x5c],
     [0x57, 0x5e, 0x5e, 0x66, 0x5d, 0x5d, 0x44, 0x3c, 0xac, 0x5e, 0x5f, 0x5f, 0x5c, 0x63, 0x63, 0x63, 0x63, 0x63],
     [0x65, 0x64, 0x64, 0x68, 0x65, 0x65, 0x66, 0x66, 0x66, 0x69, 0x66, 0x66, 0x6a, 0x67, 0x68, 0x5d, 0x69, 0x69],
     [0x67, 0x6a, 0x6a, 0x6b, 0x6a, 0x6a, 0x60, 0x6c, 0x6c, 0x74, 0x6f, 0x6f, 0x54, 0x54, 0xb6, 0x71, 0x74, 0x74],
     [0x6d, 0x75, 0x75, 0x72, 0x75, 0x75, 0x79, 0x77, 0x77, 0x7b, 0x77, 0x77, 0x76, 0x7a, 0x7a, 0x80, 0x7b, 0x7b],
     [0x7a, 0x7c, 0x7c, 0x7d, 0x7c, 0x7c, 0x7e, 0x7c, 0x7c, 0x75, 0x75, 0x8f, 0x7d, 0x7d, 0x7d, 0x7d, 0x7e, 0x7e],
     [0x80, 0x7f, 0x7f, 0x83, 0x7f, 0x7f, 0x7d, 0x80, 0x80, 0x80, 0x83, 0x83, 0x7f, 0x86, 0x86, 0x85, 0x87, 0x87],
     [0x88, 0x8a, 0x8a, 0x85, 0x8c, 0x8c, 0x7b, 0x73, 0xc6, 0x8b, 0x8f, 0x8f, 0x8c, 0x90, 0x90, 0x8e, 0x90, 0x90],
     [0x96, 0x90, 0x90, 0x8f, 0x93, 0x93, 0x84, 0x7e, 0xc2, 0x8f, 0x8c, 0xa7, 0x95, 0x95, 0x95, 0x93, 0x96, 0x96],
     [0x93, 0x97, 0x97, 0x93, 0x99, 0x99, 0x88, 0x8b, 0xba, 0x97, 0x99, 0x99, 0x9f, 0x9a, 0x9a, 0x8e, 0x93, 0xb9],
     [0xa6, 0xa1, 0xa1, 0xa7, 0xa3, 0xa4, 0xa3, 0xa4, 0xa4, 0xa5, 0xa5, 0xa5, 0xae, 0xaa, 0xaa, 0xb2, 0xac, 0xac],
     [0xaf, 0xad, 0xad, 0xb0, 0xae, 0xae, 0xb6, 0xae, 0xae, 0xb4, 0xb2, 0xb2, 0xb7, 0xb6, 0xb6, 0xb7, 0xb7, 0xb7],
     [0xb8, 0xba, 0xba, 0xb5, 0xbc, 0xbc, 0xb6, 0xbd, 0xbd, 0xbd, 0xbd, 0xbd, 0xc0, 0xbd, 0xbd, 0xbf, 0xbe, 0xbe],
     [0xc1, 0xc3, 0xc3, 0xc2, 0xc4, 0xc4, 0xcd, 0xca, 0xca, 0xc6, 0xcb, 0xcb, 0xc2, 0xca, 0xcf, 0xcb, 0xcb, 0xcb],
     [0xca, 0xce, 0xd0, 0xcb, 0xd1, 0xd1, 0xd2, 0xd2, 0xd2, 0xd4, 0xd2, 0xd2, 0xd1, 0xd1, 0xd6, 0xd5, 0xd3, 0xd3],
     [0xd2, 0xd4, 0xd4, 0xd0, 0xd5, 0xd5, 0xce, 0xd6, 0xd6, 0xd1, 0xd7, 0xd7, 0xd7, 0xd6, 0xdb, 0xd7, 0xda, 0xda],
     [0xd9, 0xda, 0xda, 0xde, 0xda, 0xda, 0xe2, 0xde, 0xe3, 0xe2, 0xe0, 0xe0, 0xe0, 0xe1, 0xe1, 0xe5, 0xe4, 0xe4],
     [0xe7, 0xe4, 0xe4, 0xe5, 0xe7, 0xe7, 0xea, 0xe7, 0xe7, 0xea, 0xe8, 0xe8, 0xeb, 0xea, 0xea, 0xef, 0xec, 0xec],
     [0xee, 0xf1, 0xf1, 0xf4, 0xf3, 0xf3, 0xf7, 0xf6, 0xf6]] @
   concat [
     [0xf1, 0x07, 0x07, 0x07, 0x02, 0x63, 0x8d, 0x0d, 0x07, 0xc3, 0x07, 0x01],
     [0x02, 0x8a, 0xb2, 0x2c, 0x3f, 0x07, 0x83, 0x01, 0x03, 0x85, 0xd1, 0x7c],
     [0x0e, 0x37, 0x07, 0x01, 0x00, 0x00, 0x02, 0x71, 0xdf, 0xc4, 0x54, 0x3f],
     [0x80, 0x02, 0x1b, 0x96, 0x9a, 0x7a, 0x42, 0x27, 0x0c, 0x0c, 0x00, 0x53],
     [0xec, 0x9e, 0x47, 0x04, 0x46, 0x9c, 0x01, 0xc6, 0xe1, 0xd5, 0x06, 0x92],
     [0xe5, 0x26, 0x47, 0x80, 0x07, 0x7e, 0xe7, 0x02, 0xc0, 0xa9, 0x09, 0x1a],
     [0x30, 0x34, 0x1d, 0x2f, 0x01, 0x5c, 0x9d, 0x04, 0x35, 0x00, 0xe2, 0x18],
     [0xdd, 0x79, 0x60, 0x4e, 0x50, 0x58, 0x02, 0x0f, 0x00, 0x00, 0x02, 0x31],
     [0x82, 0x11, 0x10, 0x00, 0x6a, 0xbf, 0xe8, 0xea, 0x64, 0x02, 0xcb, 0x61],
     [0x00, 0xe0, 0x6f, 0x3b, 0x37, 0x4b, 0x4f, 0x30, 0x00, 0x00, 0x25, 0xa3],
     [0xe6, 0xae, 0x00, 0x00, 0x7b, 0xa5, 0x00, 0xa8, 0x84, 0x20, 0x83, 0xd3],
     [0x3d, 0x98, 0xad, 0x00, 0xaa, 0x3a, 0x13, 0x19, 0x43, 0x68, 0x45, 0x9d],
     [0x00, 0xd4, 0xc2, 0xe4, 0x8c, 0x00, 0x00, 0x00, 0x00, 0x00, 0x00, 0x22],
     [0x2a, 0x21, 0x69, 0xc8, 0x95, 0xd6, 0x00, 0x81, 0x32, 0x24, 0x41, 0x5f],
     [0xb9, 0xdb, 0xbc, 0x08, 0x5e, 0x0e, 0xc9, 0x72, 0x42, 0x15, 0xd4, 0xeb],
     [0x00, 0xe3, 0xd9, 0xd2, 0x94, 0x65, 0x4c, 0x49, 0x48, 0x00, 0x6c, 0x9f],
     [0x8e, 0x2d, 0x05, 0x05, 0x00, 0xa4, 0x40, 0x78, 0x42, 0x6b, 0xca, 0x5b],
     [0x2e, 0x1e, 0x40, 0x00, 0x57, 0x4b, 0x4d, 0xb0, 0xd0, 0xbb, 0xac, 0xab],
     [0x02, 0xb4, 0xc1, 0xc3, 0x1c, 0x75, 0x76, 0x41, 0x05, 0x00, 0xb3, 0x51],
     [0x00, 0x03, 0x99, 0xb6, 0x56, 0x62, 0x00, 0x86, 0xdc, 0x8f, 0x7d, 0x93],
     [0xa0, 0xa7, 0xcc, 0x08, 0xcd, 0x07, 0x22, 0x67, 0x41, 0x28, 0xa2, 0x07],
     [0x00, 0x00, 0x01, 0x3f, 0x73, 0xb1, 0x7f, 0xc7, 0x90, 0x01, 0xda, 0x77],
     [0x05, 0x00, 0x00, 0x97, 0xb5, 0x59, 0x90, 0x41, 0x6d, 0x2b, 0xc2, 0x66],
     [0x5d, 0x4a, 0xb8, 0x00, 0x00, 0x5a, 0xd1, 0xb7, 0x47, 0x08, 0x80, 0xaf],
     [0x90, 0x44, 0x2f, 0x01, 0x04, 0x52, 0xbd, 0x00, 0x00, 0x03, 0x36, 0xde],
     [0xd8, 0x23, 0x59, 0x9b, 0x44, 0x14, 0x00, 0x00, 0x00, 0x6e, 0xd7, 0x11],
     [0x00, 0x70, 0xcf, 0x0c, 0x39, 0x00, 0x14, 0x89, 0x47, 0x01, 0x0b, 0x44],
     [0x02, 0xba, 0xe9, 0x33, 0x16, 0xc5, 0x55, 0x61, 0x0a, 0x80, 0x47, 0x00],
     [0x12, 0x74, 0xbe, 0xce, 0xbf, 0xa1, 0x18, 0x29, 0x91, 0x8b, 0x6f, 0x23],
     [0x06, 0x88, 0x87, 0x01, 0x3e, 0x17, 0x00, 0x00, 0x1f, 0xa6, 0x10, 0x47],
     [0xa7, 0x04, 0x04, 0x03, 0x38, 0x3c, 0x4f, 0x07, 0x77, 0x80, 0x2f]]"

definition g_pui8SpiderDL2Image :: "u8 \<Rightarrow> u8 list" where
  "g_pui8SpiderDL2Image IMAGE_FMT_8BPP_COMP =
   [IMAGE_FMT_8BPP_COMP, 24, 0, 24, 0, 236] @
   concat [
     [0x00, 0x00, 0x00, 0x01, 0x00, 0x00, 0x01, 0x01, 0x01, 0x02, 0x01, 0x01, 0x01, 0x02, 0x02, 0x02, 0x02, 0x02],
     [0x02, 0x03, 0x03, 0x03, 0x03, 0x03, 0x05, 0x03, 0x03, 0x03, 0x04, 0x04, 0x05, 0x04, 0x04, 0x05, 0x05, 0x05],
     [0x07, 0x06, 0x06, 0x06, 0x08, 0x08, 0x08, 0x08, 0x08, 0x08, 0x07, 0x0b, 0x09, 0x09, 0x09, 0x0a, 0x09, 0x09],
     [0x09, 0x0a, 0x0a, 0x0d, 0x00, 0x1f, 0x0c, 0x0b, 0x0b, 0x0e, 0x0b, 0x0b, 0x0b, 0x0c, 0x0c, 0x0c, 0x0c, 0x0c],
     [0x0d, 0x0d, 0x0d, 0x00, 0x00, 0x2e, 0x0d, 0x0d, 0x16, 0x0e, 0x10, 0x10, 0x11, 0x10, 0x10, 0x0f, 0x0d, 0x17],
     [0x0f, 0x11, 0x11, 0x11, 0x12, 0x12, 0x15, 0x13, 0x13, 0x13, 0x14, 0x14, 0x17, 0x14, 0x14, 0x04, 0x00, 0x43],
     [0x16, 0x15, 0x15, 0x19, 0x15, 0x15, 0x12, 0x16, 0x16, 0x15, 0x18, 0x18, 0x1b, 0x1a, 0x1a, 0x1d, 0x1c, 0x1c],
     [0x1f, 0x1c, 0x1c, 0x1b, 0x1d, 0x1d, 0x1a, 0x1e, 0x1e, 0x24, 0x1e, 0x1e, 0x1d, 0x1f, 0x1f, 0x21, 0x1f, 0x1f],
     [0x1c, 0x1e, 0x23, 0x00, 0x00, 0x6c, 0x25, 0x20, 0x20, 0x20, 0x1a, 0x2e, 0x1e, 0x22, 0x22, 0x24, 0x22, 0x22],
     [0x00, 0x00, 0x81, 0x1d, 0x29, 0x29, 0x21, 0x29, 0x29, 0x06, 0x01, 0x83, 0x13, 0x00, 0x86, 0x28, 0x2c, 0x2c],
     [0x29, 0x2d, 0x2d, 0x31, 0x2e, 0x2e, 0x34, 0x2f, 0x2f, 0x2c, 0x2f, 0x39, 0x00, 0x00, 0xa8, 0x2e, 0x33, 0x33],
     [0x00, 0x00, 0xab, 0x3a, 0x33, 0x33, 0x2f, 0x35, 0x35, 0x34, 0x35, 0x35, 0x35, 0x36, 0x36, 0x11, 0x0b, 0x99],
     [0x04, 0x03, 0xae, 0x32, 0x37, 0x37, 0x00, 0x00, 0xb6, 0x01, 0x00, 0xb6, 0x36, 0x37, 0x37, 0x09, 0x09, 0xa2],
     [0x01, 0x01, 0xb5, 0x07, 0x04, 0xad, 0x0b, 0x0a, 0xa0, 0x38, 0x37, 0x37, 0x33, 0x38, 0x38, 0x3c, 0x38, 0x38],
     [0x3e, 0x38, 0x38, 0x04, 0x04, 0xb5, 0x05, 0x05, 0xb4, 0x37, 0x3a, 0x3a, 0x1c, 0x15, 0x8d, 0x39, 0x3a, 0x3a],
     [0x3c, 0x3a, 0x3a, 0x3e, 0x3a, 0x3a, 0x36, 0x3b, 0x3b, 0x3b, 0x3b, 0x3b, 0x0b, 0x0b, 0xac, 0x3c, 0x3c, 0x3c],
     [0x22, 0x25, 0x74, 0x14, 0x0b, 0xaf, 0x3c, 0x3e, 0x3e, 0x3e, 0x3e, 0x3e, 0x10, 0x10, 0xad, 0x3e, 0x40, 0x40],
     [0x3f, 0x41, 0x41, 0x1b, 0x1d, 0x97, 0x3f, 0x42, 0x42, 0x3b, 0x44, 0x44, 0x44, 0x43, 0x43, 0x22, 0x21, 0x93],
     [0x48, 0x44, 0x44, 0x4e, 0x44, 0x44, 0x1f, 0x1a, 0xac, 0x4b, 0x46, 0x46, 0x46, 0x47, 0x47, 0x4a, 0x47, 0x46],
     [0x4b, 0x47, 0x47, 0x43, 0x48, 0x48, 0x47, 0x48, 0x48, 0x4b, 0x4d, 0x4d, 0x4d, 0x4d, 0x4d, 0x49, 0x50, 0x50],
     [0x45, 0x4f, 0x5d, 0x4f, 0x53, 0x53, 0x55, 0x53, 0x53, 0x57, 0x55, 0x55, 0x51, 0x57, 0x57, 0x5e, 0x56, 0x56],
     [0x4e, 0x56, 0x5c, 0x58, 0x58, 0x58, 0x32, 0x32, 0xb1, 0x61, 0x58, 0x58, 0x56, 0x5b, 0x5b, 0x57, 0x5e, 0x5e],
     [0x66, 0x5d, 0x5d, 0x5e, 0x5e, 0x5e, 0x43, 0x3c, 0xac, 0x5b, 0x63, 0x63, 0x65, 0x63, 0x63, 0x63, 0x64, 0x64],
     [0x67, 0x64, 0x64, 0x66, 0x65, 0x65, 0x69, 0x66, 0x66, 0x5d, 0x69, 0x69, 0x6a, 0x68, 0x68, 0x67, 0x6a, 0x6a],
     [0x6b, 0x6a, 0x6a, 0x60, 0x6c, 0x6c, 0x74, 0x6e, 0x6e, 0x54, 0x54, 0xb6, 0x71, 0x73, 0x74, 0x6d, 0x75, 0x75],
     [0x71, 0x75, 0x75, 0x7a, 0x77, 0x77, 0x7b, 0x78, 0x78, 0x76, 0x7a, 0x7a, 0x7d, 0x7b, 0x7b, 0x80, 0x7b, 0x7b],
     [0x7a, 0x7c, 0x7c, 0x7d, 0x7c, 0x7c, 0x7e, 0x7c, 0x7c, 0x7d, 0x7d, 0x7d, 0x75, 0x75, 0x90, 0x7d, 0x7e, 0x7e],
     [0x83, 0x7e, 0x7e, 0x80, 0x7f, 0x7f, 0x7d, 0x80, 0x80, 0x80, 0x83, 0x83, 0x7f, 0x86, 0x86, 0x85, 0x87, 0x87],
     [0x88, 0x89, 0x89, 0x85, 0x8c, 0x8c, 0x7b, 0x73, 0xc6, 0x8b, 0x8f, 0x8f, 0x8c, 0x90, 0x90, 0x8e, 0x90, 0x90],
     [0x96, 0x91, 0x91, 0x8f, 0x93, 0x93, 0x85, 0x7f, 0xc2, 0x90, 0x8c, 0xa8, 0x95, 0x95, 0x95, 0x93, 0x97, 0x97],
     [0x94, 0x97, 0x97, 0x88, 0x8a, 0xba, 0x94, 0x99, 0x99, 0x97, 0x99, 0x99, 0x9f, 0x9a, 0x9a, 0x8e, 0x93, 0xb9],
     [0xa6, 0xa1, 0xa1, 0xa3, 0xa3, 0xa3, 0xa7, 0xa3, 0xa4, 0xa6, 0xa6, 0xa6, 0xae, 0xaa, 0xaa, 0xb2, 0xac, 0xac],
     [0xaf, 0xad, 0xad, 0xb6, 0xad, 0xad, 0xb0, 0xae, 0xae, 0xb4, 0xb2, 0xb2, 0xb7, 0xb7, 0xb7, 0xb8, 0xba, 0xba],
     [0xb5, 0xbc, 0xbc, 0xb6, 0xbd, 0xbd, 0xbd, 0xbd, 0xbd, 0xc0, 0xbd, 0xbd, 0xbf, 0xbe, 0xbe, 0xc1, 0xc3, 0xc3],
     [0xc2, 0xc4, 0xc4, 0xcc, 0xca, 0xca, 0xc6, 0xcb, 0xcb, 0xc2, 0xca, 0xcf, 0xca, 0xcb, 0xcb, 0xcb, 0xcc, 0xcc],
     [0xca, 0xce, 0xd0, 0xcc, 0xd1, 0xd1, 0xd2, 0xd2, 0xd2, 0xd3, 0xd2, 0xd2, 0xd1, 0xd1, 0xd6, 0xd5, 0xd3, 0xd3],
     [0xd2, 0xd4, 0xd4, 0xd0, 0xd5, 0xd5, 0xce, 0xd6, 0xd6, 0xd1, 0xd7, 0xd7, 0xd6, 0xd6, 0xdb, 0xd9, 0xd9, 0xd9],
     [0xd7, 0xda, 0xda, 0xde, 0xda, 0xda, 0xe3, 0xde, 0xe3, 0xe2, 0xe0, 0xe0, 0xe1, 0xe1, 0xe1, 0xe5, 0xe3, 0xe3],
     [0xe7, 0xe3, 0xe3, 0xe5, 0xe7, 0xe7, 0xe9, 0xe7, 0xe7, 0xea, 0xe8, 0xe8, 0xeb, 0xea, 0xea, 0xef, 0xec, 0xec],
     [0xee, 0xf1, 0xf1, 0xf4, 0xf3, 0xf3, 0xf6, 0xf6, 0xf6]] @
   concat [
     [0xf0, 0x07, 0x07, 0x07, 0x04, 0x65, 0x75, 0x77, 0x70, 0x18, 0x8b, 0xae],
     [0x81, 0x07, 0x06, 0x21, 0x74, 0xa4, 0x0c, 0xc8, 0xe4, 0xe6, 0x2f, 0x47],
     [0x06, 0x07, 0x1c, 0x06, 0x00, 0x0e, 0xc1, 0xa2, 0x02, 0x47, 0x01, 0x0a],
     [0x00, 0x89, 0x9b, 0xaf, 0xb6, 0xcc, 0xc3, 0x05, 0x5d, 0x30, 0xd4, 0x24],
     [0x4f, 0x03, 0x14, 0x57, 0x7f, 0x96, 0x06, 0xcb, 0xc2, 0x05, 0xbb, 0x9d],
     [0x4f, 0x05, 0x22, 0x00, 0x08, 0x00, 0xa7, 0xb4, 0x2c, 0xdb, 0x45, 0x30],
     [0x60, 0x0f, 0x37, 0x02, 0x38, 0xd8, 0x46, 0x00, 0x9f, 0x01, 0xab, 0x8e],
     [0xb9, 0x67, 0x50, 0x58, 0x1d, 0x3f, 0x00, 0x00, 0x00, 0x54, 0xce, 0xdd],
     [0xb7, 0x05, 0x92, 0x01, 0xac, 0xa0, 0x5e, 0x42, 0x4a, 0x4f, 0x33, 0x47],
     [0x00, 0x10, 0x8a, 0xc4, 0x6f, 0x35, 0xd1, 0x76, 0x7c, 0x01, 0xbc, 0x6b],
     [0x40, 0x19, 0x36, 0x4d, 0x1a, 0x46, 0x00, 0x3b, 0xa6, 0x90, 0x16, 0x00],
     [0x00, 0x59, 0xda, 0x00, 0x8d, 0xcf, 0x47, 0x23, 0x13, 0x3a, 0x60, 0x09],
     [0x10, 0x25, 0x9e, 0x53, 0x2b, 0x37, 0x1e, 0x28, 0x32, 0x00, 0x11, 0x00],
     [0x00, 0x8f, 0xdc, 0xb0, 0x48, 0x31, 0x00, 0x39, 0x6e, 0x78, 0xa9, 0xe5],
     [0xec, 0xc4, 0x0e, 0x80, 0x3b, 0x00, 0xa1, 0xe9, 0xd7, 0xbd, 0xb8, 0xc6],
     [0x00, 0x86, 0x4b, 0x4e, 0x80, 0xaa, 0xe0, 0xde, 0xc0, 0x08, 0x91, 0x4c],
     [0xdf, 0x7b, 0x44, 0xbf, 0xba, 0x6d, 0x00, 0x52, 0x49, 0x7e, 0x61, 0x4a],
     [0x64, 0xd6, 0xad, 0x00, 0x5f, 0x18, 0x02, 0x06, 0x00, 0x73, 0xd0, 0x2b],
     [0x80, 0x3a, 0x17, 0xcd, 0x43, 0x00, 0x00, 0x5c, 0xb1, 0x00, 0x55, 0x56],
     [0x93, 0x94, 0x97, 0xca, 0xe2, 0xe7, 0x02, 0xd5, 0x0c, 0x02, 0x84, 0xb2],
     [0x0d, 0x39, 0x3d, 0x00, 0xbe, 0x0b, 0x00, 0x00, 0x66, 0x71, 0xb5, 0x3f],
     [0x00, 0xd2, 0xc7, 0x3c, 0x02, 0x34, 0x7d, 0xe1, 0x26, 0x09, 0x00, 0x03],
     [0x88, 0x8c, 0x41, 0x85, 0x72, 0x19, 0x00, 0x00, 0x3e, 0x98, 0x1e, 0xd9],
     [0x68, 0xd3, 0x63, 0x00, 0x04, 0x00, 0xc5, 0x41, 0x00, 0x00, 0x02, 0x62],
     [0x04, 0x00, 0x00, 0x05, 0x87, 0x12, 0x42, 0x02, 0x03, 0x00, 0x2d, 0xe3],
     [0x20, 0x82, 0xea, 0x9a, 0x00, 0x9c, 0x68, 0x7a, 0x8a, 0x69, 0x06, 0xc5],
     [0x5a, 0xeb, 0x29, 0x03, 0x1f, 0xe8, 0x5b, 0x00, 0x44, 0x99, 0x45, 0x0c],
     [0x01, 0x07, 0x51, 0xc9, 0xd4, 0x21, 0x83, 0xbf, 0x01, 0x40, 0x95, 0x47],
     [0x00, 0x00, 0x01, 0x2a, 0xa3, 0xb3, 0x05, 0x6a, 0x15, 0x00, 0xa8, 0x69],
     [0x41, 0x1b, 0x47, 0x02, 0x00, 0x00, 0x2e, 0x6c, 0x27, 0x05, 0x01, 0xa5],
     [0x77, 0x12, 0x67, 0x1f, 0x02, 0x79, 0x4f, 0x07, 0x77, 0x80, 0x2f]]"

definition g_pui8SpiderDR1Image :: "u8 \<Rightarrow> u8 list" where
  "g_pui8SpiderDR1Image IMAGE_FMT_8BPP_COMP =
   [IMAGE_FMT_8BPP_COMP, 24, 0, 24, 0, 236] @
   concat [
     [0x00, 0x00, 0x00, 0x01, 0x00, 0x00, 0x01, 0x01, 0x01, 0x02, 0x01, 0x01, 0x01, 0x02, 0x02, 0x02, 0x02, 0x02],
     [0x02, 0x03, 0x03, 0x03, 0x03, 0x03, 0x05, 0x03, 0x03, 0x03, 0x04, 0x04, 0x05, 0x04, 0x04, 0x05, 0x05, 0x05],
     [0x07, 0x06, 0x06, 0x06, 0x08, 0x08, 0x08, 0x08, 0x08, 0x08, 0x07, 0x0b, 0x09, 0x09, 0x09, 0x0a, 0x09, 0x09],
     [0x09, 0x0a, 0x0a, 0x0d, 0x00, 0x1f, 0x0c, 0x0b, 0x0b, 0x0e, 0x0b, 0x0b, 0x0b, 0x0c, 0x0c, 0x0c, 0x0c, 0x0c],
     [0x0d, 0x0d, 0x0d, 0x00, 0x00, 0x2e, 0x0d, 0x0d, 0x16, 0x0e, 0x10, 0x10, 0x11, 0x10, 0x10, 0x0f, 0x0d, 0x17],
     [0x0f, 0x11, 0x11, 0x11, 0x12, 0x12, 0x15, 0x13, 0x13, 0x13, 0x14, 0x14, 0x17, 0x14, 0x14, 0x04, 0x00, 0x43],
     [0x16, 0x15, 0x15, 0x19, 0x15, 0x15, 0x12, 0x16, 0x16, 0x15, 0x18, 0x18, 0x1b, 0x1a, 0x1a, 0x1d, 0x1c, 0x1c],
     [0x1f, 0x1c, 0x1c, 0x1b, 0x1d, 0x1d, 0x1a, 0x1e, 0x1e, 0x24, 0x1e, 0x1e, 0x1d, 0x1f, 0x1f, 0x21, 0x1f, 0x1f],
     [0x1c, 0x1e, 0x23, 0x00, 0x00, 0x6c, 0x25, 0x20, 0x20, 0x20, 0x1a, 0x2e, 0x1e, 0x22, 0x22, 0x24, 0x22, 0x22],
     [0x00, 0x00, 0x81, 0x1d, 0x29, 0x29, 0x21, 0x29, 0x29, 0x06, 0x01, 0x83, 0x13, 0x00, 0x86, 0x28, 0x2c, 0x2c],
     [0x29, 0x2d, 0x2d, 0x31, 0x2e, 0x2e, 0x34, 0x2f, 0x2f, 0x2c, 0x2f, 0x39, 0x00, 0x00, 0xa8, 0x2e, 0x33, 0x33],
     [0x00, 0x00, 0xab, 0x3a, 0x33, 0x33, 0x2f, 0x35, 0x35, 0x34, 0x35, 0x35, 0x35, 0x36, 0x36, 0x11, 0x0b, 0x99],
     [0x04, 0x03, 0xae, 0x32, 0x37, 0x37, 0x00, 0x00, 0xb6, 0x01, 0x00, 0xb6, 0x36, 0x37, 0x37, 0x09, 0x09, 0xa2],
     [0x01, 0x01, 0xb5, 0x07, 0x04, 0xad, 0x0b, 0x0a, 0xa0, 0x38, 0x37, 0x37, 0x33, 0x38, 0x38, 0x3c, 0x38, 0x38],
     [0x3e, 0x38, 0x38, 0x04, 0x04, 0xb5, 0x05, 0x05, 0xb4, 0x37, 0x3a, 0x3a, 0x1c, 0x15, 0x8d, 0x39, 0x3a, 0x3a],
     [0x3c, 0x3a, 0x3a, 0x3e, 0x3a, 0x3a, 0x36, 0x3b, 0x3b, 0x3b, 0x3b, 0x3b, 0x0b, 0x0b, 0xac, 0x3c, 0x3c, 0x3c],
     [0x22, 0x25, 0x74, 0x14, 0x0b, 0xaf, 0x3c, 0x3e, 0x3e, 0x3e, 0x3e, 0x3e, 0x10, 0x10, 0xad, 0x3e, 0x40, 0x40],
     [0x3f, 0x41, 0x41, 0x1b, 0x1d, 0x97, 0x3f, 0x42, 0x42, 0x3b, 0x44, 0x44, 0x44, 0x43, 0x43, 0x22, 0x21, 0x93],
     [0x48, 0x44, 0x44, 0x4e, 0x44, 0x44, 0x1f, 0x1a, 0xac, 0x4b, 0x46, 0x46, 0x46, 0x47, 0x47, 0x4a, 0x47, 0x46],
     [0x4b, 0x47, 0x47, 0x43, 0x48, 0x48, 0x47, 0x48, 0x48, 0x4b, 0x4d, 0x4d, 0x4d, 0x4d, 0x4d, 0x49, 0x50, 0x50],
     [0x45, 0x4f, 0x5d, 0x4f, 0x53, 0x53, 0x55, 0x53, 0x53, 0x57, 0x55, 0x55, 0x51, 0x57, 0x57, 0x5e, 0x56, 0x56],
     [0x4e, 0x56, 0x5c, 0x58, 0x58, 0x58, 0x32, 0x32, 0xb1, 0x61, 0x58, 0x58, 0x56, 0x5b, 0x5b, 0x57, 0x5e, 0x5e],
     [0x66, 0x5d, 0x5d, 0x5e, 0x5e, 0x5e, 0x43, 0x3c, 0xac, 0x5b, 0x63, 0x63, 0x65, 0x63, 0x63, 0x63, 0x64, 0x64],
     [0x67, 0x64, 0x64, 0x66, 0x65, 0x65, 0x69, 0x66, 0x66, 0x5d, 0x69, 0x69, 0x6a, 0x68, 0x68, 0x67, 0x6a, 0x6a],
     [0x6b, 0x6a, 0x6a, 0x60, 0x6c, 0x6c, 0x74, 0x6e, 0x6e, 0x54, 0x54, 0xb6, 0x71, 0x73, 0x74, 0x6d, 0x75, 0x75],
     [0x71, 0x75, 0x75, 0x7a, 0x77, 0x77, 0x7b, 0x78, 0x78, 0x76, 0x7a, 0x7a, 0x7d, 0x7b, 0x7b, 0x80, 0x7b, 0x7b],
     [0x7a, 0x7c, 0x7c, 0x7d, 0x7c, 0x7c, 0x7e, 0x7c, 0x7c, 0x7d, 0x7d, 0x7d, 0x75, 0x75, 0x90, 0x7d, 0x7e, 0x7e],
     [0x83, 0x7e, 0x7e, 0x80, 0x7f, 0x7f, 0x7d, 0x80, 0x80, 0x80, 0x83, 0x83, 0x7f, 0x86, 0x86, 0x85, 0x87, 0x87],
     [0x88, 0x89, 0x89, 0x85, 0x8c, 0x8c, 0x7b, 0x73, 0xc6, 0x8b, 0x8f, 0x8f, 0x8c, 0x90, 0x90, 0x8e, 0x90, 0x90],
     [0x96, 0x91, 0x91, 0x8f, 0x93, 0x93, 0x85, 0x7f, 0xc2, 0x90, 0x8c, 0xa8, 0x95, 0x95, 0x95, 0x93, 0x97, 0x97],
     [0x94, 0x97, 0x97, 0x88, 0x8a, 0xba, 0x94, 0x99, 0x99, 0x97, 0x99, 0x99, 0x9f, 0x9a, 0x9a, 0x8e, 0x93, 0xb9],
     [0xa6, 0xa1, 0xa1, 0xa3, 0xa3, 0xa3, 0xa7, 0xa3, 0xa4, 0xa6, 0xa6, 0xa6, 0xae, 0xaa, 0xaa, 0xb2, 0xac, 0xac],
     [0xaf, 0xad, 0xad, 0xb6, 0xad, 0xad, 0xb0, 0xae, 0xae, 0xb4, 0xb2, 0xb2, 0xb7, 0xb7, 0xb7, 0xb8, 0xba, 0xba],
     [0xb5, 0xbc, 0xbc, 0xb6, 0xbd, 0xbd, 0xbd, 0xbd, 0xbd, 0xc0, 0xbd, 0xbd, 0xbf, 0xbe, 0xbe, 0xc1, 0xc3, 0xc3],
     [0xc2, 0xc4, 0xc4, 0xcc, 0xca, 0xca, 0xc6, 0xcb, 0xcb, 0xc2, 0xca, 0xcf, 0xca, 0xcb, 0xcb, 0xcb, 0xcc, 0xcc],
     [0xca, 0xce, 0xd0, 0xcc, 0xd1, 0xd1, 0xd2, 0xd2, 0xd2, 0xd3, 0xd2, 0xd2, 0xd1, 0xd1, 0xd6, 0xd5, 0xd3, 0xd3],
     [0xd2, 0xd4, 0xd4, 0xd0, 0xd5, 0xd5, 0xce, 0xd6, 0xd6, 0xd1, 0xd7, 0xd7, 0xd6, 0xd6, 0xdb, 0xd9, 0xd9, 0xd9],
     [0xd7, 0xda, 0xda, 0xde, 0xda, 0xda, 0xe3, 0xde, 0xe3, 0xe2, 0xe0, 0xe0, 0xe1, 0xe1, 0xe1, 0xe5, 0xe3, 0xe3],
     [0xe7, 0xe3, 0xe3, 0xe5, 0xe7, 0xe7, 0xe9, 0xe7, 0xe7, 0xea, 0xe8, 0xe8, 0xeb, 0xea, 0xea, 0xef, 0xec, 0xec],
     [0xee, 0xf1, 0xf1, 0xf4, 0xf3, 0xf3, 0xf6, 0xf6, 0xf6]] @
   concat [
     [0xf0, 0x07, 0x07, 0x07, 0x03, 0x81, 0xae, 0x8b, 0x70, 0x18, 0x77, 0x75],
     [0x65, 0x07, 0x06, 0x2f, 0xe6, 0xe4, 0x0c, 0xc8, 0xa4, 0x74, 0x21, 0x47],
     [0x06, 0x02, 0xa2, 0x06, 0xc1, 0x0e, 0x00, 0x1c, 0x07, 0x47, 0x07, 0x24],
     [0x00, 0xd4, 0x5d, 0x05, 0xc3, 0xcc, 0xb6, 0xaf, 0x9b, 0x30, 0x89, 0x0a],
     [0x1f, 0x03, 0x9d, 0xbb, 0x05, 0xc2, 0x06, 0xcb, 0x96, 0x7f, 0x57, 0x14],
     [0x4f, 0x02, 0x0f, 0x00, 0x30, 0x45, 0xdb, 0x2c, 0xb4, 0xa7, 0x00, 0x08],
     [0x60, 0x22, 0x4f, 0x02, 0x1d, 0x58, 0x50, 0x67, 0xb9, 0x01, 0x8e, 0xab],
     [0x9f, 0x00, 0x46, 0xd8, 0x38, 0x3f, 0x80, 0x01, 0x33, 0x4f, 0x4a, 0x42],
     [0x5e, 0xa0, 0xac, 0x02, 0x92, 0x05, 0xb7, 0xdd, 0xce, 0x54, 0x3f, 0x00],
     [0x00, 0x00, 0x1a, 0x4d, 0x36, 0x19, 0x40, 0x6b, 0xbc, 0x00, 0x7c, 0x76],
     [0xd1, 0x35, 0x6f, 0xc4, 0x8a, 0x10, 0x80, 0x34, 0x53, 0x9e, 0x25, 0x09],
     [0x60, 0x3a, 0x13, 0x00, 0x23, 0x47, 0xcf, 0x8d, 0xda, 0x59, 0x00, 0x00],
     [0x08, 0x16, 0x90, 0xa6, 0x3b, 0x3a, 0x0e, 0xc4, 0xec, 0x00, 0xe5, 0xa9],
     [0x78, 0x6e, 0x39, 0x31, 0x48, 0xb0, 0x00, 0xdc, 0x8f, 0x00, 0x00, 0x11],
     [0x32, 0x28, 0x1e, 0x40, 0x37, 0x42, 0x7b, 0xdf, 0x4c, 0x91, 0xc0, 0xde],
     [0x00, 0xe0, 0xaa, 0x80, 0x4e, 0x4b, 0x86, 0xc6, 0xb8, 0x08, 0xbd, 0xd7],
     [0xe9, 0xa1, 0x52, 0x00, 0x2b, 0xd0, 0x00, 0x73, 0x00, 0x06, 0x02, 0x18],
     [0x5f, 0xad, 0xd6, 0x00, 0x64, 0x4a, 0x61, 0x7e, 0x49, 0x52, 0x6d, 0xba],
     [0x40, 0xbf, 0x42, 0x0d, 0xb2, 0x84, 0x02, 0x0c, 0xd5, 0x00, 0xe7, 0xe2],
     [0xca, 0x97, 0x94, 0x93, 0x56, 0x55, 0x01, 0xb1, 0x5c, 0x00, 0x00, 0x43],
     [0xcd, 0x17, 0x39, 0x00, 0x8c, 0x88, 0x03, 0x00, 0x26, 0xe1, 0x7d, 0x34],
     [0x00, 0x02, 0x3c, 0xc7, 0xd2, 0x3f, 0xb5, 0x71, 0x66, 0x04, 0x00, 0x00],
     [0x0b, 0xbe, 0x3d, 0x41, 0x62, 0x02, 0x00, 0x00, 0x00, 0x41, 0xc5, 0x00],
     [0x04, 0x63, 0xd3, 0x04, 0x68, 0xd9, 0x1e, 0x98, 0x3e, 0x71, 0x00, 0x72],
     [0x60, 0x85, 0xd2, 0x21, 0x7a, 0x9c, 0x00, 0x9a, 0xea, 0x02, 0x82, 0x20],
     [0xe3, 0x2d, 0x03, 0x02, 0x42, 0x12, 0x20, 0x87, 0x05, 0x3c, 0x99, 0x44],
     [0x00, 0x5b, 0xe8, 0x09, 0x1f, 0x29, 0xeb, 0x5a, 0x8c, 0x00, 0x06, 0xc5],
     [0x40, 0x95, 0x09, 0xbf, 0x83, 0x21, 0xd4, 0xc9, 0x51, 0x68, 0x07, 0x35],
     [0x04, 0x1b, 0x01, 0x69, 0xa8, 0x00, 0x03, 0x15, 0x6a, 0xb3, 0xa3, 0x2a],
     [0x01, 0x37, 0x04, 0x21, 0x12, 0xa5, 0x19, 0x05, 0x27, 0x6c, 0x2e, 0x47],
     [0xbe, 0x05, 0x79, 0x7f, 0x37, 0x77, 0x2f, 0x07]]"

definition g_pui8SpiderDR2Image :: "u8 \<Rightarrow> u8 list" where
  "g_pui8SpiderDR2Image IMAGE_FMT_8BPP_COMP =
   [IMAGE_FMT_8BPP_COMP, 24, 0, 24, 0, 236] @
   concat [
     [0x00, 0x00, 0x00, 0x01, 0x00, 0x00, 0x01, 0x01, 0x01, 0x02, 0x01, 0x01, 0x01, 0x02, 0x02, 0x02, 0x02, 0x02],
     [0x02, 0x03, 0x03, 0x03, 0x03, 0x03, 0x05, 0x03, 0x03, 0x03, 0x04, 0x04, 0x05, 0x04, 0x04, 0x05, 0x05, 0x05],
     [0x07, 0x06, 0x06, 0x06, 0x08, 0x08, 0x08, 0x08, 0x08, 0x08, 0x07, 0x0a, 0x09, 0x09, 0x09, 0x0a, 0x09, 0x09],
     [0x09, 0x0a, 0x0a, 0x0d, 0x00, 0x1f, 0x0d, 0x0b, 0x0b, 0x0e, 0x0b, 0x0b, 0x0b, 0x0c, 0x0c, 0x0c, 0x0c, 0x0c],
     [0x0d, 0x0d, 0x0d, 0x00, 0x00, 0x2e, 0x0d, 0x0d, 0x16, 0x0e, 0x10, 0x10, 0x11, 0x10, 0x10, 0x0f, 0x0d, 0x17],
     [0x0f, 0x11, 0x11, 0x0f, 0x12, 0x12, 0x11, 0x12, 0x12, 0x15, 0x13, 0x13, 0x13, 0x14, 0x14, 0x17, 0x14, 0x14],
     [0x04, 0x00, 0x43, 0x16, 0x15, 0x15, 0x19, 0x15, 0x15, 0x12, 0x16, 0x16, 0x15, 0x18, 0x18, 0x1b, 0x1a, 0x1a],
     [0x1d, 0x1c, 0x1c, 0x1e, 0x1c, 0x1c, 0x1b, 0x1d, 0x1d, 0x19, 0x1e, 0x1e, 0x24, 0x1e, 0x1e, 0x1d, 0x1f, 0x1f],
     [0x1c, 0x1e, 0x23, 0x22, 0x1f, 0x1f, 0x00, 0x00, 0x6c, 0x25, 0x20, 0x20, 0x20, 0x1a, 0x2e, 0x1e, 0x22, 0x22],
     [0x24, 0x22, 0x22, 0x00, 0x00, 0x81, 0x1d, 0x29, 0x29, 0x21, 0x29, 0x29, 0x06, 0x01, 0x83, 0x14, 0x00, 0x85],
     [0x28, 0x2c, 0x2c, 0x29, 0x2d, 0x2d, 0x31, 0x2e, 0x2e, 0x34, 0x2f, 0x2f, 0x2d, 0x2f, 0x38, 0x00, 0x00, 0xa8],
     [0x2e, 0x33, 0x33, 0x00, 0x00, 0xab, 0x3a, 0x33, 0x33, 0x34, 0x34, 0x35, 0x2f, 0x35, 0x35, 0x35, 0x36, 0x36],
     [0x11, 0x0b, 0x99, 0x04, 0x03, 0xae, 0x32, 0x37, 0x37, 0x00, 0x00, 0xb6, 0x01, 0x01, 0xb4, 0x01, 0x00, 0xb6],
     [0x09, 0x09, 0xa2, 0x0a, 0x0a, 0xa0, 0x07, 0x04, 0xad, 0x38, 0x37, 0x37, 0x33, 0x38, 0x38, 0x36, 0x38, 0x38],
     [0x3c, 0x38, 0x38, 0x3e, 0x38, 0x38, 0x04, 0x04, 0xb5, 0x05, 0x05, 0xb4, 0x1b, 0x15, 0x8d, 0x37, 0x3a, 0x3a],
     [0x39, 0x3a, 0x3a, 0x3c, 0x3a, 0x3a, 0x3d, 0x3a, 0x3a, 0x37, 0x3b, 0x3b, 0x3a, 0x3b, 0x3b, 0x0b, 0x0b, 0xad],
     [0x23, 0x24, 0x74, 0x3c, 0x3c, 0x3c, 0x14, 0x0b, 0xae, 0x3c, 0x3e, 0x3e, 0x3e, 0x3e, 0x3e, 0x10, 0x10, 0xad],
     [0x3f, 0x40, 0x40, 0x3e, 0x41, 0x41, 0x1b, 0x1d, 0x97, 0x3f, 0x42, 0x42, 0x3b, 0x44, 0x44, 0x44, 0x43, 0x43],
     [0x22, 0x21, 0x93, 0x48, 0x44, 0x44, 0x4d, 0x44, 0x44, 0x1f, 0x1a, 0xac, 0x4b, 0x46, 0x46, 0x43, 0x47, 0x47],
     [0x45, 0x47, 0x47, 0x4a, 0x47, 0x47, 0x4b, 0x47, 0x47, 0x47, 0x48, 0x48, 0x4b, 0x4d, 0x4d, 0x4d, 0x4d, 0x4d],
     [0x49, 0x50, 0x50, 0x45, 0x4f, 0x5d, 0x55, 0x52, 0x52, 0x4f, 0x53, 0x53, 0x58, 0x55, 0x55, 0x51, 0x57, 0x57],
     [0x5e, 0x56, 0x56, 0x4e, 0x56, 0x5c, 0x58, 0x58, 0x58, 0x32, 0x32, 0xb1, 0x61, 0x59, 0x59, 0x56, 0x5c, 0x5c],
     [0x57, 0x5e, 0x5e, 0x66, 0x5d, 0x5d, 0x44, 0x3c, 0xac, 0x5e, 0x5f, 0x5f, 0x5c, 0x63, 0x63, 0x63, 0x63, 0x63],
     [0x65, 0x64, 0x64, 0x68, 0x65, 0x65, 0x66, 0x66, 0x66, 0x69, 0x66, 0x66, 0x6a, 0x67, 0x68, 0x5d, 0x69, 0x69],
     [0x67, 0x6a, 0x6a, 0x6b, 0x6a, 0x6a, 0x60, 0x6c, 0x6c, 0x74, 0x6f, 0x6f, 0x54, 0x54, 0xb6, 0x71, 0x74, 0x74],
     [0x6d, 0x75, 0x75, 0x72, 0x75, 0x75, 0x79, 0x77, 0x77, 0x7b, 0x77, 0x77, 0x76, 0x7a, 0x7a, 0x80, 0x7b, 0x7b],
     [0x7a, 0x7c, 0x7c, 0x7d, 0x7c, 0x7c, 0x7e, 0x7c, 0x7c, 0x75, 0x75, 0x8f, 0x7d, 0x7d, 0x7d, 0x7d, 0x7e, 0x7e],
     [0x80, 0x7f, 0x7f, 0x83, 0x7f, 0x7f, 0x7d, 0x80, 0x80, 0x80, 0x83, 0x83, 0x7f, 0x86, 0x86, 0x85, 0x87, 0x87],
     [0x88, 0x8a, 0x8a, 0x85, 0x8c, 0x8c, 0x7b, 0x73, 0xc6, 0x8b, 0x8f, 0x8f, 0x8c, 0x90, 0x90, 0x8e, 0x90, 0x90],
     [0x96, 0x90, 0x90, 0x8f, 0x93, 0x93, 0x84, 0x7e, 0xc2, 0x8f, 0x8c, 0xa7, 0x95, 0x95, 0x95, 0x93, 0x96, 0x96],
     [0x93, 0x97, 0x97, 0x93, 0x99, 0x99, 0x88, 0x8b, 0xba, 0x97, 0x99, 0x99, 0x9f, 0x9a, 0x9a, 0x8e, 0x93, 0xb9],
     [0xa6, 0xa1, 0xa1, 0xa7, 0xa3, 0xa4, 0xa3, 0xa4, 0xa4, 0xa5, 0xa5, 0xa5, 0xae, 0xaa, 0xaa, 0xb2, 0xac, 0xac],
     [0xaf, 0xad, 0xad, 0xb0, 0xae, 0xae, 0xb6, 0xae, 0xae, 0xb4, 0xb2, 0xb2, 0xb7, 0xb6, 0xb6, 0xb7, 0xb7, 0xb7],
     [0xb8, 0xba, 0xba, 0xb5, 0xbc, 0xbc, 0xb6, 0xbd, 0xbd, 0xbd, 0xbd, 0xbd, 0xc0, 0xbd, 0xbd, 0xbf, 0xbe, 0xbe],
     [0xc1, 0xc3, 0xc3, 0xc2, 0xc4, 0xc4, 0xcd, 0xca, 0xca, 0xc6, 0xcb, 0xcb, 0xc2, 0xca, 0xcf, 0xcb, 0xcb, 0xcb],
     [0xca, 0xce, 0xd0, 0xcb, 0xd1, 0xd1, 0xd2, 0xd2, 0xd2, 0xd4, 0xd2, 0xd2, 0xd1, 0xd1, 0xd6, 0xd5, 0xd3, 0xd3],
     [0xd2, 0xd4, 0xd4, 0xd0, 0xd5, 0xd5, 0xce, 0xd6, 0xd6, 0xd1, 0xd7, 0xd7, 0xd7, 0xd6, 0xdb, 0xd7, 0xda, 0xda],
     [0xd9, 0xda, 0xda, 0xde, 0xda, 0xda, 0xe2, 0xde, 0xe3, 0xe2, 0xe0, 0xe0, 0xe0, 0xe1, 0xe1, 0xe5, 0xe4, 0xe4],
     [0xe7, 0xe4, 0xe4, 0xe5, 0xe7, 0xe7, 0xea, 0xe7, 0xe7, 0xea, 0xe8, 0xe8, 0xeb, 0xea, 0xea, 0xef, 0xec, 0xec],
     [0xee, 0xf1, 0xf1, 0xf4, 0xf3, 0xf3, 0xf7, 0xf6, 0xf6]] @
   concat [
     [0xf0, 0x07, 0x07, 0x07, 0x07, 0x00, 0x00, 0x0d, 0x8d, 0x60, 0x63, 0x07],
     [0x07, 0x00, 0x00, 0x2c, 0xb2, 0x8a, 0x60, 0x02, 0x47, 0x07, 0x0e, 0x7c],
     [0xd1, 0x85, 0x03, 0xc1, 0x4f, 0x07, 0x54, 0xc4, 0xdf, 0x71, 0x02, 0x4f],
     [0x80, 0x07, 0x00, 0x9e, 0xec, 0x53, 0x00, 0x0c, 0x27, 0x06, 0x42, 0x7a],
     [0x9a, 0x96, 0x1b, 0x17, 0x02, 0x26, 0x00, 0xe5, 0x92, 0x06, 0xd5, 0xe1],
     [0xc6, 0x9c, 0x46, 0xc0, 0x57, 0x09, 0x1d, 0x34, 0x1a, 0x09, 0xa9, 0xc0],
     [0x10, 0x02, 0xe7, 0x7e, 0x5f, 0x82, 0x31, 0x02, 0x00, 0x00, 0x00, 0x0f],
     [0x58, 0x50, 0x4e, 0x60, 0x79, 0xdd, 0x02, 0x18, 0xe2, 0x35, 0x04, 0x9d],
     [0x5c, 0x2c, 0xae, 0x00, 0xe6, 0xa3, 0x25, 0x00, 0x30, 0x4f, 0x4b, 0x37],
     [0x00, 0x3b, 0x6f, 0xe0, 0x61, 0xcb, 0x02, 0x64, 0xea, 0x08, 0xe8, 0xbf],
     [0x6a, 0x10, 0x29, 0x8c, 0xe4, 0xc2, 0x00, 0xd4, 0x9d, 0x45, 0x68, 0x43],
     [0x19, 0x13, 0x3a, 0x00, 0xaa, 0xad, 0x98, 0x3d, 0xd3, 0x83, 0x20, 0x84],
     [0x00, 0xa8, 0xa5, 0x7b, 0x00, 0x00, 0x72, 0xc9, 0x0e, 0x00, 0x5e, 0xbc],
     [0xdb, 0xb9, 0x5f, 0x41, 0x24, 0x32, 0x00, 0x81, 0xd6, 0x95, 0xc8, 0x69],
     [0x21, 0x2a, 0x22, 0x00, 0x00, 0x00, 0x00, 0x00, 0x00, 0x78, 0xa4, 0x00],
     [0x00, 0x05, 0x05, 0x2d, 0x8e, 0x9f, 0x6c, 0x48, 0x49, 0x00, 0x4c, 0x65],
     [0x94, 0xd2, 0xd9, 0xe3, 0xeb, 0xd4, 0x40, 0x15, 0x3a, 0x76, 0x75, 0x1c],
     [0xc3, 0xc1, 0xb4, 0x00, 0xab, 0xac, 0xbb, 0xd0, 0xb0, 0x4d, 0x4b, 0x57],
     [0x02, 0x40, 0x1e, 0x2e, 0x5b, 0xca, 0x6b, 0x42, 0x67, 0x00, 0x22, 0x07],
     [0xcd, 0xcc, 0xa7, 0xa0, 0x93, 0x7d, 0x00, 0x8f, 0xdc, 0x86, 0x62, 0x56],
     [0xb6, 0x99, 0x03, 0x08, 0x00, 0x51, 0xb3, 0x05, 0x3a, 0x00, 0x00, 0xb5],
     [0x00, 0x97, 0x00, 0x00, 0x05, 0x77, 0xda, 0x90, 0xc7, 0x00, 0x7f, 0xb1],
     [0x73, 0x3f, 0x01, 0x00, 0x07, 0xa2, 0x40, 0x28, 0x44, 0xaf, 0x80, 0x08],
     [0x47, 0xb7, 0xd1, 0x02, 0x5a, 0x00, 0xb8, 0x4a, 0x5d, 0x66, 0x72, 0x2b],
     [0x40, 0x6d, 0x44, 0x9b, 0x59, 0x23, 0xd8, 0xde, 0x36, 0x09, 0x00, 0x00],
     [0xbd, 0x52, 0x84, 0x01, 0x2f, 0x44, 0x00, 0x89, 0x14, 0x00, 0x39, 0xcf],
     [0x70, 0x00, 0x11, 0x31, 0xd7, 0x6e, 0x44, 0x14, 0x00, 0x00, 0x0a, 0x09],
     [0x00, 0x55, 0xc5, 0x16, 0x33, 0xe9, 0xba, 0x44, 0x0b, 0xc0, 0x37, 0x06],
     [0x8b, 0x91, 0x29, 0xa1, 0xbf, 0xce, 0x18, 0xbe, 0x74, 0x12, 0x37, 0x04],
     [0x10, 0xa6, 0x1f, 0x01, 0x00, 0x00, 0x17, 0x3e, 0x87, 0x88, 0x06, 0x3f],
     [0x97, 0x04, 0x3c, 0x38, 0x03, 0x04, 0x4f, 0x07, 0x77, 0x80, 0x2c]]"

text \<open>Two pictures for each of the eight directions.\<close>

definition g_ppui8SpiderImage :: "u8 \<Rightarrow> u8 list list" where
  "g_ppui8SpiderImage f =
    [g_pui8SpiderR1Image f, g_pui8SpiderR2Image f,
     g_pui8SpiderDR1Image f, g_pui8SpiderDR2Image f,
     g_pui8SpiderD1Image f, g_pui8SpiderD2Image f,
     g_pui8SpiderDL1Image f, g_pui8SpiderDL2Image f,
     g_pui8SpiderL1Image f, g_pui8SpiderL2Image f,
     g_pui8SpiderUL1Image f, g_pui8SpiderUL2Image f,
     g_pui8SpiderU1Image f, g_pui8SpiderU2Image f,
     g_pui8SpiderUR1Image f, g_pui8SpiderUR2Image f]"

subsection \<open>Sizes and palettes\<close>

text \<open>The documented layout: after the format the width and the height, low byte first; a picture of
  8 bits per pixel then has the highest index of its palette and three bytes for each colour.\<close>

definition image_width :: "u8 list \<Rightarrow> nat" where
  "image_width p = unat (p ! 1) + 256 * unat (p ! 2)"

definition image_height :: "u8 list \<Rightarrow> nat" where
  "image_height p = unat (p ! 3) + 256 * unat (p ! 4)"

definition palette_end :: "u8 list \<Rightarrow> nat" where
  "palette_end p = 6 + 3 * (unat (p ! 5) + 1)"

text \<open>A picture of a spider's size whose palette is complete and followed by pixels.\<close>

definition spider_picture :: "u8 list \<Rightarrow> bool" where
  "spider_picture p \<longleftrightarrow> image_width p = 24 \<and> image_height p = 24 \<and> palette_end p < length p"

lemmas picture_defs = spider_picture_def image_width_def image_height_def palette_end_def

lemma picture_L1: "spider_picture (g_pui8SpiderL1Image f)"
  by (simp add: picture_defs g_pui8SpiderL1Image_def)

lemma picture_L2: "spider_picture (g_pui8SpiderL2Image f)"
  by (simp add: picture_defs g_pui8SpiderL2Image_def)

lemma picture_R1: "spider_picture (g_pui8SpiderR1Image f)"
  by (simp add: picture_defs g_pui8SpiderR1Image_def)

lemma picture_R2: "spider_picture (g_pui8SpiderR2Image f)"
  by (simp add: picture_defs g_pui8SpiderR2Image_def)

lemma picture_U1: "spider_picture (g_pui8SpiderU1Image f)"
  by (simp add: picture_defs g_pui8SpiderU1Image_def)

lemma picture_U2: "spider_picture (g_pui8SpiderU2Image f)"
  by (simp add: picture_defs g_pui8SpiderU2Image_def)

lemma picture_D1: "spider_picture (g_pui8SpiderD1Image f)"
  by (simp add: picture_defs g_pui8SpiderD1Image_def)

lemma picture_D2: "spider_picture (g_pui8SpiderD2Image f)"
  by (simp add: picture_defs g_pui8SpiderD2Image_def)

lemma picture_UL1: "spider_picture (g_pui8SpiderUL1Image f)"
  by (simp add: picture_defs g_pui8SpiderUL1Image_def)

lemma picture_UL2: "spider_picture (g_pui8SpiderUL2Image f)"
  by (simp add: picture_defs g_pui8SpiderUL2Image_def)

lemma picture_UR1: "spider_picture (g_pui8SpiderUR1Image f)"
  by (simp add: picture_defs g_pui8SpiderUR1Image_def)

lemma picture_UR2: "spider_picture (g_pui8SpiderUR2Image f)"
  by (simp add: picture_defs g_pui8SpiderUR2Image_def)

lemma picture_DL1: "spider_picture (g_pui8SpiderDL1Image f)"
  by (simp add: picture_defs g_pui8SpiderDL1Image_def)

lemma picture_DL2: "spider_picture (g_pui8SpiderDL2Image f)"
  by (simp add: picture_defs g_pui8SpiderDL2Image_def)

lemma picture_DR1: "spider_picture (g_pui8SpiderDR1Image f)"
  by (simp add: picture_defs g_pui8SpiderDR1Image_def)

lemma picture_DR2: "spider_picture (g_pui8SpiderDR2Image f)"
  by (simp add: picture_defs g_pui8SpiderDR2Image_def)

lemma blank_size: "image_width (g_pui8SpiderBlankImage f) = 24" "image_height (g_pui8SpiderBlankImage f) = 24"
  by (simp_all add: picture_defs g_pui8SpiderBlankImage_def)

lemmas spider_pictures =
  picture_L1 picture_L2 picture_R1 picture_R2
  picture_U1 picture_U2 picture_D1 picture_D2
  picture_UL1 picture_UL2 picture_UR1 picture_UR2
  picture_DL1 picture_DL2 picture_DR1 picture_DR2

lemma table_length: "length (g_ppui8SpiderImage f) = 16"
  by (simp add: g_ppui8SpiderImage_def)

lemma table_pictures: "list_all spider_picture (g_ppui8SpiderImage f)"
  by (simp add: g_ppui8SpiderImage_def spider_pictures)

lemma table_nth: "n < 16 \<Longrightarrow> spider_picture (g_ppui8SpiderImage f ! n)"
  using table_pictures [of f] table_length [of f] by (simp add: list_all_length)

end
