(* ===== verification/SpiderDisplay.thy ===== *)
theory SpiderDisplay
  imports Spider IdleTask Pictures
begin

text \<open>
  The spider tasks and the display task together: what \<open>spider_task.c\<close> asks for with \<open>DisplayImage\<close>
  travels through the queue of \<open>display_task.c\<close>, between the requests of the other tasks, and is drawn
  with the pictures of \<open>images.c\<close>. A task sends after its critical section; until the queue takes
  its request the request is pending. A task may here go on while its request is pending, which
  allows more runs than the code has.
\<close>

record game =
  spider_world :: world
  pending :: "draw list"
  panel :: display

definition draw_request :: "draw \<Rightarrow> display_message" where
  "draw_request d = (case d of (x, y, im) \<Rightarrow> DisplayImage (word_of_int x) (word_of_int y) im)"

fun is_picture :: "display_message \<Rightarrow> bool" where
  "is_picture (DISPLAY_IMAGE x y im) \<longleftrightarrow> True"
| "is_picture m \<longleftrightarrow> False"

text \<open>The steps: of the spiders, of a request that reaches the queue, of another task that sends
  (only \<open>spider_task.c\<close> sends pictures), and of the display task.\<close>

inductive game_step :: "game \<Rightarrow> game \<Rightarrow> bool" where
  walk: "spider_step (spider_world s) w \<Longrightarrow>
     game_step s (s\<lparr>spider_world := w,
       pending := pending s @ drop (length (drawn (spider_world s))) (drawn w)\<rparr>)"
| send_picture: "pending s = ps @ p # qs \<Longrightarrow> display_step (panel s) d \<Longrightarrow>
     sent d = sent (panel s) @ [draw_request p] \<Longrightarrow>
     game_step s (s\<lparr>pending := ps @ qs, panel := d\<rparr>)"
| send_other: "display_step (panel s) d \<Longrightarrow> sent d = sent (panel s) @ [m] \<Longrightarrow> \<not> is_picture m \<Longrightarrow>
     game_step s (s\<lparr>panel := d\<rparr>)"
| show_one: "display_step (panel s) d \<Longrightarrow> sent d = sent (panel s) \<Longrightarrow> game_step s (s\<lparr>panel := d\<rparr>)"

definition game_start :: "u32 \<times> u32 \<Rightarrow> game" where
  "game_start p = \<lparr>spider_world = world_start, pending = [], panel = display_start p\<rparr>"

text \<open>The picture a request names, from the table or the blank one; \<open>f1\<close>, \<open>f8\<close> are the codes of the
  formats.\<close>

definition picture :: "u8 \<Rightarrow> u8 \<Rightarrow> nat option \<Rightarrow> u8 list" where
  "picture f1 f8 im = (case im of None \<Rightarrow> g_pui8SpiderBlankImage f1 | Some n \<Rightarrow> g_ppui8SpiderImage f8 ! n)"

subsection \<open>The invariant\<close>

lemma drawn_grows: "spider_step w w' \<Longrightarrow> \<exists>ds. drawn w' = drawn w @ ds"
  by (induction rule: spider_step.induct)
    (auto simp: put_task_def drop_task_def add_task_def split: option.splits)

text \<open>Every picture the spiders asked for is pending or was sent, once.\<close>

definition game_inv :: "u32 \<times> u32 \<Rightarrow> game \<Rightarrow> bool" where
  "game_inv p s \<longleftrightarrow> world_ok (spider_world s) \<and> display_inv p (panel s) \<and>
     mset (filter is_picture (sent (panel s))) + mset (map draw_request (pending s)) =
       mset (map draw_request (drawn (spider_world s)))"

lemma draw_request_picture: "is_picture (draw_request d)"
  by (cases d) (simp add: draw_request_def DisplayImage_def)

lemma game_inv_step: "game_inv p s \<Longrightarrow> game_step s t \<Longrightarrow> game_inv p t"
proof (elim game_step.cases)
  fix s' w
  assume a: "game_inv p s" "s = s'" "t = s'\<lparr>spider_world := w,
      pending := pending s' @ drop (length (drawn (spider_world s'))) (drawn w)\<rparr>"
    "spider_step (spider_world s') w"
  obtain ds where "drawn w = drawn (spider_world s') @ ds" using drawn_grows [OF a(4)] by blast
  with a world_ok_step [OF a(4)] show "game_inv p t" by (auto simp: game_inv_def)
qed (auto simp: game_inv_def draw_request_picture intro: display_inv_step)

interpretation game_sys: invariant_system "game_start p" game_step "game_inv p" for p
proof unfold_locales
  show "game_inv p (game_start p)"
    using world_start_ok display_sys.inv_start [of p]
    by (simp add: game_inv_def game_start_def display_start_def world_start_def Let_def split_def)
qed (rule game_inv_step)

subsection \<open>From requests to the screen\<close>

fun is_image :: "gr \<Rightarrow> bool" where
  "is_image (GrImageDraw x y im) \<longleftrightarrow> True"
| "is_image g \<longleftrightarrow> False"

text \<open>What a request of a spider looks like on the screen: the coordinates are cut to 16 bits.\<close>

definition drawn_as :: "draw \<Rightarrow> gr" where
  "drawn_as d = (case d of (x, y, im) \<Rightarrow> GrImageDraw (word_of_int x) (word_of_int y) im)"

lemma cut_16: "ucast (word_of_int a :: u32) = (word_of_int a :: u16)"
  by (rule bit_word_eqI) (auto simp: bit_simps)

lemma drawing_request [simp]: "drawing (draw_request d) = [drawn_as d]"
  by (cases d) (simp add: draw_request_def drawn_as_def DisplayImage_def cut_16 del: unsigned_of_int)

lemma concat_drawing_requests: "concat (map drawing (map draw_request ds)) = map drawn_as ds"
  by (induction ds) auto

lemma images_of_messages:
  "filter is_image (concat (map drawing ms)) = concat (map drawing (filter is_picture ms))"
proof (induction ms)
  case (Cons m ms)
  then show ?case by (cases m) auto
qed simp

lemma images_shown: "run_display ms p = (q, gs) \<Longrightarrow> filter is_image gs = concat (map drawing (filter is_picture ms))"
proof (induction ms arbitrary: p q gs)
  case (Cons m ms)
  obtain p1 g where m: "DisplayTask m p = (p1, g)" by (rule prod.exhaust)
  obtain p2 gs2 where ms: "run_display ms p1 = (p2, gs2)" by (rule prod.exhaust)
  from Cons.prems Cons.IH [OF ms] m ms show ?case by (cases m) auto
qed simp

lemma mset_drawings: "mset ms = mset ns \<Longrightarrow> mset (concat (map drawing ms)) = mset (concat (map drawing ns))"
  by (metis mset_concat mset_map sum_mset_sum_list)

lemma pictures_balance:
  assumes "game_inv p s"
  shows "mset (filter is_image (screen (panel s))) +
      mset (filter is_image (concat (map drawing (queue (panel s))))) + mset (map drawn_as (pending s)) =
    mset (map drawn_as (drawn (spider_world s)))"
proof -
  obtain handled where h: "sent (panel s) = handled @ queue (panel s)"
    "run_display handled p = (pen (panel s), screen (panel s))"
    using assms by (auto simp: game_inv_def display_inv_def)
  have "mset (filter is_picture handled @ filter is_picture (queue (panel s)) @ map draw_request (pending s)) =
      mset (map draw_request (drawn (spider_world s)))"
    using assms h(1) by (simp add: game_inv_def add.assoc)
  from mset_drawings [OF this] show ?thesis
    by (simp add: images_shown [OF h(2)] images_of_messages concat_drawing_requests add.assoc del: map_map mset_map)
qed

lemma shown_was_asked:
  assumes "game_inv p s" "GrImageDraw x y im \<in> set (screen (panel s))"
  obtains a b where "x = word_of_int a" "y = word_of_int b" "draw_ok (a, b, im)"
proof -
  have "GrImageDraw x y im \<in># mset (filter is_image (screen (panel s)))" using assms(2) by simp
  then have "GrImageDraw x y im \<in># mset (map drawn_as (drawn (spider_world s)))"
    unfolding pictures_balance [OF assms(1), symmetric] by (metis union_iff)
  then obtain a b where d: "(a, b, im) \<in> set (drawn (spider_world s))" "x = word_of_int a" "y = word_of_int b"
    by (auto simp: drawn_as_def)
  then have "draw_ok (a, b, im)" using assms(1) by (auto simp: game_inv_def world_ok_def)
  with d that show ?thesis by blast
qed

lemma coordinate: "0 \<le> a \<Longrightarrow> a < 2 ^ 16 \<Longrightarrow> unat (word_of_int a :: u16) = nat a"
  by (simp add: unat_eq_nat_uint uint_word_of_int)

lemma picture_size:
  assumes "case im of None \<Rightarrow> True | Some n \<Rightarrow> n < 16"
  shows "image_width (picture f1 f8 im) = 24" "image_height (picture f1 f8 im) = 24"
  using assms blank_size table_nth by (auto simp: picture_def spider_picture_def split: option.splits)

subsection \<open>A run that draws\<close>

lemma first_task: "0 < length (tasks world_start)" "tasks world_start ! 0 = new_task 0"
  by (simp_all add: world_start_def init_eval)

text \<open>The first spider's task enters its loop, finds itself alive, and moves.\<close>

lemma a_picture_is_asked: "\<exists>w d. spider_step\<^sup>*\<^sup>* world_start w \<and> drawn w = [d]"
proof -
  let ?w0 = world_start
  have ok: "spiders_ok (shared ?w0)" using world_start_ok by (simp add: world_ok_def)
  obtain st1 where "reseed 0 (shared ?w0) = Some st1" using reseed_spec [OF ok, of 0] by blast
  then obtain st t where e: "spider_enter 0 (shared ?w0) (tasks ?w0 ! 0) = Some (st, t)"
    "\<not> bit (SpiderDead st) (num t)" "pc t = Top"
    by (auto simp: spider_enter_def Let_def split_def bit_unset_bit_iff)
  let ?w1 = "put_task (?w0\<lparr>shared := st\<rparr>) 0 t"
  have s1: "spider_step ?w0 ?w1"
    using first_task e(1) by (intro enter) (simp_all add: new_task_def)
  have t1: "tasks ?w1 ! 0 = t" "0 < length (tasks ?w1)" "shared ?w1 = st"
    using first_task(1) by (simp_all add: put_task_def)
  let ?w2 = "put_task ?w1 0 (t\<lparr>pc := Checked\<rparr>)"
  have s2: "spider_step ?w1 ?w2" using lives [of 0 ?w1] t1 e(2,3) by simp
  have t2: "tasks ?w2 ! 0 = t\<lparr>pc := Checked\<rparr>" "0 < length (tasks ?w2)"
    using t1(2) by (simp_all add: put_task_def)
  obtain st3 t3 d where m: "spider_move (shared ?w2) (tasks ?w2 ! 0) = (st3, t3, d)"
    by (rule prod_cases3)
  let ?w3 = "put_task (?w2\<lparr>shared := st3, drawn := drawn ?w2 @ [d]\<rparr>) 0 t3"
  have s3: "spider_step ?w2 ?w3" using move [OF t2(2) _ m] t2(1) by simp
  have "drawn ?w3 = [d]" by (simp add: put_task_def world_start_def init_eval)
  moreover have "spider_step\<^sup>*\<^sup>* ?w0 ?w3"
    using s1 s2 s3 by (meson converse_rtranclp_into_rtranclp rtranclp.rtrancl_refl)
  ultimately show ?thesis by blast
qed

lemma walks: "spider_step\<^sup>*\<^sup>* world_start w \<Longrightarrow>
    game_step\<^sup>*\<^sup>* (game_start p) ((game_start p)\<lparr>spider_world := w, pending := drawn w\<rparr>)"
proof (induction rule: rtranclp_induct)
  case base
  have "(game_start p)\<lparr>spider_world := world_start, pending := drawn world_start\<rparr> = game_start p"
    by (simp add: game_start_def world_start_def init_eval)
  then show ?case by simp
next
  case (step v w)
  obtain ds where ds: "drawn w = drawn v @ ds" using drawn_grows [OF step.hyps(2)] by blast
  have "game_step ((game_start p)\<lparr>spider_world := v, pending := drawn v\<rparr>)
      ((game_start p)\<lparr>spider_world := w, pending := drawn w\<rparr>)"
    using walk [of "(game_start p)\<lparr>spider_world := v, pending := drawn v\<rparr>" w] step.hyps(2)
    by (simp add: ds)
  with step.IH show ?case by (rule rtranclp.rtrancl_into_rtrancl)
qed

lemma a_picture_is_drawn:
  "\<exists>s x y im. game_step\<^sup>*\<^sup>* (game_start p) s \<and> GrImageDraw x y im \<in> set (screen (panel s))"
proof -
  obtain w d where w: "spider_step\<^sup>*\<^sup>* world_start w" "drawn w = [d]" using a_picture_is_asked by blast
  let ?s0 = "(game_start p)\<lparr>spider_world := w, pending := [d]\<rparr>"
  let ?d0 = "display_start p"
  let ?d1 = "?d0\<lparr>queue := queue ?d0 @ [draw_request d], sent := sent ?d0 @ [draw_request d]\<rparr>"
  let ?s1 = "?s0\<lparr>pending := [] @ [], panel := ?d1\<rparr>"
  have r0: "game_step\<^sup>*\<^sup>* (game_start p) ?s0" using walks [OF w(1), of p] w(2) by simp
  have "display_step ?d0 ?d1"
    by (rule display_step.send) (simp add: display_start_def DISPLAY_QUEUE_SIZE_def)
  then have s1: "game_step ?s0 ?s1"
    by (intro send_picture [where p = d]) (simp_all add: game_start_def)
  obtain x y im where q: "draw_request d = DISPLAY_IMAGE x y im"
    using draw_request_picture [of d] by (cases "draw_request d") auto
  let ?d2 = "?d1\<lparr>queue := [], pen := pen ?d1, screen := screen ?d1 @ [GrImageDraw x y im]\<rparr>"
  have "display_step ?d1 ?d2"
    by (rule display_step.receive [where m = "draw_request d"]) (simp_all add: q display_start_def)
  then have "game_step ?s1 (?s1\<lparr>panel := ?d2\<rparr>)" by (intro show_one) simp_all
  with r0 s1 have "game_step\<^sup>*\<^sup>* (game_start p) (?s1\<lparr>panel := ?d2\<rparr>)"
    by (meson rtranclp.rtrancl_into_rtrancl)
  then show ?thesis by (intro exI [of _ "?s1\<lparr>panel := ?d2\<rparr>"] exI [of _ x] exI [of _ y] exI [of _ im]) simp
qed

subsection \<open>Properties\<close>

text \<open>C17. Spiders on the screen: in every interleaving of the spider tasks, the control task, the touch
  screen, the other tasks that draw and the display task, every picture that is drawn, with the
  width and the height its data in \<open>images.c\<close> declare, lies inside the spiders' area: it covers
  neither the border of the screen nor the frame of the status line, whose upper edge is row 211.\<close>

theorem pictures_inside_area:
  assumes "game_step\<^sup>*\<^sup>* (game_start p) s" "GrImageDraw x y im \<in> set (screen (panel s))"
  shows "8 \<le> unat x \<and> unat x + image_width (picture f1 f8 im) \<le> 311 \<and>
    24 \<le> unat y \<and> unat y + image_height (picture f1 f8 im) \<le> 211"
proof -
  obtain a b where d: "x = word_of_int a" "y = word_of_int b" "draw_ok (a, b, im)"
    using shown_was_asked [OF game_sys.reachable_inv [OF assms(1)] assms(2)] by blast
  then have "unat x = nat a" "unat y = nat b"
    using coordinate [of a] coordinate [of b] by (simp_all add: draw_ok_def del: of_nat_unat)
  moreover have "case im of None \<Rightarrow> True | Some n \<Rightarrow> n < 16" using d(3) by (simp add: draw_ok_def)
  ultimately show ?thesis using d(3) picture_size [of im f1 f8] unfolding draw_ok_def by auto
qed

theorem pictures_inside_area_witness:
  "\<exists>x y im. GrImageDraw x y im \<in> \<Union> {set (screen (panel s)) | s. game_step\<^sup>*\<^sup>* (game_start (0, 0)) s} \<and>
    8 \<le> unat x \<and> unat x + image_width (picture 1 2 im) \<le> 311 \<and>
    24 \<le> unat y \<and> unat y + image_height (picture 1 2 im) \<le> 211"
proof -
  obtain s x y im where "game_step\<^sup>*\<^sup>* (game_start (0, 0)) s" "GrImageDraw x y im \<in> set (screen (panel s))"
    using a_picture_is_drawn by blast
  with pictures_inside_area [OF this, of 1 2] show ?thesis by blast
qed

text \<open>C18. No picture is lost and none is drawn twice: in every interleaving, the pictures on the screen
  together with those waiting in the queue and those whose task is still waiting to send are
  exactly, counted with repetition, the pictures the spiders asked for.\<close>

theorem pictures_drawn_once:
  assumes "game_step\<^sup>*\<^sup>* (game_start p) s"
  shows "mset (filter is_image (screen (panel s))) +
      mset (filter is_image (concat (map drawing (queue (panel s))))) + mset (map drawn_as (pending s)) =
    mset (map drawn_as (drawn (spider_world s)))"
  by (rule pictures_balance [OF game_sys.reachable_inv [OF assms]])

theorem pictures_drawn_once_witness:
  "\<exists>s :: game. screen (panel s) \<noteq> [] \<and> mset (filter is_image (screen (panel s))) +
      mset (filter is_image (concat (map drawing (queue (panel s))))) + mset (map drawn_as (pending s)) =
    mset (map drawn_as (drawn (spider_world s)))"
proof -
  obtain s x y im where "game_step\<^sup>*\<^sup>* (game_start (0, 0)) s" "GrImageDraw x y im \<in> set (screen (panel s))"
    using a_picture_is_drawn by blast
  with pictures_drawn_once [OF this(1)] show ?thesis by (metis empty_iff list.set(1))
qed

end
