(* ===== verification/WebPage.thy ===== *)
theory WebPage
  imports LwipTask
begin

text \<open>
  The web server's services and the LED task as they are started (\<open>SetupServices\<close> of \<open>lwip_task.c\<close>,
  \<open>LEDTaskInit\<close> of \<open>led_task.c\<close>), and the round trip through the pages: what a request sets is what
  the page it leads to shows. The calls of lwIP and of the locator are recorded in order.
\<close>

subsection \<open>Starting the services\<close>

datatype service_call =
    LocatorInit
  | LocatorMACAddrSet "u8 list"
  | LocatorAppTitleSet string
  | httpd_init
  | http_set_ssi_handler "string list" nat
  | http_set_cgi_handlers "string list" nat

text \<open>The loop that fills \<open>g_ppcSSITags\<close>; a write outside the array is \<open>None\<close>.\<close>

fun tag_loop :: "nat \<Rightarrow> nat \<Rightarrow> string list \<Rightarrow> string list option" where
  "tag_loop ui32Idx 0 names = Some names"
| "tag_loop ui32Idx (Suc left) names =
     (if ui32Idx < length names
      then tag_loop (ui32Idx + 1) left (names[ui32Idx := fst (g_psTags ! ui32Idx)]) else None)"

definition SetupServices :: "u8 list \<Rightarrow> string list \<Rightarrow> (service_call list \<times> string list) option" where
  "SetupServices mac names =
     do { names \<leftarrow> tag_loop 0 NUM_TAGS names;
          Some ([LocatorInit, LocatorMACAddrSet mac, LocatorAppTitleSet ''DK-TM4C129X freertos_demo'',
                 httpd_init, http_set_ssi_handler names NUM_TAGS,
                 http_set_cgi_handlers (map fst g_psCGIs) (length g_psCGIs)], names) }"

text \<open>The pin is made an output and the task created; 1 when that fails.\<close>

definition LEDTaskInit :: "bool \<Rightarrow> (string \<times> nat) list \<Rightarrow> nat \<times> (string \<times> nat) list" where
  "LEDTaskInit created outputs =
     (let outputs = outputs @ [(''GPIO_PORTQ'', 7)] in if \<not> created then (1, outputs) else (0, outputs))"

subsection \<open>Lemmas\<close>

lemma tag_loop_fills:
  "i + n \<le> length names \<Longrightarrow> tag_loop i n names =
     Some (take i names @ map (\<lambda>j. fst (g_psTags ! j)) [i..<i + n] @ drop (i + n) names)"
proof (induction n arbitrary: i names)
  case (Suc n)
  let ?t = "\<lambda>j. fst (g_psTags ! j)"
  have "take (Suc i) (names[i := ?t i]) = take i names @ [?t i]"
    using Suc.prems by (simp add: take_Suc_conv_app_nth)
  moreover have "map ?t [i..<i + Suc n] = ?t i # map ?t [Suc i..<Suc i + n]"
    by (simp add: upt_conv_Cons del: upt_Suc)
  ultimately show ?case using Suc by simp
qed simp

text \<open>The names registered are those of the table, whatever the array held.\<close>

lemma SetupServices_registers:
  assumes "length names = NUM_TAGS"
  shows "\<exists>calls. SetupServices mac names = Some (calls, g_ppcSSITags) \<and>
    http_set_ssi_handler g_ppcSSITags NUM_TAGS \<in> set calls \<and>
    http_set_cgi_handlers [''/toggle_rate.cgi'', ''/spider_rate.cgi''] 2 \<in> set calls"
  using assms by (simp add: SetupServices_def tag_loop_fills g_ppcSSITags_def g_psCGIs_def)

text \<open>The names differ, and none is longer than the eight characters lwIP allows by default.\<close>

lemma tag_names: "distinct g_ppcSSITags" "list_all (\<lambda>n. length n \<le> 8) g_ppcSSITags"
  by code_simp+

lemma tag_index: "i < NUM_TAGS \<Longrightarrow> g_ppcSSITags ! i = ''ledrate'' \<longleftrightarrow> i = 60"
  "i < NUM_TAGS \<Longrightarrow> g_ppcSSITags ! i = ''spider'' \<longleftrightarrow> i = 61"
proof -
  have l: "length g_ppcSSITags = NUM_TAGS" by (simp add: g_ppcSSITags_def)
  have n: "g_ppcSSITags ! 60 = ''ledrate''" "g_ppcSSITags ! 61 = ''spider''" by code_simp+
  show "i < NUM_TAGS \<Longrightarrow> g_ppcSSITags ! i = ''ledrate'' \<longleftrightarrow> i = 60"
    using nth_eq_iff_index_eq [OF tag_names(1), of i 60] n(1) l g_psTags_length by simp
  show "i < NUM_TAGS \<Longrightarrow> g_ppcSSITags ! i = ''spider'' \<longleftrightarrow> i = 61"
    using nth_eq_iff_index_eq [OF tag_names(1), of i 61] n(2) l g_psTags_length by simp
qed

lemma decimal_small:
  assumes "0 \<le> n" "n < 2 ^ 31"
  shows "decimal (word_of_int n) = digits 10 (nat n)"
proof -
  have "sint (word_of_int n :: u32) = n"
    using assms by (simp add: sint_sbintrunc' signed_take_bit_int_eq_self)
  then show ?thesis using assms by (simp add: decimal_def)
qed

lemma digits_5: "0 \<le> n \<Longrightarrow> n \<le> 99999 \<Longrightarrow> length (digits 10 (nat n)) \<le> 5"
proof -
  assume n: "0 \<le> n" "n \<le> 99999"
  have "length (digits 10 m) \<le> k" if "0 < k" "m < 10 ^ k" for k m
    using that
  proof (induction k arbitrary: m)
    case (Suc k)
    then show ?case by (cases k) (auto simp: digits.simps [of 10 m])
  qed simp
  from this [of 5 "nat n"] n show ?thesis by simp
qed

subsection \<open>Properties\<close>

text \<open>C19. What a visitor sets is what the page shows: with any way of writing a number from 1 to 10000
  that the server accepts (blanks, a sign, leading zeros), the request for a new toggle rate leads to
  the I/O page, on which the tag \<open>ledrate\<close> is then replaced by exactly the decimal digits of that
  number, given room for them; and that is the delay the LED task waits from then on.\<close>

theorem toggle_rate_shown:
  assumes "usnprintf_prints usnprintf" "decimal_arg ''time'' args n" "1 \<le> n" "n \<le> 10000"
    and "i < NUM_TAGS" "g_ppcSSITags ! i = ''ledrate''" "6 \<le> len" "nat len \<le> length buf"
  shows "\<exists>w'. request ''/toggle_rate.cgi'' args w = Some (''/io.ssi'', w') \<and>
    SSIHandler usnprintf stats (int i) buf len w' =
      Some (of_nat (length (digits 10 (nat n))),
            digits 10 (nat n) @ NUL # drop (Suc (length (digits 10 (nat n)))) buf) \<and>
    uint (snd (led_half w' t)) = n"
proof -
  let ?w = "w\<lparr>LEDDelay := word_of_int n\<rparr>"
  have i: "i = 60" "g_psTags ! 60 = (''ledrate'', LedRate)" using tag_index(1) assms(5,6) by (blast, code_simp)
  have r: "request ''/toggle_rate.cgi'' args w = Some (''/io.ssi'', ?w)"
    using assms(2-4) by (simp add: toggle_eval decimal_arg_iff)
  have d: "length (digits 10 (nat n)) \<le> nat len - Suc 0"
    using digits_5 [of n] assms(3,4,7) by simp
  have "SSIHandler usnprintf stats (int i) buf len ?w = Some (of_nat (length (digits 10 (nat n))),
      digits 10 (nat n) @ NUL # drop (Suc (length (digits 10 (nat n)))) buf)"
    using assms(3,4,7,8) by (simp add: ssi_eval [OF assms(1)] i decimal_small d min_absorb1 Let_def)
  moreover have "uint (snd (led_half ?w t)) = n"
    using assms(3,4) by (simp add: led_half_def Let_def uint_word_of_int)
  ultimately show ?thesis using r by blast
qed

theorem toggle_rate_shown_witness:
  "\<exists>w' rest. request ''/toggle_rate.cgi'' [(''time'', '' +0250'')] (web_start spiders_start) = Some (''/io.ssi'', w') \<and>
    SSIHandler (\<lambda>n s buf. take (nat n - 1) s @ [NUL] @ drop (Suc (min (nat n - 1) (length s))) buf)
      (\<lambda>_ _. 0) 60 (replicate 8 CHR ''z'') 8 w' = Some (3, ''250'' @ NUL # rest)"
proof -
  let ?u = "\<lambda>n s buf. take (nat n - 1) s @ [NUL] @ drop (Suc (min (nat n - 1) (length s))) buf"
  have u: "usnprintf_prints ?u" by (simp add: usnprintf_prints_def)
  have "CheckDecimalParam '' +0250'' = Some 250" by code_simp
  then have a: "decimal_arg ''time'' [(''time'', '' +0250'')] 250" by (simp add: decimal_arg_iff)
  have d: "digits 10 250 = ''250''" by code_simp
  have n: "60 < NUM_TAGS" "g_ppcSSITags ! 60 = ''ledrate''" by code_simp+
  from toggle_rate_shown [OF u a _ _ n, of 8 "replicate 8 CHR ''z''" "web_start spiders_start" "\<lambda>_ _. 0"]
  show ?thesis by (fastforce simp: d)
qed

text \<open>The same for the speed of the spiders, up to the largest that does not overflow.\<close>

lemma spider_rate_shown:
  assumes "usnprintf_prints usnprintf" "decimal_arg ''time'' args n" "0 \<le> n" "n \<le> 99999"
    and "i < NUM_TAGS" "g_ppcSSITags ! i = ''spider''" "6 \<le> len" "nat len \<le> length buf"
  shows "\<exists>w'. request ''/spider_rate.cgi'' args w = Some (''/io.ssi'', w') \<and>
    SSIHandler usnprintf stats (int i) buf len w' =
      Some (of_nat (length (digits 10 (nat n))),
            digits 10 (nat n) @ NUL # drop (Suc (length (digits 10 (nat n)))) buf)"
proof -
  have i: "i = 61" "g_psTags ! 61 = (''spider'', SpiderRate)" using tag_index(2) assms(5,6) by (blast, code_simp)
  obtain d1 d2 where r: "request ''/spider_rate.cgi'' args w = Some (''/io.ssi'',
      w\<lparr>web_spiders := (web_spiders w)\<lparr>SpiderDelay := (d1, d2)\<rparr>\<rparr>)" "uint d1 = n"
    using spider_speed_request [OF assms(2), of w] assms(3,4) by auto
  have d1: "d1 = word_of_int n" using r(2) by (metis word_of_int_uint)
  have d: "length (digits 10 (nat n)) \<le> nat len - Suc 0"
    using digits_5 [of n] assms(3,4,7) by simp
  show ?thesis
    using assms(3,4,7,8) by (simp add: r(1) ssi_eval [OF assms(1)] i d1 decimal_small d min_absorb1 Let_def)
qed

end
