(* ===== verification/LoggerApp.thy ===== *)
theory LoggerApp
  imports UartStdio TransitionSystem "HOL-Library.Sublist"
begin

text \<open>
  The FreeRTOS application of HW5 (\<open>LEDTask.c\<close>, \<open>Temperature.c\<close>, \<open>alert.c\<close>, \<open>Logger.c\<close>,
  \<open>freertos_demo.c\<close>): three producer tasks, each woken by a flag that a timer callback sets, send
  log records through one queue to the logger task, which prints them. The tasks interleave at
  every access to shared state; the timer callbacks and the port interrupt run at any point.
  A \<open>float\<close> temperature is a multiple of 1/16 by construction and is represented by that multiple.
  The set-up of the tasks is in \<open>LoggerBoot\<close>.
\<close>

subsection \<open>Time\<close>

definition TicksToMS :: "u32 \<Rightarrow> u32" where
  "TicksToMS t = (t * 1000) div 1000"

record timer =
  sec :: u32
  msec :: u32

definition timestamp :: "u32 \<Rightarrow> timer" where
  "timestamp ticks =
     (let time_in_ms = TicksToMS ticks in
      \<lparr>sec = time_in_ms div 1000, msec = time_in_ms - (time_in_ms div 1000) * 1000\<rparr>)"

subsection \<open>The temperature sensor\<close>

abbreviation TEMP_REG :: u8 where "TEMP_REG \<equiv> 0"
abbreviation CONFIG_REG :: u8 where "CONFIG_REG \<equiv> 1"
abbreviation TLOW_REG :: u8 where "TLOW_REG \<equiv> 2"
abbreviation THIGH_REG :: u8 where "THIGH_REG \<equiv> 3"

text \<open>The result of \<open>i2c_read\<close> from the two values the master has received.\<close>

definition i2c_read :: "u32 \<Rightarrow> u32 \<Rightarrow> u16" where
  "i2c_read data1 data2 = ucast (push_bit 8 (ucast (ucast data1 :: u16)) OR data2)"

datatype i2c_command = BURST_SEND_START | BURST_SEND_CONT | BURST_SEND_FINISH

text \<open>The bytes sent with their commands, and what is printed. \<open>junk\<close> is the uninitialised rest of
  the buffer. The division by 0.0625 is exact; \<open>int16_t\<close> holds its result for whole degrees from
  -2048 to 2047 (outside, the conversion is undefined: \<open>None\<close>).\<close>

definition i2c_write :: "u8 \<times> u8 \<Rightarrow> u8 \<Rightarrow> u16 \<Rightarrow> ((i2c_command \<times> u8) list \<times> string) option" where
  "i2c_write junk reg data =
     do { (b1, b2, text) \<leftarrow>
            (if reg = TEMP_REG then
               Some (fst junk, snd junk, ''Temperature register is read only register'' @ [LF, CR])
             else if reg = CONFIG_REG then
               Some (ucast (signed_drop_bit 8 data), ucast data, [])
             else if reg = TLOW_REG \<or> reg = THIGH_REG then
               (if - 2048 \<le> sint data \<and> sint data < 2048
                then let d = word_of_int (sint data * 16) :: u16 in
                  Some (ucast (signed_drop_bit 4 d), ucast (push_bit 4 d), [])
                else None)
             else Some (fst junk, snd junk, []));
          Some ([(BURST_SEND_START, reg), (BURST_SEND_CONT, b1), (BURST_SEND_FINISH, b2)], text) }"

text \<open>The temperature in sixteenths of a degree, and what is printed.\<close>

definition read_temperature :: "u8 \<Rightarrow> u16 \<Rightarrow> int \<times> string" where
  "read_temperature reg raw =
     (if reg = CONFIG_REG
      then (- 1000 * 16, ''Configuration register is not temperature'' @ [LF, CR])
      else (sint (signed_drop_bit 4 raw), []))"

subsection \<open>Log records\<close>

text \<open>
  The structure as the compiler lays it out: \<open>source[10]\<close> and \<open>message[30]\<close> are each followed by two
  bytes of padding, which are part of the storage here.
\<close>

record logger_struct =
  source :: string
  timeStampsec :: u32
  timeStampmsec :: u32
  toggleCount :: u32
  temperature :: int
  name :: string
  message :: string

definition struct_ok :: "logger_struct \<Rightarrow> bool" where
  "struct_ok g \<longleftrightarrow> length (source g) = 10 + 2 \<and> length (name g) = 20 \<and> length (message g) = 30 + 2"

text \<open>\<open>strcpy\<close> into a storage.\<close>

definition strcpy_to :: "string \<Rightarrow> string \<Rightarrow> string option" where
  "strcpy_to buf s = poke buf 0 (s @ [NUL])"

definition led_init :: "logger_struct \<Rightarrow> logger_struct option" where
  "led_init g =
     do { s \<leftarrow> strcpy_to (source g) ''gpio'';
          n \<leftarrow> strcpy_to (name g) ''nachiket'';
          Some (g\<lparr>source := s, name := n\<rparr>) }"

definition temp_init :: "logger_struct \<Rightarrow> logger_struct option" where
  "temp_init g = do { s \<leftarrow> strcpy_to (source g) ''temperature''; Some (g\<lparr>source := s\<rparr>) }"

definition alert_init :: "logger_struct \<Rightarrow> logger_struct option" where
  "alert_init g =
     do { s \<leftarrow> strcpy_to (source g) ''alert'';
          m \<leftarrow> strcpy_to (message g) ''Temperature is above threshold'';
          Some (g\<lparr>source := s, message := m\<rparr>) }"

subsection \<open>Printing\<close>

text \<open>\<open>%f\<close> of a temperature: six decimals, of which sixteenths need four.\<close>

definition show_float :: "int \<Rightarrow> string" where
  "show_float t =
     (let a = nat \<bar>t\<bar> in
      (if t < 0 then ''-'' else []) @ digits 10 (a div 16) @ ''.'' @
      field CHR ''0'' 4 False (digits 10 (a mod 16 * 625)) @ ''00'')"

text \<open>\<open>sprintf\<close> into \<open>char printit[30]\<close>; \<open>None\<close> when it does not fit.\<close>

definition print_temperature :: "int \<Rightarrow> string option" where
  "print_temperature t =
     do { buf \<leftarrow> poke (replicate 30 NUL) 0 (''Temperature is '' @ show_float t @ [NUL]);
          text_at buf }"

definition Logger_printf :: "logger_struct \<Rightarrow> string option" where
  "Logger_printf logStruct =
     do { a \<leftarrow> UARTprintf ''[%d sec %03d msec]'' [Arg (timeStampsec logStruct), Arg (timeStampmsec logStruct)];
          src \<leftarrow> text_at (source logStruct);
          b \<leftarrow> UARTprintf ''[%s]'' [Ptr src];
          c \<leftarrow> (if strcmp src ''alert'' = 0 then
                 do { m \<leftarrow> text_at (message logStruct); UARTprintf (''%s'' @ [LF, CR]) [Ptr m] }
               else if strcmp src ''temperature'' = 0 then
                 do { p \<leftarrow> print_temperature (temperature logStruct);
                      UARTprintf (''%s'' @ [LF, CR]) [Ptr p] }
               else if strcmp src ''gpio'' = 0 then
                 do { d \<leftarrow> UARTprintf ''Toggle count is %d'' [Arg (toggleCount logStruct)];
                      n \<leftarrow> text_at (name logStruct);
                      e \<leftarrow> UARTprintf (''    Your name is %s'' @ [LF, CR]) [Ptr n];
                      Some (d @ e) }
               else Some []);
          Some (a @ b @ c) }"

subsection \<open>The application\<close>

text \<open>Where each producer is in its loop.\<close>

datatype led_place = LTest | LStamp | LClear | LSend
datatype temp_place = TTest | TClear | TRead | TSec | TMsec | TSend
datatype alert_place = ATest | AClear | ASec | AMsec | ASend

text \<open>
  The shared variables, the locals of the tasks, the queue and the line; and, as history, the
  number of times each callback has fired, of sends attempted, and the records the queue took.
\<close>

record app =
  now :: u32
  send_message :: bool
  LEDState :: bool
  pin0 :: bool
  pin1 :: bool
  led_pc :: led_place
  led_log :: logger_struct
  led_count :: u32
  measureTemperature :: bool
  temp_pc :: temp_place
  temp_log :: logger_struct
  edge :: u8
  sendAlert :: bool
  alert_pc :: alert_place
  alert_log :: logger_struct
  queue :: "logger_struct list"
  line :: string
  toggles :: nat
  led_sends :: nat
  fired2 :: nat
  temp_sends :: nat
  fired3 :: nat
  alert_sends :: nat
  accepted :: "logger_struct list"

text \<open>\<open>xQueueSend\<close>: the record is copied when there is room within the time given.\<close>

definition queue_send :: "logger_struct \<Rightarrow> app \<Rightarrow> app" where
  "queue_send m s = (if length (queue s) < 10
     then s\<lparr>queue := queue s @ [m], accepted := accepted s @ [m]\<rparr> else s)"

definition Timer1Callback :: "app \<Rightarrow> app" where
  "Timer1Callback s =
     (let s1 = s\<lparr>send_message := True, toggles := toggles s + 1\<rparr> in
      if LEDState s1 then s1\<lparr>pin1 := False, pin0 := True, LEDState := False\<rparr>
      else s1\<lparr>pin1 := True, pin0 := False, LEDState := True\<rparr>)"

definition Timer2Callback :: "app \<Rightarrow> app" where
  "Timer2Callback s = s\<lparr>measureTemperature := True, fired2 := fired2 s + 1\<rparr>"

definition Timer3Callback :: "app \<Rightarrow> app" where
  "Timer3Callback s = s\<lparr>sendAlert := True, fired3 := fired3 s + 1\<rparr>"

definition PortEHandler :: "int \<Rightarrow> app \<Rightarrow> app" where
  "PortEHandler read_val s =
     (if read_val = 0 then s\<lparr>edge := 1\<rparr> else if read_val = 1 then s\<lparr>edge := 2\<rparr> else s)"

definition led_task :: "app \<Rightarrow> app" where
  "led_task s =
     (case led_pc s of
        LTest \<Rightarrow> if send_message s then s\<lparr>led_pc := LStamp\<rparr> else s
      | LStamp \<Rightarrow> let t = timestamp (now s) in
          s\<lparr>led_log := (led_log s)\<lparr>timeStampsec := sec t, timeStampmsec := msec t,
              toggleCount := led_count s\<rparr>, led_pc := LClear\<rparr>
      | LClear \<Rightarrow> s\<lparr>send_message := False, led_pc := LSend\<rparr>
      | LSend \<Rightarrow> (queue_send (led_log s) s)\<lparr>led_count := led_count s + 1,
          led_sends := led_sends s + 1, led_pc := LTest\<rparr>)"

definition temp_task :: "u16 \<Rightarrow> app \<Rightarrow> app" where
  "temp_task raw s =
     (case temp_pc s of
        TTest \<Rightarrow> if measureTemperature s then s\<lparr>temp_pc := TClear\<rparr> else s
      | TClear \<Rightarrow> s\<lparr>measureTemperature := False, temp_pc := TRead\<rparr>
      | TRead \<Rightarrow> s\<lparr>temp_log := (temp_log s)\<lparr>temperature := fst (read_temperature TEMP_REG raw)\<rparr>,
          temp_pc := TSec\<rparr>
      | TSec \<Rightarrow> s\<lparr>temp_log := (temp_log s)\<lparr>timeStampsec := sec (timestamp (now s))\<rparr>, temp_pc := TMsec\<rparr>
      | TMsec \<Rightarrow> s\<lparr>temp_log := (temp_log s)\<lparr>timeStampmsec := msec (timestamp (now s))\<rparr>, temp_pc := TSend\<rparr>
      | TSend \<Rightarrow> (queue_send (temp_log s) s)\<lparr>temp_sends := temp_sends s + 1, temp_pc := TTest\<rparr>)"

definition alert_task :: "app \<Rightarrow> app" where
  "alert_task s =
     (case alert_pc s of
        ATest \<Rightarrow> if edge s = 1 \<and> sendAlert s then s\<lparr>alert_pc := AClear\<rparr> else s
      | AClear \<Rightarrow> s\<lparr>sendAlert := False, alert_pc := ASec\<rparr>
      | ASec \<Rightarrow> s\<lparr>alert_log := (alert_log s)\<lparr>timeStampsec := sec (timestamp (now s))\<rparr>, alert_pc := AMsec\<rparr>
      | AMsec \<Rightarrow> s\<lparr>alert_log := (alert_log s)\<lparr>timeStampmsec := msec (timestamp (now s))\<rparr>, alert_pc := ASend\<rparr>
      | ASend \<Rightarrow> (queue_send (alert_log s) s)\<lparr>alert_sends := alert_sends s + 1, alert_pc := ATest\<rparr>)"

definition logger_task :: "app \<Rightarrow> app option" where
  "logger_task s =
     (case queue s of
        [] \<Rightarrow> Some s
      | m # q \<Rightarrow> do { t \<leftarrow> Logger_printf m; Some (s\<lparr>queue := q, line := line s @ t\<rparr>) })"

inductive app_step :: "app \<Rightarrow> app \<Rightarrow> bool" where
  tick: "app_step s (s\<lparr>now := now s + 1\<rparr>)"
| timer1: "app_step s (Timer1Callback s)"
| timer2: "app_step s (Timer2Callback s)"
| timer3: "app_step s (Timer3Callback s)"
| port: "app_step s (PortEHandler v s)"
| led: "app_step s (led_task s)"
| temp: "app_step s (temp_task raw s)"
| alert: "app_step s (alert_task s)"
| logger: "logger_task s = Some s' \<Longrightarrow> app_step s s'"

text \<open>The state after the tasks have prepared their records; \<open>None\<close> if one of them overruns.\<close>

definition app_start :: "logger_struct \<times> logger_struct \<times> logger_struct \<Rightarrow> u32 \<Rightarrow> app option" where
  "app_start junk ticks =
     (case junk of (g1, g2, g3) \<Rightarrow>
        do { l \<leftarrow> led_init g1; t \<leftarrow> temp_init g2; a \<leftarrow> alert_init g3;
             Some \<lparr>now = ticks, send_message = False, LEDState = True, pin0 = False, pin1 = True,
               led_pc = LTest, led_log = l, led_count = 0, measureTemperature = False,
               temp_pc = TTest, temp_log = t, edge = 0, sendAlert = False, alert_pc = ATest,
               alert_log = a, queue = [], line = [], toggles = 0, led_sends = 0, fired2 = 0,
               temp_sends = 0, fired3 = 0, alert_sends = 0, accepted = []\<rparr> })"

subsection \<open>Time stamps and registers\<close>

lemma timestamp_value:
  "unat (sec (timestamp t)) = unat (t * 1000) div 1000 div 1000 \<and>
   unat (msec (timestamp t)) = unat (t * 1000) div 1000 mod 1000"
proof -
  let ?m = "TicksToMS t"
  have m: "unat ?m = unat (t * 1000) div 1000" by (simp add: TicksToMS_def unat_div)
  have "?m - ?m div 1000 * 1000 = ?m mod 1000" by (simp add: minus_div_mult_eq_mod)
  then show ?thesis using m by (simp add: timestamp_def Let_def unat_div unat_mod)
qed

lemma timestamp_bounds: "unat (sec (timestamp t)) < 4295 \<and> unat (msec (timestamp t)) < 1000"
proof -
  have "unat (t * 1000) < 2 ^ 32" by (rule order_less_le_trans [OF unsigned_less]) simp
  then show ?thesis using timestamp_value [of t] by simp
qed

subsection \<open>What is printed\<close>

definition stamp_ok :: "logger_struct \<Rightarrow> bool" where
  "stamp_ok m \<longleftrightarrow> unat (timeStampsec m) < 4295 \<and> unat (timeStampmsec m) < 1000"

definition is_gpio :: "logger_struct \<Rightarrow> bool" where
  "is_gpio m \<longleftrightarrow> text_at (source m) = Some ''gpio''"

definition is_temperature :: "logger_struct \<Rightarrow> bool" where
  "is_temperature m \<longleftrightarrow> text_at (source m) = Some ''temperature''"

definition is_alert :: "logger_struct \<Rightarrow> bool" where
  "is_alert m \<longleftrightarrow> text_at (source m) = Some ''alert''"

definition msg_ok :: "logger_struct \<Rightarrow> bool" where
  "msg_ok m \<longleftrightarrow> stamp_ok m \<and>
     (is_gpio m \<and> text_at (name m) = Some ''nachiket'' \<or>
      is_temperature m \<and> - 2048 \<le> temperature m \<and> temperature m \<le> 2047 \<or>
      is_alert m \<and> text_at (message m) = Some ''Temperature is above threshold'')"

definition stamp_text :: "logger_struct \<Rightarrow> string" where
  "stamp_text m = ''['' @ digits 10 (unat (timeStampsec m)) @ '' sec '' @
     field CHR ''0'' 3 False (digits 10 (unat (timeStampmsec m))) @ '' msec]''"

definition log_line :: "logger_struct \<Rightarrow> string" where
  "log_line m = stamp_text m @
     (if is_gpio m then ''[gpio]Toggle count is '' @ signed_field False 0 (toggleCount m) @
        ''    Your name is nachiket''
      else if is_temperature m then ''[temperature]Temperature is '' @ show_float (temperature m)
      else ''[alert]Temperature is above threshold'') @ [CR, LF, CR]"

lemma put_chars_plain: "LF \<notin> set s \<Longrightarrow> put_chars s = s"
  by (induction s) auto

lemma digits_3: "digits 10 3 = ''3''" by (simp add: digits.simps g_pcHex_def)

lemma print_stamp:
  assumes "stamp_ok m"
  shows "UARTprintf ''[%d sec %03d msec]'' [Arg (timeStampsec m), Arg (timeStampmsec m)] =
    Some (stamp_text m)"
proof -
  let ?fs = "[Text ''['', Dec False 0, Text '' sec '', Dec True 3, Text '' msec]'']"
  have r: "concat (map render ?fs) = ''[%d sec %03d msec]''"
    by (simp add: zero_flag_def width_def digits_3)
  have pos: "sint v = int (unat v)" if "unat v < 4295" for v :: u32
  proof -
    have e: "uint v = int (unat v)" by simp
    have "uint v < 2147483648" using that e by linarith
    then show ?thesis
      using signed_take_bit_int_eq_self [of 31 "uint v"] order_trans [of "- 2147483648" 0 "uint v"]
      by (simp add: sint_uint)
  qed
  have "0 \<le> sint v \<and> nat (sint v) = unat v" if "unat v < 4295" for v :: u32
    using pos [OF that] by simp
  note this [of "timeStampsec m"] this [of "timeStampmsec m"]
  then show ?thesis
    using vprintf_formats [of ?fs "[Arg (timeStampsec m), Arg (timeStampmsec m)]"] assms
    unfolding r UARTprintf_def
    by (simp add: stamp_ok_def stamp_text_def signed_field_def fill_of_def field_def)
qed

lemma print_string:
  assumes "LF \<notin> set t" "length t < 2 ^ 32"
  shows "UARTprintf ''[%s]'' [Ptr t] = Some (''['' @ t @ '']'')"
    and "UARTprintf (''%s'' @ [LF, CR]) [Ptr t] = Some (t @ [CR, LF, CR])"
  using vprintf_formats [of "[Text ''['', Str 0, Text '']'']" "[Ptr t]"]
    vprintf_formats [of "[Str 0, Text [LF, CR]]" "[Ptr t]"] assms
  by (simp_all add: UARTprintf_def width_def put_chars_plain)

lemma print_gpio:
  "UARTprintf ''Toggle count is %d'' [Arg c] = Some (''Toggle count is '' @ signed_field False 0 c)"
  using vprintf_formats [of "[Text ''Toggle count is '', Dec False 0]" "[Arg c]"]
  by (simp add: UARTprintf_def width_def zero_flag_def)

lemma print_name:
  assumes "LF \<notin> set t" "length t < 2 ^ 32"
  shows "UARTprintf (''    Your name is %s'' @ [LF, CR]) [Ptr t] =
    Some (''    Your name is '' @ t @ [CR, LF, CR])"
  using vprintf_formats [of "[Text ''    Your name is '', Str 0, Text [LF, CR]]" "[Ptr t]"] assms
  by (simp add: UARTprintf_def width_def put_chars_plain)

lemmas printf_rules = print_string(1) print_string(2) [simplified append.simps] print_gpio
  print_name [simplified append.simps]

lemma digits_short: "0 < k \<Longrightarrow> n < 10 ^ k \<Longrightarrow> length (digits 10 n) \<le> k"
proof (rule ccontr)
  assume a: "0 < k" "n < 10 ^ k" "\<not> length (digits 10 n) \<le> k"
  have "n \<noteq> 0"
  proof
    assume "n = 0"
    then show False using a(1,3) by (simp add: digits.simps)
  qed
  then have "10 ^ (length (digits 10 n) - 1) \<le> n" using digits_bounds [of 10 n] by simp
  moreover have "(10::nat) ^ k \<le> 10 ^ (length (digits 10 n) - 1)"
    using a(3) by (intro power_increasing) auto
  ultimately show False using a(2) by linarith
qed

lemma show_float_short:
  assumes "- 2048 \<le> t" "t \<le> 2047"
  shows "length (show_float t) \<le> 11" "LF \<notin> set (show_float t)" "NUL \<notin> set (show_float t)"
proof -
  let ?a = "nat \<bar>t\<bar>"
  have "?a div 16 < 10 ^ 3" "?a mod 16 * 625 < 10 ^ 4" using assms by auto
  then have "length (digits 10 (?a div 16)) \<le> 3" "length (digits 10 (?a mod 16 * 625)) \<le> 4"
    by (intro digits_short; simp)+
  then show "length (show_float t) \<le> 11"
    by (cases "t < 0") (auto simp: show_float_def field_def Let_def)
  show "LF \<notin> set (show_float t)" "NUL \<notin> set (show_float t)"
    using digits_plain by (auto simp: show_float_def field_def Let_def)
qed

lemma print_temperature_ok:
  assumes "- 2048 \<le> t" "t \<le> 2047"
  shows "print_temperature t = Some (''Temperature is '' @ show_float t)"
proof -
  let ?s = "''Temperature is '' @ show_float t"
  have "length ?s < 30" "NUL \<notin> set ?s" using show_float_short [OF assms] by auto
  then show ?thesis
    using poke_start [of ?s "replicate 30 NUL"] by (auto simp: print_temperature_def simp del: poke.simps)
qed

lemma Logger_printf_ok:
  assumes "msg_ok m"
  shows "Logger_printf m = Some (log_line m)"
proof -
  have st: "stamp_ok m" using assms by (simp add: msg_ok_def)
  consider (gpio) "is_gpio m" "text_at (name m) = Some ''nachiket''"
    | (temp) "is_temperature m" "- 2048 \<le> temperature m" "temperature m \<le> 2047"
    | (alert) "is_alert m" "text_at (message m) = Some ''Temperature is above threshold''"
    using assms by (auto simp: msg_ok_def)
  then show ?thesis
  proof cases
    case gpio
    then show ?thesis
      by (simp add: Logger_printf_def print_stamp [OF st] printf_rules
          log_line_def is_gpio_def)
  next
    case temp
    note f = show_float_short [OF temp(2,3)]
    have "LF \<notin> set (''Temperature is '' @ show_float (temperature m))"
      "length (''Temperature is '' @ show_float (temperature m)) < 2 ^ 32" using f by auto
    note t = print_string(2) [OF this, simplified append.simps]
    then show ?thesis using temp print_temperature_ok [OF temp(2,3)]
      by (simp add: Logger_printf_def print_stamp [OF st] printf_rules log_line_def is_gpio_def
          is_temperature_def)
  next
    case alert
    then show ?thesis
      by (simp add: Logger_printf_def print_stamp [OF st] printf_rules log_line_def is_gpio_def
          is_temperature_def is_alert_def)
  qed
qed

subsection \<open>The invariant\<close>

lemma init_records:
  assumes "struct_ok g1" "struct_ok g2" "struct_ok g3"
  shows "\<exists>l t a. led_init g1 = Some l \<and> is_gpio l \<and> text_at (name l) = Some ''nachiket'' \<and>
    temp_init g2 = Some t \<and> is_temperature t \<and>
    alert_init g3 = Some a \<and> is_alert a \<and> text_at (message a) = Some ''Temperature is above threshold''"
proof -
  have p: "\<exists>b. strcpy_to buf s = Some b \<and> text_at b = Some s" if "length s < length buf" "NUL \<notin> set s" for buf s
    using poke_start [OF that] by (auto simp: strcpy_to_def)
  obtain b1 b2 where l: "strcpy_to (source g1) ''gpio'' = Some b1" "text_at b1 = Some ''gpio''"
    "strcpy_to (name g1) ''nachiket'' = Some b2" "text_at b2 = Some ''nachiket''"
    using p [of "''gpio''" "source g1"] p [of "''nachiket''" "name g1"] assms(1)
    by (auto simp: struct_ok_def)
  obtain b3 where t: "strcpy_to (source g2) ''temperature'' = Some b3" "text_at b3 = Some ''temperature''"
    using p [of "''temperature''" "source g2"] assms(2) by (auto simp: struct_ok_def)
  obtain b4 b5 where a: "strcpy_to (source g3) ''alert'' = Some b4" "text_at b4 = Some ''alert''"
    "strcpy_to (message g3) ''Temperature is above threshold'' = Some b5"
    "text_at b5 = Some ''Temperature is above threshold''"
    using p [of "''alert''" "source g3"] p [of "''Temperature is above threshold''" "message g3"] assms(3)
    by (auto simp: struct_ok_def)
  show ?thesis
    by (intro exI [of _ "g1\<lparr>source := b1, name := b2\<rparr>"] exI [of _ "g2\<lparr>source := b3\<rparr>"]
        exI [of _ "g3\<lparr>source := b4, message := b5\<rparr>"])
      (simp add: led_init_def temp_init_def alert_init_def l t a is_gpio_def is_temperature_def is_alert_def)
qed

text \<open>The pins; and for each producer its record and how its sends relate to the callbacks.\<close>

definition pins_inv :: "app \<Rightarrow> bool" where
  "pins_inv s \<longleftrightarrow> pin0 s \<noteq> pin1 s \<and> pin1 s = LEDState s \<and> (LEDState s \<longleftrightarrow> even (toggles s))"

definition led_inv :: "app \<Rightarrow> bool" where
  "led_inv s \<longleftrightarrow> is_gpio (led_log s) \<and> text_at (name (led_log s)) = Some ''nachiket'' \<and>
     led_count s = of_nat (led_sends s) \<and>
     (led_pc s \<in> {LClear, LSend} \<longrightarrow> stamp_ok (led_log s) \<and> toggleCount (led_log s) = led_count s) \<and>
     led_sends s + of_bool (led_pc s \<noteq> LTest) + of_bool (send_message s \<and> led_pc s \<in> {LTest, LSend})
       \<le> toggles s"

definition temp_inv :: "app \<Rightarrow> bool" where
  "temp_inv s \<longleftrightarrow> is_temperature (temp_log s) \<and>
     (temp_pc s \<in> {TSec, TMsec, TSend} \<longrightarrow>
       - 2048 \<le> temperature (temp_log s) \<and> temperature (temp_log s) \<le> 2047) \<and>
     (temp_pc s \<in> {TMsec, TSend} \<longrightarrow> unat (timeStampsec (temp_log s)) < 4295) \<and>
     (temp_pc s = TSend \<longrightarrow> unat (timeStampmsec (temp_log s)) < 1000) \<and>
     temp_sends s + of_bool (temp_pc s \<noteq> TTest) +
       of_bool (measureTemperature s \<and> temp_pc s \<noteq> TClear) \<le> fired2 s"

definition alert_inv :: "app \<Rightarrow> bool" where
  "alert_inv s \<longleftrightarrow> is_alert (alert_log s) \<and>
     text_at (message (alert_log s)) = Some ''Temperature is above threshold'' \<and>
     (alert_pc s \<in> {AMsec, ASend} \<longrightarrow> unat (timeStampsec (alert_log s)) < 4295) \<and>
     (alert_pc s = ASend \<longrightarrow> unat (timeStampmsec (alert_log s)) < 1000) \<and>
     alert_sends s + of_bool (alert_pc s \<noteq> ATest) +
       of_bool (sendAlert s \<and> alert_pc s \<noteq> AClear) \<le> fired3 s"

definition queue_inv :: "app \<Rightarrow> bool" where
  "queue_inv s \<longleftrightarrow> length (queue s) \<le> 10 \<and> (\<forall>m \<in> set (accepted s). msg_ok m) \<and>
     (\<exists>printed. accepted s = printed @ queue s \<and> line s = concat (map log_line printed)) \<and>
     subseq (map toggleCount (filter is_gpio (accepted s))) (map of_nat [0..<led_sends s]) \<and>
     length (filter is_temperature (accepted s)) \<le> temp_sends s \<and>
     length (filter is_alert (accepted s)) \<le> alert_sends s"

definition app_inv :: "app \<Rightarrow> bool" where
  "app_inv s \<longleftrightarrow> pins_inv s \<and> led_inv s \<and> temp_inv s \<and> alert_inv s \<and> queue_inv s"

lemmas inv_defs = pins_inv_def led_inv_def temp_inv_def alert_inv_def

lemmas task_defs = led_task_def temp_task_def alert_task_def queue_send_def Let_def
  Timer1Callback_def Timer2Callback_def Timer3Callback_def PortEHandler_def

lemmas place_splits = led_place.splits temp_place.splits alert_place.splits

lemma kinds_apart:
  "is_gpio m \<Longrightarrow> \<not> is_temperature m \<and> \<not> is_alert m"
  "is_temperature m \<Longrightarrow> \<not> is_gpio m \<and> \<not> is_alert m"
  "is_alert m \<Longrightarrow> \<not> is_gpio m \<and> \<not> is_temperature m"
  by (auto simp: is_gpio_def is_temperature_def is_alert_def)

lemma kind_updates [simp]:
  "is_gpio (m\<lparr>timeStampsec := a\<rparr>) = is_gpio m" "is_gpio (m\<lparr>timeStampmsec := a\<rparr>) = is_gpio m"
  "is_gpio (m\<lparr>toggleCount := a\<rparr>) = is_gpio m" "is_gpio (m\<lparr>temperature := t\<rparr>) = is_gpio m"
  "is_temperature (m\<lparr>timeStampsec := a\<rparr>) = is_temperature m"
  "is_temperature (m\<lparr>timeStampmsec := a\<rparr>) = is_temperature m"
  "is_temperature (m\<lparr>temperature := t\<rparr>) = is_temperature m"
  "is_alert (m\<lparr>timeStampsec := a\<rparr>) = is_alert m" "is_alert (m\<lparr>timeStampmsec := a\<rparr>) = is_alert m"
  by (simp_all add: is_gpio_def is_temperature_def is_alert_def)

lemma read_range: "- 2048 \<le> fst (read_temperature TEMP_REG raw) \<and> fst (read_temperature TEMP_REG raw) \<le> 2047"
proof -
  have "- (2 ^ 15) \<le> sint raw" "sint raw < 2 ^ 15"
    using sint_greater_eq [of raw] sint_less [of raw] by simp_all
  then show ?thesis by (simp add: read_temperature_def sint_signed_drop_bit_eq drop_bit_eq_div) presburger
qed

text \<open>What each transition leaves alone.\<close>

lemma inv_cong:
  "pin0 s = pin0 t \<Longrightarrow> pin1 s = pin1 t \<Longrightarrow> LEDState s = LEDState t \<Longrightarrow> toggles s = toggles t \<Longrightarrow>
   pins_inv s = pins_inv t"
  "led_log s = led_log t \<Longrightarrow> led_count s = led_count t \<Longrightarrow> led_pc s = led_pc t \<Longrightarrow>
   led_sends s = led_sends t \<Longrightarrow> send_message s = send_message t \<Longrightarrow> toggles s = toggles t \<Longrightarrow>
   led_inv s = led_inv t"
  "temp_log s = temp_log t \<Longrightarrow> temp_pc s = temp_pc t \<Longrightarrow> temp_sends s = temp_sends t \<Longrightarrow>
   measureTemperature s = measureTemperature t \<Longrightarrow> fired2 s = fired2 t \<Longrightarrow> temp_inv s = temp_inv t"
  "alert_log s = alert_log t \<Longrightarrow> alert_pc s = alert_pc t \<Longrightarrow> alert_sends s = alert_sends t \<Longrightarrow>
   sendAlert s = sendAlert t \<Longrightarrow> fired3 s = fired3 t \<Longrightarrow> alert_inv s = alert_inv t"
  "queue s = queue t \<Longrightarrow> accepted s = accepted t \<Longrightarrow> line s = line t \<Longrightarrow>
   led_sends s = led_sends t \<Longrightarrow> temp_sends s = temp_sends t \<Longrightarrow>
   alert_sends s = alert_sends t \<Longrightarrow> queue_inv s = queue_inv t"
  by (simp_all add: inv_defs queue_inv_def)

lemmas queue_inv_cong = inv_cong(5)

lemma led_frame [simp]:
  "pins_inv (led_task s) = pins_inv s" "temp_inv (led_task s) = temp_inv s"
  "alert_inv (led_task s) = alert_inv s"
  by (rule inv_cong; simp add: led_task_def queue_send_def Let_def split: led_place.split)+

lemma temp_frame [simp]:
  "pins_inv (temp_task raw s) = pins_inv s" "led_inv (temp_task raw s) = led_inv s"
  "alert_inv (temp_task raw s) = alert_inv s"
  by (rule inv_cong; simp add: temp_task_def queue_send_def split: temp_place.split)+

lemma alert_frame [simp]:
  "pins_inv (alert_task s) = pins_inv s" "led_inv (alert_task s) = led_inv s"
  "temp_inv (alert_task s) = temp_inv s"
  by (rule inv_cong; simp add: alert_task_def queue_send_def split: alert_place.split)+

lemma timer_frame [simp]:
  "temp_inv (Timer1Callback s) = temp_inv s" "alert_inv (Timer1Callback s) = alert_inv s"
  "queue_inv (Timer1Callback s) = queue_inv s"
  "pins_inv (Timer2Callback s) = pins_inv s" "led_inv (Timer2Callback s) = led_inv s"
  "alert_inv (Timer2Callback s) = alert_inv s" "queue_inv (Timer2Callback s) = queue_inv s"
  "pins_inv (Timer3Callback s) = pins_inv s" "led_inv (Timer3Callback s) = led_inv s"
  "temp_inv (Timer3Callback s) = temp_inv s" "queue_inv (Timer3Callback s) = queue_inv s"
  by (rule inv_cong;
      simp add: Timer1Callback_def Timer2Callback_def Timer3Callback_def Let_def)+

lemma port_frame [simp]:
  "pins_inv (PortEHandler v s) = pins_inv s" "led_inv (PortEHandler v s) = led_inv s"
  "temp_inv (PortEHandler v s) = temp_inv s" "alert_inv (PortEHandler v s) = alert_inv s"
  "queue_inv (PortEHandler v s) = queue_inv s"
  by (rule inv_cong; simp add: PortEHandler_def)+

lemma tick_frame [simp]:
  "pins_inv (s\<lparr>now := t\<rparr>) = pins_inv s" "led_inv (s\<lparr>now := t\<rparr>) = led_inv s"
  "temp_inv (s\<lparr>now := t\<rparr>) = temp_inv s" "alert_inv (s\<lparr>now := t\<rparr>) = alert_inv s"
  "queue_inv (s\<lparr>now := t\<rparr>) = queue_inv s"
  by (rule inv_cong; simp)+

lemma pins_step: "pins_inv s \<Longrightarrow> pins_inv (Timer1Callback s)"
  by (auto simp: pins_inv_def Timer1Callback_def Let_def)

lemma led_own_step: "led_inv s \<Longrightarrow> led_inv (led_task s) \<and> led_inv (Timer1Callback s)"
  using timestamp_bounds [of "now s"]
  by (cases "led_pc s") (auto simp: led_inv_def stamp_ok_def task_defs)

lemma temp_own_step: "temp_inv s \<Longrightarrow> temp_inv (temp_task raw s) \<and> temp_inv (Timer2Callback s)"
  using timestamp_bounds [of "now s"] read_range [of raw]
  by (cases "temp_pc s") (auto simp: temp_inv_def task_defs)

lemma alert_own_step: "alert_inv s \<Longrightarrow> alert_inv (alert_task s) \<and> alert_inv (Timer3Callback s)"
  using timestamp_bounds [of "now s"]
  by (cases "alert_pc s") (auto simp: alert_inv_def task_defs)

text \<open>The queue.\<close>

lemma queue_send_inv:
  assumes "queue_inv s" "msg_ok m"
    and "is_gpio m \<Longrightarrow> toggleCount m = of_nat (led_sends s) \<and> a = 1"
    and "is_temperature m \<Longrightarrow> b = 1" "is_alert m \<Longrightarrow> c = 1" "a \<le> 1"
  shows "queue_inv ((queue_send m s)\<lparr>led_sends := led_sends s + a, temp_sends := temp_sends s + b,
    alert_sends := alert_sends s + c\<rparr>)"
proof -
  let ?t = "(queue_send m s)\<lparr>led_sends := led_sends s + a, temp_sends := temp_sends s + b,
    alert_sends := alert_sends s + c\<rparr>"
  have q: "length (queue s) \<le> 10" "\<forall>m \<in> set (accepted s). msg_ok m"
    "subseq (map toggleCount (filter is_gpio (accepted s))) (map of_nat [0..<led_sends s])"
    "length (filter is_temperature (accepted s)) \<le> temp_sends s"
    "length (filter is_alert (accepted s)) \<le> alert_sends s"
    using assms(1) by (auto simp: queue_inv_def)
  obtain printed where p: "accepted s = printed @ queue s" "line s = concat (map log_line printed)"
    using assms(1) by (auto simp: queue_inv_def)
  have more: "subseq xs (map of_nat [0..<n + a])" if "subseq xs (map of_nat [0..<n])" for xs :: "u32 list" and n
    using that assms(6) by (cases a) (auto intro: subseq_rev_drop_many)
  show ?thesis
  proof (cases "length (queue s) < 10")
    case True
    have "subseq (map toggleCount (filter is_gpio (accepted s @ [m]))) (map of_nat [0..<led_sends s + a])"
      using q(3) more [OF q(3)] assms(3) by (cases "is_gpio m") auto
    then show ?thesis
      using True q p assms(2,4,5)
      by (auto simp: queue_inv_def queue_send_def intro!: exI [of _ printed])
  next
    case False
    then show ?thesis
      using q p more [OF q(3)] by (auto simp: queue_inv_def queue_send_def intro!: exI [of _ printed])
  qed
qed

lemma led_queue:
  assumes "queue_inv s" "led_inv s"
  shows "queue_inv (led_task s)"
proof (cases "led_pc s = LSend")
  case True
  have m: "msg_ok (led_log s)" "is_gpio (led_log s)" "toggleCount (led_log s) = of_nat (led_sends s)"
    using assms(2) True by (auto simp: led_inv_def msg_ok_def)
  have "queue_inv ((queue_send (led_log s) s)\<lparr>led_sends := led_sends s + 1,
      temp_sends := temp_sends s + 0, alert_sends := alert_sends s + 0\<rparr>)"
    by (rule queue_send_inv) (use assms(1) m kinds_apart(1) in auto)
  then show ?thesis
    by (rule queue_inv_cong [THEN iffD1, rotated -1]) (simp_all add: led_task_def True queue_send_def)
next
  case False
  then show ?thesis using assms(1)
    by (auto simp: led_task_def queue_inv_def Let_def split: led_place.split)
qed

lemma temp_queue:
  assumes "queue_inv s" "temp_inv s"
  shows "queue_inv (temp_task raw s)"
proof (cases "temp_pc s = TSend")
  case True
  have m: "msg_ok (temp_log s)" "is_temperature (temp_log s)"
    using assms(2) True by (auto simp: temp_inv_def msg_ok_def stamp_ok_def)
  have "queue_inv ((queue_send (temp_log s) s)\<lparr>led_sends := led_sends s + 0,
      temp_sends := temp_sends s + 1, alert_sends := alert_sends s + 0\<rparr>)"
    by (rule queue_send_inv) (use assms(1) m kinds_apart(2) in auto)
  then show ?thesis
    by (rule queue_inv_cong [THEN iffD1, rotated -1]) (simp_all add: temp_task_def True queue_send_def)
next
  case False
  then show ?thesis using assms(1) by (auto simp: temp_task_def queue_inv_def split: temp_place.split)
qed

lemma alert_queue:
  assumes "queue_inv s" "alert_inv s"
  shows "queue_inv (alert_task s)"
proof (cases "alert_pc s = ASend")
  case True
  have m: "msg_ok (alert_log s)" "is_alert (alert_log s)"
    using assms(2) True by (auto simp: alert_inv_def msg_ok_def stamp_ok_def)
  have "queue_inv ((queue_send (alert_log s) s)\<lparr>led_sends := led_sends s + 0,
      temp_sends := temp_sends s + 0, alert_sends := alert_sends s + 1\<rparr>)"
    by (rule queue_send_inv) (use assms(1) m kinds_apart(3) in auto)
  then show ?thesis
    by (rule queue_inv_cong [THEN iffD1, rotated -1]) (simp_all add: alert_task_def True queue_send_def)
next
  case False
  then show ?thesis using assms(1) by (auto simp: alert_task_def queue_inv_def split: alert_place.split)
qed

text \<open>The logger never fails, and prints the oldest record.\<close>

lemma logger_step:
  assumes "queue_inv s"
  shows "\<exists>s'. logger_task s = Some s' \<and> queue_inv s' \<and> s' = s\<lparr>queue := queue s', line := line s'\<rparr>"
proof (cases "queue s")
  case Nil
  then show ?thesis using assms by (simp add: logger_task_def)
next
  case (Cons m q)
  obtain printed where p: "accepted s = printed @ queue s" "line s = concat (map log_line printed)"
    using assms by (auto simp: queue_inv_def)
  have "msg_ok m" using assms Cons p by (auto simp: queue_inv_def)
  then have l: "logger_task s = Some (s\<lparr>queue := q, line := line s @ log_line m\<rparr>)"
    using Cons by (simp add: logger_task_def Logger_printf_ok)
  have "queue_inv (s\<lparr>queue := q, line := line s @ log_line m\<rparr>)"
    using assms Cons p by (auto simp: queue_inv_def intro!: exI [of _ "printed @ [m]"])
  then show ?thesis using l by simp
qed

lemma logger_frame [simp]:
  "pins_inv (s\<lparr>queue := q, line := l\<rparr>) = pins_inv s" "led_inv (s\<lparr>queue := q, line := l\<rparr>) = led_inv s"
  "temp_inv (s\<lparr>queue := q, line := l\<rparr>) = temp_inv s" "alert_inv (s\<lparr>queue := q, line := l\<rparr>) = alert_inv s"
  by (rule inv_cong; simp)+

lemma app_inv_step: "app_inv s \<Longrightarrow> app_step s s' \<Longrightarrow> app_inv s'"
proof -
  assume inv: "app_inv s" and st: "app_step s s'"
  note d = inv [unfolded app_inv_def]
  from st show "app_inv s'"
  proof cases
    case tick
    then show ?thesis using d by (simp add: app_inv_def)
  next
    case timer1
    then show ?thesis using d pins_step led_own_step by (simp add: app_inv_def)
  next
    case timer2
    then show ?thesis using d temp_own_step by (simp add: app_inv_def)
  next
    case timer3
    then show ?thesis using d alert_own_step by (simp add: app_inv_def)
  next
    case (port v)
    then show ?thesis using d by (simp add: app_inv_def)
  next
    case led
    then show ?thesis using d led_own_step led_queue by (simp add: app_inv_def)
  next
    case (temp raw)
    then show ?thesis using d temp_own_step temp_queue by (simp add: app_inv_def)
  next
    case alert
    then show ?thesis using d alert_own_step alert_queue by (simp add: app_inv_def)
  next
    case logger
    then obtain q l where "s' = s\<lparr>queue := q, line := l\<rparr>" "queue_inv s'"
      using logger_step [of s] d by auto
    then show ?thesis using d by (simp add: app_inv_def)
  qed
qed

lemma app_start_inv:
  assumes "struct_ok g1" "struct_ok g2" "struct_ok g3"
  shows "\<exists>s. app_start (g1, g2, g3) t = Some s \<and> app_inv s"
proof -
  obtain l m a where "led_init g1 = Some l" "is_gpio l" "text_at (name l) = Some ''nachiket''"
    "temp_init g2 = Some m" "is_temperature m" "alert_init g3 = Some a" "is_alert a"
    "text_at (message a) = Some ''Temperature is above threshold''"
    using init_records [OF assms] by blast
  then show ?thesis by (simp add: app_start_def app_inv_def inv_defs queue_inv_def)
qed

interpretation logger_sys: preserved_invariant app_step app_inv
  by unfold_locales (rule app_inv_step)

lemma reachable_app_inv:
  assumes "struct_ok g1" "struct_ok g2" "struct_ok g3"
    and "app_start (g1, g2, g3) t = Some s0" "app_step\<^sup>*\<^sup>* s0 s"
  shows "app_inv s"
  using app_start_inv [OF assms(1-3), of t] assms(4) logger_sys.inv_steps [OF assms(5)] by auto

subsection \<open>Properties\<close>

text \<open>
  The log: whatever the memory the tasks' records start with, preparing the records stays inside
  the structure; and in every interleaving the queue holds at most ten records, the logger can
  always print the oldest one, and what it has printed is, in order, one well-formed line for each
  record the queue has accepted: the time stamp with three-digit milliseconds, the source, and the
  toggle count, the temperature or the alert.
\<close>

theorem logger_prints_lines:
  assumes "struct_ok g1" "struct_ok g2" "struct_ok g3"
  shows "\<exists>s0. app_start (g1, g2, g3) t = Some s0 \<and>
    (\<forall>s. app_step\<^sup>*\<^sup>* s0 s \<longrightarrow> length (queue s) \<le> 10 \<and> logger_task s \<noteq> None \<and>
      (\<exists>printed. accepted s = printed @ queue s \<and> line s = concat (map log_line printed)) \<and>
      (\<forall>m \<in> set (accepted s). unat (timeStampmsec m) < 1000 \<and>
        (is_gpio m \<or> is_alert m \<or>
         is_temperature m \<and> - 2048 \<le> temperature m \<and> temperature m \<le> 2047)))"
proof -
  obtain s0 where s0: "app_start (g1, g2, g3) t = Some s0"
    using app_start_inv [OF assms] by blast
  have "length (queue s) \<le> 10 \<and> logger_task s \<noteq> None \<and>
      (\<exists>printed. accepted s = printed @ queue s \<and> line s = concat (map log_line printed)) \<and>
      (\<forall>m \<in> set (accepted s). unat (timeStampmsec m) < 1000 \<and>
        (is_gpio m \<or> is_alert m \<or>
         is_temperature m \<and> - 2048 \<le> temperature m \<and> temperature m \<le> 2047))"
    if "app_step\<^sup>*\<^sup>* s0 s" for s
  proof -
    have q: "queue_inv s" using reachable_app_inv [OF assms s0 that] by (simp add: app_inv_def)
    then show ?thesis using logger_step [OF q]
      by (auto simp: queue_inv_def msg_ok_def stamp_ok_def)
  qed
  with s0 show ?thesis by blast
qed

theorem logger_prints_lines_witness:
  "\<exists>s0. app_start (\<lparr>source = replicate 12 CHR ''x'', timeStampsec = 1, timeStampmsec = 2,
     toggleCount = 3, temperature = 4, name = replicate 20 CHR ''y'', message = replicate 32 CHR ''z''\<rparr>,
     \<lparr>source = replicate 12 CHR ''x'', timeStampsec = 1, timeStampmsec = 2,
     toggleCount = 3, temperature = 4, name = replicate 20 CHR ''y'', message = replicate 32 CHR ''z''\<rparr>,
     \<lparr>source = replicate 12 CHR ''x'', timeStampsec = 1, timeStampmsec = 2,
     toggleCount = 3, temperature = 4, name = replicate 20 CHR ''y'', message = replicate 32 CHR ''z''\<rparr>) 7 =
     Some s0 \<and> logger_task s0 \<noteq> None"
proof -
  let ?g = "\<lparr>source = replicate 12 CHR ''x'', timeStampsec = 1, timeStampmsec = 2,
     toggleCount = 3, temperature = 4, name = replicate 20 CHR ''y'', message = replicate 32 CHR ''z''\<rparr>"
  have "struct_ok ?g" by (simp add: struct_ok_def)
  from logger_prints_lines [OF this this this, of 7] show ?thesis by blast
qed



text \<open>
  Time stamps: the milliseconds are always below 1000, and up to tick 4294967 (some 71 minutes)
  the stamp is exactly the tick count; at the next tick the multiplication overflows and the time
  starts again from zero.
\<close>

theorem timestamp_correct:
  "unat (msec (timestamp t)) < 1000 \<and>
   (if unat t \<le> 4294967 then unat (sec (timestamp t)) * 1000 + unat (msec (timestamp t)) = unat t
    else unat (sec (timestamp t)) * 1000 + unat (msec (timestamp t)) < unat t) \<and>
   timestamp 4294968 = \<lparr>sec = 0, msec = 0\<rparr>"
proof -
  have v: "unat (sec (timestamp t)) * 1000 + unat (msec (timestamp t)) = unat (t * 1000) div 1000"
    using timestamp_value [of t] by simp
  have u: "unat (t * 1000) = unat t * 1000 mod 2 ^ 32" by (simp add: unat_word_ariths)
  have "timestamp 4294968 = \<lparr>sec = 0, msec = 0\<rparr>" by code_simp
  moreover have "unat t * 1000 mod 2 ^ 32 div 1000 = unat t" if "unat t \<le> 4294967"
    using that by simp
  moreover have "unat t * 1000 mod 2 ^ 32 div 1000 < unat t" if "4294967 < unat t"
  proof -
    have "unat t * 1000 mod 2 ^ 32 < 2 ^ 32" by simp
    then show ?thesis using that by simp
  qed
  ultimately show ?thesis using v timestamp_bounds [of t] unfolding u by simp
qed

text \<open>
  The sensor's registers: the bytes \<open>i2c_write\<close> sends for a limit in whole degrees from -128 to
  127, read back by \<open>i2c_read\<close>, are that temperature again; the configuration register gives back
  what was written; and every reading is between -128 and 127.9375 degrees.
\<close>

theorem temperature_roundtrip:
  assumes "- 128 \<le> sint d" "sint d \<le> 127" "reg = TLOW_REG \<or> reg = THIGH_REG"
  shows "\<exists>b1 b2 c1 c2. i2c_write junk reg d =
      Some ([(BURST_SEND_START, reg), (BURST_SEND_CONT, b1), (BURST_SEND_FINISH, b2)], []) \<and>
    read_temperature reg (i2c_read (ucast b1) (ucast b2)) = (16 * sint d, []) \<and>
    i2c_write junk CONFIG_REG e =
      Some ([(BURST_SEND_START, CONFIG_REG), (BURST_SEND_CONT, c1), (BURST_SEND_FINISH, c2)], []) \<and>
    i2c_read (ucast c1) (ucast c2) = e"
proof -
  let ?d = "word_of_int (sint d * 16) :: u16"
  have d16: "?d = push_bit 4 d" by (simp add: push_bit_eq_mult)
  define b1 b2 :: u8 where "b1 = ucast (signed_drop_bit 4 ?d)" and "b2 = ucast (push_bit 4 ?d)"
  define c1 c2 :: u8 where "c1 = ucast (signed_drop_bit 8 e)" and "c2 = ucast e"
  have raw: "i2c_read (ucast b1) (ucast b2) = push_bit 8 d"
    unfolding i2c_read_def b1_def b2_def d16
    by (rule bit_word_eqI) (auto simp: bit_simps)
  have config: "i2c_read (ucast c1) (ucast c2) = e"
    unfolding i2c_read_def c1_def c2_def by (rule bit_word_eqI) (auto simp: bit_simps)
  have "push_bit 8 d = word_of_int (sint d * 256)" by (simp add: push_bit_eq_mult)
  then have "sint (push_bit 8 d) = sint d * 256"
    using assms(1,2) by (simp only: sint_sbintrunc') (simp add: signed_take_bit_int_eq_self)
  then have "sint (signed_drop_bit 4 (push_bit 8 d)) = 16 * sint d"
    by (simp add: sint_signed_drop_bit_eq drop_bit_eq_div)
  then have "read_temperature reg (i2c_read (ucast b1) (ucast b2)) = (16 * sint d, [])"
    using assms(3) by (auto simp: read_temperature_def raw)
  moreover have "i2c_write junk reg d =
      Some ([(BURST_SEND_START, reg), (BURST_SEND_CONT, b1), (BURST_SEND_FINISH, b2)], [])"
    using assms by (auto simp: i2c_write_def b1_def b2_def Let_def)
  moreover have "i2c_write junk CONFIG_REG e =
      Some ([(BURST_SEND_START, CONFIG_REG), (BURST_SEND_CONT, c1), (BURST_SEND_FINISH, c2)], [])"
    by (simp add: i2c_write_def c1_def c2_def)
  ultimately show ?thesis using config by blast
qed

theorem temperature_roundtrip_witness:
  "\<exists>b1 b2. i2c_write (0, 0) TLOW_REG (- 27) =
     Some ([(BURST_SEND_START, TLOW_REG), (BURST_SEND_CONT, b1), (BURST_SEND_FINISH, b2)], []) \<and>
   read_temperature TLOW_REG (i2c_read (ucast b1) (ucast b2)) = (- 432, [])"
proof -
  have s: "sint (- 27 :: u16) = - 27" by simp
  show ?thesis using temperature_roundtrip [of "- 27" TLOW_REG "(0, 0)" 0] unfolding s by auto
qed

end
