(* ===== verification/StartUp.thy ===== *)
theory StartUp
  imports TransitionSystem "HOL-Library.Sublist"
begin

text \<open>
  \<open>startup_ccs.c\<close>: the vector table, the handlers that never return, and what the processor does with
  them. Slot \<open>n\<close> of the table is exception number \<open>n\<close>; the reserved slots hold 0. The handlers of
  the operating system, of the touch screen and of the network stack are named but not modelled:
  all that counts here is that they return. \<open>PortEHandler\<close> is installed at run time by \<open>alert.c\<close>.
\<close>

datatype handler =
    InitialStack
  | Reserved
  | ResetISR
  | NmiSR
  | FaultISR
  | IntDefaultHandler
  | vPortSVCHandler
  | xPortPendSVHandler
  | xPortSysTickHandler
  | TouchScreenIntHandler
  | lwIPEthernetIntHandler
  | PortEHandler_entry

definition g_pfnVectors :: "handler list" where
  "g_pfnVectors =
    [InitialStack, ResetISR, NmiSR, FaultISR] @ replicate 3 IntDefaultHandler @
     replicate 4 Reserved @
     [vPortSVCHandler, IntDefaultHandler, Reserved, xPortPendSVHandler, xPortSysTickHandler] @
     replicate 17 IntDefaultHandler @ [TouchScreenIntHandler] @ replicate 22 IntDefaultHandler @
     [lwIPEthernetIntHandler] @ replicate 27 IntDefaultHandler @ replicate 2 Reserved @
     replicate 4 IntDefaultHandler @ [Reserved] @ replicate 37 IntDefaultHandler"

text \<open>The handlers whose body is \<open>while(1) {}\<close>, and those that are functions at all.\<close>

fun endless :: "handler \<Rightarrow> bool" where
  "endless NmiSR = True"
| "endless FaultISR = True"
| "endless IntDefaultHandler = True"
| "endless _ = False"

fun callable :: "handler \<Rightarrow> bool" where
  "callable InitialStack = False"
| "callable Reserved = False"
| "callable _ = True"

text \<open>
  The processor: the handlers that are active, the innermost first (none in thread mode). An
  exception enters the handler of its slot, on top of those it interrupts; the endless handlers
  loop; the others return. A reset, which starts the program anew, is not a step.
\<close>

inductive cpu_step :: "handler list \<Rightarrow> handler list \<Rightarrow> handler list \<Rightarrow> bool" for V :: "handler list" where
  enter: "n < length V \<Longrightarrow> callable (V ! n) \<Longrightarrow> V ! n \<noteq> ResetISR \<Longrightarrow> cpu_step V st (V ! n # st)"
| spin: "endless h \<Longrightarrow> cpu_step V (h # st) (h # st)"
| leave: "\<not> endless h \<Longrightarrow> cpu_step V (h # st) st"

inductive_simps cpu_step_simps: "cpu_step V s t"

subsection \<open>Lemmas\<close>

lemma vectors_length: "length g_pfnVectors = 128"
  by (simp add: g_pfnVectors_def)

text \<open>The handlers \<open>st\<close> below an endless one stay where they are.\<close>

definition hung :: "handler list \<Rightarrow> handler list \<Rightarrow> bool" where
  "hung st s \<longleftrightarrow> (\<exists>pre h. s = pre @ h # st \<and> endless h)"

lemma hung_step: "hung st s \<Longrightarrow> cpu_step V s t \<Longrightarrow> hung st t"
proof (elim cpu_step.cases)
  fix n u assume "hung st s" "s = u" "t = V ! n # u"
  then show "hung st t" unfolding hung_def by (metis append_Cons)
next
  fix h u assume "hung st s" "s = h # u" "t = u" "\<not> endless h"
  then show "hung st t" unfolding hung_def by (auto simp: Cons_eq_append_conv)
qed simp_all

interpretation cpu_sys: preserved_invariant "cpu_step V" "hung st" for V st
  by unfold_locales (rule hung_step)

text \<open>The slots that do not lead to an endless handler.\<close>

lemma served_slots:
  "n < 128 \<Longrightarrow> callable (g_pfnVectors ! n) \<Longrightarrow> \<not> endless (g_pfnVectors ! n) \<Longrightarrow>
     n \<in> {1, 11, 14, 15, 33, 56}"
proof -
  have "\<forall>n \<in> set [0..<128]. callable (g_pfnVectors ! n) \<and> \<not> endless (g_pfnVectors ! n) \<longrightarrow>
      n \<in> {1, 11, 14, 15, 33, 56}" by code_simp
  then show "n < 128 \<Longrightarrow> callable (g_pfnVectors ! n) \<Longrightarrow> \<not> endless (g_pfnVectors ! n) \<Longrightarrow>
      n \<in> {1, 11, 14, 15, 33, 56}" by simp
qed

text \<open>Of all exceptions only the reset, the three of the operating system (11, 14 and 15), the
  touch screen (33) and the network (56) are served. Any other one that occurs stops the program for
  good: whatever else happens, the processor never gets back to what it was doing, short of a reset.\<close>

theorem unserved_interrupt_hangs:
  assumes "n < length g_pfnVectors" "callable (g_pfnVectors ! n)" "n \<notin> {1, 11, 14, 15, 33, 56}"
    "(cpu_step V)\<^sup>*\<^sup>* (g_pfnVectors ! n # st) s"
  shows "strict_suffix st s"
proof -
  have "endless (g_pfnVectors ! n)" using served_slots assms(1-3) vectors_length by metis
  then have "hung st (g_pfnVectors ! n # st)" unfolding hung_def by (metis append_Nil)
  with cpu_sys.inv_steps [OF assms(4), of st] show ?thesis unfolding hung_def strict_suffix_def suffix_def by auto
qed

theorem unserved_interrupt_hangs_witness:
  "strict_suffix [] [xPortSysTickHandler, IntDefaultHandler]"
proof -
  have e: "g_pfnVectors ! 21 = IntDefaultHandler" "g_pfnVectors ! 15 = xPortSysTickHandler"
    by (simp_all add: g_pfnVectors_def nth_append)
  have "cpu_step g_pfnVectors [IntDefaultHandler] (g_pfnVectors ! 15 # [IntDefaultHandler])"
    by (rule cpu_step.enter) (simp_all add: e vectors_length)
  then have "(cpu_step g_pfnVectors)\<^sup>*\<^sup>* (g_pfnVectors ! 21 # []) [xPortSysTickHandler, IntDefaultHandler]"
    by (simp add: e r_into_rtranclp)
  then show ?thesis
    using unserved_interrupt_hangs [of 21 g_pfnVectors "[]" "[xPortSysTickHandler, IntDefaultHandler]"]
    by (simp add: e vectors_length)
qed

end
