(* ===== verification/LoggerBoot.thy ===== *)
theory LoggerBoot
  imports LoggerApp UartConfig StartUp "HOL-Library.Signed_Division"
begin

text \<open>
  The start of the logger application: \<open>main\<close> of \<open>freertos_demo.c\<close>, \<open>Logger_Init\<close>, what each task does
  before its loop (\<open>LEDTask.c\<close>, \<open>Temperature.c\<close>, \<open>alert.c\<close>), and the bus transactions of the temperature
  sensor with their waiting loops. The calls of the driver library and of the operating system
  are recorded in order, with their answers; what they answer is a parameter that may depend on
  everything that happened before. A loop that waits for ever is \<open>None\<close>.
\<close>

subsection \<open>The hardware\<close>

datatype periph = GPIOA | GPIOB | GPIOE | GPION | I2C0 | UART0

datatype pin_type = UART_PINS | I2C_SCL | I2C_SDA | OUTPUT_PIN | INPUT_PIN

datatype pin_function = PB2_I2C0SCL | PB3_I2C0SDA | PA0_U0RX | PA1_U0TX

datatype master_command = BurstSend i2c_command | SINGLE_SEND | BURST_RECEIVE_START | BURST_RECEIVE_FINISH

datatype call =
    PeriphEnable periph
  | PeriphDisable periph
  | PeriphReset periph
  | PeriphReady periph bool
  | PinConfigure periph pin_function
  | PinType periph pin_type u8
  | PinWrite periph u8 u8
  | MasterInit bool
  | MasterFIFO u32
  | SlaveAddr u8 bool
  | DataPut u8
  | MasterControl master_command
  | MasterBusy bool
  | DataGet u32
  | PortIntRegister periph handler
  | PortIntBothEdges periph u8
  | PortIntEnable periph u8
  | TimerCreate string u32 bool
  | TimerStart string bool
  | Printed string

record device =
  is_ready :: "call list \<Rightarrow> periph \<Rightarrow> bool"
  is_busy :: "call list \<Rightarrow> bool"
  received :: "call list \<Rightarrow> u32"
  timer_made :: "call list \<Rightarrow> bool"
  timer_started :: "call list \<Rightarrow> bool"

text \<open>The waiting loop: ask until the answer is yes.\<close>

partial_function (option) poll ::
  "(call list \<Rightarrow> bool) \<Rightarrow> (bool \<Rightarrow> call) \<Rightarrow> call list \<Rightarrow> call list option" where
  "poll yes ev t = (if yes t then Some (t @ [ev True]) else poll yes ev (t @ [ev False]))"

definition wait_ready :: "device \<Rightarrow> periph \<Rightarrow> call list \<Rightarrow> call list option" where
  "wait_ready E p = poll (\<lambda>t. is_ready E t p) (PeriphReady p)"

definition wait_idle :: "device \<Rightarrow> call list \<Rightarrow> call list option" where
  "wait_idle E = poll (\<lambda>t. \<not> is_busy E t) (\<lambda>b. MasterBusy (\<not> b))"

subsection \<open>The tasks up to their loops\<close>

text \<open>\<open>pdMS_TO_TICKS\<close> with the tick rate of \<open>FreeRTOSConfig.h\<close>.\<close>

definition configTICK_RATE_HZ :: u32 where
  "configTICK_RATE_HZ = 1000"

definition pdMS_TO_TICKS :: "u32 \<Rightarrow> u32" where
  "pdMS_TO_TICKS ms = (ms * configTICK_RATE_HZ) div 1000"

text \<open>Create a timer and start it; \<open>report\<close>: the messages when either fails.\<close>

definition new_timer :: "device \<Rightarrow> string \<Rightarrow> u32 \<Rightarrow> (string \<times> string) option \<Rightarrow> call list \<Rightarrow> call list" where
  "new_timer E n ms report t =
     (let made = timer_made E t;
          t = t @ [TimerCreate n (pdMS_TO_TICKS ms) made] @
            (case report of Some (m, _) \<Rightarrow> if made then [] else [Printed m] | None \<Rightarrow> []);
          started = timer_started E t in
      t @ [TimerStart n started] @
        (case report of Some (_, m) \<Rightarrow> if started then [] else [Printed m] | None \<Rightarrow> []))"

definition LEDTask_setup :: "device \<Rightarrow> logger_struct \<Rightarrow> call list \<Rightarrow> (call list \<times> logger_struct) option" where
  "LEDTask_setup E junk t =
     do { t \<leftarrow> wait_ready E GPION (t @ [Printed (''Inside LED task'' @ [LF, CR]), PeriphEnable GPION]);
          let t = new_timer E ''MyTimer1'' 50 None
            (t @ [PinType GPION OUTPUT_PIN 1, PinType GPION OUTPUT_PIN 2,
                  PinWrite GPION 2 2, PinWrite GPION 1 0]);
          l \<leftarrow> led_init junk;
          Some (t, l) }"

definition AlertTask_setup :: "device \<Rightarrow> logger_struct \<Rightarrow> call list \<Rightarrow> (call list \<times> logger_struct) option" where
  "AlertTask_setup E junk t =
     do { t \<leftarrow> wait_ready E GPIOE (t @ [PeriphEnable GPIOE]);
          let t = t @ [PinType GPIOE INPUT_PIN 1, PortIntRegister GPIOE PortEHandler_entry,
                       PortIntBothEdges GPIOE 1, PortIntEnable GPIOE 1];
          a \<leftarrow> alert_init junk;
          Some (new_timer E ''MyTimer3'' 200 None t, a) }"

definition i2c_init :: "device \<Rightarrow> call list \<Rightarrow> call list option" where
  "i2c_init E t =
     do { t \<leftarrow> wait_ready E GPIOB (t @ [PeriphEnable I2C0, PeriphEnable GPIOB]);
          Some (t @ [PinConfigure GPIOB PB2_I2C0SCL, PinConfigure GPIOB PB3_I2C0SDA,
                     PinType GPIOB I2C_SCL 4, PinType GPIOB I2C_SDA 8]) }"

text \<open>The FIFO control register is given 80008000, a decimal number.\<close>

definition configure_i2c_master :: "device \<Rightarrow> call list \<Rightarrow> call list option" where
  "configure_i2c_master E t =
     do { t \<leftarrow> wait_ready E I2C0 (t @ [PeriphDisable I2C0, PeriphReset I2C0, PeriphEnable I2C0]);
          Some (t @ [MasterInit False, MasterFIFO 80008000]) }"

text \<open>The transactions: a write sends the register number and two bytes; a read sends the number,
  turns the bus round and receives two bytes. \<open>TEMP_SENS_ADDR\<close> is 0x48.\<close>

abbreviation (input) TEMP_SENS_ADDR :: u8 where "TEMP_SENS_ADDR \<equiv> 0x48"

primrec send_bytes :: "device \<Rightarrow> (i2c_command \<times> u8) list \<Rightarrow> call list \<Rightarrow> call list option" where
  "send_bytes E [] t = Some t"
| "send_bytes E (b # bs) t =
     do { t \<leftarrow> wait_idle E (t @ [DataPut (snd b), MasterControl (BurstSend (fst b))]);
          send_bytes E bs t }"

definition i2c_write_bus ::
  "device \<Rightarrow> u8 \<times> u8 \<Rightarrow> u8 \<Rightarrow> u8 \<Rightarrow> u16 \<Rightarrow> call list \<Rightarrow> call list option" where
  "i2c_write_bus E junk slave_addr reg data t =
     do { (bytes, text) \<leftarrow> i2c_write junk reg data;
          send_bytes E bytes
            (t @ (if text = [] then [] else [Printed text]) @ [SlaveAddr slave_addr False]) }"

definition i2c_read_bus :: "device \<Rightarrow> u8 \<Rightarrow> u8 \<Rightarrow> call list \<Rightarrow> (u16 \<times> call list) option" where
  "i2c_read_bus E slave_addr reg t =
     do { t \<leftarrow> wait_idle E (t @ [SlaveAddr slave_addr False, DataPut reg, MasterControl SINGLE_SEND]);
          t \<leftarrow> wait_idle E (t @ [SlaveAddr slave_addr True, MasterControl BURST_RECEIVE_START]);
          let data1 = received E t;
          let t = t @ [DataGet data1];
          t \<leftarrow> wait_idle E (t @ [MasterControl BURST_RECEIVE_FINISH]);
          let data2 = received E t;
          Some (i2c_read data1 data2, t @ [DataGet data2]) }"

text \<open>\<open>read_temperature\<close> with its transaction, which the configuration register does not get.\<close>

definition read_temperature_bus :: "device \<Rightarrow> u8 \<Rightarrow> u8 \<Rightarrow> call list \<Rightarrow> (int \<times> call list) option" where
  "read_temperature_bus E slave_addr reg t =
     (if reg = CONFIG_REG
      then case read_temperature reg 0 of (v, text) \<Rightarrow> Some (v, t @ [Printed text])
      else do { (raw, t) \<leftarrow> i2c_read_bus E slave_addr reg t; Some (fst (read_temperature reg raw), t) })"

definition TemperatureTask_setup ::
  "device \<Rightarrow> u8 \<times> u8 \<Rightarrow> u8 \<times> u8 \<Rightarrow> logger_struct \<Rightarrow> call list \<Rightarrow> (call list \<times> logger_struct) option" where
  "TemperatureTask_setup E j1 j2 junk t =
     do { t \<leftarrow> i2c_init E (t @ [Printed (''Inside Temperature Sensor task'' @ [LF, CR])]);
          t \<leftarrow> configure_i2c_master E t;
          let t = new_timer E ''MyTimer2'' 1000
            (Some (''Timer 2 init failed'' @ [LF, CR], ''Failed starting timer 2'' @ [LF, CR])) t;
          t \<leftarrow> i2c_write_bus E j1 TEMP_SENS_ADDR TLOW_REG 27 t;
          t \<leftarrow> i2c_write_bus E j2 TEMP_SENS_ADDR THIGH_REG 27 t;
          m \<leftarrow> temp_init junk;
          Some (t, m) }"

subsection \<open>The program\<close>

definition Logger_Init :: "call list \<Rightarrow> call list" where
  "Logger_Init t = t @ [PeriphEnable GPIOA, PeriphEnable UART0,
     PinConfigure GPIOA PA0_U0RX, PinConfigure GPIOA PA1_U0TX, PinType GPIOA UART_PINS (1 OR 2)]"

definition LoggerTask_setup :: "call list \<Rightarrow> call list" where
  "LoggerTask_setup t = t @ [Printed (''Inside LoggerTask'' @ [LF, CR])]"

datatype task = LEDTask | LoggerTask | TemperatureTask | AlertTask

record booted =
  global_g_ui32SysClock :: u32
  board :: "call list"
  terminal :: console
  loggerQueue :: "nat option"
  ready_tasks :: "task list"

text \<open>The calls a task makes before its loop; \<open>junk\<close>: what its local variables hold at first.\<close>

type_synonym junk = "(u8 \<times> u8) \<times> (u8 \<times> u8) \<times> logger_struct \<times> logger_struct \<times> logger_struct"

fun task_setup :: "device \<Rightarrow> junk \<Rightarrow> task \<Rightarrow> call list \<Rightarrow> call list option" where
  "task_setup E (j1, j2, g1, g2, g3) LEDTask t = map_option fst (LEDTask_setup E g1 t)"
| "task_setup E (j1, j2, g1, g2, g3) LoggerTask t = Some (LoggerTask_setup t)"
| "task_setup E (j1, j2, g1, g2, g3) TemperatureTask t = map_option fst (TemperatureTask_setup E j1 j2 g2 t)"
| "task_setup E (j1, j2, g1, g2, g3) AlertTask t = map_option fst (AlertTask_setup E g3 t)"

text \<open>\<open>main\<close> up to the scheduler. The local \<open>g_ui32SysClock\<close> gets the clock rate \<open>clock\<close>; \<open>q\<close>: the handle
  \<open>xQueueCreate\<close> returns, if any; \<open>fits\<close>: the tasks for which \<open>xTaskCreate\<close> has memory.\<close>

definition main ::
  "bool \<Rightarrow> bool \<Rightarrow> uart_driver \<Rightarrow> u32 \<Rightarrow> nat option \<Rightarrow> (task \<Rightarrow> bool) \<Rightarrow> console \<Rightarrow> booted option" where
  "main debug buffered D clock q fits c =
     (let t = Logger_Init [] in
      do { c \<leftarrow> UARTStdioConfig debug buffered D 0 115200 clock c;
           let t = t @ (if q = None then [Printed (''Setting up logger queue failed'' @ [LF, CR])] else []);
           Some \<lparr>global_g_ui32SysClock = 0, board = t, terminal = c, loggerQueue = q,
             ready_tasks = filter fits [LEDTask, LoggerTask, TemperatureTask, AlertTask]\<rparr> })"

text \<open>The hook for a stack overflow: what it draws before it loops for ever, on a display of width
  \<open>w\<close> and height \<open>h\<close> (C division rounds towards zero).\<close>

datatype fatal_draw =
    GrContextInit
  | GrContextForegroundSet string
  | GrContextBackgroundSet string
  | GrContextFontSet string
  | GrStringDrawCentered string int int int bool

definition vApplicationStackOverflowHook :: "u16 \<Rightarrow> u16 \<Rightarrow> fatal_draw list" where
  "vApplicationStackOverflowHook w h =
     [GrContextInit, GrContextForegroundSet ''ClrRed'', GrContextBackgroundSet ''ClrBlack'',
      GrContextFontSet ''g_psFontCm20'',
      GrStringDrawCentered ''Fatal FreeRTOS error!'' (- 1) (uint w sdiv 2)
        ((uint h - 24) sdiv 2 + 24) True]"

text \<open>On the board's display of 320 by 240 the message is centred below the 24 rows of the banner.\<close>

lemma fatal_message_centred:
  "last (vApplicationStackOverflowHook 320 240) = GrStringDrawCentered ''Fatal FreeRTOS error!'' (- 1) 160 132 True"
  by (simp add: vApplicationStackOverflowHook_def)

subsection \<open>The waiting loop\<close>

text \<open>\<open>asked yes ev t u\<close>: after some questions answered no, one is answered yes.\<close>

definition asked :: "(call list \<Rightarrow> bool) \<Rightarrow> (bool \<Rightarrow> call) \<Rightarrow> call list \<Rightarrow> call list \<Rightarrow> bool" where
  "asked yes ev t u \<longleftrightarrow>
     (\<exists>n. yes (t @ replicate n (ev False)) \<and> u = t @ replicate n (ev False) @ [ev True])"

lemma asked_0: "yes t \<Longrightarrow> asked yes ev t (t @ [ev True])"
  unfolding asked_def by (rule exI [of _ 0]) simp

lemma asked_Suc: "asked yes ev (t @ [ev False]) u \<Longrightarrow> asked yes ev t u"
  unfolding asked_def by (elim exE, rule_tac x = "Suc n" in exI) simp

lemma poll_result:
  assumes "poll yes ev t = Some u"
  shows "asked yes ev t u"
proof (rule poll.raw_induct [OF _ assms])
  fix f yes ev t u
  assume ih: "\<And>yes ev t u. f yes ev t = Some u \<Longrightarrow> asked yes ev t u"
    and f: "(if yes t then Some (t @ [ev True]) else f yes ev (t @ [ev False])) = Some u"
  show "asked yes ev t u" using f asked_0 asked_Suc [OF ih] by (auto split: if_splits)
qed

lemma poll_returns: "yes (t @ replicate n (ev False)) \<Longrightarrow> \<exists>u. poll yes ev t = Some u"
proof (induction n arbitrary: t)
  case 0
  then show ?case by (subst poll.simps) simp
next
  case (Suc n)
  then have "\<exists>u. poll yes ev (t @ [ev False]) = Some u" by simp
  then show ?case by (subst poll.simps) simp
qed

text \<open>The loop ends exactly when the answer becomes yes while it asks.\<close>

lemma poll_ends_iff: "(\<exists>u. poll yes ev t = Some u) \<longleftrightarrow> (\<exists>n. yes (t @ replicate n (ev False)))"
  using poll_result poll_returns unfolding asked_def by metis

text \<open>The hardware answers in the end, whatever happened before.\<close>

definition responsive :: "device \<Rightarrow> bool" where
  "responsive E \<longleftrightarrow>
     (\<forall>t p. \<exists>n. is_ready E (t @ replicate n (PeriphReady p False)) p) \<and>
     (\<forall>t. \<exists>n. \<not> is_busy E (t @ replicate n (MasterBusy True)))"

lemma wait_ready_result: "wait_ready E p t = Some u \<Longrightarrow>
    \<exists>n. u = t @ replicate n (PeriphReady p False) @ [PeriphReady p True]"
  unfolding wait_ready_def using poll_result unfolding asked_def by metis

lemma wait_idle_result: "wait_idle E t = Some u \<Longrightarrow>
    \<exists>n. u = t @ replicate n (MasterBusy True) @ [MasterBusy False] \<and> \<not> is_busy E (t @ replicate n (MasterBusy True))"
  unfolding wait_idle_def using poll_result [of _ "\<lambda>b. MasterBusy (\<not> b)"] unfolding asked_def by fastforce

lemma responsive_waits:
  assumes "responsive E"
  shows "\<exists>u. wait_ready E p t = Some u" "\<exists>u. wait_idle E t = Some u"
  using assms poll_ends_iff [of _ "\<lambda>b. MasterBusy (\<not> b)"]
  unfolding responsive_def wait_ready_def wait_idle_def poll_ends_iff by auto

lemma responsive_send: "responsive E \<Longrightarrow> \<exists>u. send_bytes E bs t = Some u"
proof (induction bs arbitrary: t)
  case (Cons b bs)
  then show ?case
    using responsive_waits(2) [of E "t @ [DataPut (snd b), MasterControl (BurstSend (fst b))]"] by force
qed simp

subsection \<open>Peripherals are used when they are ready\<close>

text \<open>The peripheral whose registers a call touches, and which peripherals are known to be ready.\<close>

fun touches :: "call \<Rightarrow> periph option" where
  "touches (PinConfigure p _) = Some p"
| "touches (PinType p _ _) = Some p"
| "touches (PinWrite p _ _) = Some p"
| "touches (MasterInit _) = Some I2C0"
| "touches (MasterFIFO _) = Some I2C0"
| "touches (SlaveAddr _ _) = Some I2C0"
| "touches (DataPut _) = Some I2C0"
| "touches (MasterControl _) = Some I2C0"
| "touches (MasterBusy _) = Some I2C0"
| "touches (DataGet _) = Some I2C0"
| "touches (PortIntRegister p _) = Some p"
| "touches (PortIntBothEdges p _) = Some p"
| "touches (PortIntEnable p _) = Some p"
| "touches _ = None"

fun known :: "call \<Rightarrow> (periph \<Rightarrow> bool) \<Rightarrow> periph \<Rightarrow> bool" where
  "known (PeriphReady p True) R = R(p := True)"
| "known (PeriphDisable p) R = R(p := False)"
| "known (PeriphReset p) R = R(p := False)"
| "known _ R = R"

primrec known_after :: "(periph \<Rightarrow> bool) \<Rightarrow> call list \<Rightarrow> periph \<Rightarrow> bool" where
  "known_after R [] = R"
| "known_after R (e # t) = known_after (known e R) t"

primrec guarded :: "(periph \<Rightarrow> bool) \<Rightarrow> call list \<Rightarrow> bool" where
  "guarded R [] \<longleftrightarrow> True"
| "guarded R (e # t) \<longleftrightarrow> pred_option R (touches e) \<and> guarded (known e R) t"

lemma known_after_append [simp]: "known_after R (t @ u) = known_after (known_after R t) u"
  by (induction t arbitrary: R) auto

lemma guarded_append [simp]: "guarded R (t @ u) \<longleftrightarrow> guarded R t \<and> guarded (known_after R t) u"
  by (induction t arbitrary: R) auto

lemma guarded_replicate [simp]:
  "known e R = R \<Longrightarrow> known_after R (replicate n e) = R"
  "known e R = R \<Longrightarrow> pred_option R (touches e) \<Longrightarrow> guarded R (replicate n e)"
  by (induction n) auto

text \<open>\<open>safely R P u\<close>: the calls \<open>u\<close>, if there are any, are guarded and leave the peripherals \<open>P\<close> known.\<close>

definition safely :: "(periph \<Rightarrow> bool) \<Rightarrow> (periph \<Rightarrow> bool) \<Rightarrow> call list option \<Rightarrow> bool" where
  "safely R K u \<longleftrightarrow> pred_option (\<lambda>t. guarded R t \<and> known_after R t = K) u"

lemma safely_bind: "safely R K u \<Longrightarrow> (\<And>t. guarded R t \<Longrightarrow> known_after R t = K \<Longrightarrow> safely R L (f t)) \<Longrightarrow>
    safely R L (Option.bind u f)"
  by (cases u) (auto simp: safely_def)

lemma safely_Some [simp]: "safely R K (Some t) \<longleftrightarrow> guarded R t \<and> known_after R t = K"
  by (simp add: safely_def)

lemma safely_wait_ready:
  "guarded R t \<Longrightarrow> known_after R t = K \<Longrightarrow> safely R (K(p := True)) (wait_ready E p t)"
  by (cases "wait_ready E p t") (auto simp: safely_def dest!: wait_ready_result)

lemma safely_wait_idle:
  "guarded R t \<Longrightarrow> known_after R t = K \<Longrightarrow> K I2C0 \<Longrightarrow> safely R K (wait_idle E t)"
  by (cases "wait_idle E t") (auto simp: safely_def dest!: wait_idle_result)

lemma safely_send:
  "guarded R t \<Longrightarrow> known_after R t = K \<Longrightarrow> K I2C0 \<Longrightarrow> safely R K (send_bytes E bs t)"
  by (induction bs arbitrary: t) (auto intro!: safely_bind [OF safely_wait_idle])

lemma safely_write:
  "guarded R t \<Longrightarrow> known_after R t = K \<Longrightarrow> K I2C0 \<Longrightarrow> safely R K (i2c_write_bus E junk a reg d t)"
  unfolding i2c_write_bus_def
  by (cases "i2c_write junk reg d") (auto simp: safely_def [of _ _ None] intro!: safely_send)

lemma guarded_new_timer [simp]:
  "guarded R (new_timer E n ms report t) \<longleftrightarrow> guarded R t"
  "known_after R (new_timer E n ms report t) = known_after R t"
  by (auto simp: new_timer_def Let_def split: option.splits)

abbreviation (input) nothing_known :: "periph \<Rightarrow> bool" where "nothing_known \<equiv> \<lambda>_. False"

lemma guarded_bind:
  "safely R K u \<Longrightarrow> (\<And>t. guarded R t \<Longrightarrow> known_after R t = K \<Longrightarrow> pred_option P (f t)) \<Longrightarrow>
    pred_option P (Option.bind u f)"
  by (cases u) (auto simp: safely_def)

lemma LEDTask_guarded: "pred_option (\<lambda>(t, l). guarded nothing_known t) (LEDTask_setup E g [])"
  unfolding LEDTask_setup_def
  by (rule guarded_bind [OF safely_wait_ready]) (auto simp: Let_def split: bind_splits)

lemma AlertTask_guarded: "pred_option (\<lambda>(t, l). guarded nothing_known t) (AlertTask_setup E g [])"
  unfolding AlertTask_setup_def
  by (rule guarded_bind [OF safely_wait_ready]) (auto simp: Let_def split: bind_splits)

lemma safely_i2c_init: "guarded R t \<Longrightarrow> known_after R t = K \<Longrightarrow> safely R (K(GPIOB := True)) (i2c_init E t)"
  unfolding i2c_init_def by (rule safely_bind [OF safely_wait_ready]) auto

lemma safely_configure:
  "guarded R t \<Longrightarrow> known_after R t = K \<Longrightarrow> safely R (K(I2C0 := True)) (configure_i2c_master E t)"
  unfolding configure_i2c_master_def by (rule safely_bind [OF safely_wait_ready]) auto

lemma TemperatureTask_guarded:
  "pred_option (\<lambda>(t, l). guarded nothing_known t) (TemperatureTask_setup E j1 j2 g [])"
  unfolding TemperatureTask_setup_def Let_def
  by (rule guarded_bind [OF safely_i2c_init, where R = nothing_known]
      guarded_bind [OF safely_configure, where R = nothing_known]
      guarded_bind [OF safely_write, where R = nothing_known] | simp)+ (auto split: bind_splits)

text \<open>\<open>Logger_Init\<close> does not wait for the port it configures.\<close>

lemma Logger_Init_unguarded: "\<not> guarded nothing_known (Logger_Init [])"
  by (simp add: Logger_Init_def)

subsection \<open>The set-up ends, in the start state of the application\<close>

text \<open>The level of the output pins \<open>m\<close> of port N after the calls \<open>t\<close>.\<close>

definition pin_level :: "call list \<Rightarrow> u8 \<Rightarrow> bool" where
  "pin_level t m =
     fold (\<lambda>e b. case e of PinWrite p k v \<Rightarrow> if p = GPION \<and> k = m then v \<noteq> 0 else b | _ \<Rightarrow> b) t False"

text \<open>The application when every task has reached its loop: the globals hold their initial values,
  the pins their levels, the records what the tasks stored.\<close>

definition app_boot :: "device \<Rightarrow> junk \<Rightarrow> u32 \<Rightarrow> app option" where
  "app_boot E junk ticks =
     (case junk of (j1, j2, g1, g2, g3) \<Rightarrow>
        do { (tl, l) \<leftarrow> LEDTask_setup E g1 [];
             (tm, m) \<leftarrow> TemperatureTask_setup E j1 j2 g2 [];
             (ta, a) \<leftarrow> AlertTask_setup E g3 [];
             Some \<lparr>now = ticks, send_message = False, LEDState = True,
               pin0 = pin_level tl 1, pin1 = pin_level tl 2,
               led_pc = LTest, led_log = l, led_count = 0, measureTemperature = False,
               temp_pc = TTest, temp_log = m, edge = 0, sendAlert = False, alert_pc = ATest,
               alert_log = a, queue = [], line = [], toggles = 0, led_sends = 0, fired2 = 0,
               temp_sends = 0, fired3 = 0, alert_sends = 0, accepted = []\<rparr> })"

lemma pin_level_new_timer [simp]: "pin_level (new_timer E n ms report t) m = pin_level t m"
  by (auto simp: pin_level_def new_timer_def Let_def split: option.splits)

lemma responsive_write: "responsive E \<Longrightarrow> \<exists>u. i2c_write_bus E junk a TLOW_REG 27 t = Some u"
  "responsive E \<Longrightarrow> \<exists>u. i2c_write_bus E junk a THIGH_REG 27 t = Some u"
  by (simp_all add: i2c_write_bus_def i2c_write_def responsive_send del: send_bytes.simps)

lemma LEDTask_reaches_loop:
  assumes "responsive E" "led_init g = Some l"
  shows "\<exists>t. LEDTask_setup E g [] = Some (t, l) \<and> \<not> pin_level t 1 \<and> pin_level t 2"
proof -
  obtain u where "wait_ready E GPION ([] @ [Printed (''Inside LED task'' @ [LF, CR]), PeriphEnable GPION]) = Some u"
    using responsive_waits(1) [OF assms(1)] by blast
  then show ?thesis using assms(2) by (simp add: LEDTask_setup_def Let_def) (simp add: pin_level_def)
qed

lemma AlertTask_reaches_loop:
  assumes "responsive E" "alert_init g = Some a"
  shows "\<exists>t. AlertTask_setup E g [] = Some (t, a)"
  using responsive_waits(1) [OF assms(1), of GPIOE "[PeriphEnable GPIOE]"] assms(2)
  by (auto simp: AlertTask_setup_def Let_def)

lemma TemperatureTask_reaches_loop:
  assumes "responsive E" "temp_init g = Some m"
  shows "\<exists>t. TemperatureTask_setup E j1 j2 g [] = Some (t, m)"
proof -
  have "\<exists>u. i2c_init E t = Some u" "\<exists>u. configure_i2c_master E t = Some u" for t
    using responsive_waits(1) [OF assms(1)] unfolding i2c_init_def configure_i2c_master_def
    by (metis bind.bind_lunit)+
  then show ?thesis using responsive_write [OF assms(1)] assms(2)
    unfolding TemperatureTask_setup_def Let_def append_Nil by (metis bind.bind_lunit)
qed

text \<open>If the hardware answers in the end, every task gets through its set-up, with all its waiting
  loops, to its own loop; and the pins, the records and the globals are then those of the start
  state from which the application is verified (\<open>app_start\<close>), which satisfies its invariant.\<close>

theorem boot_reaches_app_start:
  assumes "responsive E" "struct_ok g1" "struct_ok g2" "struct_ok g3"
  shows "\<exists>s. app_boot E (j1, j2, g1, g2, g3) ticks = Some s \<and>
    app_start (g1, g2, g3) ticks = Some s \<and> app_inv s"
proof -
  obtain s where s: "app_start (g1, g2, g3) ticks = Some s" "app_inv s"
    using app_start_inv [OF assms(2-4)] by blast
  obtain l m a where i: "led_init g1 = Some l" "temp_init g2 = Some m" "alert_init g3 = Some a"
    using init_records [OF assms(2-4)] by blast
  obtain tl tm ta where "LEDTask_setup E g1 [] = Some (tl, l)" "\<not> pin_level tl 1" "pin_level tl 2"
    "TemperatureTask_setup E j1 j2 g2 [] = Some (tm, m)" "AlertTask_setup E g3 [] = Some (ta, a)"
    using LEDTask_reaches_loop [OF assms(1) i(1)] TemperatureTask_reaches_loop [OF assms(1) i(2)]
      AlertTask_reaches_loop [OF assms(1) i(3)] by metis
  then have "app_boot E (j1, j2, g1, g2, g3) ticks = app_start (g1, g2, g3) ticks"
    by (simp add: app_boot_def app_start_def i)
  with s show ?thesis by simp
qed

text \<open>Hardware that is always ready and idle.\<close>

definition prompt :: device where
  "prompt = \<lparr>is_ready = \<lambda>_ _. True, is_busy = \<lambda>_. False, received = \<lambda>_. 0,
     timer_made = \<lambda>_. True, timer_started = \<lambda>_. True\<rparr>"

lemma prompt_responsive: "responsive prompt"
  by (simp add: responsive_def prompt_def)

text \<open>A record with arbitrary contents and arrays of the right sizes.\<close>

definition blank_record :: logger_struct where
  "blank_record = \<lparr>source = replicate 12 (CHR ''x''), timeStampsec = 0, timeStampmsec = 0, toggleCount = 0,
     temperature = 0, name = replicate 20 (CHR ''x''), message = replicate 32 (CHR ''x'')\<rparr>"

lemma blank_record_ok: "struct_ok blank_record"
  by (simp add: struct_ok_def blank_record_def)

theorem boot_reaches_app_start_witness:
  "\<exists>s. app_boot prompt ((0, 0), (0, 0), blank_record, blank_record, blank_record) 7 = Some s \<and>
    app_start (blank_record, blank_record, blank_record) 7 = Some s \<and> app_inv s"
  by (rule boot_reaches_app_start [OF prompt_responsive blank_record_ok blank_record_ok blank_record_ok])



text \<open>No task touches the registers of a peripheral, its own or the bus's, before that peripheral has
  answered that it is ready after it was last enabled, disabled or reset.\<close>

theorem tasks_wait_for_peripherals:
  "pred_option (\<lambda>t. guarded (\<lambda>_. False) t) (task_setup E junk k [])"
proof -
  obtain j1 j2 g1 g2 g3 where j: "junk = (j1, j2, g1, g2, g3)" by (metis prod_cases5)
  show ?thesis
    using LEDTask_guarded [of E g1] AlertTask_guarded [of E g3] TemperatureTask_guarded [of E j1 j2 g2]
    by (cases k) (auto simp: j LoggerTask_setup_def option.pred_map comp_def split_def)
qed

text \<open>The set-up of the LED task ends exactly when its port becomes ready.\<close>

lemma LEDTask_setup_ends_iff:
  assumes "struct_ok g"
  shows "LEDTask_setup E g t \<noteq> None \<longleftrightarrow>
    (\<exists>n. is_ready E (t @ [Printed (''Inside LED task'' @ [LF, CR]), PeriphEnable GPION] @
       replicate n (PeriphReady GPION False)) GPION)"
proof -
  obtain l where "led_init g = Some l" using init_records [OF assms assms assms] by blast
  then have "LEDTask_setup E g t \<noteq> None \<longleftrightarrow>
      (\<exists>u. wait_ready E GPION (t @ [Printed (''Inside LED task'' @ [LF, CR]), PeriphEnable GPION]) = Some u)"
    by (auto simp: LEDTask_setup_def Let_def split: bind_splits)
  then show ?thesis by (simp add: wait_ready_def poll_ends_iff)
qed

subsection \<open>The interrupt of the alert task\<close>

text \<open>The exception numbers of the peripherals, the vector table after the calls \<open>t\<close> (a handler is
  installed by \<open>GPIOIntRegister\<close>), and whether port E may interrupt.\<close>

fun exception_number :: "periph \<Rightarrow> nat" where
  "exception_number GPIOA = 16"
| "exception_number GPIOB = 17"
| "exception_number GPIOE = 20"
| "exception_number UART0 = 21"
| "exception_number I2C0 = 24"
| "exception_number GPION = 89"

definition vectors :: "call list \<Rightarrow> handler list" where
  "vectors t = fold (\<lambda>e V. case e of PortIntRegister p h \<Rightarrow> V[exception_number p := h] | _ \<Rightarrow> V)
     t g_pfnVectors"

definition port_enabled :: "call list \<Rightarrow> bool" where
  "port_enabled t = list_ex (\<lambda>e. case e of PortIntEnable p m \<Rightarrow> p = GPIOE \<and> m \<noteq> 0 | _ \<Rightarrow> False) t"

lemma vectors_append: "vectors (t @ u) =
    fold (\<lambda>e V. case e of PortIntRegister p h \<Rightarrow> V[exception_number p := h] | _ \<Rightarrow> V) u (vectors t)"
  by (simp add: vectors_def)

lemma vectors_size [simp]: "length (vectors t) = 128"
proof (induction t rule: rev_induct)
  case Nil
  then show ?case by (simp add: vectors_def vectors_length)
next
  case (snoc e t)
  then show ?case by (cases e) (auto simp: vectors_append)
qed

lemma port_enabled_Cons [simp]:
  "\<not> port_enabled []"
  "port_enabled (e # t) \<longleftrightarrow> (\<exists>m. e = PortIntEnable GPIOE m \<and> m \<noteq> 0) \<or> port_enabled t"
  by (auto simp: port_enabled_def split: call.splits)

lemma port_enabled_append [simp]: "port_enabled (t @ u) \<longleftrightarrow> port_enabled t \<or> port_enabled u"
  by (simp add: port_enabled_def)

lemma prefix_enabled: "prefix u t \<Longrightarrow> port_enabled u \<Longrightarrow> port_enabled t"
  by (auto elim!: prefixE)

lemma new_timer_calls: "\<exists>w. new_timer E n ms report t = t @ w \<and> \<not> port_enabled w \<and>
    (\<forall>e \<in> set w. \<forall>p h. e \<noteq> PortIntRegister p h)"
  by (auto simp: new_timer_def Let_def port_enabled_def split: option.splits)

lemma vectors_keep: "\<forall>e \<in> set w. \<forall>p h. e \<noteq> PortIntRegister p h \<Longrightarrow> vectors (t @ w) = vectors t"
  by (induction w rule: rev_induct) (auto simp: vectors_append split: call.splits)

lemma waits_enable_nothing: "\<not> port_enabled (replicate n (PeriphReady p b))"
  by (induction n) simp_all

lemma AlertTask_registers:
  assumes "\<not> port_enabled t0" "AlertTask_setup E g t0 = Some (t, a)"
  shows "\<exists>pre w. t = (pre @ [PortIntRegister GPIOE PortEHandler_entry]) @ w \<and> \<not> port_enabled pre \<and>
    (\<forall>e \<in> set w. \<forall>p h. e \<noteq> PortIntRegister p h)"
proof -
  obtain u where u: "wait_ready E GPIOE (t0 @ [PeriphEnable GPIOE]) = Some u"
    and t: "t = new_timer E ''MyTimer3'' 200 None (u @ [PinType GPIOE INPUT_PIN 1,
      PortIntRegister GPIOE PortEHandler_entry, PortIntBothEdges GPIOE 1, PortIntEnable GPIOE 1])"
    using assms(2) by (auto simp: AlertTask_setup_def Let_def split: bind_splits)
  obtain w where w: "t = (u @ [PinType GPIOE INPUT_PIN 1, PortIntRegister GPIOE PortEHandler_entry,
      PortIntBothEdges GPIOE 1, PortIntEnable GPIOE 1]) @ w" "\<forall>e \<in> set w. \<forall>p h. e \<noteq> PortIntRegister p h"
    using new_timer_calls [of E "''MyTimer3''" 200 None] unfolding t by blast
  have "\<not> port_enabled (u @ [PinType GPIOE INPUT_PIN 1])"
    using assms(1) wait_ready_result [OF u] by (auto simp: waits_enable_nothing)
  with w show ?thesis
    by (intro exI [of _ "u @ [PinType GPIOE INPUT_PIN 1]"]
        exI [of _ "[PortIntBothEdges GPIOE 1, PortIntEnable GPIOE 1] @ w"]) auto
qed

text \<open>From the moment the alert task lets port E interrupt, the vector of that interrupt is the
  task's handler: at no point of its set-up can an edge of the pin reach the default handler.\<close>

theorem alert_interrupt_served:
  assumes "\<not> port_enabled t0" "AlertTask_setup E g t0 = Some (t, a)" "prefix u t" "port_enabled u"
  shows "vectors u ! exception_number GPIOE = PortEHandler_entry"
proof -
  obtain pre w where t: "t = (pre @ [PortIntRegister GPIOE PortEHandler_entry]) @ w" "\<not> port_enabled pre"
    "\<forall>e \<in> set w. \<forall>p h. e \<noteq> PortIntRegister p h"
    using AlertTask_registers [OF assms(1,2)] by blast
  have "\<not> prefix u (pre @ [PortIntRegister GPIOE PortEHandler_entry])"
    using t(2) assms(4) prefix_enabled by fastforce
  then obtain v where v: "u = (pre @ [PortIntRegister GPIOE PortEHandler_entry]) @ v" "prefix v w"
    using iffD1 [OF prefix_append assms(3) [unfolded t(1)]] by blast
  have "\<forall>e \<in> set v. \<forall>p h. e \<noteq> PortIntRegister p h" using t(3) set_mono_prefix [OF v(2)] by blast
  then have "vectors u = vectors (pre @ [PortIntRegister GPIOE PortEHandler_entry])"
    unfolding v(1) by (rule vectors_keep)
  then show ?thesis by (simp add: vectors_append)
qed

theorem alert_interrupt_served_witness:
  "\<exists>t a. AlertTask_setup prompt blank_record [] = Some (t, a) \<and> port_enabled t \<and>
    vectors t ! exception_number GPIOE = PortEHandler_entry"
proof -
  obtain a where "alert_init blank_record = Some a"
    using init_records [OF blank_record_ok blank_record_ok blank_record_ok] by blast
  then obtain t where t: "AlertTask_setup prompt blank_record [] = Some (t, a)" "port_enabled t"
    by (auto simp: AlertTask_setup_def wait_ready_def poll.simps prompt_def new_timer_def
        port_enabled_def)
  have "\<not> port_enabled []" by (simp add: port_enabled_def)
  from alert_interrupt_served [OF this t(1) _ t(2)] t show ?thesis by blast
qed

text \<open>Before, the vector leads to a handler that never returns.\<close>

lemma alert_interrupt_unserved: "endless (vectors [] ! exception_number GPIOE)"
  by (simp add: vectors_def g_pfnVectors_def nth_append)

subsection \<open>The sensor on the bus\<close>

text \<open>The calls without the questions of the waiting loops.\<close>

definition ops :: "call list \<Rightarrow> call list" where
  "ops = filter (\<lambda>e. case e of MasterBusy _ \<Rightarrow> False | _ \<Rightarrow> True)"

lemma ops_simps [simp]:
  "ops [] = []"
  "ops (e # t) = (case e of MasterBusy _ \<Rightarrow> ops t | _ \<Rightarrow> e # ops t)"
  "ops (t @ u) = ops t @ ops u"
  "ops (replicate n (MasterBusy b)) = []"
  by (auto simp: ops_def split: call.splits)

definition write_calls :: "u8 \<Rightarrow> u8 \<Rightarrow> u8 \<Rightarrow> call list" where
  "write_calls r b1 b2 =
     [SlaveAddr TEMP_SENS_ADDR False, DataPut r, MasterControl (BurstSend BURST_SEND_START),
      DataPut b1, MasterControl (BurstSend BURST_SEND_CONT),
      DataPut b2, MasterControl (BurstSend BURST_SEND_FINISH)]"

definition read_calls :: "u8 \<Rightarrow> call list" where
  "read_calls r =
     [SlaveAddr TEMP_SENS_ADDR False, DataPut r, MasterControl SINGLE_SEND,
      SlaveAddr TEMP_SENS_ADDR True, MasterControl BURST_RECEIVE_START]"

text \<open>
  What the program relies on of the sensor: asking whether the bus is busy changes nothing, and a
  register that can be written, read right afterwards, sends the two bytes it was given.
\<close>

definition keeps_registers :: "device \<Rightarrow> bool" where
  "keeps_registers E \<longleftrightarrow>
     (\<forall>t. received E t = received E (ops t)) \<and>
     (\<forall>t r b1 b2. r \<in> {CONFIG_REG, TLOW_REG, THIGH_REG} \<longrightarrow>
        received E (t @ write_calls r b1 b2 @ read_calls r) = ucast b1 \<and>
        (\<forall>d. received E (t @ write_calls r b1 b2 @ read_calls r @
           [DataGet d, MasterControl BURST_RECEIVE_FINISH]) = ucast b2))"

lemma wait_idle_ops: "wait_idle E t = Some u \<Longrightarrow> ops u = ops t"
  by (drule wait_idle_result) auto

lemma write_bus_calls:
  assumes "responsive E"
    "i2c_write junk reg d = Some ([(BURST_SEND_START, reg), (BURST_SEND_CONT, b1), (BURST_SEND_FINISH, b2)], [])"
  obtains u where "i2c_write_bus E junk TEMP_SENS_ADDR reg d t = Some u"
    "ops u = ops t @ write_calls reg b1 b2"
proof -
  let ?bs = "[(BURST_SEND_START, reg), (BURST_SEND_CONT, b1), (BURST_SEND_FINISH, b2)]"
  obtain u where u: "send_bytes E ?bs (t @ [SlaveAddr TEMP_SENS_ADDR False]) = Some u"
    using responsive_send [OF assms(1)] by blast
  then have "ops u = ops t @ write_calls reg b1 b2"
    by (auto simp: write_calls_def dest!: wait_idle_ops split: bind_splits)
  moreover have "i2c_write_bus E junk TEMP_SENS_ADDR reg d t = Some u"
    using u assms(2) by (simp add: i2c_write_bus_def)
  ultimately show ?thesis by (rule that [rotated])
qed

lemma read_bus_result:
  assumes "responsive E" "keeps_registers E" "r \<in> {CONFIG_REG, TLOW_REG, THIGH_REG}"
    "ops t = t0 @ write_calls r b1 b2"
  shows "\<exists>u. i2c_read_bus E TEMP_SENS_ADDR r t = Some (i2c_read (ucast b1) (ucast b2), u)"
proof -
  obtain t1 where t1: "wait_idle E (t @ [SlaveAddr TEMP_SENS_ADDR False, DataPut r, MasterControl SINGLE_SEND]) = Some t1"
    using responsive_waits(2) [OF assms(1)] by blast
  obtain t2 where t2: "wait_idle E (t1 @ [SlaveAddr TEMP_SENS_ADDR True, MasterControl BURST_RECEIVE_START]) = Some t2"
    using responsive_waits(2) [OF assms(1)] by blast
  obtain t3 where t3: "wait_idle E ((t2 @ [DataGet (received E t2)]) @ [MasterControl BURST_RECEIVE_FINISH]) = Some t3"
    using responsive_waits(2) [OF assms(1)] by blast
  have o2: "ops t2 = t0 @ write_calls r b1 b2 @ read_calls r"
    using wait_idle_ops [OF t1] wait_idle_ops [OF t2] assms(4) by (simp add: read_calls_def)
  then have o3: "ops t3 = t0 @ write_calls r b1 b2 @ read_calls r @
      [DataGet (received E t2), MasterControl BURST_RECEIVE_FINISH]"
    using wait_idle_ops [OF t3] by simp
  have "received E t2 = ucast b1" "received E t3 = ucast b2"
    using assms(2,3) o2 o3 unfolding keeps_registers_def by metis+
  with t1 t2 t3 show ?thesis by (simp add: i2c_read_bus_def Let_def)
qed


text \<open>A sensor that behaves so: it sends the byte put on the bus four bytes earlier.\<close>

definition echo :: device where
  "echo = prompt\<lparr>received := \<lambda>t. case rev (ops t) ! 8 of DataPut b \<Rightarrow> ucast b | _ \<Rightarrow> 0\<rparr>"

lemma ops_ops: "ops (ops t) = ops t"
  by (simp add: ops_def)

lemma echo_ok: "responsive echo" "keeps_registers echo"
  by (auto simp: echo_def responsive_def prompt_def keeps_registers_def ops_ops write_calls_def read_calls_def)


text \<open>The temperature register is reported as read-only, and yet written, with whatever the buffer holds.\<close>

lemma read_only_register_written:
  assumes "responsive E"
  shows "\<exists>u. i2c_write_bus E (j1, j2) TEMP_SENS_ADDR TEMP_REG d t = Some u \<and>
    ops u = ops t @ [Printed (''Temperature register is read only register'' @ [LF, CR])] @
      write_calls TEMP_REG j1 j2"
proof -
  obtain u where u: "send_bytes E [(BURST_SEND_START, TEMP_REG), (BURST_SEND_CONT, j1), (BURST_SEND_FINISH, j2)]
      (t @ [Printed (''Temperature register is read only register'' @ [LF, CR]), SlaveAddr TEMP_SENS_ADDR False]) = Some u"
    using responsive_send [OF assms] by blast
  then show ?thesis
    by (auto simp: i2c_write_bus_def i2c_write_def write_calls_def dest!: wait_idle_ops split: bind_splits)
qed

text \<open>Without a queue the program says so and starts all its tasks; the global clock rate stays 0.\<close>

lemma main_ignores_missing_queue:
  "main debug buffered D clock None (\<lambda>_. True) c = Some b \<Longrightarrow>
    set (ready_tasks b) = UNIV \<and> global_g_ui32SysClock b = 0 \<and>
    last (board b) = Printed (''Setting up logger queue failed'' @ [LF, CR])"
  by (auto simp: main_def Let_def split: bind_splits) (metis task.exhaust)

end
