(* ===== verification/PthreadSub.thy ===== *)
theory PthreadSub
  imports Prelude "HOL-Library.Char_ord"
begin

text \<open>
  \<open>pthread_sub.c\<close> of HW4: the letter statistics of the first child thread (an in-place sort of the
  text through \<open>strcmp\<close> of its suffixes, and the list of letters that occur fewer than 100 times),
  the log file's name, the signal handler and the periodic read of the second child. A read through
  a null pointer or outside an array is \<open>None\<close>. Positions are natural numbers: the file is shorter
  than \<open>2 ^ 31\<close> bytes.
\<close>

subsection \<open>Sorting the text\<close>

definition lower :: "char \<Rightarrow> char" where
  "lower c = (if 65 \<le> (of_char c :: nat) \<and> (of_char c :: nat) \<le> 90
     then char_of ((of_char c :: nat) + 32) else c)"

text \<open>The string at a position: up to the first NUL, which \<open>text_file_data[length]\<close> always is.\<close>

definition suffix_at :: "string \<Rightarrow> nat \<Rightarrow> string" where
  "suffix_at d i = takeWhile (\<lambda>c. c \<noteq> NUL) (drop i d)"

definition lower_at :: "nat \<Rightarrow> string \<Rightarrow> string" where
  "lower_at i d = d[i := lower (d ! i)]"

text \<open>The body of the two loops.\<close>

definition exchange :: "nat \<Rightarrow> nat \<Rightarrow> string \<Rightarrow> string" where
  "exchange i j d0 =
     (let d = lower_at j (lower_at i d0) in
      if strcmp (suffix_at d i) (suffix_at d j) > 0
      then let temp = d ! i; d1 = d[i := d ! j] in d1[j := temp]
      else d)"

text \<open>\<open>left\<close> iterations from \<open>j\<close>, from \<open>i\<close>.\<close>

fun inner_loop :: "nat \<Rightarrow> nat \<Rightarrow> nat \<Rightarrow> string \<Rightarrow> string" where
  "inner_loop i j 0 d = d"
| "inner_loop i j (Suc left) d = inner_loop i (j + 1) left (exchange i j d)"

fun outer_loop :: "nat \<Rightarrow> nat \<Rightarrow> nat \<Rightarrow> string \<Rightarrow> string" where
  "outer_loop len i 0 d = d"
| "outer_loop len i (Suc left) d = outer_loop len (i + 1) left (inner_loop i (i + 1) (len - (i + 1)) d)"

definition sort_text :: "string \<Rightarrow> nat \<Rightarrow> string" where
  "sort_text text_file_data len = outer_loop len 0 (len - 1) text_file_data"

subsection \<open>The report\<close>

record reporting =
  alphabet :: char
  count_of :: int

text \<open>
  The list behind the anonymous first node, in order; \<open>head\<close> is null until a node has been added
  and then points to the first one.
\<close>

definition add_new_member :: "char \<Rightarrow> int \<Rightarrow> reporting list \<Rightarrow> reporting list" where
  "add_new_member c n report = report @ [\<lparr>alphabet = c, count_of = n\<rparr>]"

text \<open>The loop over \<open>text_file_data\<close>, on its suffixes; the last one is the terminating NUL.\<close>

fun report_loop :: "string \<Rightarrow> int \<Rightarrow> reporting list \<Rightarrow> reporting list" where
  "report_loop (c # d # cs) n report =
     (if 97 \<le> (of_char c :: nat) \<and> (of_char c :: nat) \<le> 122 then
        (if c = d then report_loop (d # cs) (n + 1) report
         else report_loop (d # cs) 1 (if n < 100 then add_new_member c n report else report))
      else report_loop (d # cs) n report)"
| "report_loop _ n report = report"

definition print_list :: "reporting list \<Rightarrow> reporting list option" where
  "print_list head = (if head = [] then None else Some head)"

text \<open>The first thread: what it reports on the contents of \<open>gdb.txt\<close> (\<open>None\<close> as argument: the file
  cannot be opened, and the text and its length are used uninitialised).\<close>

definition child1_funct :: "string option \<Rightarrow> reporting list option" where
  "child1_funct file =
     (case file of
        None \<Rightarrow> None
      | Some t \<Rightarrow>
          let d = sort_text (t @ [NUL]) (length t) in
          print_list (report_loop d 1 []))"

subsection \<open>File name, signals, second thread\<close>

text \<open>The name, typed into \<open>malloc(20)\<close> and extended.\<close>

definition log_file_name :: "string \<Rightarrow> string option" where
  "log_file_name typed =
     do { b1 \<leftarrow> poke (replicate 20 NUL) 0 (typed @ [NUL]);
          b2 \<leftarrow> poke b1 (length typed) (''.log'' @ [NUL]);
          text_at b2 }"

record signals =
  kill_msg :: int
  print_stat :: int

text \<open>The state and whether the thread that took the signal ends.\<close>

definition handler :: "int \<Rightarrow> signals \<Rightarrow> signals \<times> bool" where
  "handler sig s =
     (if sig = 34 then (s\<lparr>print_stat := 1\<rparr>, False)
      else if sig = 10 then (s\<lparr>kill_msg := 1\<rparr>, True)
      else if sig = 12 then (s\<lparr>kill_msg := 2\<rparr>, True)
      else (s, False))"

text \<open>One round of the second thread's loop: what it logs, and its array.\<close>

definition child2_round :: "string option \<Rightarrow> signals \<times> string \<Rightarrow> (string option \<times> signals \<times> string) option" where
  "child2_round stat_file st =
     (let (s, data) = st; len = 10000 in
      if print_stat s = 1 then
        do { data1 \<leftarrow> (case stat_file of
               None \<Rightarrow> Some data
             | Some t \<Rightarrow> do { d1 \<leftarrow> poke data 0 (take len t); wr d1 (int len) NUL });
             t \<leftarrow> text_at data1;
             Some (Some t, s\<lparr>print_stat := 0\<rparr>, data1) }
      else Some (None, s, data))"

subsection \<open>The sort is a sort\<close>

lemma lower_idem [simp]: "lower (lower c) = lower c"
proof -
  have "(of_char (char_of (n + 32 :: nat) :: char) :: nat) = n + 32" if "n \<le> 90" for n
    using that by simp
  then show ?thesis by (simp add: lower_def)
qed

lemma lower_NUL [simp]: "lower NUL = NUL"
  by (simp add: lower_def)

lemma suffix_at_Cons:
  "i < length d \<Longrightarrow> suffix_at d i = (if d ! i = NUL then [] else d ! i # suffix_at d (Suc i))"
  unfolding suffix_at_def by (subst Cons_nth_drop_Suc [symmetric]) auto

lemma NUL_least: "(of_char c :: nat) = 0 \<longleftrightarrow> c = NUL"
proof -
  have "(of_char NUL :: nat) = 0" by simp
  then show ?thesis by (metis char_of_char)
qed

text \<open>The comparison of the suffixes decides by the first characters; equal ones are swapped
  without effect.\<close>

lemma strcmp_first:
  assumes "i < length d" "j < length d" "d ! i \<noteq> d ! j"
  shows "strcmp (suffix_at d i) (suffix_at d j) > 0 \<longleftrightarrow> d ! j < d ! i"
proof -
  have "0 < (of_char (d ! i) :: nat)" if "d ! i \<noteq> NUL" using that NUL_least by fastforce
  moreover have "0 < (of_char (d ! j) :: nat)" if "d ! j \<noteq> NUL" using that NUL_least by fastforce
  moreover have "(of_char (d ! i) :: nat) < of_char (d ! j) \<or> (of_char (d ! j) :: nat) < of_char (d ! i)"
    using assms(3) by (metis char_of_char linorder_neqE_nat)
  ultimately show ?thesis
    using assms by (auto simp: suffix_at_Cons less_char_def)
qed

definition swap_down :: "nat \<Rightarrow> nat \<Rightarrow> string \<Rightarrow> string" where
  "swap_down i j d = (if d ! j < d ! i then d[i := d ! j, j := d ! i] else d)"

lemma exchange_swap:
  assumes "i < j" "j < length d"
  shows "exchange i j d = swap_down i j (lower_at j (lower_at i d))"
proof (cases "lower (d ! i) = lower (d ! j)")
  case True
  let ?e = "lower_at j (lower_at i d)"
  have e: "?e ! i = lower (d ! i)" "?e ! j = lower (d ! j)"
    using assms by (auto simp: lower_at_def)
  have eq: "?e ! i = ?e ! j" using e True by simp
  have "?e[i := ?e ! j] = ?e" using eq by (metis list_update_id)
  moreover have "?e[j := ?e ! i] = ?e" using eq by (metis list_update_id)
  ultimately have "?e[i := ?e ! j, j := ?e ! i] = ?e" by simp
  then show ?thesis using e True by (auto simp: exchange_def swap_down_def Let_def)
next
  case False
  let ?e = "lower_at j (lower_at i d)"
  have e: "?e ! i = lower (d ! i)" "?e ! j = lower (d ! j)" "length ?e = length d"
    using assms by (auto simp: lower_at_def)
  have "strcmp (suffix_at ?e i) (suffix_at ?e j) > 0 \<longleftrightarrow> ?e ! j < ?e ! i"
    by (rule strcmp_first) (use assms e False in auto)
  then show ?thesis by (simp add: exchange_def swap_down_def Let_def)
qed

definition low :: "string \<Rightarrow> bool" where
  "low d \<longleftrightarrow> map lower d = d"

lemma low_nth: "low d \<longleftrightarrow> (\<forall>k < length d. lower (d ! k) = d ! k)"
  by (auto simp: low_def list_eq_iff_nth_eq)

lemma exchange_low:
  assumes "low d" "i < j" "j < length d"
  shows "exchange i j d = swap_down i j d"
  using assms by (simp add: exchange_swap lower_at_def low_nth)

lemma swap_down_length [simp]: "length (swap_down i j d) = length d"
  by (simp add: swap_down_def)

lemma swap_down_nth:
  assumes "i < j" "j < length d"
  shows "swap_down i j d ! k = (if k = i then min (d ! i) (d ! j)
    else if k = j then max (d ! i) (d ! j) else d ! k)"
  using assms by (auto simp: swap_down_def min_def max_def)

lemma swap_down_low: "low d \<Longrightarrow> i < j \<Longrightarrow> j < length d \<Longrightarrow> low (swap_down i j d)"
  unfolding low_nth by (auto simp: swap_down_nth min_def max_def)

lemma swap_down_mset: "i < j \<Longrightarrow> j < length d \<Longrightarrow> mset (swap_down i j d) = mset d"
  using mset_exchange [of j d i] by (simp add: swap_down_def list_update_swap)

lemma inner_props:
  assumes "low d" "i < j" "j + n \<le> length d"
  shows "length (inner_loop i j n d) = length d \<and> low (inner_loop i j n d) \<and>
    mset (inner_loop i j n d) = mset d \<and>
    (\<forall>k. k \<noteq> i \<and> \<not> (j \<le> k \<and> k < j + n) \<longrightarrow> inner_loop i j n d ! k = d ! k) \<and>
    (\<forall>q. q = i \<or> j \<le> q \<and> q < j + n \<longrightarrow>
       (\<exists>k. (k = i \<or> j \<le> k \<and> k < j + n) \<and> inner_loop i j n d ! q = d ! k)) \<and>
    (\<forall>k. j \<le> k \<and> k < j + n \<longrightarrow> inner_loop i j n d ! i \<le> inner_loop i j n d ! k) \<and>
    inner_loop i j n d ! i \<le> d ! i"
  using assms
proof (induction n arbitrary: j d)
  case (Suc n)
  let ?e = "swap_down i j d"
  let ?r = "inner_loop i (Suc j) n ?e"
  have j: "j < length d" using Suc.prems by simp
  have ex: "inner_loop i j (Suc n) d = ?r" using exchange_low [OF Suc.prems(1,2) j] by simp
  note nth = swap_down_nth [OF Suc.prems(2) j]
  have "low ?e" using Suc.prems j by (simp add: swap_down_low)
  note IH = Suc.IH [OF this, of "Suc j"]
  have r: "length ?r = length d" "low ?r" "mset ?r = mset d"
    using IH Suc.prems j by (auto simp: swap_down_mset)
  have same: "?r ! k = ?e ! k" if "k \<noteq> i" "\<not> (Suc j \<le> k \<and> k < Suc j + n)" for k
    using IH Suc.prems that by auto
  have from_e: "\<exists>k. (k = i \<or> Suc j \<le> k \<and> k < Suc j + n) \<and> ?r ! q = ?e ! k"
    if "q = i \<or> Suc j \<le> q \<and> q < Suc j + n" for q
    using IH Suc.prems that by auto
  have le: "?r ! i \<le> ?e ! i" "\<And>k. Suc j \<le> k \<and> k < Suc j + n \<Longrightarrow> ?r ! i \<le> ?r ! k"
    using IH Suc.prems by auto
  have ei: "?e ! i \<le> d ! i" "?e ! i \<le> ?e ! j" using Suc.prems(2) by (auto simp: nth min_def max_def)
  have "?r ! j = ?e ! j" using same [of j] Suc.prems(2) by simp
  then have mins: "?r ! i \<le> ?r ! k" if "j \<le> k" "k < j + Suc n" for k
    using le ei that by (cases "k = j") auto
  have e_from: "\<exists>k'. (k' = i \<or> j \<le> k' \<and> k' < j + Suc n) \<and> ?e ! k = d ! k'"
    if "k = i \<or> j \<le> k \<and> k < j + Suc n" for k
    using that Suc.prems(2)
    by (cases "d ! i \<le> d ! j"; cases "k = i"; cases "k = j")
      (auto simp: nth min_def max_def intro: exI [of _ i] exI [of _ j] exI [of _ k])
  have "\<exists>k. (k = i \<or> j \<le> k \<and> k < j + Suc n) \<and> ?r ! q = d ! k"
    if q: "q = i \<or> j \<le> q \<and> q < j + Suc n" for q
  proof -
    obtain k where "k = i \<or> j \<le> k \<and> k < j + Suc n" "?r ! q = ?e ! k"
    proof (cases "q = j")
      case True
      then show ?thesis using that [of j] \<open>?r ! j = ?e ! j\<close> by simp
    next
      case False
      then show ?thesis using that from_e [of q] q by (metis Suc_leI Suc_le_lessD add_Suc add_Suc_right
          le_neq_implies_less less_or_eq_imp_le)
    qed
    then show ?thesis using e_from by metis
  qed
  moreover have "?r ! k = d ! k" if "k \<noteq> i" "\<not> (j \<le> k \<and> k < j + Suc n)" for k
  proof -
    have "k \<noteq> j" using that(2) by auto
    then show ?thesis using same [of k] that by (simp add: nth)
  qed
  ultimately show ?case unfolding ex using r le(1) ei mins by auto
next
  case 0
  have none: "\<not> (j \<le> k \<and> k < j)" for k by auto
  show ?case using 0 by (auto simp: none)
qed

lemma outer_sorts:
  assumes "low d" "length d = Suc len" "i + n = len - 1" "0 < len"
    and "\<forall>p q. p < i \<and> p \<le> q \<and> q < len \<longrightarrow> d ! p \<le> d ! q"
  shows "let r = outer_loop len i n d in low r \<and> length r = Suc len \<and> mset r = mset d \<and>
    r ! len = d ! len \<and> (\<forall>p q. p \<le> q \<and> q < len \<longrightarrow> r ! p \<le> r ! q)"
  using assms
proof (induction n arbitrary: i d)
  case 0
  have "d ! p \<le> d ! q" if "p \<le> q" "q < len" for p q
    using 0 that by (cases "p < i") (auto dest: le_antisym)
  then show ?case using 0 by simp
next
  case (Suc n)
  let ?e = "inner_loop i (Suc i) (len - Suc i) d"
  have b: "Suc i + (len - Suc i) \<le> length d" "Suc i + (len - Suc i) = len" using Suc.prems by auto
  note P = inner_props [OF Suc.prems(1) lessI b(1)]
  have e: "low ?e" "length ?e = Suc len" "mset ?e = mset d" "?e ! len = d ! len"
    using P Suc.prems b(2) by auto
  have "?e ! p \<le> ?e ! q" if pq: "p < Suc i" "p \<le> q" "q < len" for p q
  proof (cases "p = i")
    case True
    then show ?thesis using P pq b(2) by (cases "q = i") auto
  next
    case False
    then have p: "p < i" "?e ! p = d ! p" using P pq by auto
    show ?thesis
    proof (cases "q < i")
      case True
      then show ?thesis using P p Suc.prems(5) pq by auto
    next
      case False
      then have "q = i \<or> Suc i \<le> q \<and> q < Suc i + (len - Suc i)" using pq b(2) by auto
      then obtain k where k: "k = i \<or> Suc i \<le> k \<and> k < Suc i + (len - Suc i)" "?e ! q = d ! k"
        using P by blast
      then have "p \<le> k" "k < len" using p b(2) pq by auto
      then have "d ! p \<le> d ! k" using p Suc.prems(5) by blast
      then show ?thesis using p k by simp
    qed
  qed
  then show ?case
    using Suc.IH [of ?e "Suc i"] e Suc.prems by (simp add: Let_def)
qed

text \<open>Lower case first or on the way: it makes no difference.\<close>

lemma exchange_map_lower:
  assumes "i < j" "j < length d"
  shows "map lower (exchange i j d) = exchange i j (map lower d)"
proof -
  let ?e = "lower_at j (lower_at i d)"
  have e: "map lower ?e = map lower d" "length ?e = length d" "?e ! i = lower (d ! i)" "?e ! j = lower (d ! j)"
    using assms by (auto simp: lower_at_def list_eq_iff_nth_eq nth_list_update)
  have l: "low (map lower d)" by (simp add: low_def comp_def)
  have "map lower (swap_down i j ?e) = swap_down i j (map lower d)"
    using assms e by (auto simp: swap_down_def map_update)
  then show ?thesis
    using assms exchange_low [OF l, of i j] by (simp add: exchange_swap)
qed

lemma exchange_length [simp]: "length (exchange i j d) = length d"
  by (simp add: exchange_def lower_at_def Let_def)

lemma inner_length [simp]: "length (inner_loop i j n d) = length d"
  by (induction n arbitrary: j d) auto

lemma inner_map_lower:
  "i < j \<Longrightarrow> j + n \<le> length d \<Longrightarrow> map lower (inner_loop i j n d) = inner_loop i j n (map lower d)"
  by (induction n arbitrary: j d) (auto simp: exchange_map_lower)

text \<open>The positions that have been visited are in lower case.\<close>

lemma exchange_visited:
  assumes "i < j" "j < length d" "k < length d"
  shows "k = i \<or> k = j \<or> lower (d ! k) = d ! k \<Longrightarrow> lower (exchange i j d ! k) = exchange i j d ! k"
  using assms
  by (auto simp: exchange_swap swap_down_def lower_at_def nth_list_update)

lemma inner_visited:
  "i < j \<Longrightarrow> j + n \<le> length d \<Longrightarrow> k < length d \<Longrightarrow>
   0 < n \<and> k = i \<or> j \<le> k \<and> k < j + n \<or> lower (d ! k) = d ! k \<Longrightarrow>
   lower (inner_loop i j n d ! k) = inner_loop i j n d ! k"
proof (induction n arbitrary: j d)
  case (Suc n)
  then have "lower (exchange i j d ! k) = exchange i j d ! k \<or> Suc j \<le> k \<and> k < Suc j + n"
    using exchange_visited [of i j d k] by (cases "k = j") auto
  then show ?case using Suc.IH [of "Suc j" "exchange i j d"] Suc.prems by auto
qed (auto dest: leD)

lemma sort_text_correct:
  assumes "2 \<le> length t"
  shows "sort_text (t @ [NUL]) (length t) = sort (map lower t) @ [NUL]"
proof -
  let ?l = "length t" and ?d = "t @ [NUL]"
  let ?e = "inner_loop 0 1 (?l - 1) ?d"
  have "lower (?e ! k) = ?e ! k" if "k < length ?d" for k
  proof (cases "k = ?l")
    case True
    then show ?thesis using inner_visited [of 0 1 "?l - 1" ?d k] by simp
  next
    case False
    then have "0 < ?l - 1 \<and> k = 0 \<or> 1 \<le> k \<and> k < 1 + (?l - 1)" using that assms by auto
    then show ?thesis using inner_visited [of 0 1 "?l - 1" ?d k] that assms by auto
  qed
  then have "low ?e" unfolding low_nth by simp
  have first: "sort_text x ?l = outer_loop ?l 1 (?l - 2) (inner_loop 0 1 (?l - 1) x)" for x
  proof -
    obtain m where "?l = Suc (Suc m)" using assms by (metis Suc_le_D le_SucE numeral_2_eq_2 not_less_eq_eq)
    then show ?thesis by (simp add: sort_text_def)
  qed
  have m: "?e = inner_loop 0 1 (?l - 1) (map lower ?d)"
    using inner_map_lower [of 0 1 "?l - 1" ?d] assms \<open>low ?e\<close> by (simp add: low_def)
  define D where "D = map lower ?d"
  have D: "low D" "length D = Suc ?l" "D ! ?l = NUL" "mset D = mset (map lower t) + {#NUL#}"
    by (auto simp: D_def low_def comp_def nth_append)
  have same: "sort_text ?d ?l = sort_text D ?l"
    unfolding first m D_def [symmetric] by simp
  have "let r = sort_text D ?l in low r \<and> length r = Suc ?l \<and> mset r = mset D \<and>
      r ! ?l = D ! ?l \<and> (\<forall>p q. p \<le> q \<and> q < ?l \<longrightarrow> r ! p \<le> r ! q)"
    unfolding sort_text_def by (rule outer_sorts) (use D assms in auto)
  then obtain r where r: "sort_text ?d ?l = r" "length r = Suc ?l" "mset r = mset D"
    "r ! ?l = NUL" "\<forall>p q. p \<le> q \<and> q < ?l \<longrightarrow> r ! p \<le> r ! q"
    using D same by (auto simp: Let_def)
  have split: "r = take ?l r @ [NUL]"
    using r(2,4) by (metis lessI take_Suc_conv_app_nth take_all_iff order_refl)
  have "mset (take ?l r) = mset (map lower t)"
    using r(3) D(4) by (subst (asm) split) simp
  moreover have "sorted (take ?l r)"
    using r(2,5) by (simp add: sorted_iff_nth_mono)
  ultimately have "take ?l r = sort (map lower t)" by (metis properties_for_sort)
  then show ?thesis using r(1) split by simp
qed

subsection \<open>The report is a count\<close>

definition letters :: string where
  "letters = map char_of [97..<123::nat]"

text \<open>The letters of a text with their counts, leaving out those that do not occur or occur 100
  times or more.\<close>

definition statistics :: "(char \<Rightarrow> nat) \<Rightarrow> reporting list" where
  "statistics n = [\<lparr>alphabet = l, count_of = int (n l)\<rparr>. l \<leftarrow> letters, 0 < n l \<and> n l < 100]"

lemma letters_iff: "c \<in> set letters \<longleftrightarrow> 97 \<le> (of_char c :: nat) \<and> (of_char c :: nat) \<le> 122"
proof
  assume "97 \<le> (of_char c :: nat) \<and> (of_char c :: nat) \<le> 122"
  then have "char_of (of_char c :: nat) \<in> char_of ` set [97..<123]" 
    by (intro imageI) (simp only: set_upt atLeastLessThan_iff, simp)
  then show "c \<in> set letters" by (simp add: letters_def)
qed (auto simp: letters_def)

lemma letters_sorted: "sorted letters" "distinct letters"
proof -
  have "sorted_wrt (<) letters" by code_simp
  then show "sorted letters" "distinct letters"
    by (auto intro: strict_sorted_imp_sorted simp: strict_sorted_iff)
qed

text \<open>One letter below all others that occur.\<close>

lemma statistics_first:
  assumes "c \<in> set letters" "n c = 0" "\<And>l. l < c \<Longrightarrow> n l = 0" "0 < k"
  shows "statistics (n(c := k)) =
    (if k < 100 then [\<lparr>alphabet = c, count_of = int k\<rparr>] else []) @ statistics n"
proof -
  define g where "g = (\<lambda>m :: char \<Rightarrow> nat. \<lambda>l. if 0 < m l \<and> m l < 100
    then [\<lparr>alphabet = l, count_of = int (m l)\<rparr>] else [])"
  have st: "statistics m = concat (map (g m) letters)" for m by (simp add: statistics_def g_def)
  obtain a b where ab: "letters = a @ c # b" using assms(1) by (meson split_list)
  have lt: "l < c" if "l \<in> set a" for l
  proof -
    have "l \<le> c" "l \<noteq> c" using letters_sorted that unfolding ab by (auto simp: sorted_append)
    then show ?thesis by simp
  qed
  have ne: "l \<noteq> c" if "l \<in> set b" for l
    using letters_sorted(2) that unfolding ab by auto
  have a: "concat (map (g m) a) = []" if "\<And>l. l \<in> set a \<Longrightarrow> m l = 0" for m
    using that by (auto simp: g_def)
  have a1: "concat (map (g (n(c := k))) a) = []" and a2: "concat (map (g n) a) = []"
    by (rule a, use lt assms(3) in fastforce)+
  have b: "map (g (n(c := k))) b = map (g n) b"
    by (rule map_cong) (use ne in \<open>auto simp: g_def\<close>)
  have c: "g n c = []" "g (n(c := k)) c =
      (if k < 100 then [\<lparr>alphabet = c, count_of = int k\<rparr>] else [])"
    using assms(2,4) by (auto simp: g_def)
  show ?thesis unfolding st ab map_append concat_append a1 a2 by (simp only: list.map concat.simps b c) simp
qed

lemma statistics_cong: "(\<And>l. l \<in> set letters \<Longrightarrow> n l = m l) \<Longrightarrow> statistics n = statistics m"
  unfolding statistics_def by (intro arg_cong [of _ _ concat] map_cong) auto

lemma report_loop_sorted:
  assumes "sorted (c # xs)" "0 < k" "c \<notin> set letters \<Longrightarrow> k = 1"
  shows "report_loop (c # xs @ [NUL]) (int k) report =
    report @ statistics (\<lambda>l. count_list (c # xs) l + (if l = c then k - 1 else 0))"
  using assms
proof (induction xs arbitrary: c k report)
  case Nil
  show ?case
  proof (cases "c \<in> set letters")
    case True
    then have "c \<noteq> NUL" by (auto simp: letters_iff)
    have "statistics (\<lambda>l. count_list [c] l + (if l = c then k - 1 else 0)) = statistics ((\<lambda>_. 0)(c := k))"
      using Nil(2) by (intro statistics_cong) auto
    also have "\<dots> = (if k < 100 then [\<lparr>alphabet = c, count_of = int k\<rparr>] else [])"
      using statistics_first [OF True, of "\<lambda>_. 0" k] Nil(2) by (simp add: statistics_def)
    finally show ?thesis
      using True \<open>c \<noteq> NUL\<close> by (auto simp: letters_iff add_new_member_def)
  next
    case False
    have "statistics (\<lambda>l. count_list [c] l + (if l = c then k - 1 else 0)) = statistics (\<lambda>_. 0)"
      using False by (intro statistics_cong) auto
    then show ?thesis using False by (auto simp: letters_iff statistics_def)
  qed
next
  case (Cons d xs)
  have cd: "c \<le> d" "sorted (d # xs)" using Cons.prems(1) by auto
  show ?case
  proof (cases "c \<in> set letters")
    case True
    show ?thesis
    proof (cases "c = d")
      case eq: True
      have "report_loop (c # (d # xs) @ [NUL]) (int k) report = report_loop (d # xs @ [NUL]) (int (Suc k)) report"
        using True eq by (simp add: letters_iff add.commute)
      also have "\<dots> = report @ statistics (\<lambda>l. count_list (d # xs) l + (if l = d then Suc k - 1 else 0))"
        using Cons.IH [OF cd(2), of "Suc k"] True eq by simp
      also have "statistics (\<lambda>l. count_list (d # xs) l + (if l = d then Suc k - 1 else 0)) =
          statistics (\<lambda>l. count_list (c # d # xs) l + (if l = c then k - 1 else 0))"
        using eq Cons.prems(2) by (intro statistics_cong) auto
      finally show ?thesis .
    next
      case ne: False
      let ?n = "\<lambda>l. count_list (d # xs) l"
      have big: "count_list (d # xs) l = 0" if "l \<le> c" for l
        using cd ne that by (fastforce simp: count_list_0_iff)
      have "report_loop (c # (d # xs) @ [NUL]) (int k) report =
          report_loop (d # xs @ [NUL]) 1 (if k < 100 then add_new_member c (int k) report else report)"
        using True ne by (simp add: letters_iff)
      also have "\<dots> = (if k < 100 then add_new_member c (int k) report else report) @
          statistics (\<lambda>l. count_list (d # xs) l + (if l = d then 1 - 1 else 0))"
        using Cons.IH [OF cd(2), of 1] by simp
      also have "statistics (\<lambda>l. count_list (d # xs) l + (if l = d then 1 - 1 else 0)) = statistics ?n"
        by (intro statistics_cong) auto
      also have "(if k < 100 then add_new_member c (int k) report else report) @ statistics ?n =
          report @ statistics (?n(c := k))"
        using statistics_first [OF True, of ?n k] big Cons.prems(2)
        by (simp add: add_new_member_def less_imp_le)
      also have "statistics (?n(c := k)) =
          statistics (\<lambda>l. count_list (c # d # xs) l + (if l = c then k - 1 else 0))"
        using big [of c] Cons.prems(2) by (intro statistics_cong) auto
      finally show ?thesis .
    qed
  next
    case False
    have "report_loop (c # (d # xs) @ [NUL]) (int k) report = report_loop (d # xs @ [NUL]) (int 1) report"
      using False Cons.prems(3) by (auto simp: letters_iff)
    also have "\<dots> = report @ statistics (\<lambda>l. count_list (d # xs) l + (if l = d then 1 - 1 else 0))"
      using Cons.IH [OF cd(2), of 1] by simp
    also have "statistics (\<lambda>l. count_list (d # xs) l + (if l = d then 1 - 1 else 0)) =
        statistics (\<lambda>l. count_list (c # d # xs) l + (if l = c then k - 1 else 0))"
      using False by (intro statistics_cong) auto
    finally show ?thesis .
  qed
qed

lemma log_file_name_ok:
  assumes "NUL \<notin> set f"
  shows "log_file_name f = (if length f \<le> 15 then Some (f @ ''.log'') else None)"
proof (cases "length f \<le> 15")
  case True
  have b1: "poke (replicate 20 NUL) 0 (f @ [NUL]) = Some (f @ NUL # replicate (19 - length f) NUL)"
    using poke_ok [of 0 "f @ [NUL]" "replicate 20 NUL"] True by simp
  have b2: "poke (f @ NUL # replicate (19 - length f) NUL) (length f) (''.log'' @ [NUL]) =
      Some (f @ (''.log'' @ [NUL]) @ drop 5 (NUL # replicate (19 - length f) NUL))"
    using poke_ok [of "length f" "''.log'' @ [NUL]" "f @ NUL # replicate (19 - length f) NUL"] True
    by (simp del: poke.simps)
  have "text_at ((f @ ''.log'') @ NUL # drop 5 (NUL # replicate (19 - length f) NUL)) = Some (f @ ''.log'')"
    by (rule text_at_app) (use assms in simp)
  then show ?thesis using True b1 b2 by (simp add: log_file_name_def del: poke.simps)
next
  case False
  have none: "poke buf k bs = None" if "length buf < k + length bs" "k \<le> length buf" for buf k bs
    using that by (induction buf k bs rule: poke.induct) auto
  show ?thesis
  proof (cases "poke (replicate 20 NUL) 0 (f @ [NUL])")
    case (Some b)
    have short: "length f < 20"
    proof (rule ccontr)
      assume "\<not> length f < 20"
      then show False using none [of "replicate 20 NUL" 0 "f @ [NUL]"] Some by simp
    qed
    have "length b = 20" using poke_ok [of 0 "f @ [NUL]" "replicate 20 NUL"] Some short by auto
    then have "poke b (length f) (''.log'' @ [NUL]) = None" using none [of b "length f"] False short by simp
    then show ?thesis using False Some by (simp add: log_file_name_def del: poke.simps)
  qed (use False in \<open>simp add: log_file_name_def del: poke.simps\<close>)
qed

lemma child2_overruns:
  "print_stat s = 1 \<Longrightarrow> length data = 10000 \<Longrightarrow> child2_round (Some t) (s, data) = None"
  using poke_ok [of 0 "take 10000 t" data]
  by (simp add: child2_round_def Let_def wr_out del: poke.simps)

lemma child1_funct_statistics:
  assumes "2 \<le> length t"
  shows "sort_text (t @ [NUL]) (length t) = sort (map lower t) @ [NUL] \<and>
    child1_funct (Some t) =
      (let r = statistics (\<lambda>l. count_list (map lower t) l) in if r = [] then None else Some r)"
proof -
  note st = sort_text_correct [OF assms]
  obtain c xs where cx: "sort (map lower t) = c # xs"
    using assms by (cases "sort (map lower t)") (auto dest: arg_cong [of _ _ length])
  have n: "count_list (sort (map lower t)) l = count_list (map lower t) l" for l
    by (simp add: count_mset [symmetric] del: mset_map)
  have "sorted (c # xs)" unfolding cx [symmetric] by simp
  then have "report_loop (c # xs @ [NUL]) (int 1) [] =
      [] @ statistics (\<lambda>l. count_list (c # xs) l + (if l = c then 1 - 1 else 0))"
    by (rule report_loop_sorted) auto
  also have "(\<lambda>l. count_list (c # xs) l + (if l = c then 1 - 1 else 0)) = (\<lambda>l. count_list (map lower t) l)"
    unfolding cx [symmetric] n by (rule ext) simp
  finally show ?thesis using st
    by (simp add: child1_funct_def cx print_list_def Let_def)
qed

subsection \<open>Properties\<close>

text \<open>
  C23. The statistics: for every text of at least two bytes the nested loops over \<open>strcmp\<close> of the
  suffixes sort the lower-case text, and the thread reports, in alphabetical order, each letter that
  occurs (in either case) fewer than 100 times with its number of occurrences; if there is no such
  letter, it reads through the null \<open>head\<close>.
\<close>

theorem child1_report:
  assumes "2 \<le> length t"
  shows "sort_text (t @ [NUL]) (length t) = sort (map lower t) @ [NUL] \<and>
    child1_funct (Some t) =
      (let r = statistics (\<lambda>l. count_list (map lower t) l) in if r = [] then None else Some r)"
  by (rule child1_funct_statistics [OF assms])

theorem child1_report_witness:
  "child1_funct (Some ''Abacus'') = Some [\<lparr>alphabet = CHR ''a'', count_of = 2\<rparr>,
     \<lparr>alphabet = CHR ''b'', count_of = 1\<rparr>, \<lparr>alphabet = CHR ''c'', count_of = 1\<rparr>,
     \<lparr>alphabet = CHR ''s'', count_of = 1\<rparr>, \<lparr>alphabet = CHR ''u'', count_of = 1\<rparr>]"
proof -
  have "statistics (\<lambda>l. count_list (map lower ''Abacus'') l) = [\<lparr>alphabet = CHR ''a'', count_of = 2\<rparr>,
     \<lparr>alphabet = CHR ''b'', count_of = 1\<rparr>, \<lparr>alphabet = CHR ''c'', count_of = 1\<rparr>,
     \<lparr>alphabet = CHR ''s'', count_of = 1\<rparr>, \<lparr>alphabet = CHR ''u'', count_of = 1\<rparr>]" by code_simp
  then show ?thesis using child1_report [of "''Abacus''"] by (simp add: Let_def)
qed

end
