(* ===== verification/PthreadRun.thy ===== *)
theory PthreadRun
  imports PthreadSub TransitionSystem
begin

text \<open>
  \<open>pthread_sub.c\<close> of HW4: the whole program as three threads that share the stream \<open>logging\<close>, the two
  flags and the signal handler. Streams are numbered in the order they are opened; writing to or
  closing a stream that is not open (or the null pointer) sets \<open>fault\<close>. The steps are single calls on
  the stream; the computation of the first child in between is \<open>child1_funct\<close>, a round of the second
  \<open>child2_round\<close>. Whether \<open>fopen\<close> and \<open>pthread_create\<close> succeed is part of the step. Output to the
  terminal and the time stamps and thread numbers in the lines are left out.
\<close>

subsection \<open>State\<close>

datatype line =
    Main_hello | Child1_hello | Letter reporting | Child1_exit | Child1_killed int
  | Child2_hello | Statistics string | Child2_killed int

datatype main_pc =
    M_open | M_hello | M_close | M_create1 | M_create2 | M_join1 | M_killed1 | M_join2 | M_killed2 | M_end

datatype child1_pc =
    C1_none | C1_open | C1_hello | C1_work | C1_report "reporting list" | C1_exit | C1_close | C1_end

datatype child2_pc =
    C2_none | C2_open | C2_hello | C2_timer | C2_loop | C2_read | C2_reopen string | C2_print string | C2_end

record program =
  at_main :: main_pc
  at_child1 :: child1_pc
  at_child2 :: child2_pc
  created1 :: bool
  created2 :: bool
  logging :: "nat option"
  streams :: "bool list"
  written :: "(nat \<times> line) list"
  flags :: signals
  stat_text :: string
  fault :: bool

definition fopen :: "bool \<Rightarrow> program \<Rightarrow> program" where
  "fopen ok p =
     (if ok then p\<lparr>streams := streams p @ [True], logging := Some (length (streams p))\<rparr>
      else p\<lparr>logging := None\<rparr>)"

definition log_open :: "program \<Rightarrow> bool" where
  "log_open p = (case logging p of None \<Rightarrow> False | Some h \<Rightarrow> h < length (streams p) \<and> streams p ! h)"

definition fprintf :: "line \<Rightarrow> program \<Rightarrow> program" where
  "fprintf l p =
     (if log_open p then p\<lparr>written := written p @ [(the (logging p), l)]\<rparr> else p\<lparr>fault := True\<rparr>)"

definition fclose :: "program \<Rightarrow> program" where
  "fclose p =
     (if log_open p then p\<lparr>streams := (streams p)[the (logging p) := False]\<rparr> else p\<lparr>fault := True\<rparr>)"

subsection \<open>Threads\<close>

text \<open>A step of \<open>main\<close>; \<open>None\<close>: it waits or has ended.\<close>

definition main_step :: "bool \<Rightarrow> program \<Rightarrow> program option" where
  "main_step ok p =
     (case at_main p of
        M_open \<Rightarrow> let p = fopen ok p in
          Some (p\<lparr>at_main := (if logging p = None then M_end else M_hello)\<rparr>)
      | M_hello \<Rightarrow> Some ((fprintf Main_hello p)\<lparr>at_main := M_close\<rparr>)
      | M_close \<Rightarrow> Some ((fclose p)\<lparr>at_main := M_create1\<rparr>)
      | M_create1 \<Rightarrow> Some (p\<lparr>created1 := ok, at_child1 := (if ok then C1_open else at_child1 p), at_main := M_create2\<rparr>)
      | M_create2 \<Rightarrow> Some (p\<lparr>created2 := ok, at_child2 := (if ok then C2_open else at_child2 p), at_main := M_join1\<rparr>)
      | M_join1 \<Rightarrow> if created1 p \<and> at_child1 p \<noteq> C1_end then None else Some (p\<lparr>at_main := M_killed1\<rparr>)
      | M_killed1 \<Rightarrow>
          let p = (if kill_msg (flags p) = 1 then fprintf (Child1_killed 1) p else p);
              p = (if kill_msg (flags p) = 2 then fprintf (Child1_killed 2) p else p) in
          Some (p\<lparr>at_main := M_join2\<rparr>)
      | M_join2 \<Rightarrow> if created2 p \<and> at_child2 p \<noteq> C2_end then None else Some (p\<lparr>at_main := M_killed2\<rparr>)
      | M_killed2 \<Rightarrow>
          let p = (if kill_msg (flags p) = 1 then fclose (fprintf (Child2_killed 1) p) else p);
              p = (if kill_msg (flags p) = 2 then fclose (fprintf (Child2_killed 2) p) else p) in
          Some (p\<lparr>at_main := M_end\<rparr>)
      | M_end \<Rightarrow> None)"

text \<open>The first child; \<open>file\<close> is the content of \<open>gdb.txt\<close>.\<close>

definition child1_step :: "string option \<Rightarrow> bool \<Rightarrow> program \<Rightarrow> program option" where
  "child1_step file ok p =
     (case at_child1 p of
        C1_none \<Rightarrow> None
      | C1_open \<Rightarrow> Some ((fopen ok p)\<lparr>at_child1 := C1_hello\<rparr>)
      | C1_hello \<Rightarrow> Some ((if logging p = None then p else fprintf Child1_hello p)\<lparr>at_child1 := C1_work\<rparr>)
      | C1_work \<Rightarrow>
          (case child1_funct file of
             None \<Rightarrow> Some (p\<lparr>fault := True, at_child1 := C1_exit\<rparr>)
           | Some report \<Rightarrow> Some (p\<lparr>at_child1 := C1_report report\<rparr>))
      | C1_report [] \<Rightarrow> Some (p\<lparr>at_child1 := C1_exit\<rparr>)
      | C1_report (r # rs) \<Rightarrow> Some ((fprintf (Letter r) p)\<lparr>at_child1 := C1_report rs\<rparr>)
      | C1_exit \<Rightarrow> Some ((fprintf Child1_exit p)\<lparr>at_child1 := C1_close\<rparr>)
      | C1_close \<Rightarrow> Some ((fclose p)\<lparr>at_child1 := C1_end\<rparr>)
      | C1_end \<Rightarrow> None)"

text \<open>The second child, which polls its flag for ever; \<open>stat_file\<close> is the content of \<open>/proc/stat\<close>.\<close>

definition child2_step :: "string option \<Rightarrow> bool \<Rightarrow> program \<Rightarrow> program option" where
  "child2_step stat_file ok p =
     (case at_child2 p of
        C2_none \<Rightarrow> None
      | C2_open \<Rightarrow> Some ((fopen ok p)\<lparr>at_child2 := C2_hello\<rparr>)
      | C2_hello \<Rightarrow> Some ((if logging p = None then p else fprintf Child2_hello p)\<lparr>at_child2 := C2_timer\<rparr>)
      | C2_timer \<Rightarrow> Some (p\<lparr>at_child2 := C2_loop\<rparr>)
      | C2_loop \<Rightarrow> Some (p\<lparr>at_child2 := (if print_stat (flags p) = 1 then C2_read else C2_loop)\<rparr>)
      | C2_read \<Rightarrow>
          (case child2_round stat_file (flags p, stat_text p) of
             Some (Some t, _, data) \<Rightarrow> Some (p\<lparr>stat_text := data, at_child2 := C2_reopen t\<rparr>)
           | _ \<Rightarrow> Some (p\<lparr>fault := True, at_child2 := C2_reopen []\<rparr>))
      | C2_reopen t \<Rightarrow> Some ((fopen ok p)\<lparr>at_child2 := C2_print t\<rparr>)
      | C2_print t \<Rightarrow> Some ((fprintf (Statistics t) p)\<lparr>flags := (flags p)\<lparr>print_stat := 0\<rparr>, at_child2 := C2_loop\<rparr>)
      | C2_end \<Rightarrow> None)"

datatype thread_id = Main_thread | Child1_thread | Child2_thread

definition alive :: "thread_id \<Rightarrow> program \<Rightarrow> bool" where
  "alive t p = (case t of
     Main_thread \<Rightarrow> at_main p \<noteq> M_end
   | Child1_thread \<Rightarrow> at_child1 p \<noteq> C1_none \<and> at_child1 p \<noteq> C1_end
   | Child2_thread \<Rightarrow> at_child2 p \<noteq> C2_none \<and> at_child2 p \<noteq> C2_end)"

definition pthread_exit :: "thread_id \<Rightarrow> program \<Rightarrow> program" where
  "pthread_exit t p = (case t of
     Main_thread \<Rightarrow> p\<lparr>at_main := M_end\<rparr>
   | Child1_thread \<Rightarrow> p\<lparr>at_child1 := C1_end\<rparr>
   | Child2_thread \<Rightarrow> p\<lparr>at_child2 := C2_end\<rparr>)"

text \<open>A signal is taken by some thread.\<close>

definition take_signal :: "int \<Rightarrow> thread_id \<Rightarrow> program \<Rightarrow> program option" where
  "take_signal sig t p =
     (if \<not> alive t p then None
      else case handler sig (flags p) of
        (s, ends) \<Rightarrow> let p = p\<lparr>flags := s\<rparr> in Some (if ends then pthread_exit t p else p))"

subsection \<open>Runs\<close>

datatype action = Main_acts bool | Child1_acts bool | Child2_acts "string option" bool | Signal int thread_id

definition act :: "string option \<Rightarrow> action \<Rightarrow> program \<Rightarrow> program option" where
  "act file a p = (case a of
     Main_acts ok \<Rightarrow> main_step ok p
   | Child1_acts ok \<Rightarrow> child1_step file ok p
   | Child2_acts stat_file ok \<Rightarrow> child2_step stat_file ok p
   | Signal sig t \<Rightarrow> take_signal sig t p)"

inductive run_step :: "string option \<Rightarrow> program \<Rightarrow> program \<Rightarrow> bool" for gdb where
  action: "act gdb a p = Some q \<Longrightarrow> run_step gdb p q"

inductive_simps run_step_iff: "run_step gdb p q"

text \<open>The array of the second child is not initialised.\<close>

definition run_start :: "string \<Rightarrow> program" where
  "run_start data = \<lparr>at_main = M_open, at_child1 = C1_none, at_child2 = C2_none, created1 = False, created2 = False,
     logging = None, streams = [], written = [], flags = \<lparr>kill_msg = 0, print_stat = 0\<rparr>,
     stat_text = data, fault = False\<rparr>"

fun acts :: "string option \<Rightarrow> action list \<Rightarrow> program \<Rightarrow> program option" where
  "acts file [] p = Some p"
| "acts file (a # as) p = (case act file a p of None \<Rightarrow> None | Some q \<Rightarrow> acts file as q)"

lemma acts_reach: "acts file as p = Some q \<Longrightarrow> (run_step file)\<^sup>*\<^sup>* p q"
  by (induction as arbitrary: p) (auto split: option.splits intro: converse_rtranclp_into_rtranclp action)

subsection \<open>What a step keeps\<close>

lemma stream_calls [simp]:
  "at_main (fopen ok p) = at_main p" "at_child1 (fopen ok p) = at_child1 p"
  "at_child2 (fopen ok p) = at_child2 p" "created1 (fopen ok p) = created1 p"
  "created2 (fopen ok p) = created2 p" "flags (fopen ok p) = flags p" "fault (fopen ok p) = fault p"
  "written (fopen ok p) = written p"
  "at_main (fprintf l p) = at_main p" "at_child1 (fprintf l p) = at_child1 p"
  "at_child2 (fprintf l p) = at_child2 p" "created1 (fprintf l p) = created1 p"
  "created2 (fprintf l p) = created2 p" "flags (fprintf l p) = flags p"
  "streams (fprintf l p) = streams p" "logging (fprintf l p) = logging p"
  "at_main (fclose p) = at_main p" "at_child1 (fclose p) = at_child1 p"
  "at_child2 (fclose p) = at_child2 p" "created1 (fclose p) = created1 p"
  "created2 (fclose p) = created2 p" "flags (fclose p) = flags p"
  "written (fclose p) = written p" "logging (fclose p) = logging p"
  by (simp_all add: fopen_def fprintf_def fclose_def)

text \<open>As long as no signal has ended a thread, \<open>main\<close> only gets past the second \<open>pthread_join\<close> when there
  is no second child.\<close>

definition no_child1_at :: "main_pc \<Rightarrow> bool" where
  "no_child1_at m \<longleftrightarrow> m \<in> {M_open, M_hello, M_close, M_create1}"

definition no_child2_at :: "main_pc \<Rightarrow> bool" where
  "no_child2_at m \<longleftrightarrow> m \<in> {M_open, M_hello, M_close, M_create1, M_create2, M_killed2, M_end}"

definition waiting :: "program \<Rightarrow> bool" where
  "waiting p \<longleftrightarrow> at_child2 p \<noteq> C2_end \<and> (no_child2_at (at_main p) \<longrightarrow> \<not> created2 p) \<and>
     (no_child1_at (at_main p) \<longrightarrow> \<not> created1 p) \<and>
     (created1 p \<longleftrightarrow> at_child1 p \<noteq> C1_none) \<and> (created2 p \<longleftrightarrow> at_child2 p \<noteq> C2_none)"

definition kill_ok :: "program \<Rightarrow> bool" where
  "kill_ok p \<longleftrightarrow> kill_msg (flags p) \<in> {0, 1, 2} \<and> (kill_msg (flags p) = 0 \<longrightarrow> waiting p)"

lemma main_step_kill:
  "pred_option (\<lambda>q. flags q = flags p \<and> (waiting p \<longrightarrow> waiting q)) (main_step ok p)"
  by (cases "at_main p") (auto simp: main_step_def waiting_def Let_def no_child1_at_def no_child2_at_def)

lemma child1_step_kill:
  "pred_option (\<lambda>q. flags q = flags p \<and> (waiting p \<longrightarrow> waiting q)) (child1_step gdb ok p)"
  by (cases "at_child1 p") (auto simp: child1_step_def waiting_def split: option.split list.split)

lemma child2_step_kill:
  "pred_option (\<lambda>q. kill_msg (flags q) = kill_msg (flags p) \<and> (waiting p \<longrightarrow> waiting q))
    (child2_step stat_file ok p)"
  by (cases "at_child2 p") (auto simp: child2_step_def waiting_def split: option.split prod.split)

lemma flags_pthread_exit [simp]: "flags (pthread_exit t p) = flags p"
  by (simp add: pthread_exit_def split: thread_id.split)

lemma take_signal_kill:
  "pred_option (\<lambda>q. kill_msg (flags q) = kill_msg (flags p) \<and> (waiting p \<longrightarrow> waiting q) \<or>
     kill_msg (flags q) \<in> {1, 2}) (take_signal sig t p)"
  by (auto simp: take_signal_def handler_def waiting_def Let_def)

lemma kill_ok_step:
  assumes "run_step gdb p q" "kill_ok p"
  shows "kill_ok q"
proof -
  obtain a where act: "act gdb a p = Some q" using assms(1) by (auto simp: run_step_iff)
  have "kill_msg (flags q) = kill_msg (flags p) \<and> (waiting p \<longrightarrow> waiting q) \<or> kill_msg (flags q) \<in> {1, 2}"
  proof (cases a)
    case (Main_acts ok)
    then show ?thesis using act main_step_kill [of p ok] by (simp add: act_def)
  next
    case (Child1_acts ok)
    then show ?thesis using act child1_step_kill [of p gdb ok] by (simp add: act_def)
  next
    case (Child2_acts stat_file ok)
    then show ?thesis using act child2_step_kill [of p stat_file ok] by (simp add: act_def)
  next
    case (Signal sig t)
    then show ?thesis using act take_signal_kill [of p sig t] by (simp add: act_def)
  qed
  then show ?thesis using assms(2) by (auto simp: kill_ok_def)
qed

interpretation kill_sys: invariant_system "run_start data" "run_step gdb" kill_ok for data gdb
proof
  show "kill_ok s \<Longrightarrow> run_step gdb s t \<Longrightarrow> kill_ok t" for s t by (rule kill_ok_step)
  show "kill_ok (run_start data)"
    by (simp add: kill_ok_def waiting_def run_start_def no_child1_at_def no_child2_at_def)
qed

text \<open>
  While there is no second child and no thread has been ended by a signal, the stream and the log
  follow the two threads: \<open>r\<close> is the report.
\<close>

definition log_lines :: "reporting list \<Rightarrow> line list" where
  "log_lines r = Child1_hello # map Letter r @ [Child1_exit]"

fun child1_stage :: "reporting list \<Rightarrow> child1_pc \<Rightarrow> program \<Rightarrow> bool" where
  "child1_stage r C1_none p \<longleftrightarrow> streams p = [False] \<and> written p = [(0, Main_hello)]"
| "child1_stage r C1_open p \<longleftrightarrow> streams p = [False] \<and> written p = [(0, Main_hello)]"
| "child1_stage r C1_hello p \<longleftrightarrow> streams p = [False, True] \<and> logging p = Some 1 \<and>
     written p = [(0, Main_hello)]"
| "child1_stage r C1_work p \<longleftrightarrow> streams p = [False, True] \<and> logging p = Some 1 \<and>
     written p = [(0, Main_hello), (1, Child1_hello)]"
| "child1_stage r (C1_report rs) p \<longleftrightarrow> streams p = [False, True] \<and> logging p = Some 1 \<and>
     (\<exists>ds. r = ds @ rs \<and> written p = (0, Main_hello) # map (Pair 1) (Child1_hello # map Letter ds))"
| "child1_stage r C1_exit p \<longleftrightarrow> streams p = [False, True] \<and> logging p = Some 1 \<and>
     written p = (0, Main_hello) # map (Pair 1) (Child1_hello # map Letter r)"
| "child1_stage r C1_close p \<longleftrightarrow> streams p = [False, True] \<and> logging p = Some 1 \<and>
     written p = (0, Main_hello) # map (Pair 1) (log_lines r)"
| "child1_stage r C1_end p \<longleftrightarrow> streams p = [False, False] \<and>
     written p = (0, Main_hello) # map (Pair 1) (log_lines r)"

fun main_stage :: "reporting list \<Rightarrow> main_pc \<Rightarrow> program \<Rightarrow> bool" where
  "main_stage r M_open p \<longleftrightarrow> streams p = [] \<and> written p = []"
| "main_stage r M_hello p \<longleftrightarrow> streams p = [True] \<and> logging p = Some 0 \<and> written p = []"
| "main_stage r M_close p \<longleftrightarrow> streams p = [True] \<and> logging p = Some 0 \<and> written p = [(0, Main_hello)]"
| "main_stage r M_create1 p \<longleftrightarrow> at_child1 p = C1_none \<and> child1_stage r C1_none p"
| "main_stage r M_create2 p \<longleftrightarrow> child1_stage r (at_child1 p) p"
| "main_stage r M_join1 p \<longleftrightarrow> child1_stage r (at_child1 p) p"
| "main_stage r _ p \<longleftrightarrow> child1_stage r (at_child1 p) p \<and> (created1 p \<longrightarrow> at_child1 p = C1_end)"

definition undisturbed :: "program \<Rightarrow> bool" where
  "undisturbed p \<longleftrightarrow> kill_msg (flags p) = 0 \<and> at_child2 p = C2_none"

text \<open>The other possibility is that an \<open>fopen\<close> has failed.\<close>

definition open_failed :: "program \<Rightarrow> bool" where
  "open_failed p \<longleftrightarrow> at_main p = M_end \<and> at_child1 p = C1_none \<and> streams p = [] \<or>
     at_child1 p \<notin> {C1_none, C1_open} \<and> \<not> no_child1_at (at_main p) \<and> streams p = [False] \<and> logging p = None"

definition follows :: "reporting list \<Rightarrow> program \<Rightarrow> bool" where
  "follows r p \<longleftrightarrow> open_failed p \<or> \<not> fault p \<and> main_stage r (at_main p) p"

lemma child1_stage_update [simp]:
  "child1_stage r c (p\<lparr>at_main := m\<rparr>) = child1_stage r c p"
  "child1_stage r c (p\<lparr>created1 := b\<rparr>) = child1_stage r c p"
  "child1_stage r c (p\<lparr>created2 := b\<rparr>) = child1_stage r c p"
  "child1_stage r c (p\<lparr>at_child1 := d\<rparr>) = child1_stage r c p"
  "child1_stage r c (p\<lparr>at_child2 := e\<rparr>) = child1_stage r c p"
  "child1_stage r c (p\<lparr>flags := f\<rparr>) = child1_stage r c p"
  by (cases c; simp)+

lemma log_open_simps [simp]:
  "logging p = None \<Longrightarrow> \<not> log_open p"
  "logging p = Some h \<Longrightarrow> h < length (streams p) \<Longrightarrow> streams p ! h \<Longrightarrow> log_open p"
  by (simp_all add: log_open_def)

lemma main_step_follows:
  assumes "undisturbed p" "waiting p" "follows r p"
  shows "pred_option (\<lambda>q. undisturbed q \<longrightarrow> follows r q) (main_step ok p)"
  using assms
  by (cases "at_main p")
    (auto simp: main_step_def undisturbed_def waiting_def follows_def open_failed_def no_child1_at_def
      no_child2_at_def Let_def fopen_def fprintf_def fclose_def)

lemma child1_stage_step:
  assumes "child1_stage r (at_child1 p) p" "\<not> fault p" "at_child1 p \<noteq> C1_none" "child1_funct gdb = Some r"
  shows "pred_option (\<lambda>q. at_main q = at_main p \<and>
    (streams q = [False] \<and> logging q = None \<and> at_child1 q \<notin> {C1_none, C1_open} \<or>
     \<not> fault q \<and> child1_stage r (at_child1 q) q)) (child1_step gdb ok p)"
proof (cases "at_child1 p")
  case (C1_report rs)
  then show ?thesis
    using assms by (cases rs) (auto simp: child1_step_def fprintf_def)
qed (use assms in \<open>auto simp: child1_step_def fopen_def fprintf_def fclose_def log_lines_def\<close>)

lemma child1_step_failed:
  assumes "streams p = [False]" "logging p = None" "at_child1 p \<notin> {C1_none, C1_open}"
  shows "pred_option (\<lambda>q. at_main q = at_main p \<and> streams q = [False] \<and> logging q = None \<and>
    at_child1 q \<notin> {C1_none, C1_open}) (child1_step gdb ok p)"
  using assms
  by (cases "at_child1 p") (auto simp: child1_step_def fprintf_def fclose_def split: option.split list.split)

lemma main_stage_late:
  "main_stage r m p \<Longrightarrow> \<not> no_child1_at m \<Longrightarrow> child1_stage r (at_child1 p) p \<and>
     (m \<in> {M_create2, M_join1} \<or> (created1 p \<longrightarrow> at_child1 p = C1_end))"
  by (cases m) (simp_all add: no_child1_at_def)

lemma child1_step_follows:
  assumes "waiting p" "follows r p" "child1_funct gdb = Some r" "child1_step gdb ok p = Some q"
  shows "follows r q"
proof -
  have active: "at_child1 p \<noteq> C1_none" "at_child1 p \<noteq> C1_end" using assms(4) by (auto simp: child1_step_def)
  then have late: "\<not> no_child1_at (at_main p)" "created1 p" using assms(1) by (auto simp: waiting_def)
  consider "open_failed p" | "\<not> fault p" "main_stage r (at_main p) p" using assms(2) by (auto simp: follows_def)
  then show ?thesis
  proof cases
    case 1
    then show ?thesis using child1_step_failed [of p gdb ok] active assms(4)
      by (auto simp: follows_def open_failed_def)
  next
    case 2
    have st: "child1_stage r (at_child1 p) p" and m: "at_main p \<in> {M_create2, M_join1}"
      using main_stage_late [OF 2(2) late(1)] late(2) active(2) by auto
    then show ?thesis using child1_stage_step [OF st 2(1) active(1) assms(3), of ok] assms(4)
      by (auto simp: follows_def open_failed_def no_child1_at_def)
  qed
qed

lemma main_stage_flags [simp]: "main_stage r m (p\<lparr>flags := f\<rparr>) = main_stage r m p"
  by (cases m) simp_all

lemma take_signal_follows:
  "pred_option (\<lambda>q. undisturbed q \<longrightarrow> undisturbed p \<and> (follows r p \<longrightarrow> follows r q)) (take_signal sig t p)"
  by (simp add: take_signal_def handler_def Let_def undisturbed_def follows_def open_failed_def)

lemma undisturbed_before:
  "pred_option (\<lambda>q. undisturbed q \<longrightarrow> undisturbed p) (main_step ok p)"
  "pred_option (\<lambda>q. undisturbed q \<longrightarrow> undisturbed p) (child1_step gdb ok p)"
  "pred_option (\<lambda>q. \<not> undisturbed q) (child2_step stat_file ok p)"
proof -
  show "pred_option (\<lambda>q. undisturbed q \<longrightarrow> undisturbed p) (main_step ok p)"
    by (cases "at_main p") (auto simp: main_step_def undisturbed_def Let_def)
  show "pred_option (\<lambda>q. undisturbed q \<longrightarrow> undisturbed p) (child1_step gdb ok p)"
    by (cases "at_child1 p") (auto simp: child1_step_def undisturbed_def split: option.split list.split)
  show "pred_option (\<lambda>q. \<not> undisturbed q) (child2_step stat_file ok p)"
    by (cases "at_child2 p") (auto simp: child2_step_def undisturbed_def split: option.split prod.split)
qed

definition alone :: "reporting list \<Rightarrow> program \<Rightarrow> bool" where
  "alone r p \<longleftrightarrow> kill_ok p \<and> (undisturbed p \<longrightarrow> follows r p)"

lemma alone_step:
  assumes "child1_funct gdb = Some r" "alone r p" "run_step gdb p q"
  shows "alone r q"
proof -
  have k: "kill_ok q" using kill_ok_step assms(2,3) by (auto simp: alone_def)
  obtain a where act: "act gdb a p = Some q" using assms(3) by (auto simp: run_step_iff)
  have w: "undisturbed p \<Longrightarrow> waiting p \<and> follows r p"
    using assms(2) by (auto simp: alone_def kill_ok_def undisturbed_def)
  have "follows r q" if u: "undisturbed q"
  proof (cases a)
    case (Main_acts ok)
    then show ?thesis
      using act undisturbed_before(1) [of p ok] main_step_follows [of p r ok] w u by (simp add: act_def)
  next
    case (Child1_acts ok)
    then have c: "child1_step gdb ok p = Some q" using act by (simp add: act_def)
    then show ?thesis
      using undisturbed_before(2) [of p gdb ok] child1_step_follows [OF _ _ assms(1) c] w u by simp
  next
    case (Child2_acts stat_file ok)
    then show ?thesis using act undisturbed_before(3) [of stat_file ok p] u by (simp add: act_def)
  next
    case (Signal sig t)
    then show ?thesis using act take_signal_follows [of p r sig t] w u by (simp add: act_def)
  qed
  then show ?thesis using k by (simp add: alone_def)
qed

interpretation alone_sys: preserved_invariant "run_step gdb" "\<lambda>p. child1_funct gdb = Some r \<longrightarrow> alone r p" for gdb r
  by unfold_locales (use alone_step in blast)

lemma alone_start: "alone r (run_start data)"
  using kill_sys.inv_start by (auto simp: alone_def follows_def run_start_def)

lemma child1_funct_report:
  assumes "2 \<le> length t" "r = statistics (\<lambda>l. count_list (map lower t) l)" "r \<noteq> []"
  shows "child1_funct (Some t) = Some r"
  using child1_funct_statistics [OF assms(1)] assms(2,3) by (simp add: Let_def)

lemma report_ab: "child1_funct (Some ''ab'') =
    Some [\<lparr>alphabet = CHR ''a'', count_of = 1\<rparr>, \<lparr>alphabet = CHR ''b'', count_of = 1\<rparr>]"
proof (rule child1_funct_report)
  show "[\<lparr>alphabet = CHR ''a'', count_of = 1\<rparr>, \<lparr>alphabet = CHR ''b'', count_of = 1\<rparr>] =
    statistics (\<lambda>l. count_list (map lower ''ab'') l)" by code_simp
qed simp_all

subsection \<open>Properties\<close>

text \<open>
  The whole program ends only through a signal: in every run, whatever threads are created and
  however they interleave, when \<open>main\<close> has reached its end after creating the second thread, one of
  the threads has taken \<open>SIGUSR1\<close> or \<open>SIGUSR2\<close> and \<open>kill_msg\<close> says which.
\<close>

theorem ends_by_signal_only:
  assumes "(run_step gdb)\<^sup>*\<^sup>* (run_start data) p" "at_main p = M_end" "created2 p"
  shows "kill_msg (flags p) = 1 \<or> kill_msg (flags p) = 2"
  using kill_sys.reachable_inv [OF assms(1)] assms(2,3)
  by (auto simp: kill_ok_def waiting_def no_child2_at_def)

definition both_killed :: "action list" where
  "both_killed = replicate 5 (Main_acts True) @ [Signal 10 Child1_thread, Signal 12 Child2_thread] @
     replicate 4 (Main_acts True)"

lemma ends_by_signal_only_witness:
  "\<exists>p. acts None both_killed (run_start []) = Some p \<and> at_main p = M_end \<and> created2 p \<and>
     (kill_msg (flags p) = 1 \<or> kill_msg (flags p) = 2)"
proof -
  obtain p where p: "acts None both_killed (run_start []) = Some p" "at_main p = M_end" "created2 p"
    by (simp add: both_killed_def run_start_def act_def main_step_def fopen_def fprintf_def fclose_def
      log_open_def take_signal_def alive_def handler_def pthread_exit_def numeral_eq_Suc)
  show ?thesis using ends_by_signal_only [OF acts_reach [OF p(1)] p(2,3)] p by blast
qed

text \<open>
  C24. The log of a run of the program in which the second thread could not be created and no signal
  ended a thread: when \<open>main\<close> is at its end and both \<open>fopen\<close> calls have succeeded, no stream was used
  while closed, the streams are closed, and the log has the line of \<open>main\<close>, that of the thread, one for
  each reported letter with its count in alphabetical order, and the line of the normal end.
\<close>

theorem report_is_logged:
  assumes "(run_step (Some t))\<^sup>*\<^sup>* (run_start data) p" "at_main p = M_end" "created1 p"
    "kill_msg (flags p) = 0" "at_child2 p = C2_none" "length (streams p) = 2"
    "2 \<le> length t" "r = statistics (\<lambda>l. count_list (map lower t) l)" "r \<noteq> []"
  shows "\<not> fault p \<and> streams p = [False, False] \<and>
    written p = (0, Main_hello) # map (Pair 1) (Child1_hello # map Letter r @ [Child1_exit])"
proof -
  have f: "child1_funct (Some t) = Some r" by (rule child1_funct_report [OF assms(7-9)])
  have "alone r p" using alone_sys.inv_steps [OF assms(1)] f alone_start by blast
  then have "follows r p" using assms(4,5) by (simp add: alone_def undisturbed_def)
  then show ?thesis
    using assms(2,3,6) by (auto simp: follows_def open_failed_def log_lines_def)
qed

text \<open>The actions of \<open>main\<close> without a second thread, around those of the first for a report of two letters.\<close>

definition one_child :: "action list" where
  "one_child = replicate 4 (Main_acts True) @ Main_acts False # replicate 8 (Child1_acts True) @
     replicate 4 (Main_acts True)"

lemmas run_simps = run_start_def act_def main_step_def child1_step_def child2_step_def fopen_def
  fprintf_def fclose_def log_open_def take_signal_def alive_def handler_def pthread_exit_def

lemma report_is_logged_witness:
  "\<exists>p. acts (Some ''Bab'') one_child (run_start []) = Some p \<and>
     written p = [(0, Main_hello), (1, Child1_hello), (1, Letter \<lparr>alphabet = CHR ''a'', count_of = 1\<rparr>),
       (1, Letter \<lparr>alphabet = CHR ''b'', count_of = 2\<rparr>), (1, Child1_exit)]"
proof -
  let ?r = "[\<lparr>alphabet = CHR ''a'', count_of = 1\<rparr>, \<lparr>alphabet = CHR ''b'', count_of = 2\<rparr>]"
  have st: "?r = statistics (\<lambda>l. count_list (map lower ''Bab'') l)" by code_simp
  have f: "child1_funct (Some ''Bab'') = Some ?r" by (rule child1_funct_report [OF _ st]) simp_all
  obtain p where p: "acts (Some ''Bab'') one_child (run_start []) = Some p" "at_main p = M_end" "created1 p"
      "kill_msg (flags p) = 0" "at_child2 p = C2_none" "length (streams p) = 2"
    by (simp add: one_child_def run_simps f numeral_eq_Suc)
  have "written p = (0, Main_hello) # map (Pair 1) (Child1_hello # map Letter ?r @ [Child1_exit])"
    using report_is_logged [OF acts_reach [OF p(1)] p(2-6) _ st] by simp
  then show ?thesis using p(1) by auto
qed

text \<open>
  The threads share one stream variable. Without any signal the first child can close the stream the
  second has just opened, which then writes to it; and after a signal to the second child \<open>main\<close>
  writes to the stream that the first has closed.
\<close>

lemma child2_writes_closed:
  "\<exists>p. acts (Some ''ab'') (replicate 5 (Main_acts True) @ replicate 7 (Child1_acts True) @
      [Child2_acts None True, Child1_acts True, Child2_acts None True]) (run_start []) = Some p \<and>
     fault p \<and> kill_msg (flags p) = 0"
  by (simp add: run_simps report_ab numeral_eq_Suc)

lemma main_writes_closed:
  "\<exists>p. acts (Some ''ab'') (replicate 5 (Main_acts True) @ replicate 2 (Child2_acts None True) @
      replicate 8 (Child1_acts True) @ [Signal 10 Child2_thread] @ replicate 2 (Main_acts True))
      (run_start []) = Some p \<and> fault p"
  by (simp add: run_simps report_ab numeral_eq_Suc)

end
