(* ===== verification/KernelCreds.thy ===== *)
theory KernelCreds
  imports TransitionSystem
begin

text \<open>
  \<open>sys.c\<close>: the system calls that change and read the user and group identities of a process. The
  credentials are a record; the services of the kernel proper the calls rely on (the user
  namespace's maps, \<open>ns_capable\<close>, the allocation of credentials and user structures, the security
  hook, the copies to user memory) are gathered in the record \<open>kernel\<close>, an argument of every call.
  A kernel identity is a 32-bit word, invalid when all bits are set. Reference counts are left out.
\<close>

datatype capability = CAP_SETUID | CAP_SETGID

record cred =
  uid :: u32
  euid :: u32
  suid :: u32
  fsuid :: u32
  gid :: u32
  egid :: u32
  sgid :: u32
  fsgid :: u32
  user :: u32
  cap_effective :: "capability set"

datatype lsm_flag = LSM_SETID_ID | LSM_SETID_RE | LSM_SETID_RES | LSM_SETID_FS

text \<open>\<open>fix_setuid\<close> returns an error code and the credentials as the hook leaves them.\<close>

record kernel =
  make_kuid :: "u32 \<Rightarrow> u32"
  make_kgid :: "u32 \<Rightarrow> u32"
  from_kuid_munged :: "u32 \<Rightarrow> u32"
  from_kgid_munged :: "u32 \<Rightarrow> u32"
  ns_capable :: "cred \<Rightarrow> capability \<Rightarrow> bool"
  prepare_ok :: bool
  alloc_uid_ok :: "u32 \<Rightarrow> bool"
  processes :: "u32 \<Rightarrow> nat"
  nproc_limit :: nat
  fix_setuid :: "cred \<Rightarrow> cred \<Rightarrow> lsm_flag \<Rightarrow> int \<times> cred"
  put_user_ok :: "nat \<Rightarrow> bool"

text \<open>The current task: its credentials and the flag \<open>PF_NPROC_EXCEEDED\<close>.\<close>

record task =
  cred :: cred
  nproc_exceeded :: bool

abbreviation no_id :: u32 where "no_id \<equiv> 0xffffffff"

definition id_valid :: "u32 \<Rightarrow> bool" where
  "id_valid k \<longleftrightarrow> k \<noteq> 0xffffffff"

text \<open>The end of every call: the new credentials are installed, or dropped with an error.\<close>

definition commit_creds :: "cred \<Rightarrow> task \<Rightarrow> int \<times> task" where
  "commit_creds new t = (0, t\<lparr>cred := new\<rparr>)"

definition abort_creds :: "int \<Rightarrow> task \<Rightarrow> int \<times> task" where
  "abort_creds retval t = (retval, t)"

text \<open>\<open>set_user\<close>: the error code, the new credentials and the task. \<open>INIT_USER\<close> is user 0.\<close>

definition set_user :: "kernel \<Rightarrow> cred \<Rightarrow> task \<Rightarrow> int \<times> cred \<times> task" where
  "set_user K new t =
     (if \<not> alloc_uid_ok K (uid new) then (- EAGAIN, new, t)
      else (0, new\<lparr>user := uid new\<rparr>,
            t\<lparr>nproc_exceeded := (nproc_limit K \<le> processes K (uid new) \<and> uid new \<noteq> 0)\<rparr>))"

text \<open>The security hook and what follows it in every call.\<close>

definition fix_and_commit :: "kernel \<Rightarrow> lsm_flag \<Rightarrow> cred \<Rightarrow> task \<Rightarrow> int \<times> task" where
  "fix_and_commit K flag new t =
     (case fix_setuid K new (cred t) flag of
        (retval, new') \<Rightarrow> if retval < 0 then abort_creds retval t else commit_creds new' t)"

subsection \<open>Group identities\<close>

definition setregid :: "kernel \<Rightarrow> u32 \<Rightarrow> u32 \<Rightarrow> task \<Rightarrow> int \<times> task" where
  "setregid K rgid eg t =
     (let krgid = make_kgid K rgid; kegid = make_kgid K eg; old = cred t; new = old in
      if rgid \<noteq> no_id \<and> \<not> id_valid krgid then (- EINVAL, t)
      else if eg \<noteq> no_id \<and> \<not> id_valid kegid then (- EINVAL, t)
      else if \<not> prepare_ok K then (- ENOMEM, t)
      else if rgid \<noteq> no_id \<and>
        \<not> (gid old = krgid \<or> egid old = krgid \<or> ns_capable K old CAP_SETGID) then abort_creds (- EPERM) t
      else
        let new = (if rgid \<noteq> no_id then new\<lparr>gid := krgid\<rparr> else new) in
        if eg \<noteq> no_id \<and>
          \<not> (gid old = kegid \<or> egid old = kegid \<or> sgid old = kegid \<or> ns_capable K old CAP_SETGID)
        then abort_creds (- EPERM) t
        else
          let new = (if eg \<noteq> no_id then new\<lparr>egid := kegid\<rparr> else new);
              new = (if rgid \<noteq> no_id \<or> eg \<noteq> no_id \<and> kegid \<noteq> gid old
                     then new\<lparr>sgid := egid new\<rparr> else new) in
          commit_creds (new\<lparr>fsgid := egid new\<rparr>) t)"

definition setgid :: "kernel \<Rightarrow> u32 \<Rightarrow> task \<Rightarrow> int \<times> task" where
  "setgid K g t =
     (let kgid = make_kgid K g; old = cred t; new = old in
      if \<not> id_valid kgid then (- EINVAL, t)
      else if \<not> prepare_ok K then (- ENOMEM, t)
      else if ns_capable K old CAP_SETGID
        then commit_creds (new\<lparr>gid := kgid, egid := kgid, sgid := kgid, fsgid := kgid\<rparr>) t
      else if kgid = gid old \<or> kgid = sgid old
        then commit_creds (new\<lparr>egid := kgid, fsgid := kgid\<rparr>) t
      else abort_creds (- EPERM) t)"

definition setresgid :: "kernel \<Rightarrow> u32 \<Rightarrow> u32 \<Rightarrow> u32 \<Rightarrow> task \<Rightarrow> int \<times> task" where
  "setresgid K rg eg sg t =
     (let krgid = make_kgid K rg; kegid = make_kgid K eg; ksgid = make_kgid K sg;
          old = cred t; new = old in
      if rg \<noteq> no_id \<and> \<not> id_valid krgid then (- EINVAL, t)
      else if eg \<noteq> no_id \<and> \<not> id_valid kegid then (- EINVAL, t)
      else if sg \<noteq> no_id \<and> \<not> id_valid ksgid then (- EINVAL, t)
      else if \<not> prepare_ok K then (- ENOMEM, t)
      else if \<not> ns_capable K old CAP_SETGID \<and>
         (rg \<noteq> no_id \<and> krgid \<noteq> gid old \<and> krgid \<noteq> egid old \<and> krgid \<noteq> sgid old \<or>
          eg \<noteq> no_id \<and> kegid \<noteq> gid old \<and> kegid \<noteq> egid old \<and> kegid \<noteq> sgid old \<or>
          sg \<noteq> no_id \<and> ksgid \<noteq> gid old \<and> ksgid \<noteq> egid old \<and> ksgid \<noteq> sgid old)
        then abort_creds (- EPERM) t
      else
        let new = (if rg \<noteq> no_id then new\<lparr>gid := krgid\<rparr> else new);
            new = (if eg \<noteq> no_id then new\<lparr>egid := kegid\<rparr> else new);
            new = (if sg \<noteq> no_id then new\<lparr>sgid := ksgid\<rparr> else new) in
        commit_creds (new\<lparr>fsgid := egid new\<rparr>) t)"

text \<open>\<open>setfsgid\<close> returns the old identity in every case.\<close>

definition setfsgid :: "kernel \<Rightarrow> u32 \<Rightarrow> task \<Rightarrow> u32 \<times> task" where
  "setfsgid K g t =
     (let old = cred t; old_fsgid = from_kgid_munged K (fsgid old); kgid = make_kgid K g in
      if \<not> id_valid kgid then (old_fsgid, t)
      else if \<not> prepare_ok K then (old_fsgid, t)
      else if (kgid = gid old \<or> kgid = egid old \<or> kgid = sgid old \<or> kgid = fsgid old \<or>
               ns_capable K old CAP_SETGID) \<and> kgid \<noteq> fsgid old
        then (old_fsgid, snd (commit_creds (old\<lparr>fsgid := kgid\<rparr>) t))
      else (old_fsgid, t))"

subsection \<open>User identities\<close>

definition setreuid :: "kernel \<Rightarrow> u32 \<Rightarrow> u32 \<Rightarrow> task \<Rightarrow> int \<times> task" where
  "setreuid K ru eu t =
     (let kruid = make_kuid K ru; keuid = make_kuid K eu; old = cred t; new = old in
      if ru \<noteq> no_id \<and> \<not> id_valid kruid then (- EINVAL, t)
      else if eu \<noteq> no_id \<and> \<not> id_valid keuid then (- EINVAL, t)
      else if \<not> prepare_ok K then (- ENOMEM, t)
      else
        let new = (if ru \<noteq> no_id then new\<lparr>uid := kruid\<rparr> else new) in
        if ru \<noteq> no_id \<and> uid old \<noteq> kruid \<and> euid old \<noteq> kruid \<and> \<not> ns_capable K old CAP_SETUID
        then abort_creds (- EPERM) t
        else
          let new = (if eu \<noteq> no_id then new\<lparr>euid := keuid\<rparr> else new) in
          if eu \<noteq> no_id \<and> uid old \<noteq> keuid \<and> euid old \<noteq> keuid \<and> suid old \<noteq> keuid \<and>
            \<not> ns_capable K old CAP_SETUID
          then abort_creds (- EPERM) t
          else
            let (retval, new, t) =
              (if uid new \<noteq> uid old then set_user K new t else (- EPERM, new, t)) in
            if uid new \<noteq> uid old \<and> retval < 0 then abort_creds retval t
            else
              let new = (if ru \<noteq> no_id \<or> eu \<noteq> no_id \<and> keuid \<noteq> uid old
                         then new\<lparr>suid := euid new\<rparr> else new) in
              fix_and_commit K LSM_SETID_RE (new\<lparr>fsuid := euid new\<rparr>) t)"

definition setuid :: "kernel \<Rightarrow> u32 \<Rightarrow> task \<Rightarrow> int \<times> task" where
  "setuid K u t =
     (let kuid = make_kuid K u; old = cred t; new = old in
      if \<not> id_valid kuid then (- EINVAL, t)
      else if \<not> prepare_ok K then (- ENOMEM, t)
      else if ns_capable K old CAP_SETUID then
        let new = new\<lparr>uid := kuid, suid := kuid\<rparr>;
            (retval, new, t) = (if kuid \<noteq> uid old then set_user K new t else (0, new, t)) in
        if retval < 0 then abort_creds retval t
        else fix_and_commit K LSM_SETID_ID (new\<lparr>euid := kuid, fsuid := kuid\<rparr>) t
      else if kuid \<noteq> uid old \<and> kuid \<noteq> suid new then abort_creds (- EPERM) t
      else fix_and_commit K LSM_SETID_ID (new\<lparr>euid := kuid, fsuid := kuid\<rparr>) t)"

definition setresuid :: "kernel \<Rightarrow> u32 \<Rightarrow> u32 \<Rightarrow> u32 \<Rightarrow> task \<Rightarrow> int \<times> task" where
  "setresuid K ru eu su t =
     (let kruid = make_kuid K ru; keuid = make_kuid K eu; ksuid = make_kuid K su;
          old = cred t; new = old in
      if ru \<noteq> no_id \<and> \<not> id_valid kruid then (- EINVAL, t)
      else if eu \<noteq> no_id \<and> \<not> id_valid keuid then (- EINVAL, t)
      else if su \<noteq> no_id \<and> \<not> id_valid ksuid then (- EINVAL, t)
      else if \<not> prepare_ok K then (- ENOMEM, t)
      else if \<not> ns_capable K old CAP_SETUID \<and>
         (ru \<noteq> no_id \<and> kruid \<noteq> uid old \<and> kruid \<noteq> euid old \<and> kruid \<noteq> suid old \<or>
          eu \<noteq> no_id \<and> keuid \<noteq> uid old \<and> keuid \<noteq> euid old \<and> keuid \<noteq> suid old \<or>
          su \<noteq> no_id \<and> ksuid \<noteq> uid old \<and> ksuid \<noteq> euid old \<and> ksuid \<noteq> suid old)
        then abort_creds (- EPERM) t
      else
        let new = (if ru \<noteq> no_id then new\<lparr>uid := kruid\<rparr> else new);
            (retval, new, t) =
              (if ru \<noteq> no_id \<and> kruid \<noteq> uid old then set_user K new t else (0, new, t)) in
        if retval < 0 then abort_creds retval t
        else
          let new = (if eu \<noteq> no_id then new\<lparr>euid := keuid\<rparr> else new);
              new = (if su \<noteq> no_id then new\<lparr>suid := ksuid\<rparr> else new) in
          fix_and_commit K LSM_SETID_RES (new\<lparr>fsuid := euid new\<rparr>) t)"

definition setfsuid :: "kernel \<Rightarrow> u32 \<Rightarrow> task \<Rightarrow> u32 \<times> task" where
  "setfsuid K u t =
     (let old = cred t; old_fsuid = from_kuid_munged K (fsuid old); kuid = make_kuid K u in
      if \<not> id_valid kuid then (old_fsuid, t)
      else if \<not> prepare_ok K then (old_fsuid, t)
      else if (kuid = uid old \<or> kuid = euid old \<or> kuid = suid old \<or> kuid = fsuid old \<or>
               ns_capable K old CAP_SETUID) \<and> kuid \<noteq> fsuid old
        then (case fix_setuid K (old\<lparr>fsuid := kuid\<rparr>) old LSM_SETID_FS of
          (retval, new) \<Rightarrow> if retval = 0 then (old_fsuid, snd (commit_creds new t)) else (old_fsuid, t))
      else (old_fsuid, t))"

subsection \<open>Reading the identities\<close>

text \<open>The three stores to user memory, of which the first failure stops: the code and what was stored.\<close>

definition put_three :: "kernel \<Rightarrow> u32 \<Rightarrow> u32 \<Rightarrow> u32 \<Rightarrow> int \<times> u32 list" where
  "put_three K a b c =
     (if \<not> put_user_ok K 0 then (- EFAULT, [])
      else if \<not> put_user_ok K 1 then (- EFAULT, [a])
      else if \<not> put_user_ok K 2 then (- EFAULT, [a, b])
      else (0, [a, b, c]))"

definition getresuid :: "kernel \<Rightarrow> task \<Rightarrow> int \<times> u32 list" where
  "getresuid K t = put_three K (from_kuid_munged K (uid (cred t)))
     (from_kuid_munged K (euid (cred t))) (from_kuid_munged K (suid (cred t)))"

definition getresgid :: "kernel \<Rightarrow> task \<Rightarrow> int \<times> u32 list" where
  "getresgid K t = put_three K (from_kgid_munged K (gid (cred t)))
     (from_kgid_munged K (egid (cred t))) (from_kgid_munged K (sgid (cred t)))"

definition getuid :: "kernel \<Rightarrow> task \<Rightarrow> u32" where
  "getuid K t = from_kuid_munged K (uid (cred t))"

definition geteuid :: "kernel \<Rightarrow> task \<Rightarrow> u32" where
  "geteuid K t = from_kuid_munged K (euid (cred t))"

definition getgid :: "kernel \<Rightarrow> task \<Rightarrow> u32" where
  "getgid K t = from_kgid_munged K (gid (cred t))"

definition getegid :: "kernel \<Rightarrow> task \<Rightarrow> u32" where
  "getegid K t = from_kgid_munged K (egid (cred t))"

subsection \<open>Sequences of calls\<close>

datatype id_call =
    Setuid u32 | Setreuid u32 u32 | Setresuid u32 u32 u32 | Setfsuid u32
  | Setgid u32 | Setregid u32 u32 | Setresgid u32 u32 u32 | Setfsgid u32

fun perform :: "kernel \<Rightarrow> id_call \<Rightarrow> task \<Rightarrow> task" where
  "perform K (Setuid u) t = snd (setuid K u t)"
| "perform K (Setreuid r e) t = snd (setreuid K r e t)"
| "perform K (Setresuid r e s) t = snd (setresuid K r e s t)"
| "perform K (Setfsuid u) t = snd (setfsuid K u t)"
| "perform K (Setgid g) t = snd (setgid K g t)"
| "perform K (Setregid r e) t = snd (setregid K r e t)"
| "perform K (Setresgid r e s) t = snd (setresgid K r e s t)"
| "perform K (Setfsgid g) t = snd (setfsgid K g t)"

text \<open>The result of the calls that report errors.\<close>

fun result :: "kernel \<Rightarrow> id_call \<Rightarrow> task \<Rightarrow> int" where
  "result K (Setuid u) t = fst (setuid K u t)"
| "result K (Setreuid r e) t = fst (setreuid K r e t)"
| "result K (Setresuid r e s) t = fst (setresuid K r e s t)"
| "result K (Setgid g) t = fst (setgid K g t)"
| "result K (Setregid r e) t = fst (setregid K r e t)"
| "result K (Setresgid r e s) t = fst (setresgid K r e s t)"
| "result K _ t = 0"

definition uids :: "cred \<Rightarrow> u32 set" where
  "uids c = {uid c, euid c, suid c, fsuid c}"

definition gids :: "cred \<Rightarrow> u32 set" where
  "gids c = {gid c, egid c, sgid c, fsgid c}"

definition same_ids :: "cred \<Rightarrow> cred \<Rightarrow> bool" where
  "same_ids a b \<longleftrightarrow> uid a = uid b \<and> euid a = euid b \<and> suid a = suid b \<and> fsuid a = fsuid b \<and>
     gid a = gid b \<and> egid a = egid b \<and> sgid a = sgid b \<and> fsgid a = fsgid b"

text \<open>The documented behaviour of the hook: it adjusts capabilities only.\<close>

definition hook_keeps_ids :: "kernel \<Rightarrow> bool" where
  "hook_keeps_ids K \<longleftrightarrow> (\<forall>new old f. same_ids (snd (fix_setuid K new old f)) new)"

text \<open>A call made without the capability to set user (group) identities.\<close>

inductive uid_step :: "kernel \<Rightarrow> task \<Rightarrow> task \<Rightarrow> bool" for K where
  "\<not> ns_capable K (cred t) CAP_SETUID \<Longrightarrow> uid_step K t (perform K c t)"

inductive gid_step :: "kernel \<Rightarrow> task \<Rightarrow> task \<Rightarrow> bool" for K where
  "\<not> ns_capable K (cred t) CAP_SETGID \<Longrightarrow> gid_step K t (perform K c t)"

lemmas end_defs = commit_creds_def abort_creds_def fix_and_commit_def set_user_def

lemma set_user_cred [simp]:
  "cred (snd (snd (set_user K new t))) = cred t"
  "uids (fst (snd (set_user K new t))) = uids new" "gids (fst (snd (set_user K new t))) = gids new"
  by (auto simp: set_user_def uids_def gids_def)

lemma fix_ids:
  assumes "hook_keeps_ids K"
  shows "same_ids (cred (snd (fix_and_commit K f new t))) new \<or>
    cred (snd (fix_and_commit K f new t)) = cred t"
  using assms [unfolded hook_keeps_ids_def, rule_format, of new "cred t" f]
  by (auto simp: fix_and_commit_def commit_creds_def abort_creds_def split: prod.splits)

lemma same_ids_sets: "same_ids a b \<Longrightarrow> uids a = uids b \<and> gids a = gids b"
  by (auto simp: same_ids_def uids_def gids_def)

lemma fix_sets:
  assumes "hook_keeps_ids K" "uids new \<subseteq> U" "gids new \<subseteq> G" "uids (cred t) \<subseteq> U" "gids (cred t) \<subseteq> G"
  shows "uids (cred (snd (fix_and_commit K f new t))) \<subseteq> U \<and>
    gids (cred (snd (fix_and_commit K f new t))) \<subseteq> G"
  using fix_ids [OF assms(1), of f new t] assms(2-) same_ids_sets by auto

text \<open>Group calls leave the user identities alone, and the other way round.\<close>

lemma group_calls_uids:
  "uids (cred (snd (setgid K g t))) = uids (cred t)"
  "uids (cred (snd (setregid K r e t))) = uids (cred t)"
  "uids (cred (snd (setresgid K r e s t))) = uids (cred t)"
  "uids (cred (snd (setfsgid K g t))) = uids (cred t)"
  by (simp_all add: setgid_def setregid_def setresgid_def setfsgid_def Let_def end_defs uids_def)

text \<open>What each call does: it fails and changes no identity, or installs the identities given.\<close>

definition given :: "(u32 \<Rightarrow> u32) \<Rightarrow> u32 \<Rightarrow> u32 \<Rightarrow> u32" where
  "given mk x old = (if x = no_id then old else mk x)"

lemma setgid_cases:
  assumes "setgid K g t = (rc, t')"
  shows "rc < 0 \<and> t' = t \<or>
   rc = 0 \<and> (let c = cred t; k = make_kgid K g in
     ns_capable K c CAP_SETGID \<and> t' = t\<lparr>cred := c\<lparr>gid := k, egid := k, sgid := k, fsgid := k\<rparr>\<rparr> \<or>
     k \<in> {gid c, sgid c} \<and> t' = t\<lparr>cred := c\<lparr>egid := k, fsgid := k\<rparr>\<rparr>)"
  using assms by (auto simp: setgid_def Let_def commit_creds_def abort_creds_def split: if_splits)

lemma setregid_cases:
  assumes "setregid K r e t = (rc, t')"
  shows "rc < 0 \<and> t' = t \<or> rc = 0 \<and>
     (let c = cred t; r' = given (make_kgid K) r (gid c); e' = given (make_kgid K) e (egid c) in
      (ns_capable K c CAP_SETGID \<or> r' \<in> {gid c, egid c} \<and> e' \<in> {gid c, egid c, sgid c}) \<and>
      t' = t\<lparr>cred := c\<lparr>gid := r', egid := e',
        sgid := (if r \<noteq> no_id \<or> e \<noteq> no_id \<and> e' \<noteq> gid c then e' else sgid c), fsgid := e'\<rparr>\<rparr>)"
  using assms
  by (cases "r = no_id"; cases "e = no_id")
    (auto simp: setregid_def Let_def commit_creds_def abort_creds_def given_def split: if_splits)

lemma setresgid_cases:
  assumes "setresgid K r e s t = (rc, t')"
  shows "rc < 0 \<and> t' = t \<or> rc = 0 \<and>
     (let c = cred t; r' = given (make_kgid K) r (gid c); e' = given (make_kgid K) e (egid c);
          s' = given (make_kgid K) s (sgid c) in
      (ns_capable K c CAP_SETGID \<or> {r', e', s'} \<subseteq> {gid c, egid c, sgid c}) \<and>
      t' = t\<lparr>cred := c\<lparr>gid := r', egid := e', sgid := s', fsgid := e'\<rparr>\<rparr>)"
  using assms
  by (cases "r = no_id"; cases "e = no_id"; cases "s = no_id")
    (auto simp: setresgid_def Let_def commit_creds_def abort_creds_def given_def split: if_splits)

lemma setfsgid_cases:
  assumes "setfsgid K g t = (rc, t')"
  shows "t' = t \<or>
   (let c = cred t; k = make_kgid K g in
    (ns_capable K c CAP_SETGID \<or> k \<in> {gid c, egid c, sgid c, fsgid c}) \<and>
    t' = t\<lparr>cred := c\<lparr>fsgid := k\<rparr>\<rparr>)"
  using assms by (auto simp: setfsgid_def Let_def commit_creds_def split: if_splits)

lemma gids_installed:
  "{r, e, s} \<subseteq> G \<Longrightarrow>
   gids (cred (t\<lparr>cred := (cred t)\<lparr>gid := r, egid := e, sgid := s, fsgid := e\<rparr>\<rparr>)) \<subseteq> G"
  by (simp add: gids_def)

lemma group_calls_gids:
  assumes "\<not> ns_capable K (cred t) CAP_SETGID"
  shows "gids (cred (snd (setgid K g t))) \<subseteq> gids (cred t)"
    and "gids (cred (snd (setregid K r e t))) \<subseteq> gids (cred t)"
    and "gids (cred (snd (setresgid K r e s t))) \<subseteq> gids (cred t)"
    and "gids (cred (snd (setfsgid K g t))) \<subseteq> gids (cred t)"
proof -
  show "gids (cred (snd (setgid K g t))) \<subseteq> gids (cred t)"
    using setgid_cases [OF prod.collapse [symmetric], of K g t] assms by (auto simp: gids_def Let_def)
  let ?r = "given (make_kgid K) r (gid (cred t))" and ?e = "given (make_kgid K) e (egid (cred t))"
  obtain rc t' where r: "setregid K r e t = (rc, t')" by fastforce
  obtain sv where "t' = t \<or> ({?r, ?e, sv} \<subseteq> gids (cred t) \<and>
      t' = t\<lparr>cred := (cred t)\<lparr>gid := ?r, egid := ?e, sgid := sv, fsgid := ?e\<rparr>\<rparr>)"
  proof -
    let ?sv = "if r \<noteq> no_id \<or> e \<noteq> no_id \<and> ?e \<noteq> gid (cred t) then ?e else sgid (cred t)"
    consider "t' = t" | "?r \<in> {gid (cred t), egid (cred t)}"
      "?e \<in> {gid (cred t), egid (cred t), sgid (cred t)}"
      "t' = t\<lparr>cred := (cred t)\<lparr>gid := ?r, egid := ?e, sgid := ?sv, fsgid := ?e\<rparr>\<rparr>"
      using setregid_cases [OF r] assms unfolding Let_def by blast
    then show thesis
    proof cases
      case 1 then show thesis using that by simp
    next
      case 2
      then have "{?r, ?e, ?sv} \<subseteq> gids (cred t)" unfolding gids_def by auto
      with 2(3) show thesis using that by blast
    qed
  qed
  then show "gids (cred (snd (setregid K r e t))) \<subseteq> gids (cred t)"
    unfolding r using gids_installed by fastforce
  let ?s = "given (make_kgid K) s (sgid (cred t))"
  obtain rc2 t2 where r2: "setresgid K r e s t = (rc2, t2)" by fastforce
  have "t2 = t \<or> ({?r, ?e, ?s} \<subseteq> {gid (cred t), egid (cred t), sgid (cred t)} \<and>
      t2 = t\<lparr>cred := (cred t)\<lparr>gid := ?r, egid := ?e, sgid := ?s, fsgid := ?e\<rparr>\<rparr>)"
    using setresgid_cases [OF r2] assms unfolding Let_def by blast
  then have "t2 = t \<or> ({?r, ?e, ?s} \<subseteq> gids (cred t) \<and>
      t2 = t\<lparr>cred := (cred t)\<lparr>gid := ?r, egid := ?e, sgid := ?s, fsgid := ?e\<rparr>\<rparr>)"
    unfolding gids_def by blast
  then show "gids (cred (snd (setresgid K r e s t))) \<subseteq> gids (cred t)"
    unfolding r2 using gids_installed by fastforce
  show "gids (cred (snd (setfsgid K g t))) \<subseteq> gids (cred t)"
    using setfsgid_cases [OF prod.collapse [symmetric], of K g t] assms by (auto simp: gids_def Let_def)
qed

text \<open>The user calls end in the hook: it refuses, or the credentials it returns are installed.\<close>

definition hook_result :: "kernel \<Rightarrow> lsm_flag \<Rightarrow> cred \<Rightarrow> cred \<Rightarrow> int \<Rightarrow> cred \<Rightarrow> bool" where
  "hook_result K f old new rc c \<longleftrightarrow> (case fix_setuid K new old f of (rv, c') \<Rightarrow>
     rv < 0 \<and> rc = rv \<and> c = old \<or> 0 \<le> rv \<and> rc = 0 \<and> c = c')"

lemma fix_and_commit_result:
  "fix_and_commit K f new t = (rc, t') \<Longrightarrow> hook_result K f (cred t) new rc (cred t')"
  by (auto simp: hook_result_def fix_and_commit_def commit_creds_def abort_creds_def
      split: prod.splits if_splits)

lemma set_user_cases:
  "set_user K new t = (rv, new', t') \<Longrightarrow>
   rv < 0 \<and> new' = new \<and> t' = t \<or>
   rv = 0 \<and> new' = new\<lparr>user := uid new\<rparr> \<and> cred t' = cred t"
  by (auto simp: set_user_def split: if_splits)

lemma setuid_cases:
  assumes "setuid K u t = (rc, t')"
  shows "rc < 0 \<and> cred t' = cred t \<or>
   (let c = cred t; k = make_kuid K u in
    (\<exists>usr. ns_capable K c CAP_SETUID \<and> hook_result K LSM_SETID_ID c
       (c\<lparr>uid := k, euid := k, suid := k, fsuid := k, user := usr\<rparr>) rc (cred t')) \<or>
    \<not> ns_capable K c CAP_SETUID \<and> k \<in> {uid c, suid c} \<and>
    hook_result K LSM_SETID_ID c (c\<lparr>euid := k, fsuid := k\<rparr>) rc (cred t'))"
proof -
  let ?c = "cred t" and ?k = "make_kuid K u"
  let ?n = "?c\<lparr>uid := ?k, suid := ?k\<rparr>"
  show ?thesis
  proof (cases "id_valid ?k \<and> prepare_ok K")
    case False
    then show ?thesis using assms by (auto simp: setuid_def Let_def split: if_splits)
  next
    case valid: True
    show ?thesis
    proof (cases "ns_capable K ?c CAP_SETUID")
      case False
      then have "if ?k \<in> {uid ?c, suid ?c}
          then fix_and_commit K LSM_SETID_ID (?c\<lparr>euid := ?k, fsuid := ?k\<rparr>) t = (rc, t')
          else rc < 0 \<and> t' = t"
        using assms valid by (auto simp: setuid_def Let_def abort_creds_def split: if_splits)
      then show ?thesis
        using fix_and_commit_result [of K LSM_SETID_ID "?c\<lparr>euid := ?k, fsuid := ?k\<rparr>" t rc t'] False
        by (auto simp: Let_def split: if_splits)
    next
      case True
      obtain rv n t1 where su: "(if ?k \<noteq> uid ?c then set_user K ?n t else (0, ?n, t)) = (rv, n, t1)"
        by (metis prod_cases3)
      have r: "(if rv < 0 then abort_creds rv t1
          else fix_and_commit K LSM_SETID_ID (n\<lparr>euid := ?k, fsuid := ?k\<rparr>) t1) = (rc, t')"
        using assms valid True su by (simp add: setuid_def Let_def)
      have n: "rv < 0 \<and> t1 = t \<or> rv = 0 \<and> (\<exists>usr. n = ?n\<lparr>user := usr\<rparr>) \<and> cred t1 = cred t"
      proof (cases "?k = uid ?c")
        case True
        then show ?thesis using su by (auto intro!: exI [of _ "user ?c"])
      next
        case False
        then show ?thesis using su set_user_cases [of K ?n t rv n t1] by auto
      qed
      show ?thesis
      proof (cases "rv < 0")
        case True
        then show ?thesis using r n by (auto simp: abort_creds_def)
      next
        case False
        then obtain usr where u: "n = ?n\<lparr>user := usr\<rparr>" "cred t1 = cred t" using n by auto
        have eq: "n\<lparr>euid := ?k, fsuid := ?k\<rparr> =
            ?c\<lparr>uid := ?k, euid := ?k, suid := ?k, fsuid := ?k, user := usr\<rparr>" by (simp add: u(1))
        have "hook_result K LSM_SETID_ID ?c
            (?c\<lparr>uid := ?k, euid := ?k, suid := ?k, fsuid := ?k, user := usr\<rparr>) rc (cred t')"
          using fix_and_commit_result [OF r [unfolded if_not_P [OF False] eq]] u(2) by simp
        then show ?thesis using True by (auto simp: Let_def)
      qed
    qed
  qed
qed

lemma setresuid_cases:
  assumes "setresuid K r e s t = (rc, t')"
  shows "rc < 0 \<and> cred t' = cred t \<or>
   (let c = cred t; r' = given (make_kuid K) r (uid c); e' = given (make_kuid K) e (euid c);
        s' = given (make_kuid K) s (suid c) in
    (ns_capable K c CAP_SETUID \<or> {r', e', s'} \<subseteq> {uid c, euid c, suid c}) \<and>
    (\<exists>usr. hook_result K LSM_SETID_RES c
       (c\<lparr>uid := r', euid := e', suid := s', fsuid := e', user := usr\<rparr>) rc (cred t')))"
proof -
  let ?c = "cred t"
  let ?r = "given (make_kuid K) r (uid ?c)" and ?e = "given (make_kuid K) e (euid ?c)"
    and ?s = "given (make_kuid K) s (suid ?c)"
  let ?n = "?c\<lparr>uid := ?r\<rparr>"
  have n0: "(if r \<noteq> no_id then ?c\<lparr>uid := make_kuid K r\<rparr> else ?c) = ?n" by (simp add: given_def)
  obtain rv n t1 where su: "(if r \<noteq> no_id \<and> make_kuid K r \<noteq> uid ?c then set_user K ?n t
      else (0, ?n, t)) = (rv, n, t1)" by (metis prod_cases3)
  have n: "rv < 0 \<and> t1 = t \<or> rv = 0 \<and> (\<exists>usr. n = ?n\<lparr>user := usr\<rparr>) \<and> cred t1 = cred t"
  proof (cases "r \<noteq> no_id \<and> make_kuid K r \<noteq> uid ?c")
    case False
    then have "rv = 0" "n = ?n" "t1 = t" using su by auto
    then show ?thesis by (auto intro!: exI [of _ "user ?c"])
  next
    case True
    then show ?thesis using su set_user_cases [of K ?n t rv n t1] by auto
  qed
  let ?denied = "\<not> ns_capable K ?c CAP_SETUID \<and> \<not> {?r, ?e, ?s} \<subseteq> {uid ?c, euid ?c, suid ?c}"
  have d: "?denied \<longleftrightarrow> \<not> ns_capable K ?c CAP_SETUID \<and>
      (r \<noteq> no_id \<and> make_kuid K r \<noteq> uid ?c \<and> make_kuid K r \<noteq> euid ?c \<and> make_kuid K r \<noteq> suid ?c \<or>
       e \<noteq> no_id \<and> make_kuid K e \<noteq> uid ?c \<and> make_kuid K e \<noteq> euid ?c \<and> make_kuid K e \<noteq> suid ?c \<or>
       s \<noteq> no_id \<and> make_kuid K s \<noteq> uid ?c \<and> make_kuid K s \<noteq> euid ?c \<and> make_kuid K s \<noteq> suid ?c)"
    by (auto simp: given_def)
  define g where "g = (\<exists>x. x \<in> {r, e, s} \<and> x \<noteq> no_id \<and> \<not> id_valid (make_kuid K x))"
  show ?thesis
  proof (cases "g \<or> \<not> prepare_ok K \<or> ?denied")
    case True
    then have "rc < 0 \<and> t' = t"
      using assms unfolding setresuid_def Let_def d g_def abort_creds_def
      by (auto split: if_splits)
    then show ?thesis by simp
  next
    case False
    then have ok: "\<not> (r \<noteq> no_id \<and> \<not> id_valid (make_kuid K r))"
      "\<not> (e \<noteq> no_id \<and> \<not> id_valid (make_kuid K e))" "\<not> (s \<noteq> no_id \<and> \<not> id_valid (make_kuid K s))"
      "prepare_ok K" "\<not> ?denied" by (auto simp: g_def)
    have set3: "(let n = (if e \<noteq> no_id then m\<lparr>euid := make_kuid K e\<rparr> else m);
          n = (if s \<noteq> no_id then n\<lparr>suid := make_kuid K s\<rparr> else n) in n\<lparr>fsuid := euid n\<rparr>) =
        m\<lparr>euid := given (make_kuid K) e (euid m), suid := given (make_kuid K) s (suid m),
          fsuid := given (make_kuid K) e (euid m)\<rparr>" for m :: cred
      by (simp add: given_def Let_def)
    have r: "(if rv < 0 then abort_creds rv t1 else fix_and_commit K LSM_SETID_RES
        (n\<lparr>euid := given (make_kuid K) e (euid n), suid := given (make_kuid K) s (suid n),
          fsuid := given (make_kuid K) e (euid n)\<rparr>) t1) = (rc, t')"
      using assms unfolding setresuid_def Let_def n0 set3 [unfolded Let_def, symmetric]
      by (simp only: su prod.case ok(1-4) ok(5) [unfolded d] if_False if_True simp_thms)
    show ?thesis
    proof (cases "rv < 0")
      case True
      then show ?thesis using r n by (auto simp: abort_creds_def)
    next
      case False
      then obtain usr where u: "n = ?n\<lparr>user := usr\<rparr>" "cred t1 = cred t" using n by auto
      have eq: "n\<lparr>euid := given (make_kuid K) e (euid n), suid := given (make_kuid K) s (suid n),
          fsuid := given (make_kuid K) e (euid n)\<rparr> =
          ?c\<lparr>uid := ?r, euid := ?e, suid := ?s, fsuid := ?e, user := usr\<rparr>" by (simp add: u(1))
      have "hook_result K LSM_SETID_RES ?c (?c\<lparr>uid := ?r, euid := ?e, suid := ?s, fsuid := ?e, user := usr\<rparr>)
          rc (cred t')"
        using fix_and_commit_result [OF r [unfolded if_not_P [OF False] eq]] u(2) by simp
      then show ?thesis using ok(5) by (auto simp: Let_def)
    qed
  qed
qed

lemma setreuid_cases:
  assumes "setreuid K r e t = (rc, t')"
  shows "rc < 0 \<and> cred t' = cred t \<or>
   (let c = cred t; r' = given (make_kuid K) r (uid c); e' = given (make_kuid K) e (euid c);
        s' = (if r \<noteq> no_id \<or> e \<noteq> no_id \<and> e' \<noteq> uid c then e' else suid c) in
    (ns_capable K c CAP_SETUID \<or> r' \<in> {uid c, euid c} \<and> e' \<in> {uid c, euid c, suid c}) \<and>
    (\<exists>usr. hook_result K LSM_SETID_RE c
       (c\<lparr>uid := r', euid := e', suid := s', fsuid := e', user := usr\<rparr>) rc (cred t')))"
proof -
  let ?c = "cred t"
  let ?r = "given (make_kuid K) r (uid ?c)" and ?e = "given (make_kuid K) e (euid ?c)"
  let ?n = "?c\<lparr>uid := ?r, euid := ?e\<rparr>"
  have n0: "(if e \<noteq> no_id then (if r \<noteq> no_id then ?c\<lparr>uid := make_kuid K r\<rparr> else ?c)\<lparr>euid := make_kuid K e\<rparr>
      else (if r \<noteq> no_id then ?c\<lparr>uid := make_kuid K r\<rparr> else ?c)) = ?n" by (simp add: given_def)
  obtain rv n t1 where su: "(if uid ?n \<noteq> uid ?c then set_user K ?n t else (- EPERM, ?n, t)) = (rv, n, t1)"
    by (metis prod_cases3)
  have n: "uid n \<noteq> uid ?c \<and> rv < 0 \<and> t1 = t \<or>
      \<not> (uid n \<noteq> uid ?c \<and> rv < 0) \<and> (\<exists>usr. n = ?n\<lparr>user := usr\<rparr>) \<and> cred t1 = cred t"
  proof (cases "uid ?n = uid ?c")
    case True
    then have "n = ?n" "t1 = t" using su by auto
    then show ?thesis using True by (auto intro!: exI [of _ "user ?c"])
  next
    case False
    then show ?thesis using su set_user_cases [of K ?n t rv n t1] by auto
  qed
  let ?denied = "\<not> ns_capable K ?c CAP_SETUID \<and>
    \<not> (?r \<in> {uid ?c, euid ?c} \<and> ?e \<in> {uid ?c, euid ?c, suid ?c})"
  let ?d1 = "r \<noteq> no_id \<and> uid ?c \<noteq> make_kuid K r \<and> euid ?c \<noteq> make_kuid K r \<and> \<not> ns_capable K ?c CAP_SETUID"
  let ?d2 = "e \<noteq> no_id \<and> uid ?c \<noteq> make_kuid K e \<and> euid ?c \<noteq> make_kuid K e \<and> suid ?c \<noteq> make_kuid K e \<and>
    \<not> ns_capable K ?c CAP_SETUID"
  have d: "?denied \<longleftrightarrow> ?d1 \<or> ?d2" by (auto simp: given_def)
  define g where "g = (\<exists>x. x \<in> {r, e} \<and> x \<noteq> no_id \<and> \<not> id_valid (make_kuid K x))"
  show ?thesis
  proof (cases "g \<or> \<not> prepare_ok K \<or> ?denied")
    case True
    then have "rc < 0 \<and> t' = t"
      using assms unfolding setreuid_def Let_def d g_def abort_creds_def
      by (auto split: if_splits)
    then show ?thesis by simp
  next
    case False
    then have ok: "\<not> (r \<noteq> no_id \<and> \<not> id_valid (make_kuid K r))"
      "\<not> (e \<noteq> no_id \<and> \<not> id_valid (make_kuid K e))" "prepare_ok K" "\<not> ?denied" by (auto simp: g_def)
    have nd: "\<not> ?d1" "\<not> ?d2" using ok(4) unfolding d by blast+
    have set3: "(if r \<noteq> no_id \<or> e \<noteq> no_id \<and> make_kuid K e \<noteq> uid ?c then m\<lparr>suid := euid m\<rparr> else m)
          \<lparr>fsuid := euid (if r \<noteq> no_id \<or> e \<noteq> no_id \<and> make_kuid K e \<noteq> uid ?c then m\<lparr>suid := euid m\<rparr> else m)\<rparr> =
        m\<lparr>suid := if r \<noteq> no_id \<or> e \<noteq> no_id \<and> ?e \<noteq> uid ?c then euid m else suid m, fsuid := euid m\<rparr>"
      for m :: cred by (simp add: given_def)
    have r: "(if uid n \<noteq> uid ?c \<and> rv < 0 then abort_creds rv t1 else fix_and_commit K LSM_SETID_RE
        (n\<lparr>suid := if r \<noteq> no_id \<or> e \<noteq> no_id \<and> ?e \<noteq> uid ?c then euid n else suid n, fsuid := euid n\<rparr>) t1) = (rc, t')"
      using assms unfolding setreuid_def Let_def n0 set3 [symmetric]
      by (simp only: su prod.case ok(1-3) nd if_False if_True simp_thms)
    show ?thesis
    proof (cases "uid n \<noteq> uid ?c \<and> rv < 0")
      case True
      then show ?thesis using r n by (auto simp: abort_creds_def)
    next
      case False
      then obtain usr where u: "n = ?n\<lparr>user := usr\<rparr>" "cred t1 = cred t" using n by auto
      have eq: "n\<lparr>suid := if r \<noteq> no_id \<or> e \<noteq> no_id \<and> ?e \<noteq> uid ?c then euid n else suid n, fsuid := euid n\<rparr> =
          ?c\<lparr>uid := ?r, euid := ?e, suid := if r \<noteq> no_id \<or> e \<noteq> no_id \<and> ?e \<noteq> uid ?c then ?e else suid ?c,
            fsuid := ?e, user := usr\<rparr>" by (simp add: u(1))
      have "hook_result K LSM_SETID_RE ?c
          (?c\<lparr>uid := ?r, euid := ?e, suid := if r \<noteq> no_id \<or> e \<noteq> no_id \<and> ?e \<noteq> uid ?c then ?e else suid ?c,
            fsuid := ?e, user := usr\<rparr>) rc (cred t')"
        using fix_and_commit_result [OF r [unfolded if_not_P [OF False] eq]] u(2) by simp
      then show ?thesis using ok(4) unfolding Let_def by blast
    qed
  qed
qed

lemma setfsuid_cases:
  assumes "setfsuid K u t = (rc, t')"
  shows "t' = t \<or> (let c = cred t; k = make_kuid K u in
     (ns_capable K c CAP_SETUID \<or> k \<in> {uid c, euid c, suid c, fsuid c}) \<and>
     fst (fix_setuid K (c\<lparr>fsuid := k\<rparr>) c LSM_SETID_FS) = 0 \<and>
     t' = t\<lparr>cred := snd (fix_setuid K (c\<lparr>fsuid := k\<rparr>) c LSM_SETID_FS)\<rparr>)"
  using assms by (auto simp: setfsuid_def Let_def commit_creds_def split: if_splits prod.splits)

lemma hook_ids:
  assumes "hook_keeps_ids K" "hook_result K f old new rc c"
  shows "rc < 0 \<and> c = old \<or> rc = 0 \<and> same_ids c new"
  using assms(1) [unfolded hook_keeps_ids_def, rule_format, of new old f] assms(2)
  by (auto simp: hook_result_def split: prod.splits)

fun user_call :: "id_call \<Rightarrow> bool" where
  "user_call (Setuid _) \<longleftrightarrow> True"
| "user_call (Setreuid _ _) \<longleftrightarrow> True"
| "user_call (Setresuid _ _ _) \<longleftrightarrow> True"
| "user_call (Setfsuid _) \<longleftrightarrow> True"
| "user_call _ \<longleftrightarrow> False"

lemma hook_sets:
  assumes "hook_keeps_ids K" "hook_result K f old new rc c" "gids new = gids old"
  shows "gids c = gids old \<and> (uids new \<subseteq> uids old \<longrightarrow> uids c \<subseteq> uids old)"
  using hook_ids [OF assms(1,2)] assms(3) same_ids_sets by auto

lemma user_calls_sets:
  assumes K: "hook_keeps_ids K" and uc: "user_call c"
  shows "gids (cred (perform K c t)) = gids (cred t) \<and>
    (\<not> ns_capable K (cred t) CAP_SETUID \<longrightarrow> uids (cred (perform K c t)) \<subseteq> uids (cred t))"
proof -
  have hook: "gids (cred t') = gids (cred t) \<and>
      (\<not> ns_capable K (cred t) CAP_SETUID \<longrightarrow> uids (cred t') \<subseteq> uids (cred t))"
    if "hook_result K f (cred t) new rc (cred t')" "gids new = gids (cred t)"
      "\<not> ns_capable K (cred t) CAP_SETUID \<Longrightarrow> uids new \<subseteq> uids (cred t)" for f new rc t'
    using hook_sets [OF K that(1,2)] that(3) by blast
  show ?thesis
  proof (cases c)
    case (Setuid u)
    obtain rc t' where r: "setuid K u t = (rc, t')" by fastforce
    let ?k = "make_kuid K u" and ?c = "cred t"
    consider (fail) "cred t' = ?c"
      | (priv) usr where "ns_capable K ?c CAP_SETUID" "hook_result K LSM_SETID_ID ?c
          (?c\<lparr>uid := ?k, euid := ?k, suid := ?k, fsuid := ?k, user := usr\<rparr>) rc (cred t')"
      | (own) "?k \<in> {uid ?c, suid ?c}"
          "hook_result K LSM_SETID_ID ?c (?c\<lparr>euid := ?k, fsuid := ?k\<rparr>) rc (cred t')"
      using setuid_cases [OF r] unfolding Let_def by blast
    then have "gids (cred t') = gids ?c \<and> (\<not> ns_capable K ?c CAP_SETUID \<longrightarrow> uids (cred t') \<subseteq> uids ?c)"
    proof cases
      case priv
      show ?thesis by (rule hook [OF priv(2)]) (use priv(1) in \<open>simp_all add: gids_def\<close>)
    next
      case own
      show ?thesis by (rule hook [OF own(2)]) (use own(1) in \<open>auto simp: gids_def uids_def\<close>)
    qed simp
    then show ?thesis using Setuid r by simp
  next
    case (Setreuid ru eu)
    obtain rc t' where r: "setreuid K ru eu t = (rc, t')" by fastforce
    let ?c = "cred t"
    let ?r = "given (make_kuid K) ru (uid ?c)" and ?e = "given (make_kuid K) eu (euid ?c)"
    let ?s = "if ru \<noteq> no_id \<or> eu \<noteq> no_id \<and> ?e \<noteq> uid ?c then ?e else suid ?c"
    consider (fail) "cred t' = ?c"
      | (hooked) usr where "ns_capable K ?c CAP_SETUID \<or> ?r \<in> {uid ?c, euid ?c} \<and> ?e \<in> {uid ?c, euid ?c, suid ?c}"
          "hook_result K LSM_SETID_RE ?c (?c\<lparr>uid := ?r, euid := ?e, suid := ?s, fsuid := ?e, user := usr\<rparr>) rc (cred t')"
      using setreuid_cases [OF r] unfolding Let_def by blast
    then have "gids (cred t') = gids ?c \<and> (\<not> ns_capable K ?c CAP_SETUID \<longrightarrow> uids (cred t') \<subseteq> uids ?c)"
    proof cases
      case hooked
      have "uids (?c\<lparr>uid := ?r, euid := ?e, suid := ?s, fsuid := ?e, user := usr\<rparr>) \<subseteq> {?r, ?e, suid ?c}" for usr
        by (simp add: uids_def)
      moreover have "{?r, ?e, suid ?c} \<subseteq> uids ?c" if "\<not> ns_capable K ?c CAP_SETUID"
        using hooked(1) that by (auto simp: uids_def)
      ultimately show ?thesis by (intro hook [OF hooked(2)]) (simp add: gids_def, blast)
    qed simp
    then show ?thesis using Setreuid r by simp
  next
    case (Setresuid ru eu su)
    obtain rc t' where r: "setresuid K ru eu su t = (rc, t')" by fastforce
    let ?c = "cred t"
    let ?r = "given (make_kuid K) ru (uid ?c)" and ?e = "given (make_kuid K) eu (euid ?c)"
      and ?s = "given (make_kuid K) su (suid ?c)"
    consider (fail) "cred t' = ?c"
      | (hooked) usr where "ns_capable K ?c CAP_SETUID \<or> {?r, ?e, ?s} \<subseteq> {uid ?c, euid ?c, suid ?c}"
          "hook_result K LSM_SETID_RES ?c (?c\<lparr>uid := ?r, euid := ?e, suid := ?s, fsuid := ?e, user := usr\<rparr>) rc (cred t')"
      using setresuid_cases [OF r] unfolding Let_def by blast
    then have "gids (cred t') = gids ?c \<and> (\<not> ns_capable K ?c CAP_SETUID \<longrightarrow> uids (cred t') \<subseteq> uids ?c)"
    proof cases
      case hooked
      have "uids (?c\<lparr>uid := ?r, euid := ?e, suid := ?s, fsuid := ?e, user := usr\<rparr>) \<subseteq> {?r, ?e, ?s}" for usr
        by (simp add: uids_def)
      moreover have "{uid ?c, euid ?c, suid ?c} \<subseteq> uids ?c" by (simp add: uids_def)
      ultimately show ?thesis using hooked(1) by (intro hook [OF hooked(2)]) (simp add: gids_def, blast)
    qed simp
    then show ?thesis using Setresuid r by simp
  next
    case (Setfsuid u)
    obtain rc t' where r: "setfsuid K u t = (rc, t')" by fastforce
    let ?n = "(cred t)\<lparr>fsuid := make_kuid K u\<rparr>"
    have k: "uids (snd (fix_setuid K ?n (cred t) LSM_SETID_FS)) = uids ?n"
      "gids (snd (fix_setuid K ?n (cred t) LSM_SETID_FS)) = gids ?n"
      using same_ids_sets K [unfolded hook_keeps_ids_def] by blast+
    consider "t' = t" | "ns_capable K (cred t) CAP_SETUID \<or> make_kuid K u \<in> uids (cred t)"
        "cred t' = snd (fix_setuid K ?n (cred t) LSM_SETID_FS)"
      using setfsuid_cases [OF r] by (simp add: Let_def uids_def) auto
    then have "gids (cred t') = gids (cred t) \<and>
        (\<not> ns_capable K (cred t) CAP_SETUID \<longrightarrow> uids (cred t') \<subseteq> uids (cred t))"
    proof cases
      case 2
      have "gids ?n = gids (cred t)" "uids ?n \<subseteq> insert (make_kuid K u) (uids (cred t))"
        by (auto simp: gids_def uids_def)
      then show ?thesis using 2 unfolding 2(2) k by blast
    qed simp
    then show ?thesis using Setfsuid r by simp
  qed (use uc in auto)
qed

lemma perform_confined:
  assumes "hook_keeps_ids K"
  shows "\<not> ns_capable K (cred t) CAP_SETUID \<Longrightarrow> uids (cred (perform K c t)) \<subseteq> uids (cred t)"
    and "\<not> ns_capable K (cred t) CAP_SETGID \<Longrightarrow> gids (cred (perform K c t)) \<subseteq> gids (cred t)"
  using user_calls_sets [OF assms, of c t] group_calls_uids [of K] group_calls_gids [of K t]
  by (cases c; auto)+

subsection \<open>Confinement\<close>

text \<open>The identities a process holds are an invariant of its steps without the capability.\<close>

interpretation uid_sys: preserved_invariant "uid_step K" "\<lambda>t. hook_keeps_ids K \<longrightarrow> uids (cred t) \<subseteq> U" for K U
  by unfold_locales (auto elim!: uid_step.cases dest!: perform_confined(1))

interpretation gid_sys: preserved_invariant "gid_step K" "\<lambda>t. hook_keeps_ids K \<longrightarrow> gids (cred t) \<subseteq> G" for K G
  by unfold_locales (auto elim!: gid_step.cases dest!: perform_confined(2))

text \<open>
  C26. Without the capability to set user identities no sequence of the eight calls gives a process
  a user identity (real, effective, saved or file system) that is not one of the four it started
  with; the same of the group identities without the capability to set those.
\<close>

theorem creds_confined:
  assumes "hook_keeps_ids K"
  shows "((uid_step K)\<^sup>*\<^sup>* t t' \<longrightarrow> uids (cred t') \<subseteq> uids (cred t)) \<and>
    ((gid_step K)\<^sup>*\<^sup>* t t' \<longrightarrow> gids (cred t') \<subseteq> gids (cred t))"
  using uid_sys.inv_steps [of K t t' "uids (cred t)"] gid_sys.inv_steps [of K t t' "gids (cred t)"] assms
  by auto

text \<open>A kernel with one namespace, in which user 0 holds the capabilities and the hook refuses nothing.\<close>

definition plain_kernel :: kernel where
  "plain_kernel = \<lparr>make_kuid = id, make_kgid = id, from_kuid_munged = id, from_kgid_munged = id,
     ns_capable = (\<lambda>c k. k \<in> cap_effective c), prepare_ok = True, alloc_uid_ok = (\<lambda>u. True),
     processes = (\<lambda>u. 1), nproc_limit = 100,
     fix_setuid = (\<lambda>new old f. (0, if euid new = 0 then new else new\<lparr>cap_effective := {}\<rparr>)),
     put_user_ok = (\<lambda>n. n < 2)\<rparr>"

definition ids_task :: "u32 \<Rightarrow> u32 \<Rightarrow> u32 \<Rightarrow> capability set \<Rightarrow> task" where
  "ids_task u e s caps = \<lparr>cred = \<lparr>uid = u, euid = e, suid = s, fsuid = e, gid = 100, egid = 100,
     sgid = 100, fsgid = 100, user = u, cap_effective = caps\<rparr>, nproc_exceeded = False\<rparr>"

lemma plain_kernel_keeps [simp]: "hook_keeps_ids plain_kernel"
  by (simp add: hook_keeps_ids_def plain_kernel_def same_ids_def)

lemmas plain_simps = plain_kernel_def ids_task_def Let_def id_valid_def end_defs

lemma creds_confined_witness:
  "uids (cred (perform plain_kernel (Setreuid 1000 5) (ids_task 5 1000 1000 {}))) \<subseteq> {5, 1000} \<and>
   gids (cred (perform plain_kernel (Setgid 7) (ids_task 5 1000 1000 {}))) \<subseteq> {100}"
proof
  let ?t = "ids_task 5 1000 1000 {}"
  have "uid_step plain_kernel ?t (perform plain_kernel (Setreuid 1000 5) ?t)"
    by (rule uid_step.intros) (simp add: plain_simps)
  then show "uids (cred (perform plain_kernel (Setreuid 1000 5) ?t)) \<subseteq> {5, 1000}"
    using creds_confined [OF plain_kernel_keeps, of ?t] by (auto simp: uids_def ids_task_def)
  have "gid_step plain_kernel ?t (perform plain_kernel (Setgid 7) ?t)"
    by (rule gid_step.intros) (simp add: plain_simps)
  then show "gids (cred (perform plain_kernel (Setgid 7) ?t)) \<subseteq> {100}"
    using creds_confined [OF plain_kernel_keeps, of ?t] by (auto simp: gids_def ids_task_def)
qed

text \<open>
  A privileged process that drops its identity with \<open>setuid\<close> cannot take it back: after the
  call has succeeded, whatever calls follow without the capability, all four user identities are
  the one given.
\<close>

theorem creds_drop_permanent:
  assumes "hook_keeps_ids K" "ns_capable K (cred t) CAP_SETUID" "setuid K u t = (0, t')"
    "(uid_step K)\<^sup>*\<^sup>* t' t''"
  shows "uids (cred t'') = {make_kuid K u}"
proof -
  let ?k = "make_kuid K u"
  obtain usr where "hook_result K LSM_SETID_ID (cred t)
      ((cred t)\<lparr>uid := ?k, euid := ?k, suid := ?k, fsuid := ?k, user := usr\<rparr>) 0 (cred t')"
    using setuid_cases [OF assms(3)] assms(2) unfolding Let_def by auto
  from hook_ids [OF assms(1) this] have "uids (cred t') = {?k}"
    using same_ids_sets by (auto simp: uids_def same_ids_def)
  moreover have "uids (cred t'') \<subseteq> uids (cred t')"
    using uid_sys.inv_steps [OF assms(4), of "uids (cred t')"] assms(1) by blast
  moreover have "uids (cred t'') \<noteq> {}" by (simp add: uids_def)
  ultimately show ?thesis by (metis subset_singletonD)
qed

lemma creds_drop_permanent_witness:
  "uids (cred (perform plain_kernel (Setreuid 0 0)
     (perform plain_kernel (Setuid 1000) (ids_task 0 0 0 {CAP_SETUID})))) = {1000}"
proof -
  let ?t = "ids_task 0 0 0 {CAP_SETUID}"
  let ?t' = "perform plain_kernel (Setuid 1000) ?t"
  have "setuid plain_kernel 1000 ?t = (0, ?t')" "ns_capable plain_kernel (cred ?t) CAP_SETUID"
    by (simp_all add: setuid_def plain_simps)
  moreover have "uid_step plain_kernel ?t' (perform plain_kernel (Setreuid 0 0) ?t')"
    by (rule uid_step.intros) (simp add: setuid_def plain_simps)
  ultimately have "uids (cred (perform plain_kernel (Setreuid 0 0) ?t')) = {make_kuid plain_kernel 1000}"
    using creds_drop_permanent [OF plain_kernel_keeps, of ?t 1000 ?t'] by blast
  then show ?thesis by (simp add: plain_kernel_def)
qed

subsection \<open>Errors, and the documented rules of \<open>setreuid\<close>\<close>

lemma hook_atomic: "hook_result K f old new rc c \<Longrightarrow> rc = 0 \<or> rc < 0 \<and> c = old"
  by (auto simp: hook_result_def split: prod.splits)

text \<open>
  The calls that set identities are atomic: a result other than 0 is a negative error code and
  leaves the credentials as they were, wherever in the call it arose.
\<close>

theorem set_ids_atomic:
  "result K c t = 0 \<or> (result K c t < 0 \<and> cred (perform K c t) = cred t)"
proof (cases c)
  case (Setuid u)
  obtain rc t' where r: "setuid K u t = (rc, t')" by fastforce
  show ?thesis using setuid_cases [OF r] hook_atomic Setuid r unfolding Let_def by auto blast+
next
  case (Setreuid ru eu)
  obtain rc t' where r: "setreuid K ru eu t = (rc, t')" by fastforce
  show ?thesis using setreuid_cases [OF r] hook_atomic Setreuid r unfolding Let_def by auto blast+
next
  case (Setresuid ru eu su)
  obtain rc t' where r: "setresuid K ru eu su t = (rc, t')" by fastforce
  show ?thesis using setresuid_cases [OF r] hook_atomic Setresuid r unfolding Let_def by auto blast+
next
  case (Setgid g)
  obtain rc t' where r: "setgid K g t = (rc, t')" by fastforce
  show ?thesis using setgid_cases [OF r] Setgid r unfolding Let_def by auto
next
  case (Setregid rg eg)
  obtain rc t' where r: "setregid K rg eg t = (rc, t')" by fastforce
  show ?thesis using setregid_cases [OF r] Setregid r unfolding Let_def by auto
next
  case (Setresgid rg eg sg)
  obtain rc t' where r: "setresgid K rg eg sg t = (rc, t')" by fastforce
  show ?thesis using setresgid_cases [OF r] Setresgid r unfolding Let_def by auto
qed simp_all

lemma setreuid_installed:
  assumes "hook_keeps_ids K" "setreuid K r e t = (0, t')"
  defines "r' \<equiv> given (make_kuid K) r (uid (cred t))"
    and "e' \<equiv> given (make_kuid K) e (euid (cred t))"
  shows "uid (cred t') = r'" "euid (cred t') = e'" "fsuid (cred t') = e'"
    and "suid (cred t') = (if r \<noteq> no_id \<or> e \<noteq> no_id \<and> e' \<noteq> uid (cred t) then e' else suid (cred t))"
proof -
  let ?s = "if r \<noteq> no_id \<or> e \<noteq> no_id \<and> e' \<noteq> uid (cred t) then e' else suid (cred t)"
  obtain usr where "hook_result K LSM_SETID_RE (cred t)
      ((cred t)\<lparr>uid := r', euid := e', suid := ?s, fsuid := e', user := usr\<rparr>) 0 (cred t')"
    using setreuid_cases [OF assms(2)] unfolding Let_def r'_def e'_def by auto
  from hook_ids [OF assms(1) this]
  have "same_ids (cred t') ((cred t)\<lparr>uid := r', euid := e', suid := ?s, fsuid := e', user := usr\<rparr>)" by simp
  then show "uid (cred t') = r'" "euid (cred t') = e'" "fsuid (cred t') = e'" "suid (cred t') = ?s"
    unfolding same_ids_def by simp_all
qed

text \<open>The conditions outside the call that let it go through: memory, user structures, the hook.\<close>

definition accepting :: "kernel \<Rightarrow> bool" where
  "accepting K \<longleftrightarrow> prepare_ok K \<and> (\<forall>u. alloc_uid_ok K u) \<and> (\<forall>new old f. 0 \<le> fst (fix_setuid K new old f))"

lemma fix_accepted:
  assumes "accepting K"
  shows "fst (fix_and_commit K f new t) = 0"
proof -
  obtain rv c where r: "fix_setuid K new (cred t) f = (rv, c)" by fastforce
  then have "0 \<le> rv" using assms unfolding accepting_def by (metis fst_conv)
  then show ?thesis by (simp add: r fix_and_commit_def commit_creds_def)
qed

lemma set_user_accepted: "accepting K \<Longrightarrow> \<not> fst (set_user K new t) < 0"
  by (simp add: accepting_def set_user_def)

lemma set_user_step_accepted:
  assumes "accepting K" "(if uid m \<noteq> c then set_user K m t else (- EPERM, m, t)) = (rv, n, t1)"
  shows "\<not> (uid n \<noteq> c \<and> rv < 0)"
  using assms(2) set_user_accepted [OF assms(1), of m t] by (cases "uid m = c") auto

lemma setreuid_own:
  assumes "accepting K" "id_valid (uid (cred t))" "id_valid (euid (cred t))"
    "make_kuid K r \<in> {uid (cred t), euid (cred t)}" "make_kuid K e \<in> {uid (cred t), euid (cred t)}"
  shows "fst (setreuid K r e t) = 0"
proof -
  have v: "id_valid (make_kuid K r)" "id_valid (make_kuid K e)" "prepare_ok K"
    using assms by (auto simp: accepting_def)
  have d: "\<not> (r \<noteq> no_id \<and> uid (cred t) \<noteq> make_kuid K r \<and> euid (cred t) \<noteq> make_kuid K r \<and>
      \<not> ns_capable K (cred t) CAP_SETUID)"
    "\<not> (e \<noteq> no_id \<and> uid (cred t) \<noteq> make_kuid K e \<and> euid (cred t) \<noteq> make_kuid K e \<and>
      suid (cred t) \<noteq> make_kuid K e \<and> \<not> ns_capable K (cred t) CAP_SETUID)" using assms(4,5) by auto
  let ?n0 = "if r \<noteq> no_id then (cred t)\<lparr>uid := make_kuid K r\<rparr> else cred t"
  let ?n = "if e \<noteq> no_id then ?n0\<lparr>euid := make_kuid K e\<rparr> else ?n0"
  obtain rv n t1 where su: "(if uid ?n \<noteq> uid (cred t) then set_user K ?n t else (- EPERM, ?n, t)) = (rv, n, t1)"
    by (metis prod_cases3)
  from set_user_step_accepted [OF assms(1) su] have "\<not> (uid n \<noteq> uid (cred t) \<and> rv < 0)" .
  then show ?thesis unfolding setreuid_def Let_def
    by (simp only: v d su prod.case simp_thms if_False if_True fix_accepted [OF assms(1)])
qed

text \<open>
  C27. \<open>setreuid\<close> follows its documentation. When it succeeds, the real and effective identities
  are the ones given, each left alone where -1 was given; the file system identity is the new
  effective one; and the saved identity becomes the new effective one exactly if the real identity
  was set, or the effective one to a value other than the (old) real identity. Without any capability
  it can change the real identity to the effective one and the effective to the real, in one call.
\<close>

theorem setreuid_documented:
  assumes K: "hook_keeps_ids K"
  shows "(setreuid K r e t = (0, t') \<longrightarrow>
      uid (cred t') = (if r = no_id then uid (cred t) else make_kuid K r) \<and>
      euid (cred t') = (if e = no_id then euid (cred t) else make_kuid K e) \<and>
      fsuid (cred t') = euid (cred t') \<and>
      suid (cred t') = (if r \<noteq> no_id \<or> e \<noteq> no_id \<and> make_kuid K e \<noteq> uid (cred t)
        then euid (cred t') else suid (cred t))) \<and>
    (accepting K \<and> id_valid (uid (cred t)) \<and> id_valid (euid (cred t)) \<and> r \<noteq> no_id \<and> e \<noteq> no_id \<and>
      make_kuid K r = euid (cred t) \<and> make_kuid K e = uid (cred t) \<longrightarrow>
      (\<exists>t2. setreuid K r e t = (0, t2) \<and>
        uid (cred t2) = euid (cred t) \<and> euid (cred t2) = uid (cred t)))"
proof (intro conjI impI)
  assume s: "setreuid K r e t = (0, t')"
  note i = setreuid_installed [OF K s]
  show "uid (cred t') = (if r = no_id then uid (cred t) else make_kuid K r)"
    "euid (cred t') = (if e = no_id then euid (cred t) else make_kuid K e)"
    "fsuid (cred t') = euid (cred t')"
    "suid (cred t') = (if r \<noteq> no_id \<or> e \<noteq> no_id \<and> make_kuid K e \<noteq> uid (cred t)
        then euid (cred t') else suid (cred t))"
    unfolding i by (simp_all add: given_def)
next
  assume a: "accepting K \<and> id_valid (uid (cred t)) \<and> id_valid (euid (cred t)) \<and> r \<noteq> no_id \<and>
      e \<noteq> no_id \<and> make_kuid K r = euid (cred t) \<and> make_kuid K e = uid (cred t)"
  then have "fst (setreuid K r e t) = 0" by (intro setreuid_own) simp_all
  then obtain t2 where t2: "setreuid K r e t = (0, t2)" by (metis prod.collapse)
  have "uid (cred t2) = euid (cred t)" "euid (cred t2) = uid (cred t)"
    unfolding setreuid_installed(1,2) [OF K t2] using a by (simp_all add: given_def)
  with t2 show "\<exists>t2. setreuid K r e t = (0, t2) \<and>
      uid (cred t2) = euid (cred t) \<and> euid (cred t2) = uid (cred t)" by blast
qed

lemma setreuid_documented_witness:
  "suid (cred (snd (setreuid plain_kernel 5 1000 (ids_task 5 1000 1000 {})))) = 1000 \<and>
   uid (cred (snd (setreuid plain_kernel 1000 5 (ids_task 5 1000 1000 {})))) = 1000"
proof
  let ?t = "ids_task 5 1000 1000 {}"
  have a: "accepting plain_kernel" by (simp add: accepting_def plain_kernel_def)
  have "setreuid plain_kernel 5 1000 ?t = (0, snd (setreuid plain_kernel 5 1000 ?t))"
    by (simp add: setreuid_def set_user_def plain_simps)
  from setreuid_documented [OF plain_kernel_keeps, of 5 1000 ?t] this
  show "suid (cred (snd (setreuid plain_kernel 5 1000 ?t))) = 1000"
    by (simp add: plain_kernel_def ids_task_def)
  have "make_kuid plain_kernel x = x" for x by (simp add: plain_kernel_def)
  moreover have "uid (cred ?t) = 5" "euid (cred ?t) = 1000" by (simp_all add: ids_task_def)
  ultimately obtain t2 where "setreuid plain_kernel 1000 5 ?t = (0, t2)" "uid (cred t2) = 1000"
    using setreuid_documented [OF plain_kernel_keeps, of 1000 5 ?t] a by (auto simp: id_valid_def)
  then show "uid (cred (snd (setreuid plain_kernel 1000 5 ?t))) = 1000" by simp
qed

end
