(* ===== verification/KernelPrio.thy ===== *)
theory KernelPrio
  imports Prelude
begin

text \<open>
  \<open>sys.c\<close>: \<open>setpriority\<close> and \<open>getpriority\<close> over the list of all threads, in the order in which the
  kernel's macros visit them. The services of the rest of the kernel are the record \<open>prio_env\<close>:
  capabilities, the limit on nice values, the security hook, the user table and the map of user
  identities. \<open>set_user_nice\<close> sets the nice value of a thread. Thread numbers are unique, so the one
  thread \<open>find_task_by_vpid\<close> finds is selected from the list by its number.
\<close>

record thread =
  tid :: int
  t_uid :: u32
  t_euid :: u32
  t_pgrp :: int
  t_nice :: int

record prio_env =
  sys_nice :: "thread \<Rightarrow> bool"
  can_nice :: "thread \<Rightarrow> int \<Rightarrow> bool"
  task_setnice :: "thread \<Rightarrow> int \<Rightarrow> int"
  kuid_of :: "int \<Rightarrow> u32"
  user_known :: "u32 \<Rightarrow> bool"
  visible :: "int \<Rightarrow> bool"

abbreviation MIN_NICE :: int where "MIN_NICE \<equiv> - 20"
abbreviation MAX_NICE :: int where "MAX_NICE \<equiv> 19"
abbreviation PRIO_PROCESS :: int where "PRIO_PROCESS \<equiv> 0"
abbreviation PRIO_PGRP :: int where "PRIO_PGRP \<equiv> 1"
abbreviation PRIO_USER :: int where "PRIO_USER \<equiv> 2"

definition set_one_prio_perm :: "prio_env \<Rightarrow> thread \<Rightarrow> thread \<Rightarrow> bool" where
  "set_one_prio_perm E cur p \<longleftrightarrow> t_uid p = t_euid cur \<or> t_euid p = t_euid cur \<or> sys_nice E p"

definition set_one_prio :: "prio_env \<Rightarrow> thread \<Rightarrow> thread \<Rightarrow> int \<Rightarrow> int \<Rightarrow> int \<times> thread" where
  "set_one_prio E cur p niceval error =
     (if \<not> set_one_prio_perm E cur p then (- EPERM, p)
      else if niceval < t_nice p \<and> \<not> can_nice E p niceval then (- EACCES, p)
      else let no_nice = task_setnice E p niceval in
        if no_nice \<noteq> 0 then (no_nice, p)
        else (if error = - ESRCH then 0 else error, p\<lparr>t_nice := niceval\<rparr>))"

text \<open>The loops over the selected threads.\<close>

fun prio_loop ::
  "prio_env \<Rightarrow> thread \<Rightarrow> int \<Rightarrow> (thread \<Rightarrow> bool) \<Rightarrow> thread list \<Rightarrow> int \<Rightarrow> int \<times> thread list" where
  "prio_loop E cur niceval sel [] error = (error, [])"
| "prio_loop E cur niceval sel (p # ps) error =
     (let (error1, p1) = (if sel p then set_one_prio E cur p niceval error else (error, p));
          (error2, ps2) = prio_loop E cur niceval sel ps error1 in (error2, p1 # ps2))"

fun nice_loop :: "(thread \<Rightarrow> bool) \<Rightarrow> thread list \<Rightarrow> int \<Rightarrow> int" where
  "nice_loop sel [] retval = retval"
| "nice_loop sel (p # ps) retval =
     (let niceval = MAX_NICE - t_nice p + 1 in
      nice_loop sel ps (if sel p \<and> niceval > retval then niceval else retval))"

text \<open>
  The threads a call is about: the one with the given number (of the caller for 0), those of a
  process group, those of a user. \<open>None\<close>: there is no such user.
\<close>

definition selects :: "prio_env \<Rightarrow> thread \<Rightarrow> int \<Rightarrow> int \<Rightarrow> (thread \<Rightarrow> bool) option" where
  "selects E cur which who =
     (if which = PRIO_PROCESS then Some (\<lambda>p. tid p = (if who \<noteq> 0 then who else tid cur))
      else if which = PRIO_PGRP then Some (\<lambda>p. t_pgrp p = (if who \<noteq> 0 then who else t_pgrp cur))
      else let uid = (if who = 0 then t_uid cur else kuid_of E who) in
        if who \<noteq> 0 \<and> uid \<noteq> t_uid cur \<and> \<not> user_known E uid then None
        else Some (\<lambda>p. t_uid p = uid \<and> visible E (tid p)))"

definition setpriority ::
  "prio_env \<Rightarrow> thread \<Rightarrow> int \<Rightarrow> int \<Rightarrow> int \<Rightarrow> thread list \<Rightarrow> int \<times> thread list" where
  "setpriority E cur which who niceval ts =
     (if which > PRIO_USER \<or> which < PRIO_PROCESS then (- EINVAL, ts)
      else
        let niceval = (if niceval < MIN_NICE then MIN_NICE else niceval);
            niceval = (if niceval > MAX_NICE then MAX_NICE else niceval) in
        case selects E cur which who of
          None \<Rightarrow> (- ESRCH, ts)
        | Some sel \<Rightarrow> prio_loop E cur niceval sel ts (- ESRCH))"

definition getpriority :: "prio_env \<Rightarrow> thread \<Rightarrow> int \<Rightarrow> int \<Rightarrow> thread list \<Rightarrow> int" where
  "getpriority E cur which who ts =
     (if which > PRIO_USER \<or> which < PRIO_PROCESS then - EINVAL
      else case selects E cur which who of
        None \<Rightarrow> - ESRCH
      | Some sel \<Rightarrow> nice_loop sel ts (- ESRCH))"

subsection \<open>Specification\<close>

text \<open>Why a thread cannot be given a nice value (0: it can).\<close>

definition refusal :: "prio_env \<Rightarrow> thread \<Rightarrow> int \<Rightarrow> thread \<Rightarrow> int" where
  "refusal E cur n p =
     (if \<not> (t_uid p = t_euid cur \<or> t_euid p = t_euid cur \<or> sys_nice E p) then - EPERM
      else if n < t_nice p \<and> \<not> can_nice E p n then - EACCES
      else task_setnice E p n)"

definition nice_clamp :: "int \<Rightarrow> int" where
  "nice_clamp n = max MIN_NICE (min MAX_NICE n)"

lemma set_one_prio_refusal:
  "set_one_prio E cur p n e =
     (if refusal E cur n p \<noteq> 0 then (refusal E cur n p, p)
      else (if e = - ESRCH then 0 else e, p\<lparr>t_nice := n\<rparr>))"
  by (simp add: set_one_prio_def refusal_def set_one_prio_perm_def Let_def)

text \<open>The code after a list of refusals: the last one that is not 0.\<close>

definition code_after :: "int list \<Rightarrow> int \<Rightarrow> int" where
  "code_after rs e = (if rs = [] then e
     else if filter (\<lambda>r. r \<noteq> 0) rs \<noteq> [] then last (filter (\<lambda>r. r \<noteq> 0) rs)
     else if e = - ESRCH then 0 else e)"

lemma prio_loop_spec:
  assumes "\<forall>p. refusal E cur n p \<noteq> - ESRCH"
  shows "prio_loop E cur n sel ts e =
    (code_after (map (refusal E cur n) (filter sel ts)) e,
     map (\<lambda>p. if sel p \<and> refusal E cur n p = 0 then p\<lparr>t_nice := n\<rparr> else p) ts)"
proof (induction ts arbitrary: e)
  case (Cons p ts)
  show ?case
  proof (cases "sel p")
    case True
    then show ?thesis using assms
      by (auto simp: Cons.IH set_one_prio_refusal code_after_def)
  qed (simp add: Cons.IH)
qed (simp add: code_after_def)

lemma nice_loop_spec:
  "nice_loop sel ts e = Max (insert e ((\<lambda>p. 20 - t_nice p) ` {p \<in> set ts. sel p}))"
proof (induction ts arbitrary: e)
  case (Cons p ts)
  let ?f = "\<lambda>p. 20 - t_nice p"
  have "{q \<in> set (p # ts). sel q} = (if sel p then insert p {q \<in> set ts. sel q} else {q \<in> set ts. sel q})"
    by auto
  moreover have "Max (insert (if sel p \<and> ?f p > e then ?f p else e) A) =
      Max (insert e (if sel p then insert (?f p) A else A))" if "finite A" for A
    using that by (cases "A = {}") (auto simp: max_def)
  ultimately show ?case by (simp add: Cons.IH image_insert)
qed simp

lemma clamp_twice:
  "(let n1 = (if n < MIN_NICE then MIN_NICE else n) in if n1 > MAX_NICE then MAX_NICE else n1) = nice_clamp n"
  by (auto simp: nice_clamp_def)

lemma setpriority_run:
  assumes "0 \<le> which" "which \<le> 2" "selects E cur which who = Some sel"
  shows "setpriority E cur which who n ts = prio_loop E cur (nice_clamp n) sel ts (- ESRCH)"
  using assms clamp_twice [of n] by (simp add: setpriority_def Let_def)

lemma selects_nice:
  "selects E cur which who = Some sel \<Longrightarrow> sel (p\<lparr>t_nice := n\<rparr>) = sel p"
  by (auto simp: selects_def Let_def split: if_splits)

subsection \<open>Properties\<close>

text \<open>
  C39. \<open>setpriority\<close>: for a valid kind of target every selected thread that may be changed gets the
  nice value, limited to -20..19, and no other thread changes, whatever happened to the threads
  before it. The result is \<open>-ESRCH\<close> when no thread is selected, 0 when all selected ones were
  changed, and otherwise the reason of the last one that was not: another user's thread without
  \<open>CAP_SYS_NICE\<close> (\<open>-EPERM\<close>), a value that may not be lowered (\<open>-EACCES\<close>), or the security hook's code.
\<close>

theorem setpriority_correct:
  assumes "0 \<le> which" "which \<le> 2" "selects E cur which who = Some sel"
    and "\<forall>p. refusal E cur (nice_clamp n) p \<noteq> - ESRCH"
    and "rs = map (refusal E cur (nice_clamp n)) (filter sel ts)"
  shows "setpriority E cur which who n ts =
    (if rs = [] then - ESRCH else if filter (\<lambda>r. r \<noteq> 0) rs = [] then 0
       else last (filter (\<lambda>r. r \<noteq> 0) rs),
     map (\<lambda>p. if sel p \<and> refusal E cur (nice_clamp n) p = 0
       then p\<lparr>t_nice := nice_clamp n\<rparr> else p) ts)"
  unfolding setpriority_run [OF assms(1-3)] prio_loop_spec [OF assms(4)] assms(5)
  by (simp add: code_after_def)

definition plain_prio :: prio_env where
  "plain_prio = \<lparr>sys_nice = (\<lambda>p. False), can_nice = (\<lambda>p n. 10 \<le> n), task_setnice = (\<lambda>p n. 0),
     kuid_of = word_of_int, user_known = (\<lambda>u. True), visible = (\<lambda>t. True)\<rparr>"

abbreviation thr :: "int \<Rightarrow> u32 \<Rightarrow> int \<Rightarrow> thread" where
  "thr i u n \<equiv> \<lparr>tid = i, t_uid = u, t_euid = u, t_pgrp = 7, t_nice = n\<rparr>"

lemma setpriority_correct_witness:
  "setpriority plain_prio (thr 7 1000 0) PRIO_PGRP 0 5
     [thr 7 1000 0, thr 8 0 0, thr 9 1000 12, thr 10 1000 1] =
   (- EACCES, [thr 7 1000 5, thr 8 0 0, thr 9 1000 12, thr 10 1000 5])"
proof -
  let ?cur = "thr 7 1000 0"
  have r: "refusal plain_prio ?cur (nice_clamp 5) p \<noteq> - ESRCH" for p
    by (simp add: refusal_def plain_prio_def)
  have s: "selects plain_prio ?cur PRIO_PGRP 0 = Some (\<lambda>p. t_pgrp p = 7)" by (simp add: selects_def)
  show ?thesis
    using setpriority_correct [OF _ _ s _ refl, of 5 "[thr 7 1000 0, thr 8 0 0, thr 9 1000 12, thr 10 1000 1]"] r
    by (simp add: refusal_def plain_prio_def nice_clamp_def)
qed

text \<open>
  After a successful \<open>setpriority\<close>, \<open>getpriority\<close> of the same target returns 20 minus the
  (limited) nice value, a number from 1 to 40; and in general it returns the highest such number
  among the selected threads, so it is never mistaken for an error while nice values are in range.
\<close>

theorem priority_roundtrip:
  assumes "\<forall>p. refusal E cur (nice_clamp n) p \<noteq> - ESRCH"
    and "setpriority E cur which who n ts = (0, ts')"
  shows "getpriority E cur which who ts' = 20 - nice_clamp n \<and>
    1 \<le> getpriority E cur which who ts' \<and> getpriority E cur which who ts' \<le> 40"
proof -
  have w: "0 \<le> which" "which \<le> 2" using assms(2) by (auto simp: setpriority_def split: if_splits)
  then obtain sel where sel: "selects E cur which who = Some sel"
    using assms(2) by (auto simp: setpriority_def Let_def split: option.splits if_splits)
  let ?n = "nice_clamp n" and ?rs = "map (refusal E cur (nice_clamp n)) (filter sel ts)"
  have run: "code_after ?rs (- ESRCH) = 0"
    and ts': "ts' = map (\<lambda>p. if sel p \<and> refusal E cur ?n p = 0 then p\<lparr>t_nice := ?n\<rparr> else p) ts"
    using assms(2) unfolding setpriority_run [OF w sel] prio_loop_spec [OF assms(1)] by simp_all
  have some: "filter sel ts \<noteq> []" using run by (auto simp: code_after_def)
  have "filter (\<lambda>r. r \<noteq> 0) ?rs = []"
  proof (rule ccontr)
    assume f: "filter (\<lambda>r. r \<noteq> 0) ?rs \<noteq> []"
    then have "last (filter (\<lambda>r. r \<noteq> 0) ?rs) \<in> set (filter (\<lambda>r. r \<noteq> 0) ?rs)" by (rule last_in_set)
    then have "code_after ?rs (- ESRCH) \<noteq> 0" using f some by (auto simp: code_after_def)
    with run show False by simp
  qed
  then have "\<forall>p \<in> set ts. sel p \<longrightarrow> refusal E cur ?n p = 0" by (simp add: filter_empty_conv)
  then have all: "ts' = map (\<lambda>p. if sel p then p\<lparr>t_nice := ?n\<rparr> else p) ts" unfolding ts' by simp
  have "{q \<in> set ts'. sel q} \<noteq> {}" "\<forall>q \<in> {q \<in> set ts'. sel q}. t_nice q = ?n"
    using some by (auto simp: all filter_empty_conv selects_nice [OF sel] split: if_splits)
  then have "(\<lambda>p. 20 - t_nice p) ` {q \<in> set ts'. sel q} = {20 - ?n}" by auto
  moreover have "- 20 \<le> ?n" "?n \<le> 19" by (simp_all add: nice_clamp_def)
  ultimately have "getpriority E cur which who ts' = 20 - ?n"
    using w sel nice_loop_spec [of sel ts' "- ESRCH"] by (simp add: getpriority_def)
  then show ?thesis using \<open>- 20 \<le> ?n\<close> \<open>?n \<le> 19\<close> by simp
qed

lemma priority_roundtrip_witness:
  "getpriority plain_prio (thr 7 1000 0) PRIO_USER 1000 [thr 7 1000 19, thr 8 0 0, thr 9 1000 19] = 1"
proof -
  have "setpriority plain_prio (thr 7 1000 0) PRIO_USER 1000 40 [thr 7 1000 0, thr 8 0 0, thr 9 1000 12] =
      (0, [thr 7 1000 19, thr 8 0 0, thr 9 1000 19])" by code_simp
  moreover have "\<forall>p. refusal plain_prio (thr 7 1000 0) (nice_clamp 40) p \<noteq> - ESRCH"
    by (simp add: refusal_def plain_prio_def)
  ultimately show ?thesis using priority_roundtrip by (fastforce simp: nice_clamp_def)
qed

end
