(* ===== verification/KernelLimits.thy ===== *)
theory KernelLimits
  imports KernelCreds
begin

text \<open>
  \<open>sys.c\<close>: the resource limits of processes on a 64-bit kernel, with the calls of 32-bit programs
  (\<open>COMPAT_\<close>). The processes are a map from their number to their credentials and limits; the
  services of the rest of the kernel are the record \<open>lim_env\<close>. Copies from user memory are options
  (\<open>None\<close>: a fault), copies to user memory a flag.
\<close>

record rlimit =
  rlim_cur :: u64
  rlim_max :: u64

record compat_rlimit =
  crlim_cur :: u32
  crlim_max :: u32

text \<open>\<open>cpu_updates\<close> is the history of the calls of \<open>update_rlimit_cpu\<close>.\<close>

record limited =
  limits :: "rlimit list"
  sighand :: bool
  cpu_updates :: "u64 list"

datatype prlimit_flag = LSM_PRLIMIT_READ | LSM_PRLIMIT_WRITE

record lim_env =
  capable_resource :: "int \<Rightarrow> bool"
  capable_over :: "int \<Rightarrow> cred \<Rightarrow> bool"
  task_setrlimit :: "int \<Rightarrow> nat \<Rightarrow> rlimit \<Rightarrow> int"
  task_prlimit :: "cred \<Rightarrow> cred \<Rightarrow> prlimit_flag set \<Rightarrow> int"
  sysctl_nr_open :: u64
  posix_timers :: bool

type_synonym procs = "int \<rightharpoonup> cred \<times> limited"

abbreviation RLIM_NLIMITS :: nat where "RLIM_NLIMITS \<equiv> 16"
abbreviation RLIMIT_CPU :: nat where "RLIMIT_CPU \<equiv> 0"
abbreviation RLIMIT_NOFILE :: nat where "RLIMIT_NOFILE \<equiv> 7"
abbreviation RLIM_INFINITY :: u64 where "RLIM_INFINITY \<equiv> 0xffffffffffffffff"
abbreviation RLIM64_INFINITY :: u64 where "RLIM64_INFINITY \<equiv> 0xffffffffffffffff"
abbreviation COMPAT_RLIM_INFINITY :: u32 where "COMPAT_RLIM_INFINITY \<equiv> 0xffffffff"

subsection \<open>The core\<close>

text \<open>The checks of a new limit that need no task.\<close>

definition new_limit_error :: "lim_env \<Rightarrow> nat \<Rightarrow> rlimit \<Rightarrow> int" where
  "new_limit_error E resource new_rlim =
     (if rlim_cur new_rlim > rlim_max new_rlim then - EINVAL
      else if resource = RLIMIT_NOFILE \<and> rlim_max new_rlim > sysctl_nr_open E then - EPERM
      else 0)"

text \<open>What happens to the task under its lock: the code, the old limit and the task.\<close>

definition change_limit ::
  "lim_env \<Rightarrow> int \<Rightarrow> int \<Rightarrow> nat \<Rightarrow> rlimit option \<Rightarrow> limited \<Rightarrow> int \<times> rlimit option \<times> limited" where
  "change_limit E me pid resource new t =
     (let rlim = limits t ! resource in
      case new of
        None \<Rightarrow> (0, Some rlim, t)
      | Some new_rlim \<Rightarrow>
          let retval = (if rlim_max new_rlim > rlim_max rlim \<and> \<not> capable_resource E me then - EPERM else 0);
              retval = (if retval = 0 then task_setrlimit E pid resource new_rlim else retval);
              new_rlim = (if resource = RLIMIT_CPU \<and> rlim_cur new_rlim = 0
                          then new_rlim\<lparr>rlim_cur := 1\<rparr> else new_rlim) in
          if retval = 0 then
            (0, Some rlim, t\<lparr>limits := (limits t)[resource := new_rlim],
               cpu_updates := (if resource = RLIMIT_CPU \<and> rlim_cur new_rlim \<noteq> RLIM_INFINITY \<and> posix_timers E
                 then cpu_updates t @ [rlim_cur new_rlim] else cpu_updates t)\<rparr>)
          else (retval, None, t))"

definition do_prlimit ::
  "lim_env \<Rightarrow> int \<Rightarrow> int \<Rightarrow> u32 \<Rightarrow> rlimit option \<Rightarrow> procs \<Rightarrow> int \<times> rlimit option \<times> procs" where
  "do_prlimit E me pid resource new s =
     (if RLIM_NLIMITS \<le> unat resource then (- EINVAL, None, s)
      else let e = (case new of None \<Rightarrow> 0 | Some n \<Rightarrow> new_limit_error E (unat resource) n) in
      if e \<noteq> 0 then (e, None, s)
      else case s pid of
        None \<Rightarrow> (- ESRCH, None, s)
      | Some (c, t) \<Rightarrow>
          if \<not> sighand t then (- ESRCH, None, s)
          else case change_limit E me pid (unat resource) new t of
            (retval, old, t') \<Rightarrow> (retval, old, s(pid \<mapsto> (c, t'))))"

subsection \<open>The calls on the caller itself\<close>

definition getrlimit :: "lim_env \<Rightarrow> int \<Rightarrow> u32 \<Rightarrow> bool \<Rightarrow> procs \<Rightarrow> int \<times> rlimit option" where
  "getrlimit E me resource user_ok s =
     (case do_prlimit E me me resource None s of
        (ret, value, _) \<Rightarrow> if ret = 0 then (if user_ok then (0, value) else (- EFAULT, None)) else (ret, None))"

definition setrlimit :: "lim_env \<Rightarrow> int \<Rightarrow> u32 \<Rightarrow> rlimit option \<Rightarrow> procs \<Rightarrow> int \<times> procs" where
  "setrlimit E me resource rlim s =
     (case rlim of
        None \<Rightarrow> (- EFAULT, s)
      | Some new_rlim \<Rightarrow> (case do_prlimit E me me resource (Some new_rlim) s of (ret, _, s') \<Rightarrow> (ret, s')))"

definition from_compat :: "compat_rlimit \<Rightarrow> rlimit" where
  "from_compat r32 =
     \<lparr>rlim_cur = (if crlim_cur r32 = COMPAT_RLIM_INFINITY then RLIM_INFINITY else ucast (crlim_cur r32)),
      rlim_max = (if crlim_max r32 = COMPAT_RLIM_INFINITY then RLIM_INFINITY else ucast (crlim_max r32))\<rparr>"

definition to_compat :: "rlimit \<Rightarrow> compat_rlimit" where
  "to_compat r =
     \<lparr>crlim_cur = (if rlim_cur r > ucast COMPAT_RLIM_INFINITY then COMPAT_RLIM_INFINITY else ucast (rlim_cur r)),
      crlim_max = (if rlim_max r > ucast COMPAT_RLIM_INFINITY then COMPAT_RLIM_INFINITY else ucast (rlim_max r))\<rparr>"

definition compat_setrlimit :: "lim_env \<Rightarrow> int \<Rightarrow> u32 \<Rightarrow> compat_rlimit option \<Rightarrow> procs \<Rightarrow> int \<times> procs" where
  "compat_setrlimit E me resource rlim s =
     (case rlim of
        None \<Rightarrow> (- EFAULT, s)
      | Some r32 \<Rightarrow> (case do_prlimit E me me resource (Some (from_compat r32)) s of (ret, _, s') \<Rightarrow> (ret, s')))"

definition compat_getrlimit :: "lim_env \<Rightarrow> int \<Rightarrow> u32 \<Rightarrow> bool \<Rightarrow> procs \<Rightarrow> int \<times> compat_rlimit option" where
  "compat_getrlimit E me resource user_ok s =
     (case do_prlimit E me me resource None s of
        (ret, r, _) \<Rightarrow>
          if ret = 0 then (if user_ok then (0, map_option to_compat r) else (- EFAULT, None)) else (ret, None))"

text \<open>The calls for old programs limit what they show to \<open>0x7FFFFFFF\<close>.\<close>

definition old_limit :: "rlimit \<Rightarrow> rlimit" where
  "old_limit x =
     (let x = (if rlim_cur x > 0x7FFFFFFF then x\<lparr>rlim_cur := 0x7FFFFFFF\<rparr> else x) in
      if rlim_max x > 0x7FFFFFFF then x\<lparr>rlim_max := 0x7FFFFFFF\<rparr> else x)"

definition old_getrlimit :: "u32 \<Rightarrow> bool \<Rightarrow> limited \<Rightarrow> int \<times> rlimit option" where
  "old_getrlimit resource user_ok t =
     (if RLIM_NLIMITS \<le> unat resource then (- EINVAL, None)
      else let x = old_limit (limits t ! unat resource) in if user_ok then (0, Some x) else (- EFAULT, None))"

definition compat_old_getrlimit :: "u32 \<Rightarrow> bool \<Rightarrow> bool \<Rightarrow> limited \<Rightarrow> int \<times> u32 list" where
  "compat_old_getrlimit resource cur_ok max_ok t =
     (if RLIM_NLIMITS \<le> unat resource then (- EINVAL, [])
      else let r = old_limit (limits t ! unat resource) in
        if \<not> cur_ok then (- EFAULT, [])
        else if \<not> max_ok then (- EFAULT, [ucast (rlim_cur r)])
        else (0, [ucast (rlim_cur r), ucast (rlim_max r)]))"

subsection \<open>Limits of another process\<close>

definition rlim64_is_infinity :: "u64 \<Rightarrow> bool" where
  "rlim64_is_infinity rlim64 \<longleftrightarrow> rlim64 = RLIM64_INFINITY"

definition rlim_to_rlim64 :: "rlimit \<Rightarrow> rlimit" where
  "rlim_to_rlim64 rlim =
     \<lparr>rlim_cur = (if rlim_cur rlim = RLIM_INFINITY then RLIM64_INFINITY else rlim_cur rlim),
      rlim_max = (if rlim_max rlim = RLIM_INFINITY then RLIM64_INFINITY else rlim_max rlim)\<rparr>"

definition rlim64_to_rlim :: "rlimit \<Rightarrow> rlimit" where
  "rlim64_to_rlim rlim64 =
     \<lparr>rlim_cur = (if rlim64_is_infinity (rlim_cur rlim64) then RLIM_INFINITY else rlim_cur rlim64),
      rlim_max = (if rlim64_is_infinity (rlim_max rlim64) then RLIM_INFINITY else rlim_max rlim64)\<rparr>"

definition check_prlimit_permission ::
  "lim_env \<Rightarrow> int \<Rightarrow> cred \<Rightarrow> int \<Rightarrow> cred \<Rightarrow> prlimit_flag set \<Rightarrow> int" where
  "check_prlimit_permission E me c pid tcred flags =
     (if me = pid then 0
      else
        let id_match = (uid c = euid tcred \<and> uid c = suid tcred \<and> uid c = uid tcred \<and>
                        gid c = egid tcred \<and> gid c = sgid tcred \<and> gid c = gid tcred) in
        if \<not> id_match \<and> \<not> capable_over E me tcred then - EPERM
        else task_prlimit E c tcred flags)"

text \<open>
  \<open>new_rlim\<close>: null, or what the copy from it gives; \<open>old_rlim\<close>: null, or whether the copy to it
  works. The result, the old limits stored and the processes.
\<close>

definition prlimit64 ::
  "lim_env \<Rightarrow> int \<Rightarrow> int \<Rightarrow> u32 \<Rightarrow> rlimit option option \<Rightarrow> bool option \<Rightarrow> procs \<Rightarrow>
   int \<times> rlimit option \<times> procs" where
  "prlimit64 E me pid resource new_rlim old_rlim s =
     (let checkflags = (if old_rlim \<noteq> None then {LSM_PRLIMIT_READ} else {}) in
      if new_rlim = Some None then (- EFAULT, None, s)
      else
        let new = map_option (\<lambda>r. rlim64_to_rlim (the r)) new_rlim;
            checkflags = (if new_rlim \<noteq> None then insert LSM_PRLIMIT_WRITE checkflags else checkflags);
            target = (if pid \<noteq> 0 then pid else me) in
        case (s me, s target) of
          (Some (c, _), Some (tcred, _)) \<Rightarrow>
            let ret = check_prlimit_permission E me c target tcred checkflags in
            if ret \<noteq> 0 then (ret, None, s)
            else
              (case do_prlimit E me target resource new s of
                 (ret, old, s') \<Rightarrow>
                   (case old_rlim of
                      None \<Rightarrow> (ret, None, s')
                    | Some user_ok \<Rightarrow>
                        if ret = 0 then
                          (if user_ok then (0, map_option rlim_to_rlim64 old, s') else (- EFAULT, None, s'))
                        else (ret, None, s')))
        | _ \<Rightarrow> (- ESRCH, None, s))"

subsection \<open>Sequences of calls\<close>

text \<open>Any process may make any of the calls that change limits.\<close>

inductive lim_step :: "lim_env \<Rightarrow> procs \<Rightarrow> procs \<Rightarrow> bool" for E where
  native: "lim_step E s (snd (setrlimit E me resource rlim s))"
| compat: "lim_step E s (snd (compat_setrlimit E me resource r32 s))"
| other: "lim_step E s (snd (snd (prlimit64 E me pid resource new_rlim old_rlim s)))"

text \<open>A limit is well-formed; for the time limit there is the exception of one second above a hard
  limit of zero.\<close>

definition limit_ok :: "nat \<Rightarrow> rlimit \<Rightarrow> bool" where
  "limit_ok r l \<longleftrightarrow> rlim_cur l \<le> rlim_max l \<or> r = RLIMIT_CPU \<and> l = \<lparr>rlim_cur = 1, rlim_max = 0\<rparr>"

definition limits_ok :: "procs \<Rightarrow> bool" where
  "limits_ok s \<longleftrightarrow> (\<forall>pid c t. s pid = Some (c, t) \<longrightarrow>
     length (limits t) = RLIM_NLIMITS \<and> (\<forall>r < RLIM_NLIMITS. limit_ok r (limits t ! r)))"

text \<open>No process has a higher hard limit than in \<open>s0\<close>.\<close>

definition not_raised :: "procs \<Rightarrow> procs \<Rightarrow> bool" where
  "not_raised s0 s \<longleftrightarrow> (\<forall>pid c t. s pid = Some (c, t) \<longrightarrow>
     (\<exists>c0 t0. s0 pid = Some (c0, t0) \<and> length (limits t) = length (limits t0) \<and>
       (\<forall>r < RLIM_NLIMITS. rlim_max (limits t ! r) \<le> rlim_max (limits t0 ! r))))"

subsection \<open>What a call does to the limits\<close>

text \<open>The limit that is stored: zero seconds of processor time become one.\<close>

definition stored_limit :: "nat \<Rightarrow> rlimit \<Rightarrow> rlimit" where
  "stored_limit r n = (if r = RLIMIT_CPU \<and> rlim_cur n = 0 then n\<lparr>rlim_cur := 1\<rparr> else n)"

text \<open>Either nothing changes, or one limit of one process is replaced by an acceptable new one.\<close>

definition limit_change :: "lim_env \<Rightarrow> int \<Rightarrow> procs \<Rightarrow> procs \<Rightarrow> bool" where
  "limit_change E me s s' \<longleftrightarrow> s' = s \<or>
     (\<exists>pid c t r n ups. s pid = Some (c, t) \<and> r < RLIM_NLIMITS \<and>
        new_limit_error E r n = 0 \<and>
        (rlim_max n \<le> rlim_max (limits t ! r) \<or> capable_resource E me) \<and>
        s' = s(pid \<mapsto> (c, t\<lparr>limits := (limits t)[r := stored_limit r n], cpu_updates := ups\<rparr>)))"

lemma change_limit_cases:
  assumes "change_limit E me pid r new t = (rc, old, t')"
  shows "t' = t \<and> (new = None \<or> rc \<noteq> 0) \<or>
    (\<exists>n ups. new = Some n \<and> rc = 0 \<and>
       (rlim_max n \<le> rlim_max (limits t ! r) \<or> capable_resource E me) \<and>
       t' = t\<lparr>limits := (limits t)[r := stored_limit r n], cpu_updates := ups\<rparr>)"
proof (cases new)
  case None
  then show ?thesis using assms by (simp add: change_limit_def Let_def)
next
  case (Some n)
  let ?ret0 = "if rlim_max n > rlim_max (limits t ! r) \<and> \<not> capable_resource E me then - EPERM else 0"
  let ?ret = "if ?ret0 = 0 then task_setrlimit E pid r n else ?ret0"
  let ?ups = "if r = RLIMIT_CPU \<and> rlim_cur (stored_limit r n) \<noteq> RLIM_INFINITY \<and> posix_timers E
    then cpu_updates t @ [rlim_cur (stored_limit r n)] else cpu_updates t"
  define ret where "ret = ?ret"
  have e: "change_limit E me pid r new t =
      (if ret = 0 then (0, Some (limits t ! r),
         t\<lparr>limits := (limits t)[r := stored_limit r n], cpu_updates := ?ups\<rparr>) else (ret, None, t))"
    unfolding Some change_limit_def stored_limit_def Let_def option.case ret_def by (rule refl)
  have "ret = 0 \<Longrightarrow> rlim_max n \<le> rlim_max (limits t ! r) \<or> capable_resource E me"
    unfolding ret_def
    by (cases "rlim_max n > rlim_max (limits t ! r) \<and> \<not> capable_resource E me") auto
  then show ?thesis using assms Some unfolding e by (cases "ret = 0") auto
qed

lemma do_prlimit_change:
  assumes "do_prlimit E me pid resource new s = (rc, old, s')"
  shows "limit_change E me s s' \<and> (rc \<noteq> 0 \<or> new = None \<longrightarrow> s' = s)"
proof -
  let ?r = "unat resource"
  let ?e = "case new of None \<Rightarrow> 0 | Some n \<Rightarrow> new_limit_error E ?r n"
  show ?thesis
  proof (cases "RLIM_NLIMITS \<le> ?r \<or> ?e \<noteq> 0 \<or> s pid = None")
    case True
    then show ?thesis using assms by (auto simp: do_prlimit_def limit_change_def Let_def split: if_splits option.splits)
  next
    case False
    then obtain c t where p: "s pid = Some (c, t)" by auto
    obtain rc' old' t' where cl: "change_limit E me pid ?r new t = (rc', old', t')" by (metis prod_cases3)
    have "sighand t \<longrightarrow> rc = rc' \<and> s' = s(pid \<mapsto> (c, t'))" "\<not> sighand t \<longrightarrow> s' = s"
      using assms False p cl by (auto simp: do_prlimit_def Let_def)
    note step = this
    have same: "s(pid \<mapsto> (c, t)) = s" using p by (simp add: map_upd_triv)
    consider "s' = s" "\<not> sighand t" | "s' = s" "new = None \<or> rc \<noteq> 0"
      | n ups where "new = Some n" "rc = 0" "rlim_max n \<le> rlim_max (limits t ! ?r) \<or> capable_resource E me"
        "s' = s(pid \<mapsto> (c, t\<lparr>limits := (limits t)[?r := stored_limit ?r n], cpu_updates := ups\<rparr>))"
      using change_limit_cases [OF cl] step same by (cases "sighand t") auto
    then show ?thesis
    proof cases
      case 3
      have "limit_change E me s s'"
        unfolding limit_change_def using p 3 False
        by (intro disjI2 exI [of _ pid] exI [of _ c] exI [of _ t] exI [of _ ?r] exI [of _ n] exI [of _ ups])
          simp
      then show ?thesis using 3 by simp
    qed (simp_all add: limit_change_def)
  qed
qed

lemma prlimit64_change:
  assumes "prlimit64 E me pid resource new_rlim old_rlim s = (rc, old, s')"
  shows "limit_change E me s s'"
proof -
  let ?new = "map_option (\<lambda>r. rlim64_to_rlim (the r)) new_rlim"
  let ?target = "if pid \<noteq> 0 then pid else me"
  obtain rc1 old1 s1 where d: "do_prlimit E me ?target resource ?new s = (rc1, old1, s1)"
    by (metis prod_cases3)
  have "s' = s \<or> s' = s1"
    using assms d unfolding prlimit64_def Let_def
    by (auto split: if_splits option.splits prod.splits)
  then show ?thesis using do_prlimit_change [OF d] by (auto simp: limit_change_def)
qed

lemma lim_step_change: "lim_step E s s' \<Longrightarrow> \<exists>me. limit_change E me s s'"
proof (induction rule: lim_step.cases)
  case (native s me resource rlim)
  then show ?case
  proof (cases rlim)
    case (Some n)
    obtain rc old s2 where "do_prlimit E me me resource (Some n) s = (rc, old, s2)" by (metis prod_cases3)
    then have "limit_change E me s s2" "snd (setrlimit E me resource rlim s) = s2"
      using do_prlimit_change Some by (blast, simp add: setrlimit_def)
    then show ?thesis using native by auto
  qed (auto simp: setrlimit_def limit_change_def)
next
  case (compat s me resource r32)
  then show ?case
  proof (cases r32)
    case (Some n)
    obtain rc old s2 where "do_prlimit E me me resource (Some (from_compat n)) s = (rc, old, s2)"
      by (metis prod_cases3)
    then have "limit_change E me s s2" "snd (compat_setrlimit E me resource r32 s) = s2"
      using do_prlimit_change Some by (blast, simp add: compat_setrlimit_def)
    then show ?thesis using compat by auto
  qed (auto simp: compat_setrlimit_def limit_change_def)
next
  case (other s me pid resource new_rlim old_rlim)
  then show ?case using prlimit64_change by (metis prod.collapse)
qed

lemma stored_limit_ok: "new_limit_error E r n = 0 \<Longrightarrow> limit_ok r (stored_limit r n)"
proof -
  assume "new_limit_error E r n = 0"
  then have "rlim_cur n \<le> rlim_max n" by (auto simp: new_limit_error_def split: if_splits)
  moreover have "rlim_max n = 0 \<or> 1 \<le> rlim_max n"
    by (metis linorder_not_less word_less_1)
  ultimately show ?thesis
    by (cases n) (auto simp: stored_limit_def limit_ok_def)
qed

lemma stored_limit_max [simp]: "rlim_max (stored_limit r n) = rlim_max n"
  by (simp add: stored_limit_def)

lemma limits_ok_change: "limit_change E me s s' \<Longrightarrow> limits_ok s \<Longrightarrow> limits_ok s'"
  unfolding limit_change_def
  by (auto simp: limits_ok_def nth_list_update stored_limit_ok split: if_splits)

lemma not_raised_change:
  assumes "\<not> capable_resource E me" "limit_change E me s s'" "limits_ok s" "not_raised s0 s"
  shows "not_raised s0 s'"
proof -
  consider "s' = s" | pid c t r n ups where "s pid = Some (c, t)" "r < RLIM_NLIMITS"
      "rlim_max n \<le> rlim_max (limits t ! r)"
      "s' = s(pid \<mapsto> (c, t\<lparr>limits := (limits t)[r := stored_limit r n], cpu_updates := ups\<rparr>))"
    using assms(1,2) unfolding limit_change_def by blast
  then show ?thesis
  proof cases
    case 2
    obtain c0 t0 where o: "s0 pid = Some (c0, t0)" "length (limits t) = length (limits t0)"
      "\<forall>r < RLIM_NLIMITS. rlim_max (limits t ! r) \<le> rlim_max (limits t0 ! r)"
      using assms(4) 2(1) unfolding not_raised_def by blast
    have "rlim_max ((limits t)[r := stored_limit r n] ! k) \<le> rlim_max (limits t0 ! k)"
      if "k < RLIM_NLIMITS" for k
      using o that 2(3) order_trans by (cases "k = r"; cases "r < length (limits t)") (auto simp: list_update_beyond)
    then show ?thesis using assms(4) o(1,2) unfolding not_raised_def 2(4) by auto
  qed (use assms(4) in simp)
qed

interpretation lim_sys: preserved_invariant "lim_step E" limits_ok for E
  by unfold_locales (use lim_step_change limits_ok_change in blast)

interpretation unraised_sys: preserved_invariant "lim_step E"
    "\<lambda>s. (\<forall>me. \<not> capable_resource E me) \<longrightarrow> limits_ok s \<and> not_raised s0 s" for E s0
  by unfold_locales (use lim_step_change limits_ok_change not_raised_change in blast)

subsection \<open>Properties\<close>

text \<open>
  In every sequence of calls by any processes that set limits, each process keeps its sixteen
  limits, and every soft limit stays at or below its hard limit. The one exception the code has is
  the limit of processor time, where a soft and hard limit of 0 is stored as 1 above 0.
\<close>

theorem limits_stay_ordered:
  assumes "limits_ok s" "(lim_step E)\<^sup>*\<^sup>* s s'" "s' pid = Some (c, t)" "r < RLIM_NLIMITS"
  shows "length (limits t) = RLIM_NLIMITS \<and>
    (rlim_cur (limits t ! r) \<le> rlim_max (limits t ! r) \<or>
     r = RLIMIT_CPU \<and> limits t ! r = \<lparr>rlim_cur = 1, rlim_max = 0\<rparr>)"
  using lim_sys.inv_steps [OF assms(2,1)] assms(3,4) unfolding limits_ok_def limit_ok_def by blast

definition plain_limits :: lim_env where
  "plain_limits = \<lparr>capable_resource = (\<lambda>p. False), capable_over = (\<lambda>p c. False),
     task_setrlimit = (\<lambda>p r n. 0), task_prlimit = (\<lambda>c d f. 0), sysctl_nr_open = 1024,
     posix_timers = True\<rparr>"

definition one_process :: "rlimit \<Rightarrow> procs" where
  "one_process l = [1 \<mapsto> (cred (ids_task 5 5 5 {}),
     \<lparr>limits = replicate 16 l, sighand = True, cpu_updates = []\<rparr>)]"

lemma one_process_ok: "rlim_cur l \<le> rlim_max l \<Longrightarrow> limits_ok (one_process l)"
  by (auto simp: limits_ok_def limit_ok_def one_process_def split: if_splits)

lemma limits_stay_ordered_witness:
  "\<exists>c t. snd (setrlimit plain_limits 1 0 (Some \<lparr>rlim_cur = 0, rlim_max = 0\<rparr>)
       (one_process \<lparr>rlim_cur = 4, rlim_max = 8\<rparr>)) 1 = Some (c, t) \<and>
     length (limits t) = 16 \<and> limits t ! 0 = \<lparr>rlim_cur = 1, rlim_max = 0\<rparr>"
proof -
  let ?s = "one_process \<lparr>rlim_cur = 4, rlim_max = 8\<rparr>"
  let ?s' = "snd (setrlimit plain_limits 1 0 (Some \<lparr>rlim_cur = 0, rlim_max = 0\<rparr>) ?s)"
  obtain c t where p: "?s' 1 = Some (c, t)" "limits t ! 0 = \<lparr>rlim_cur = 1, rlim_max = 0\<rparr>"
    by (auto simp: setrlimit_def do_prlimit_def new_limit_error_def change_limit_def plain_limits_def
        one_process_def)
  have "(lim_step plain_limits)\<^sup>*\<^sup>* ?s ?s'" by (rule r_into_rtranclp, rule lim_step.native)
  from limits_stay_ordered [OF one_process_ok this p(1), of 0] p show ?thesis by auto
qed

text \<open>
  C31. When no process has \<open>CAP_SYS_RESOURCE\<close>, no sequence of calls by any processes ever raises a
  hard limit of any of them.
\<close>

theorem hard_limits_never_raised:
  assumes "\<forall>me. \<not> capable_resource E me" "limits_ok s" "(lim_step E)\<^sup>*\<^sup>* s s'"
    and "s' pid = Some (c', t')" "r < RLIM_NLIMITS"
  shows "\<exists>c t. s pid = Some (c, t) \<and> rlim_max (limits t' ! r) \<le> rlim_max (limits t ! r)"
proof -
  have "not_raised s s" by (auto simp: not_raised_def)
  then have "not_raised s s'" using unraised_sys.inv_steps [OF assms(3), of s] assms(1,2) by blast
  then show ?thesis using assms(4,5) unfolding not_raised_def by blast
qed

lemma hard_limits_never_raised_witness:
  "rlim_max (limits (snd (the (snd (compat_setrlimit plain_limits 1 3
     (Some \<lparr>crlim_cur = 2, crlim_max = 0xffffffff\<rparr>) (one_process \<lparr>rlim_cur = 4, rlim_max = 8\<rparr>)) 1))) ! 3) \<le> 8"
proof -
  let ?s = "one_process \<lparr>rlim_cur = 4, rlim_max = 8\<rparr>"
  let ?s' = "snd (compat_setrlimit plain_limits 1 3 (Some \<lparr>crlim_cur = 2, crlim_max = 0xffffffff\<rparr>) ?s)"
  have st: "(lim_step plain_limits)\<^sup>*\<^sup>* ?s ?s'" by (rule r_into_rtranclp, rule lim_step.compat)
  have "\<exists>c t. ?s' 1 = Some (c, t)"
    by (auto simp: compat_setrlimit_def do_prlimit_def new_limit_error_def change_limit_def
        plain_limits_def one_process_def from_compat_def)
  then obtain c t where p: "?s' 1 = Some (c, t)" by blast
  have "\<forall>me. \<not> capable_resource plain_limits me" by (simp add: plain_limits_def)
  from hard_limits_never_raised [OF this one_process_ok st p, of 3] p show ?thesis
    by (auto simp: one_process_def)
qed

text \<open>
  C32. \<open>prlimit64\<close>: a failing call changes nothing, unless all that failed was the copy of the old
  limits to the user (\<open>-EFAULT\<close>), which happens after the new ones have been set. A call that
  succeeds gives the limits the target had before, and its target is the caller itself, or a process
  with the caller's user and group in all its identities, or one the caller is capable over.
\<close>

theorem prlimit64_correct:
  assumes "prlimit64 E me pid resource new_rlim old_rlim s = (rc, old, s')"
  defines "target \<equiv> if pid \<noteq> 0 then pid else me"
  shows "(rc \<noteq> 0 \<longrightarrow> s' = s \<or> rc = - EFAULT \<and> old_rlim = Some False) \<and>
    (rc = 0 \<longrightarrow> (\<exists>c tc t0 t. s me = Some (c, t0) \<and> s target = Some (tc, t) \<and>
       (old_rlim \<noteq> None \<longrightarrow> old = Some (limits t ! unat resource)) \<and>
       (target = me \<or> capable_over E me tc \<or>
        {euid tc, suid tc, uid tc} = {uid c} \<and> {egid tc, sgid tc, gid tc} = {gid c})))"
proof -
  let ?new = "map_option (\<lambda>r. rlim64_to_rlim (the r)) new_rlim"
  let ?fl0 = "if old_rlim \<noteq> None then {LSM_PRLIMIT_READ} else {}"
  let ?fl = "if new_rlim \<noteq> None then insert LSM_PRLIMIT_WRITE ?fl0 else ?fl0"
  obtain rc1 old1 s1 where d: "do_prlimit E me target resource ?new s = (rc1, old1, s1)"
    by (metis prod_cases3)
  show ?thesis
  proof (cases "new_rlim = Some None \<or> s me = None \<or> s target = None")
    case True
    then have "rc \<noteq> 0 \<and> s' = s" using assms(1) unfolding target_def
      by (auto simp: prlimit64_def Let_def split: option.splits if_splits)
    then show ?thesis by simp
  next
    case False
    then obtain c t0 tc t where p: "s me = Some (c, t0)" "s target = Some (tc, t)" by auto
    have no_fault: "(new_rlim = Some None) = False" using False by blast
    let ?ret = "check_prlimit_permission E me c target tc ?fl"
    have u: "(rc, old, s') = (if ?ret \<noteq> 0 then (?ret, None, s)
        else (case old_rlim of None \<Rightarrow> (rc1, None, s1)
          | Some user_ok \<Rightarrow> if rc1 = 0 then
              (if user_ok then (0, map_option rlim_to_rlim64 old1, s1) else (- EFAULT, None, s1))
              else (rc1, None, s1)))"
      unfolding assms(1) [symmetric] prlimit64_def Let_def target_def [symmetric] d p prod.case option.case
      by (simp only: no_fault if_False simp_thms)
    show ?thesis
    proof (cases "?ret = 0")
      case False
      then show ?thesis using u by simp
    next
      case True
      then have perm: "target = me \<or> capable_over E me tc \<or>
          {euid tc, suid tc, uid tc} = {uid c} \<and> {egid tc, sgid tc, gid tc} = {gid c}"
        by (auto simp: check_prlimit_permission_def Let_def split: if_splits)
      have o: "rc1 = 0 \<longrightarrow> old1 = Some (limits t ! unat resource)"
        using d p(2) by (auto simp: do_prlimit_def change_limit_def Let_def split: if_splits option.splits)
      have "rlim_to_rlim64 l = l" for l by (cases l) (simp add: rlim_to_rlim64_def)
      then show ?thesis using u True o perm p do_prlimit_change [OF d]
        by (auto split: option.splits if_splits)
    qed
  qed
qed

text \<open>What a limit becomes when a 32-bit program sets what it has read.\<close>

definition lifted :: "u64 \<Rightarrow> u64" where
  "lifted x = (if 0xffffffff \<le> x then RLIM_INFINITY else x)"

lemma compat_lifts: "from_compat (to_compat l) = \<lparr>rlim_cur = lifted (rlim_cur l), rlim_max = lifted (rlim_max l)\<rparr>"
proof -
  have small: "(ucast (ucast x :: u32) :: u64) = x \<and> (ucast x :: u32) \<noteq> 0xffffffff" if "x < 0xffffffff" for x :: u64
  proof -
    have "unat x < 4294967295" using that by (simp add: word_less_nat_alt)
    then have u: "unat (ucast x :: u32) = unat x" by (simp add: unsigned_ucast_eq unsigned_take_bit_eq take_bit_nat_eq_self)
    then have "unat (ucast (ucast x :: u32) :: u64) = unat x"
      using \<open>unat x < 4294967295\<close> by (simp add: unsigned_ucast_eq unsigned_take_bit_eq take_bit_nat_eq_self)
    then have "(ucast (ucast x :: u32) :: u64) = x" by (rule unsigned_word_eqI)
    moreover have "(ucast x :: u32) \<noteq> 0xffffffff"
    proof
      assume "(ucast x :: u32) = 0xffffffff"
      then have "unat x = 4294967295" using u by simp
      with \<open>unat x < 4294967295\<close> show False by simp
    qed
    ultimately show ?thesis by blast
  qed
  have lift: "(if (if x > ucast COMPAT_RLIM_INFINITY then COMPAT_RLIM_INFINITY else ucast x) = COMPAT_RLIM_INFINITY
      then RLIM_INFINITY else ucast (if x > ucast COMPAT_RLIM_INFINITY then COMPAT_RLIM_INFINITY else (ucast x :: u32)))
    = lifted x" for x :: u64
  proof -
    consider "x < 0xffffffff" | "x = 0xffffffff" | "0xffffffff < x" by fastforce
    then show ?thesis by cases (use small [of x] in \<open>auto simp: lifted_def\<close>)
  qed
  show ?thesis
    unfolding from_compat_def to_compat_def compat_rlimit.select_convs lift by (rule refl)
qed

text \<open>
  A 32-bit program that sets the limits it has read sets the same limits exactly if both are
  infinite or below \<open>2 ^ 32 - 1\<close>; a larger finite limit reads as infinite and comes back as infinite.
  So for a process without \<open>CAP_SYS_RESOURCE\<close> whose hard limit is such a finite number, setting what
  it has read fails with \<open>-EPERM\<close>.
\<close>

theorem compat_limits_roundtrip:
  assumes "s me = Some (c, t)" "sighand t" "limits_ok s"
    and "compat_getrlimit E me resource True s = (0, Some r32)"
  defines "l \<equiv> limits t ! unat resource"
  shows "compat_setrlimit E me resource (Some r32) s =
      setrlimit E me resource (Some \<lparr>rlim_cur = lifted (rlim_cur l), rlim_max = lifted (rlim_max l)\<rparr>) s \<and>
    ((0xffffffff \<le> rlim_max l \<and> rlim_max l < RLIM_INFINITY \<and> \<not> capable_resource E me) \<longrightarrow>
      fst (compat_setrlimit E me resource (Some r32) s) = - EPERM)"
proof -
  let ?n = "\<lparr>rlim_cur = lifted (rlim_cur l), rlim_max = lifted (rlim_max l)\<rparr>"
  have r: "unat resource < RLIM_NLIMITS" "r32 = to_compat l"
    using assms(1,2,4) unfolding compat_getrlimit_def do_prlimit_def change_limit_def l_def
    by (auto simp: Let_def split: if_splits)
  have eq: "compat_setrlimit E me resource (Some r32) s = setrlimit E me resource (Some ?n) s"
    by (simp add: compat_setrlimit_def setrlimit_def r(2) compat_lifts)
  have "fst (setrlimit E me resource (Some ?n) s) = - EPERM"
    if "0xffffffff \<le> rlim_max l" "rlim_max l < RLIM_INFINITY" "\<not> capable_resource E me"
  proof -
    have m: "rlim_max ?n = RLIM_INFINITY" using that(1) by (simp add: lifted_def)
    have "RLIM_INFINITY = - 1" by simp
    then have "rlim_cur ?n \<le> RLIM_INFINITY" by (metis word_n1_ge)
    then have "new_limit_error E (unat resource) ?n \<in> {0, - EPERM}"
      using m by (simp add: new_limit_error_def not_less)
    moreover have "change_limit E me me (unat resource) (Some ?n) t = (- EPERM, None, t)"
      using that m by (simp add: change_limit_def Let_def l_def [symmetric])
    ultimately show ?thesis using assms(1,2) r(1)
      by (auto simp: setrlimit_def do_prlimit_def Let_def)
  qed
  then show ?thesis using eq by simp
qed

lemma compat_limits_roundtrip_witness:
  "fst (compat_setrlimit plain_limits 1 3 (Some \<lparr>crlim_cur = 4, crlim_max = 0xffffffff\<rparr>)
     (one_process \<lparr>rlim_cur = 4, rlim_max = 0x100000000\<rparr>)) = - EPERM"
proof -
  let ?l = "\<lparr>rlim_cur = 4, rlim_max = 0x100000000\<rparr>"
  let ?s = "one_process ?l"
  obtain c t where p: "?s 1 = Some (c, t)" "sighand t" "limits t ! unat (3 :: u32) = ?l"
    by (auto simp: one_process_def)
  have g: "compat_getrlimit plain_limits 1 3 True ?s = (0, Some \<lparr>crlim_cur = 4, crlim_max = 0xffffffff\<rparr>)"
    by (simp add: compat_getrlimit_def do_prlimit_def change_limit_def one_process_def to_compat_def)
  have "limits_ok ?s" by (rule one_process_ok) simp
  from conjunct2 [OF compat_limits_roundtrip [OF p(1,2) this g]] show ?thesis unfolding p(3)
    by (simp add: plain_limits_def)
qed

lemma prlimit64_correct_witness:
  "\<exists>s'. prlimit64 plain_limits 1 0 3 (Some (Some \<lparr>rlim_cur = 2, rlim_max = 8\<rparr>)) (Some True)
     (one_process \<lparr>rlim_cur = 4, rlim_max = 8\<rparr>) = (0, Some \<lparr>rlim_cur = 4, rlim_max = 8\<rparr>, s')"
proof -
  let ?s = "one_process \<lparr>rlim_cur = 4, rlim_max = 8\<rparr>"
  obtain old s' where r: "prlimit64 plain_limits 1 0 3 (Some (Some \<lparr>rlim_cur = 2, rlim_max = 8\<rparr>)) (Some True) ?s =
      (0, old, s')"
    by (simp add: prlimit64_def check_prlimit_permission_def do_prlimit_def new_limit_error_def
        change_limit_def Let_def plain_limits_def one_process_def rlim64_to_rlim_def rlim64_is_infinity_def)
  from prlimit64_correct [OF r] have "old = Some \<lparr>rlim_cur = 4, rlim_max = 8\<rparr>"
    by (auto simp: one_process_def)
  with r show ?thesis by blast
qed

end
