(* ===== verification/KernelSessions.thy ===== *)
theory KernelSessions
  imports TransitionSystem
begin

text \<open>
  \<open>sys.c\<close>: process groups and sessions (\<open>setpgid\<close>, \<open>getpgid\<close>, \<open>getsid\<close>, \<open>setsid\<close>). The process table is
  the list of the processes, each standing for its thread group leader, with the numbers of its
  group and session; \<open>threads\<close> maps the number of a thread to its process. All numbers are those of
  one namespace. The security hooks are the record \<open>session_hooks\<close>. Notifying the connector and the
  scheduler after \<open>setsid\<close> is left out.
\<close>

record proc =
  pid :: int
  real_parent :: int
  session :: int
  pgrp :: int
  leader :: bool
  forknoexec :: bool
  tty :: bool

record table =
  procs :: "proc list"
  threads :: "int \<rightharpoonup> int"

record session_hooks =
  task_setpgid :: "proc \<Rightarrow> int \<Rightarrow> int"
  task_getpgid :: "proc \<Rightarrow> int"
  task_getsid :: "proc \<Rightarrow> int"

definition proc_of :: "table \<Rightarrow> int \<Rightarrow> proc option" where
  "proc_of s n = find (\<lambda>p. pid p = n) (procs s)"

text \<open>\<open>pid_task(.., PIDTYPE_PGID)\<close>: a process of the group.\<close>

definition group_member :: "table \<Rightarrow> int \<Rightarrow> proc option" where
  "group_member s g = find (\<lambda>p. pgrp p = g) (procs s)"

definition update_proc :: "int \<Rightarrow> (proc \<Rightarrow> proc) \<Rightarrow> table \<Rightarrow> table" where
  "update_proc n f s = s\<lparr>procs := map (\<lambda>p. if pid p = n then f p else p) (procs s)\<rparr>"

text \<open>
  The checks of \<open>setpgid\<close> from the caller's group leader and the numbers after the defaults: the
  error code, or the process.
\<close>

definition setpgid_check :: "proc \<Rightarrow> int \<Rightarrow> int \<Rightarrow> table \<Rightarrow> int + proc" where
  "setpgid_check group_leader n g s =
     (if g < 0 then Inl (- EINVAL)
      else case threads s n of
        None \<Rightarrow> Inl (- ESRCH)
      | Some l \<Rightarrow>
          if l \<noteq> n then Inl (- EINVAL)
          else case proc_of s n of
            None \<Rightarrow> Inl (- ESRCH)
          | Some p \<Rightarrow>
              if real_parent p = pid group_leader \<and> session p \<noteq> session group_leader then Inl (- EPERM)
              else if real_parent p = pid group_leader \<and> \<not> forknoexec p then Inl (- EACCES)
              else if real_parent p \<noteq> pid group_leader \<and> pid p \<noteq> pid group_leader then Inl (- ESRCH)
              else if leader p then Inl (- EPERM)
              else if g \<noteq> n \<and> (case group_member s g of
                  None \<Rightarrow> True | Some q \<Rightarrow> session q \<noteq> session group_leader) then Inl (- EPERM)
              else Inr p)"

definition setpgid :: "session_hooks \<Rightarrow> proc \<Rightarrow> int \<Rightarrow> int \<Rightarrow> table \<Rightarrow> int \<times> table" where
  "setpgid H group_leader n g s =
     (let n = (if n = 0 then pid group_leader else n);
          g = (if g = 0 then n else g) in
      case setpgid_check group_leader n g s of
        Inl err \<Rightarrow> (err, s)
      | Inr p \<Rightarrow>
          let err = task_setpgid H p g in
          if err \<noteq> 0 then (err, s)
          else (0, if pgrp p \<noteq> g then update_proc n (\<lambda>p. p\<lparr>pgrp := g\<rparr>) s else s))"

definition getpgid :: "session_hooks \<Rightarrow> proc \<Rightarrow> int \<Rightarrow> table \<Rightarrow> int" where
  "getpgid H group_leader n s =
     (if n = 0 then pgrp group_leader
      else case threads s n of
        None \<Rightarrow> - ESRCH
      | Some l \<Rightarrow> (case proc_of s l of
          None \<Rightarrow> - ESRCH
        | Some p \<Rightarrow> let retval = task_getpgid H p in if retval \<noteq> 0 then retval else pgrp p))"

definition getpgrp :: "session_hooks \<Rightarrow> proc \<Rightarrow> table \<Rightarrow> int" where
  "getpgrp H group_leader s = getpgid H group_leader 0 s"

text \<open>The numbers of a process and of its parent, and of one of its threads.\<close>

definition getpid :: "proc \<Rightarrow> int" where
  "getpid group_leader = pid group_leader"

definition getppid :: "proc \<Rightarrow> int" where
  "getppid group_leader = real_parent group_leader"

definition getsid :: "session_hooks \<Rightarrow> proc \<Rightarrow> int \<Rightarrow> table \<Rightarrow> int" where
  "getsid H group_leader n s =
     (if n = 0 then session group_leader
      else case threads s n of
        None \<Rightarrow> - ESRCH
      | Some l \<Rightarrow> (case proc_of s l of
          None \<Rightarrow> - ESRCH
        | Some p \<Rightarrow> let retval = task_getsid H p in if retval \<noteq> 0 then retval else session p))"

definition set_special_pids :: "int \<Rightarrow> proc \<Rightarrow> proc" where
  "set_special_pids n curr_task =
     (let curr_task = (if session curr_task \<noteq> n then curr_task\<lparr>session := n\<rparr> else curr_task) in
      if pgrp curr_task \<noteq> n then curr_task\<lparr>pgrp := n\<rparr> else curr_task)"

definition setsid :: "proc \<Rightarrow> table \<Rightarrow> int \<times> table" where
  "setsid group_leader s =
     (let sid = pid group_leader in
      if leader group_leader then (- EPERM, s)
      else if group_member s sid \<noteq> None then (- EPERM, s)
      else (sid, update_proc sid (\<lambda>p. (set_special_pids sid (p\<lparr>leader := True\<rparr>))\<lparr>tty := False\<rparr>) s))"

text \<open>
  The steps of the table: the calls of any process, and what the rest of the kernel does to it. A
  new process gets an unused number and the group and session of its parent; a process can go, and
  orphans get another parent; \<open>execve\<close> changes \<open>forknoexec\<close>.
\<close>

inductive table_step :: "session_hooks \<Rightarrow> table \<Rightarrow> table \<Rightarrow> bool" for H where
  call_setpgid: "me \<in> set (procs s) \<Longrightarrow> table_step H s (snd (setpgid H me n g s))"
| call_setsid: "me \<in> set (procs s) \<Longrightarrow> table_step H s (snd (setsid me s))"
| fork: "me \<in> set (procs s) \<Longrightarrow> \<forall>p \<in> set (procs s). n \<notin> {pid p, pgrp p, session p} \<Longrightarrow>
     table_step H s (s\<lparr>procs := me\<lparr>pid := n, real_parent := pid me, leader := False, forknoexec := True\<rparr>
       # procs s, threads := (threads s)(n \<mapsto> n)\<rparr>)"
| exit: "table_step H s (s\<lparr>procs := filter (\<lambda>p. pid p \<noteq> n) (procs s)\<rparr>)"
| others: "table_step H s (s\<lparr>procs := map (\<lambda>p. p\<lparr>real_parent := f p, forknoexec := x p, tty := y p\<rparr>) (procs s),
     threads := th\<rparr>)"

text \<open>
  Two processes of one group are in one session, a group with the number of a process is in its
  session, and a session leader leads the session and the group of its number.
\<close>

definition sessions_ok :: "proc list \<Rightarrow> bool" where
  "sessions_ok ps \<longleftrightarrow> distinct (map pid ps) \<and>
     (\<forall>p \<in> set ps. \<forall>q \<in> set ps. pgrp p = pgrp q \<or> pgrp p = pid q \<longrightarrow> session p = session q) \<and>
     (\<forall>p \<in> set ps. leader p \<longrightarrow> session p = pid p \<and> pgrp p = pid p)"

lemma find_some: "find P xs = Some x \<Longrightarrow> x \<in> set xs \<and> P x"
  by (induction xs) (auto split: if_splits)

lemma find_none: "find P xs = None \<longleftrightarrow> (\<forall>x \<in> set xs. \<not> P x)"
  by (induction xs) auto

lemma same_proc: "distinct (map pid ps) \<Longrightarrow> p \<in> set ps \<Longrightarrow> q \<in> set ps \<Longrightarrow> pid p = pid q \<Longrightarrow> p = q"
  by (auto simp: distinct_map dest: inj_onD)

text \<open>What a successful \<open>setpgid\<close> has checked and done.\<close>

lemma setpgid_check_ok:
  "setpgid_check me n g s = Inr p \<Longrightarrow>
   proc_of s n = Some p \<and> threads s n = Some n \<and> \<not> leader p \<and> 0 \<le> g \<and>
   (session p = session me \<or> pid p = pid me) \<and>
   (g = n \<or> (\<exists>q. group_member s g = Some q \<and> session q = session me))"
  unfolding setpgid_check_def by (auto split: if_splits option.splits)

lemma setpgid_check_error: "setpgid_check me n g s = Inl e \<Longrightarrow> e < 0"
  unfolding setpgid_check_def by (auto split: if_splits option.splits)

lemma setpgid_cases:
  assumes "setpgid H me n g s = (rc, s')"
  defines "n' \<equiv> if n = 0 then pid me else n"
  defines "g' \<equiv> if g = 0 then n' else g"
  shows "rc \<noteq> 0 \<and> s' = s \<or> rc = 0 \<and> (\<exists>p. setpgid_check me n' g' s = Inr p \<and>
     s' = (if pgrp p \<noteq> g' then update_proc n' (\<lambda>p. p\<lparr>pgrp := g'\<rparr>) s else s))"
proof -
  note run = assms(1) [unfolded setpgid_def Let_def, folded n'_def, folded g'_def]
  show ?thesis
proof (cases "setpgid_check me n' g' s")
  case (Inl e)
  then show ?thesis using run setpgid_check_error [OF Inl] by simp
next
  case (Inr p)
  then show ?thesis using run by (cases "task_setpgid H p g' = 0") simp_all
qed
qed

lemma sessions_okI:
  assumes "distinct (map pid ps)"
    and "\<And>a b. a \<in> set ps \<Longrightarrow> b \<in> set ps \<Longrightarrow> pgrp a = pgrp b \<or> pgrp a = pid b \<Longrightarrow> session a = session b"
    and "\<And>a. a \<in> set ps \<Longrightarrow> leader a \<Longrightarrow> session a = pid a \<and> pgrp a = pid a"
  shows "sessions_ok ps"
  unfolding sessions_ok_def using assms by blast

lemma sessions_okD:
  assumes "sessions_ok ps"
  shows "distinct (map pid ps)"
    and "a \<in> set ps \<Longrightarrow> b \<in> set ps \<Longrightarrow> pgrp a = pgrp b \<or> pgrp a = pid b \<Longrightarrow> session a = session b"
    and "a \<in> set ps \<Longrightarrow> leader a \<Longrightarrow> session a = pid a \<and> pgrp a = pid a"
  using assms unfolding sessions_ok_def by blast+

lemma sessions_ok_map:
  assumes "sessions_ok ps" "\<And>a. pid (f a) = pid a"
    and "\<And>a b. a \<in> set ps \<Longrightarrow> b \<in> set ps \<Longrightarrow> pgrp (f a) = pgrp (f b) \<or> pgrp (f a) = pid b \<Longrightarrow>
      session (f a) = session (f b)"
    and "\<And>a. a \<in> set ps \<Longrightarrow> leader (f a) \<Longrightarrow> session (f a) = pid a \<and> pgrp (f a) = pid a"
  shows "sessions_ok (map f ps)"
proof (rule sessions_okI)
  have "map pid (map f ps) = map pid ps" using assms(2) by simp
  then show "distinct (map pid (map f ps))" using sessions_okD(1) [OF assms(1)] by metis
next
  fix a b assume "a \<in> set (map f ps)" "b \<in> set (map f ps)" "pgrp a = pgrp b \<or> pgrp a = pid b"
  then show "session a = session b" using assms(2,3) unfolding set_map by (elim imageE) metis
next
  fix a assume "a \<in> set (map f ps)" "leader a"
  then show "session a = pid a \<and> pgrp a = pid a" using assms(2,4) unfolding set_map by (elim imageE) metis
qed

lemma sessions_ok_regroup:
  assumes "sessions_ok ps" "p \<in> set ps" "\<not> leader p"
    and "g = pid p \<or> (\<exists>q \<in> set ps. pgrp q = g \<and> session q = session p)"
  shows "sessions_ok (map (\<lambda>r. if pid r = pid p then r\<lparr>pgrp := g\<rparr> else r) ps)"
proof (rule sessions_ok_map [OF assms(1)])
  note d = sessions_okD [OF assms(1)]
  have p: "r = p" if "r \<in> set ps" "pid r = pid p" for r
    using same_proc [OF d(1) that(1) assms(2) that(2)] .
  have key: "session r = session p" if "r \<in> set ps" "pgrp r = g \<or> g = pid r" for r
  proof (cases "g = pid p")
    case True
    with that consider "pgrp r = pid p" | "pid r = pid p" by auto
    then show ?thesis
    proof cases
      case 1
      then show ?thesis using d(2) [OF that(1) assms(2)] by blast
    next
      case 2
      then show ?thesis using p [OF that(1)] by blast
    qed
  next
    case False
    then obtain q where q: "q \<in> set ps" "pgrp q = g" "session q = session p" using assms(4) by blast
    have "pgrp r = pgrp q \<or> pgrp q = pid r" using that(2) q(2) by auto
    then have "session r = session q" using d(2) [OF that(1) q(1)] d(2) [OF q(1) that(1)] by auto
    then show ?thesis using q(3) by simp
  qed
  let ?f = "\<lambda>r. if pid r = pid p then r\<lparr>pgrp := g\<rparr> else r"
  fix a b assume ab: "a \<in> set ps" "b \<in> set ps" "pgrp (?f a) = pgrp (?f b) \<or> pgrp (?f a) = pid b"
  show "session (?f a) = session (?f b)"
  proof (cases "pid a = pid p"; cases "pid b = pid p")
    assume "pid a \<noteq> pid p" "pid b \<noteq> pid p"
    then show ?thesis using d(2) [OF ab(1,2)] ab(3) by simp
  next
    assume e: "pid a = pid p" "pid b \<noteq> pid p"
    then have "pgrp b = g \<or> g = pid b" using ab(3) by auto
    then show ?thesis using key [OF ab(2)] p [OF ab(1) e(1)] e by simp
  next
    assume e: "pid a \<noteq> pid p" "pid b = pid p"
    then have "pgrp a = g \<or> pgrp a = pid p" using ab(3) by auto
    then have "session a = session p" using key [OF ab(1)] d(2) [OF ab(1) assms(2)] by blast
    then show ?thesis using p [OF ab(2) e(2)] e by simp
  next
    assume e: "pid a = pid p" "pid b = pid p"
    then show ?thesis using p [OF ab(1) e(1)] p [OF ab(2) e(2)] by simp
  qed
next
  fix a assume a: "a \<in> set ps" "leader (if pid a = pid p then a\<lparr>pgrp := g\<rparr> else a)"
  have "pid a \<noteq> pid p"
    using a same_proc [OF sessions_okD(1) [OF assms(1)] a(1) assms(2)] assms(3) by fastforce
  then show "session (if pid a = pid p then a\<lparr>pgrp := g\<rparr> else a) = pid a \<and>
      pgrp (if pid a = pid p then a\<lparr>pgrp := g\<rparr> else a) = pid a"
    using sessions_okD(3) [OF assms(1) a(1)] a(2) by (simp only: if_False if_not_P)
qed simp

lemma special [simp]:
  "session (set_special_pids n p) = n" "pgrp (set_special_pids n p) = n"
  "pid (set_special_pids n p) = pid p" "leader (set_special_pids n p) = leader p"
  by (simp_all add: set_special_pids_def Let_def)

lemma sessions_ok_split:
  assumes "sessions_ok ps" "\<forall>p \<in> set ps. pgrp p \<noteq> n"
  shows "sessions_ok (map (\<lambda>p. if pid p = n
    then (set_special_pids n (p\<lparr>leader := True\<rparr>))\<lparr>tty := False\<rparr> else p) ps)"
proof (rule sessions_ok_map [OF assms(1)])
  let ?f = "\<lambda>p. if pid p = n then (set_special_pids n (p\<lparr>leader := True\<rparr>))\<lparr>tty := False\<rparr> else p"
  fix a b assume ab: "a \<in> set ps" "b \<in> set ps" "pgrp (?f a) = pgrp (?f b) \<or> pgrp (?f a) = pid b"
  have "pgrp a \<noteq> n" "pgrp b \<noteq> n" using assms(2) ab(1,2) by auto
  then show "session (?f a) = session (?f b)"
    using sessions_okD(2) [OF assms(1) ab(1,2)] ab(3)
    by (cases "pid a = n"; cases "pid b = n") simp_all
next
  let ?f = "\<lambda>p. if pid p = n then (set_special_pids n (p\<lparr>leader := True\<rparr>))\<lparr>tty := False\<rparr> else p"
  fix a assume a: "a \<in> set ps" "leader (?f a)"
  show "session (?f a) = pid a \<and> pgrp (?f a) = pid a"
    using sessions_okD(3) [OF assms(1) a(1)] a(2) by (cases "pid a = n") simp_all
qed simp

lemma sessions_ok_fork:
  assumes "sessions_ok ps" "me \<in> set ps" "\<forall>p \<in> set ps. n \<notin> {pid p, pgrp p, session p}"
    and "pid c = n" "pgrp c = pgrp me" "session c = session me" "\<not> leader c"
  shows "sessions_ok (c # ps)"
proof (rule sessions_okI)
  note d = sessions_okD [OF assms(1)]
  show "distinct (map pid (c # ps))" using d(1) assms(3,4) by auto
  have old: "session c = session b" if "b \<in> set ps" "pgrp c = pgrp b \<or> pgrp c = pid b" for b
    using d(2) [OF assms(2) that(1)] that(2) assms(5,6) by simp
  fix a b assume ab: "a \<in> set (c # ps)" "b \<in> set (c # ps)" "pgrp a = pgrp b \<or> pgrp a = pid b"
  consider "a = c" "b = c" | "a = c" "b \<in> set ps" | "a \<in> set ps" "b = c" | "a \<in> set ps" "b \<in> set ps"
    using ab(1,2) by auto
  then show "session a = session b"
  proof cases
    case 3
    then have "pgrp a = pgrp me" using ab(3) assms(3,4,5) by auto
    then show ?thesis using d(2) [OF 3(1) assms(2)] 3(2) assms(6) by simp
  qed (use old ab(3) d(2) in \<open>blast+\<close>)
next
  fix a assume "a \<in> set (c # ps)" "leader a"
  then show "session a = pid a \<and> pgrp a = pid a" using sessions_okD(3) [OF assms(1)] assms(7) by auto
qed

lemma sessions_ok_setpgid:
  assumes "sessions_ok (procs s)" "me \<in> set (procs s)"
  shows "sessions_ok (procs (snd (setpgid H me n g s)))"
proof -
  obtain rc s' where r: "setpgid H me n g s = (rc, s')" by fastforce
  define n' where "n' = (if n = 0 then pid me else n)"
  define g' where "g' = (if g = 0 then n' else g)"
  have "s' = s \<or> (\<exists>p. setpgid_check me n' g' s = Inr p \<and> s' = update_proc n' (\<lambda>p. p\<lparr>pgrp := g'\<rparr>) s)"
    using setpgid_cases [OF r, folded n'_def, folded g'_def] by (auto split: if_splits)
  then show ?thesis
  proof
    assume "\<exists>p. setpgid_check me n' g' s = Inr p \<and> s' = update_proc n' (\<lambda>p. p\<lparr>pgrp := g'\<rparr>) s"
    then obtain p where 1: "setpgid_check me n' g' s = Inr p"
      and 2: "s' = update_proc n' (\<lambda>p. p\<lparr>pgrp := g'\<rparr>) s" by blast
    note c = setpgid_check_ok [OF 1]
    have p: "p \<in> set (procs s)" "pid p = n'" using c find_some [of _ "procs s" p] by (auto simp: proc_of_def)
    have "distinct (map pid (procs s))" using assms(1) by (simp add: sessions_ok_def)
    then have sm: "session p = session me" using c same_proc [OF _ p(1) assms(2)] by blast
    have "\<exists>q \<in> set (procs s). pgrp q = g' \<and> session q = session p" if ne: "g' \<noteq> n'"
    proof -
      obtain q where q: "group_member s g' = Some q" "session q = session me"
        using c ne by blast
      note find_some [OF q(1) [unfolded group_member_def]]
      then show ?thesis using q(2) sm by (intro bexI [of _ q]) simp_all
    qed
    then have "g' = pid p \<or> (\<exists>q \<in> set (procs s). pgrp q = g' \<and> session q = session p)"
      using p(2) by blast
    from sessions_ok_regroup [OF assms(1) p(1) _ this] c
    show ?thesis by (simp add: r 2 update_proc_def p(2))
  qed (simp add: r assms)
qed

lemma sessions_ok_setsid:
  assumes "sessions_ok (procs s)" "me \<in> set (procs s)"
  shows "sessions_ok (procs (snd (setsid me s)))"
proof (cases "leader me \<or> group_member s (pid me) \<noteq> None")
  case False
  then have "\<forall>p \<in> set (procs s). pgrp p \<noteq> pid me" by (auto simp: group_member_def find_none)
  from sessions_ok_split [OF assms(1) this] False show ?thesis by (simp add: setsid_def Let_def update_proc_def)
qed (use assms in \<open>auto simp: setsid_def Let_def\<close>)

lemma sessions_ok_step:
  assumes "sessions_ok (procs s)" "table_step H s t"
  shows "sessions_ok (procs t)"
  using assms(2)
proof cases
  case (fork me n)
  have "sessions_ok (me\<lparr>pid := n, real_parent := pid me, leader := False, forknoexec := True\<rparr> # procs s)"
    by (rule sessions_ok_fork [OF assms(1) fork(2,3)]) simp_all
  then show ?thesis using fork(1) by simp
next
  case (exit n)
  have "sessions_ok (filter (\<lambda>p. pid p \<noteq> n) (procs s))"
  proof (rule sessions_okI)
    show "distinct (map pid (filter (\<lambda>p. pid p \<noteq> n) (procs s)))"
      using sessions_okD(1) [OF assms(1)] by (rule distinct_map_filter)
  qed (use sessions_okD(2,3) [OF assms(1)] in \<open>simp only: set_filter mem_Collect_eq; blast\<close>)+
  then show ?thesis using exit by simp
next
  case (others th y x f)
  have "sessions_ok (map (\<lambda>p. p\<lparr>real_parent := f p, forknoexec := x p, tty := y p\<rparr>) (procs s))"
  proof (rule sessions_ok_map [OF assms(1)])
    fix a b
    let ?f = "\<lambda>p. p\<lparr>real_parent := f p, forknoexec := x p, tty := y p\<rparr>"
    assume "a \<in> set (procs s)" "b \<in> set (procs s)" "pgrp (?f a) = pgrp (?f b) \<or> pgrp (?f a) = pid b"
    then show "session (?f a) = session (?f b)" using sessions_okD(2) [OF assms(1), of a b] by simp
  next
    fix a
    let ?f = "\<lambda>p. p\<lparr>real_parent := f p, forknoexec := x p, tty := y p\<rparr>"
    assume "a \<in> set (procs s)" "leader (?f a)"
    then show "session (?f a) = pid a \<and> pgrp (?f a) = pid a"
      using sessions_okD(3) [OF assms(1), of a] by simp
  qed simp
  then show ?thesis using others by simp
qed (simp_all add: sessions_ok_setpgid sessions_ok_setsid assms(1))

interpretation sessions: preserved_invariant "table_step H" "\<lambda>s. sessions_ok (procs s)" for H
  by unfold_locales (rule sessions_ok_step)

lemma find_map_pid:
  "(\<And>p. pid (f p) = pid p) \<Longrightarrow> find (\<lambda>p. pid p = n) (map f ps) = map_option f (find (\<lambda>p. pid p = n) ps)"
  by (induction ps) auto

lemma proc_of_update: "(\<And>p. pid (f p) = pid p) \<Longrightarrow>
    proc_of (update_proc n f s) m = (if m = n then map_option f (proc_of s m) else proc_of s m)"
proof -
  assume f: "\<And>p. pid (f p) = pid p"
  have "proc_of (update_proc n f s) m = map_option (\<lambda>p. if pid p = n then f p else p) (proc_of s m)"
    unfolding proc_of_def update_proc_def by (simp add: find_map_pid f)
  moreover have "\<And>p. proc_of s m = Some p \<Longrightarrow> pid p = m"
    unfolding proc_of_def by (auto dest: find_some)
  ultimately show ?thesis by (cases "proc_of s m") auto
qed

lemma image_replace:
  assumes "x \<in> A" "\<And>p. p \<in> A \<Longrightarrow> pid p = pid x \<Longrightarrow> p = x"
  shows "(\<lambda>p. if pid p = pid x then f p else p) ` A = insert (f x) {p \<in> A. pid p \<noteq> pid x}" (is "?g ` A = ?B")
proof (intro equalityI subsetI)
  fix y assume "y \<in> ?g ` A"
  then obtain p where p: "p \<in> A" "y = ?g p" by blast
  show "y \<in> ?B"
  proof (cases "pid p = pid x")
    case True
    then have "p = x" by (rule assms(2) [OF p(1)])
    then show ?thesis using p(2) by simp
  qed (use p in simp)
next
  fix y assume "y \<in> ?B"
  then consider "y = ?g x" | "y \<in> A" "y = ?g y" by force
  then show "y \<in> ?g ` A" using assms(1) by cases blast+
qed

subsection \<open>Properties\<close>


definition shell :: proc where
  "shell = \<lparr>pid = 10, real_parent = 1, session = 10, pgrp = 10, leader = True, forknoexec = False, tty = True\<rparr>"

definition child :: proc where
  "child = \<lparr>pid = 20, real_parent = 10, session = 10, pgrp = 10, leader = False, forknoexec = True, tty = True\<rparr>"

definition two_procs :: table where
  "two_procs = \<lparr>procs = [shell, child], threads = [10 \<mapsto> 10, 20 \<mapsto> 20]\<rparr>"

definition allowing :: session_hooks where
  "allowing = \<lparr>task_setpgid = (\<lambda>p g. 0), task_getpgid = (\<lambda>p. 0), task_getsid = (\<lambda>p. 0)\<rparr>"

lemma two_procs_ok: "sessions_ok (procs two_procs)"
  by (simp add: sessions_ok_def two_procs_def shell_def child_def)


text \<open>
  \<open>setsid\<close> fails with \<open>-EPERM\<close> and no effect exactly when the caller leads a session or a process
  is in the group with its number; otherwise it returns that number, the caller alone leads the new
  group, leads the session, and has no terminal, and no other process changes.
\<close>

theorem setsid_correct:
  assumes "sessions_ok (procs s)" "me \<in> set (procs s)"
  shows "if leader me \<or> (\<exists>p \<in> set (procs s). pgrp p = pid me) then setsid me s = (- EPERM, s)
    else \<exists>s'. setsid me s = (pid me, s') \<and> threads s' = threads s \<and>
      (\<forall>p. p \<in> set (procs s') \<longleftrightarrow>
        p = me\<lparr>session := pid me, pgrp := pid me, leader := True, tty := False\<rparr> \<or>
        p \<in> set (procs s) \<and> pid p \<noteq> pid me) \<and>
      (\<forall>p \<in> set (procs s'). pgrp p = pid me \<longrightarrow> pid p = pid me)"
proof (cases "leader me \<or> (\<exists>p \<in> set (procs s). pgrp p = pid me)")
  case True
  then show ?thesis by (auto simp: setsid_def Let_def group_member_def find_none)
next
  case False
  let ?f = "\<lambda>p. (set_special_pids (pid me) (p\<lparr>leader := True\<rparr>))\<lparr>tty := False\<rparr>"
  have n: "group_member s (pid me) = None" using False by (simp add: group_member_def find_none)
  have s': "setsid me s = (pid me, update_proc (pid me) ?f s)"
    using False n by (simp add: setsid_def Let_def)
  have me: "p = me" if "p \<in> set (procs s)" "pid p = pid me" for p
    using same_proc [OF sessions_okD(1) [OF assms(1)] that(1) assms(2) that(2)] .
  have fm: "?f me = me\<lparr>session := pid me, pgrp := pid me, leader := True, tty := False\<rparr>"
    by (simp add: set_special_pids_def Let_def)
  have st: "set (procs (update_proc (pid me) ?f s)) = insert (?f me) {p \<in> set (procs s). pid p \<noteq> pid me}"
    using image_replace [OF assms(2) me, of ?f] by (simp add: update_proc_def)
  have "\<forall>p \<in> set (procs (update_proc (pid me) ?f s)). pgrp p = pid me \<longrightarrow> pid p = pid me"
    unfolding st using False by auto
  moreover have "threads (update_proc (pid me) ?f s) = threads s" by (simp add: update_proc_def)
  moreover have "\<forall>p. p \<in> set (procs (update_proc (pid me) ?f s)) \<longleftrightarrow>
      p = me\<lparr>session := pid me, pgrp := pid me, leader := True, tty := False\<rparr> \<or>
      p \<in> set (procs s) \<and> pid p \<noteq> pid me"
    unfolding st fm insert_iff mem_Collect_eq by blast
  ultimately show ?thesis unfolding if_not_P [OF False] using s' by blast
qed

lemma setsid_correct_witness:
  "setsid shell two_procs = (- EPERM, two_procs)"
  using setsid_correct [OF two_procs_ok, of shell] by (simp add: two_procs_def shell_def)

text \<open>
  After a successful \<open>setpgid\<close> (0 standing for the caller, and for the process's own number)
  \<open>getpgid\<close> of the process returns the group given, and no other process has changed; a \<open>setpgid\<close> that
  fails changes nothing.
\<close>

theorem setpgid_roundtrip:
  assumes "setpgid H me n g s = (rc, s')" "\<forall>p. task_getpgid H p = 0"
  shows "if rc = 0 then
      (let n' = (if n = 0 then pid me else n) in n' \<noteq> 0 \<longrightarrow>
        getpgid H me n' s' = (if g = 0 then n' else g) \<and>
        (\<forall>m. m \<noteq> n' \<longrightarrow> proc_of s' m = proc_of s m))
    else s' = s"
proof -
  define n' where "n' = (if n = 0 then pid me else n)"
  define g' where "g' = (if g = 0 then n' else g)"
  consider "rc \<noteq> 0" "s' = s" | p where "rc = 0" "setpgid_check me n' g' s = Inr p"
      "s' = (if pgrp p \<noteq> g' then update_proc n' (\<lambda>p. p\<lparr>pgrp := g'\<rparr>) s else s)"
    using setpgid_cases [OF assms(1), folded n'_def, folded g'_def] by blast
  then show ?thesis
  proof cases
    case 2
    note c = setpgid_check_ok [OF 2(2)]
    have t: "threads s' n' = Some n'" using c 2(3) by (simp add: update_proc_def)
    have p: "proc_of s' n' = Some (p\<lparr>pgrp := g'\<rparr>)"
      using c 2(3) by (cases "pgrp p = g'") (simp_all add: proc_of_update)
    have "proc_of s' m = proc_of s m" if "m \<noteq> n'" for m
      using 2(3) that by (simp add: proc_of_update)
    then show ?thesis using t p 2(1) assms(2)
      unfolding Let_def n'_def [symmetric] g'_def [symmetric] by (simp add: getpgid_def)
  qed simp
qed

lemma setpgid_roundtrip_witness:
  "getpgid allowing shell 20 (snd (setpgid allowing shell 20 0 two_procs)) = 20"
proof -
  have "setpgid allowing shell 20 0 two_procs = (0, snd (setpgid allowing shell 20 0 two_procs))"
    by (rule prod_eqI) (code_simp, simp)
  from setpgid_roundtrip [OF this] show ?thesis by (simp add: allowing_def)
qed

end
