(* ===== verification/KernelNames.thy ===== *)
theory KernelNames
  imports UartStdio TransitionSystem
begin

text \<open>
  \<open>sys.c\<close>: the names of the system (\<open>sethostname\<close>, \<open>gethostname\<close>, \<open>setdomainname\<close> and the three
  versions of \<open>uname\<close>). Each name is an array of 65 bytes. The text \<open>UTS_RELEASE\<close> and the number
  \<open>LINUX_VERSION_CODE\<close>, which the build generates, the personality and the capability of the caller
  are the record \<open>uts_env\<close>. User memory that is read is the list of the bytes that can be read at the
  address; whether the k-th copy to user memory works is an argument.
\<close>

record new_utsname =
  sysname :: string
  nodename :: string
  release :: string
  version :: string
  machine :: string
  domainname :: string

record uts_env =
  UTS_RELEASE :: string
  LINUX_VERSION_CODE :: nat
  uname26 :: bool
  per_linux32 :: bool
  COMPAT_UTS_MACHINE :: "string option"
  sys_admin :: bool

abbreviation NEW_UTS_LEN :: nat where "NEW_UTS_LEN \<equiv> 64"
abbreviation OLD_UTS_LEN :: nat where "OLD_UTS_LEN \<equiv> 8"

subsection \<open>Setting and getting the names\<close>

text \<open>\<open>memcpy\<close> of the name and \<open>memset\<close> of the rest.\<close>

definition new_name :: "string \<Rightarrow> string" where
  "new_name tmp = tmp @ replicate (NEW_UTS_LEN + 1 - length tmp) NUL"

definition sethostname :: "uts_env \<Rightarrow> string \<Rightarrow> int \<Rightarrow> new_utsname \<Rightarrow> int \<times> new_utsname" where
  "sethostname E name len u =
     (if \<not> sys_admin E then (- EPERM, u)
      else if len < 0 \<or> len > int NEW_UTS_LEN then (- EINVAL, u)
      else if length name < nat len then (- EFAULT, u)
      else (0, u\<lparr>nodename := new_name (take (nat len) name)\<rparr>))"

definition setdomainname :: "uts_env \<Rightarrow> string \<Rightarrow> int \<Rightarrow> new_utsname \<Rightarrow> int \<times> new_utsname" where
  "setdomainname E name len u =
     (if \<not> sys_admin E then (- EPERM, u)
      else if len < 0 \<or> len > int NEW_UTS_LEN then (- EINVAL, u)
      else if length name < nat len then (- EFAULT, u)
      else (0, u\<lparr>domainname := new_name (take (nat len) name)\<rparr>))"

text \<open>The code and what is stored; \<open>room\<close> bytes can be written at the address. \<open>None\<close>: \<open>strlen\<close> runs
  past the array.\<close>

definition gethostname :: "nat \<Rightarrow> int \<Rightarrow> new_utsname \<Rightarrow> (int \<times> string) option" where
  "gethostname room len u =
     (if len < 0 then Some (- EINVAL, [])
      else do { s \<leftarrow> text_at (nodename u);
        let i = 1 + int (length s);
        let i = (if i > len then len else i);
        Some (if room < nat i then (- EFAULT, []) else (0, take (nat i) (nodename u))) })"

subsection \<open>The release shown to old programs\<close>

definition isdigit :: "char \<Rightarrow> bool" where
  "isdigit c \<longleftrightarrow> 48 \<le> (of_char c :: nat) \<and> (of_char c :: nat) \<le> 57"

text \<open>The loop over \<open>rest\<close>, with the number of dots seen.\<close>

fun skip_version :: "nat \<Rightarrow> string \<Rightarrow> string" where
  "skip_version ndots [] = []"
| "skip_version ndots (c # cs) =
     (if c = CHR ''.'' \<and> ndots + 1 \<ge> 3 then c # cs
      else if \<not> isdigit c \<and> c \<noteq> CHR ''.'' then c # cs
      else skip_version (if c = CHR ''.'' then ndots + 1 else ndots) cs)"

text \<open>The bytes copied to the field of \<open>len\<close> bytes.\<close>

definition release_bytes :: "uts_env \<Rightarrow> nat \<Rightarrow> string" where
  "release_bytes E len =
     (let rest = skip_version 0 (UTS_RELEASE E);
          v = (LINUX_VERSION_CODE E div 256) mod 256 + 60;
          copy = max 1 (min len 65) in
      take (copy - 1) (''2.6.'' @ digits 10 v @ rest) @ [NUL])"

text \<open>The field afterwards; \<open>None\<close>: the copy failed.\<close>

definition override_release :: "uts_env \<Rightarrow> bool \<Rightarrow> string \<Rightarrow> string option" where
  "override_release E copy_ok dest =
     (if uname26 E then (if copy_ok then poke dest 0 (release_bytes E (length dest)) else None)
      else Some dest)"

definition override_architecture :: "uts_env \<Rightarrow> bool \<Rightarrow> string \<Rightarrow> string option" where
  "override_architecture E copy_ok dest =
     (case COMPAT_UTS_MACHINE E of
        None \<Rightarrow> Some dest
      | Some m \<Rightarrow> if per_linux32 E then (if copy_ok then poke dest 0 (m @ [NUL]) else None) else Some dest)"

definition newuname :: "uts_env \<Rightarrow> (nat \<Rightarrow> bool) \<Rightarrow> new_utsname \<Rightarrow> int \<times> new_utsname option" where
  "newuname E copy_ok u =
     (if \<not> copy_ok 0 then (- EFAULT, None)
      else case override_release E (copy_ok 1) (release u) of
        None \<Rightarrow> (- EFAULT, Some u)
      | Some r \<Rightarrow> (let n = u\<lparr>release := r\<rparr> in
          case override_architecture E (copy_ok 2) (machine n) of
            None \<Rightarrow> (- EFAULT, Some n)
          | Some m \<Rightarrow> (0, Some (n\<lparr>machine := m\<rparr>))))"

text \<open>The five fields of \<open>struct old_utsname\<close>: all but the domain name.\<close>

definition uname :: "uts_env \<Rightarrow> bool \<Rightarrow> (nat \<Rightarrow> bool) \<Rightarrow> new_utsname \<Rightarrow> int \<times> string list" where
  "uname E name_null copy_ok u =
     (let fields = (\<lambda>n. [sysname n, nodename n, release n, version n, machine n]) in
      if name_null then (- EFAULT, [])
      else if \<not> copy_ok 0 then (- EFAULT, [])
      else case override_release E (copy_ok 1) (release u) of
        None \<Rightarrow> (- EFAULT, fields u)
      | Some r \<Rightarrow> (let n = u\<lparr>release := r\<rparr> in
          case override_architecture E (copy_ok 2) (machine n) of
            None \<Rightarrow> (- EFAULT, fields n)
          | Some m \<Rightarrow> (0, fields (n\<lparr>machine := m\<rparr>))))"

text \<open>\<open>struct oldold_utsname\<close>: the fields have 9 bytes; all ten stores are made, whatever fails.\<close>

definition olduname :: "uts_env \<Rightarrow> bool \<Rightarrow> bool \<Rightarrow> (nat \<Rightarrow> bool) \<Rightarrow> new_utsname \<Rightarrow> int \<times> string list" where
  "olduname E name_null access copy_ok u =
     (if name_null then (- EFAULT, [])
      else if \<not> access then (- EFAULT, [])
      else
        let short = (\<lambda>f. take OLD_UTS_LEN f @ [NUL]);
            error = (\<exists>k \<in> {..<10}. \<not> copy_ok k);
            front = map short [sysname u, nodename u];
            rel = short (release u); ver = short (version u); mach = short (machine u) in
        if error then (- EFAULT, [])
        else case override_architecture E (copy_ok 10) mach of
          None \<Rightarrow> (- EFAULT, front @ [rel, ver, mach])
        | Some m \<Rightarrow>
            (case override_release E (copy_ok 11) rel of
               None \<Rightarrow> (- EFAULT, front @ [rel, ver, m])
             | Some r \<Rightarrow> (0, front @ [r, ver, m])))"

subsection \<open>The names stay terminated\<close>

text \<open>Any caller, with or without the capability, may try to set a name.\<close>

inductive names_step :: "new_utsname \<Rightarrow> new_utsname \<Rightarrow> bool" where
  host: "names_step u (snd (sethostname E name len u))"
| domain: "names_step u (snd (setdomainname E name len u))"

definition names_ok :: "new_utsname \<Rightarrow> bool" where
  "names_ok u \<longleftrightarrow> length (nodename u) = 65 \<and> last (nodename u) = NUL \<and>
     length (domainname u) = 65 \<and> last (domainname u) = NUL"

lemma new_name_ok: "length s \<le> 64 \<Longrightarrow> length (new_name s) = 65 \<and> last (new_name s) = NUL"
  by (simp add: new_name_def last_replicate)

lemma names_ok_step: "names_ok u \<Longrightarrow> names_step u v \<Longrightarrow> names_ok v"
  by (erule names_step.cases) (auto simp: names_ok_def sethostname_def setdomainname_def new_name_ok)

interpretation names: preserved_invariant names_step names_ok
  by unfold_locales (rule names_ok_step)

lemma text_at_last: "s \<noteq> [] \<Longrightarrow> last s = NUL \<Longrightarrow> \<exists>t. text_at s = Some t \<and> length t < length s"
proof (induction s)
  case (Cons c s)
  then show ?case by (cases "s = []") auto
qed simp

lemma text_at_prefix: "text_at s = Some t \<Longrightarrow> take (length t) s = t \<and> NUL \<notin> set t \<and> length t < length s"
  by (induction s arbitrary: t) (auto split: if_splits)

lemma text_at_new_name: "length s \<le> 64 \<Longrightarrow> NUL \<notin> set s \<Longrightarrow> text_at (new_name s) = Some s"
proof -
  assume a: "length s \<le> 64" "NUL \<notin> set s"
  then have "new_name s = s @ NUL # replicate (64 - length s) NUL"
    using replicate_Suc [of "64 - length s" NUL] by (simp add: new_name_def Suc_diff_le [symmetric])
  then show ?thesis using a(2) by simp
qed

subsection \<open>The release\<close>

text \<open>What is skipped: digits and at most two dots.\<close>

lemma skip_version_split:
  "n \<le> 2 \<Longrightarrow> \<exists>v. s = v @ skip_version n s \<and> (\<forall>c \<in> set v. isdigit c \<or> c = CHR ''.'') \<and>
     count_list v CHR ''.'' + n \<le> 2 \<and>
     (skip_version n s = [] \<or> \<not> isdigit (hd (skip_version n s)) \<and>
       (hd (skip_version n s) = CHR ''.'' \<longrightarrow> count_list v CHR ''.'' + n = 2))"
proof (induction s arbitrary: n)
  case (Cons c s)
  have dot: "\<not> isdigit CHR ''.''" by (simp add: isdigit_def)
  consider "c = CHR ''.''" "n = 2" | "c \<noteq> CHR ''.''" "\<not> isdigit c"
    | "c = CHR ''.''" "n < 2" | "isdigit c" "c \<noteq> CHR ''.''" using Cons.prems dot by fastforce
  then show ?case
  proof cases
    case 1
    then show ?thesis by (intro exI [of _ "[]"]) (simp add: dot)
  next
    case 2
    then show ?thesis using Cons.prems by (intro exI [of _ "[]"]) simp
  next
    case 3
    then have e: "skip_version n (c # s) = skip_version (n + 1) s" by (simp add: dot)
    obtain v where "s = v @ skip_version (n + 1) s" "\<forall>c \<in> set v. isdigit c \<or> c = CHR ''.''"
      "count_list v CHR ''.'' + (n + 1) \<le> 2"
      "skip_version (n + 1) s = [] \<or> \<not> isdigit (hd (skip_version (n + 1) s)) \<and>
       (hd (skip_version (n + 1) s) = CHR ''.'' \<longrightarrow> count_list v CHR ''.'' + (n + 1) = 2)"
      using Cons.IH [of "n + 1"] 3(2) by auto
    then show ?thesis unfolding e using 3 by (intro exI [of _ "c # v"]) auto
  next
    case 4
    then have e: "skip_version n (c # s) = skip_version n s" by simp
    obtain v where "s = v @ skip_version n s" "\<forall>c \<in> set v. isdigit c \<or> c = CHR ''.''"
      "count_list v CHR ''.'' + n \<le> 2"
      "skip_version n s = [] \<or> \<not> isdigit (hd (skip_version n s)) \<and>
       (hd (skip_version n s) = CHR ''.'' \<longrightarrow> count_list v CHR ''.'' + n = 2)"
      using Cons.IH [OF Cons.prems] by auto
    then show ?thesis unfolding e using 4 by (intro exI [of _ "c # v"]) auto
  qed
qed simp

lemma release_bytes_fit: "0 < len \<Longrightarrow> length (release_bytes E len) \<le> len"
  by (auto simp: release_bytes_def Let_def)

subsection \<open>Properties\<close>

text \<open>
  Host name: a privileged \<open>sethostname\<close> of \<open>len\<close> readable bytes without NUL, for \<open>len\<close> from 0 to
  64, succeeds; \<open>gethostname\<close> into \<open>n\<close> bytes then stores the name and its terminator if they fit, and
  the first \<open>n\<close> bytes of the name otherwise; it does not change the domain name. Any other length and
  any caller without \<open>CAP_SYS_ADMIN\<close> is refused without effect.
\<close>

theorem hostname_roundtrip:
  shows "(sys_admin E \<and> length name \<le> 64 \<and> NUL \<notin> set name \<longrightarrow>
      (\<exists>v. sethostname E (name @ rest) (int (length name)) u = (0, v) \<and> domainname v = domainname u \<and>
        (n \<le> room \<longrightarrow> gethostname room (int n) v = Some (0, take n (name @ [NUL]))))) \<and>
    (\<not> sys_admin E \<or> len < 0 \<or> 64 < len \<longrightarrow>
      (\<exists>e < 0. sethostname E any len u = (e, u)))"
proof
  show "sys_admin E \<and> length name \<le> 64 \<and> NUL \<notin> set name \<longrightarrow>
      (\<exists>v. sethostname E (name @ rest) (int (length name)) u = (0, v) \<and> domainname v = domainname u \<and>
        (n \<le> room \<longrightarrow> gethostname room (int n) v = Some (0, take n (name @ [NUL]))))"
  proof
    assume True: "sys_admin E \<and> length name \<le> 64 \<and> NUL \<notin> set name"
    let ?v = "u\<lparr>nodename := new_name name\<rparr>"
    have t: "text_at (new_name name) = Some name" using True text_at_new_name by blast
    have "take m (new_name name) = take m (name @ [NUL])" if "m \<le> length name + 1" for m
    proof -
      have "new_name name = (name @ [NUL]) @ replicate (64 - length name) NUL"
        using True replicate_Suc [of "64 - length name" NUL]
        by (simp add: new_name_def Suc_diff_le [symmetric])
      then show ?thesis using that by (simp only: take_append) simp
    qed
    note pre = this
    have "gethostname room (int n) ?v = Some (0, take n (name @ [NUL]))" if "n \<le> room"
    proof (cases "length name + 1 \<le> n")
      case True
      then have "\<not> room < length name + 1" using that by simp
      then show ?thesis using True t pre [of "length name + 1"] by (auto simp: gethostname_def nat_add_distrib)
    next
      case False
      then show ?thesis using that t pre [of n] by (simp add: gethostname_def)
    qed
    moreover have "sethostname E (name @ rest) (int (length name)) u = (0, ?v)"
      using True by (simp add: sethostname_def)
    ultimately show "\<exists>v. sethostname E (name @ rest) (int (length name)) u = (0, v) \<and>
        domainname v = domainname u \<and>
        (n \<le> room \<longrightarrow> gethostname room (int n) v = Some (0, take n (name @ [NUL])))" by simp
  qed
  show "\<not> sys_admin E \<or> len < 0 \<or> 64 < len \<longrightarrow> (\<exists>e < 0. sethostname E any len u = (e, u))"
    by (auto simp: sethostname_def)
qed

definition plain_uts :: uts_env where
  "plain_uts = \<lparr>UTS_RELEASE = ''4.12.0-rc3'', LINUX_VERSION_CODE = 265216, uname26 = True,
     per_linux32 = False, COMPAT_UTS_MACHINE = Some ''i686'', sys_admin = True\<rparr>"

definition plain_names :: new_utsname where
  "plain_names = \<lparr>sysname = new_name ''Linux'', nodename = new_name ''beagle'',
     release = new_name ''4.12.0-rc3'', version = new_name ''#1'', machine = new_name ''armv7l'',
     domainname = new_name ''(none)''\<rparr>"

lemma hostname_roundtrip_witness:
  "gethostname 10 4 (snd (sethostname plain_uts ''beaglebone'' 10 plain_names)) = Some (0, ''beag'')"
proof -
  have "sys_admin plain_uts" by (simp add: plain_uts_def)
  with hostname_roundtrip [of plain_uts "''beaglebone''" "[]" plain_names 4 10 0 "[]"]
  show ?thesis by auto
qed

text \<open>
  C40. In every sequence of attempts to set the host and domain names, by callers with or without the
  capability and with any lengths, both arrays keep their 65 bytes with a NUL at the end, so
  \<open>gethostname\<close> never reads past the array and never stores more than asked.
\<close>

theorem names_stay_terminated:
  assumes "names_ok u" "names_step\<^sup>*\<^sup>* u v"
  shows "length (nodename v) = 65 \<and> last (nodename v) = NUL \<and>
    length (domainname v) = 65 \<and> last (domainname v) = NUL \<and>
    (\<exists>e s. gethostname room len v = Some (e, s) \<and> int (length s) \<le> max 0 len)"
proof -
  have o: "names_ok v" using names.inv_steps [OF assms(2,1)] .
  then have "nodename v \<noteq> []" "last (nodename v) = NUL" by (auto simp: names_ok_def)
  then obtain t where t: "text_at (nodename v) = Some t" using text_at_last by blast
  have "\<exists>e s. gethostname room len v = Some (e, s) \<and> int (length s) \<le> max 0 len"
    by (cases "len < 0") (auto simp: gethostname_def t Let_def of_nat_min min.coboundedI2)
  then show ?thesis using o by (auto simp: names_ok_def)
qed

lemma names_stay_terminated_witness:
  "length (nodename (snd (sethostname plain_uts (replicate 80 CHR ''x'') 64 plain_names))) = 65"
proof -
  have "names_ok plain_names" by (simp add: names_ok_def plain_names_def new_name_ok)
  moreover have "names_step\<^sup>*\<^sup>* plain_names (snd (sethostname plain_uts (replicate 80 CHR ''x'') 64 plain_names))"
    by (rule r_into_rtranclp, rule host)
  ultimately show ?thesis using names_stay_terminated by blast
qed

text \<open>
  The release for programs that cannot handle later versions: with the personality set,
  \<open>newuname\<close> gives as the release the text 2.6., the minor version plus 60 and the part of the
  kernel's release after its version (digits and at most two dots), cut to the 64 characters of the
  field; the old calls give its first 64 and 8 characters; every other field is unchanged.
\<close>

theorem release_overridden:
  assumes "uname26 E" "NUL \<notin> set (UTS_RELEASE E)" "\<forall>k. ok k" "\<not> per_linux32 E"
    and "length (release u) = 65" "length (machine u) = 65"
  shows "\<exists>v rest r r9. UTS_RELEASE E = v @ rest \<and> (\<forall>c \<in> set v. isdigit c \<or> c = CHR ''.'') \<and>
    count_list v CHR ''.'' \<le> 2 \<and>
    (rest = [] \<or> \<not> isdigit (hd rest) \<and> (hd rest = CHR ''.'' \<longrightarrow> count_list v CHR ''.'' = 2)) \<and>
    newuname E ok u = (0, Some (u\<lparr>release := r\<rparr>)) \<and> length r = 65 \<and>
    text_at r = Some (take 64 (''2.6.'' @ digits 10 (LINUX_VERSION_CODE E div 256 mod 256 + 60) @ rest)) \<and>
    uname E False ok u = (0, [sysname u, nodename u, r, version u, machine u]) \<and>
    snd (olduname E False True ok u) ! 2 = r9 \<and> length r9 = 9 \<and>
    text_at r9 = Some (take 8 (''2.6.'' @ digits 10 (LINUX_VERSION_CODE E div 256 mod 256 + 60) @ rest))"
proof -
  let ?rest = "skip_version 0 (UTS_RELEASE E)"
  let ?t = "''2.6.'' @ digits 10 (LINUX_VERSION_CODE E div 256 mod 256 + 60) @ ?rest"
  obtain v where v: "UTS_RELEASE E = v @ ?rest" "\<forall>c \<in> set v. isdigit c \<or> c = CHR ''.''"
    "count_list v CHR ''.'' \<le> 2"
    "?rest = [] \<or> \<not> isdigit (hd ?rest) \<and> (hd ?rest = CHR ''.'' \<longrightarrow> count_list v CHR ''.'' = 2)"
    using skip_version_split [of 0 "UTS_RELEASE E"] by auto
  have "set ?rest \<subseteq> set (UTS_RELEASE E)" by (subst (2) v(1)) auto
  then have nul: "NUL \<notin> set ?t" using assms(2) digits_plain by auto
  have field: "\<exists>r. poke dest 0 (release_bytes E n) = Some r \<and> length r = n \<and> text_at r = Some (take (n - 1) ?t)"
    if "length dest = n" "0 < n" "n \<le> 65" for dest n
  proof -
    have b: "release_bytes E n = take (n - 1) ?t @ [NUL]"
      using that by (simp add: release_bytes_def Let_def)
    have "NUL \<notin> set (take (n - 1) ?t)" using nul in_set_takeD by metis
    moreover have "length (take (n - 1) ?t) < length dest" using that by simp
    ultimately show ?thesis unfolding b using poke_start [of "take (n - 1) ?t" dest] that(1) by auto
  qed
  obtain r where r: "poke (release u) 0 (release_bytes E 65) = Some r" "length r = 65"
    "text_at r = Some (take 64 ?t)" using field [OF assms(5)] by auto
  let ?rel = "take 8 (release u) @ [NUL]"
  have l: "length ?rel = 9" using assms(5) by simp
  obtain r9 where r9: "poke ?rel 0 (release_bytes E 9) = Some r9" "length r9 = 9"
    "text_at r9 = Some (take 8 ?t)" using field [OF l] by auto
  have arch: "override_architecture E True m = Some m" for m
    using assms(4) by (simp add: override_architecture_def split: option.split)
  have rel: "override_release E True (release u) = Some r" "override_release E True ?rel = Some r9"
    using r(1) r9(1) assms(1,5) l by (simp_all add: override_release_def del: poke.simps)
  have "newuname E ok u = (0, Some (u\<lparr>release := r\<rparr>))"
    using assms(3) by (simp add: newuname_def rel arch Let_def)
  moreover have "uname E False ok u = (0, [sysname u, nodename u, r, version u, machine u])"
    using assms(3) by (simp add: uname_def rel arch Let_def)
  moreover have "snd (olduname E False True ok u) ! 2 = r9"
    using assms(3) by (simp add: olduname_def rel arch Let_def)
  ultimately show ?thesis using v r(2,3) r9(2,3) by blast
qed

lemma release_overridden_witness:
  "\<exists>r. newuname plain_uts (\<lambda>k. True) plain_names = (0, Some (plain_names\<lparr>release := r\<rparr>)) \<and>
     length r = 65"
proof -
  have "NUL \<notin> set (UTS_RELEASE plain_uts)" "uname26 plain_uts" "\<not> per_linux32 plain_uts"
    by (simp_all add: plain_uts_def)
  moreover have "length (release plain_names) = 65" "length (machine plain_names) = 65"
    by (simp_all add: plain_names_def new_name_ok)
  ultimately show ?thesis using release_overridden [of plain_uts "\<lambda>k. True" plain_names] by blast
qed

end
