(* ===== verification/KernelMemory.thy ===== *)
theory KernelMemory
  imports TransitionSystem
begin

text \<open>
  \<open>sys.c\<close>: the calls that let a process change what the kernel records about its memory
  (\<open>prctl(PR_SET_MM, ...)\<close>): the bounds of code, data, heap, stack, arguments and environment, the
  saved auxiliary vector and the link to the executable file. The services of the rest of the
  kernel and the user memory are the record \<open>mem_env\<close>; an address in user memory that cannot be
  read or written is \<open>None\<close> or a false flag.
\<close>

subsection \<open>Data\<close>

text \<open>The eleven bounds, shared by the map a process passes in and the kernel's own record.\<close>

record mm_fields =
  start_code :: u64
  end_code :: u64
  start_data :: u64
  end_data :: u64
  start_brk :: u64
  brk :: u64
  start_stack :: u64
  arg_start :: u64
  arg_end :: u64
  env_start :: u64
  env_end :: u64

record prctl_mm_map = mm_fields +
  auxv :: u64
  auxv_size :: u32
  exe_fd :: u32

text \<open>An open file: its path, whether it is a regular file, whether its mount forbids execution and
  the result of \<open>inode_permission(inode, MAY_EXEC)\<close>.\<close>

record open_file =
  f_path :: nat
  f_regular :: bool
  f_noexec :: bool
  f_may_exec :: int

text \<open>\<open>vm_files\<close>: for every mapped area the path of its file, if it has one.\<close>

record mm_struct = mm_fields +
  saved_auxv :: "u8 list"
  exe_file :: "open_file option"
  vm_files :: "nat option list"

record mem_env =
  checkpoint_restore :: bool
  task_size :: u64
  mmap_min_addr :: u64
  at_vector_size :: nat
  map_size :: u64
  data_rlimit :: u64
  check_data_rlimit :: "u64 \<Rightarrow> u64 \<Rightarrow> u64 \<Rightarrow> u64 \<Rightarrow> u64 \<Rightarrow> int"
  cap_sys_admin :: bool
  cap_sys_resource :: bool
  fdget :: "u32 \<Rightarrow> open_file option"
  find_vma :: "u64 \<Rightarrow> bool"
  user_mem :: "u64 \<Rightarrow> u8 option"
  user_map :: "u64 \<Rightarrow> prctl_mm_map option"
  user_write :: "u64 \<Rightarrow> bool"
  stack_bytes :: "u8 list"

abbreviation (input) PR_SET_MM_START_CODE :: int where "PR_SET_MM_START_CODE \<equiv> 1"
abbreviation (input) PR_SET_MM_END_CODE :: int where "PR_SET_MM_END_CODE \<equiv> 2"
abbreviation (input) PR_SET_MM_START_DATA :: int where "PR_SET_MM_START_DATA \<equiv> 3"
abbreviation (input) PR_SET_MM_END_DATA :: int where "PR_SET_MM_END_DATA \<equiv> 4"
abbreviation (input) PR_SET_MM_START_STACK :: int where "PR_SET_MM_START_STACK \<equiv> 5"
abbreviation (input) PR_SET_MM_START_BRK :: int where "PR_SET_MM_START_BRK \<equiv> 6"
abbreviation (input) PR_SET_MM_BRK :: int where "PR_SET_MM_BRK \<equiv> 7"
abbreviation (input) PR_SET_MM_ARG_START :: int where "PR_SET_MM_ARG_START \<equiv> 8"
abbreviation (input) PR_SET_MM_ARG_END :: int where "PR_SET_MM_ARG_END \<equiv> 9"
abbreviation (input) PR_SET_MM_ENV_START :: int where "PR_SET_MM_ENV_START \<equiv> 10"
abbreviation (input) PR_SET_MM_ENV_END :: int where "PR_SET_MM_ENV_END \<equiv> 11"
abbreviation (input) PR_SET_MM_AUXV :: int where "PR_SET_MM_AUXV \<equiv> 12"
abbreviation (input) PR_SET_MM_EXE_FILE :: int where "PR_SET_MM_EXE_FILE \<equiv> 13"
abbreviation (input) PR_SET_MM_MAP :: int where "PR_SET_MM_MAP \<equiv> 14"
abbreviation (input) PR_SET_MM_MAP_SIZE :: int where "PR_SET_MM_MAP_SIZE \<equiv> 15"

text \<open>The size of \<open>saved_auxv\<close> and of the copies on the stack, and a copy from user memory.\<close>

definition auxv_bytes :: "mem_env \<Rightarrow> nat" where
  "auxv_bytes E = 8 * at_vector_size E"

definition user_bytes :: "mem_env \<Rightarrow> u64 \<Rightarrow> nat \<Rightarrow> u8 list option" where
  "user_bytes E addr n = those (map (\<lambda>i. user_mem E (addr + of_nat i)) [0..<n])"

text \<open>The two last entries of the vector become \<open>AT_NULL\<close>.\<close>

definition null_tail :: "mem_env \<Rightarrow> u8 list \<Rightarrow> u8 list" where
  "null_tail E user_auxv = take (auxv_bytes E - 16) user_auxv @ replicate 16 0"

subsection \<open>The executable file\<close>

definition prctl_set_mm_exe_file :: "mem_env \<Rightarrow> u32 \<Rightarrow> mm_struct \<Rightarrow> int \<times> mm_struct" where
  "prctl_set_mm_exe_file E fd mm =
     (case fdget E fd of
        None \<Rightarrow> (- EBADF, mm)
      | Some exe \<Rightarrow>
          if \<not> f_regular exe \<or> f_noexec exe then (- EACCES, mm)
          else if f_may_exec exe \<noteq> 0 then (f_may_exec exe, mm)
          else
            let busy = (case exe_file mm of
                          None \<Rightarrow> False
                        | Some old \<Rightarrow> list_ex (\<lambda>file. file = Some (f_path old)) (vm_files mm)) in
            if busy then (- EBUSY, mm)
            else (0, mm\<lparr>exe_file := Some exe\<rparr>))"

subsection \<open>Checks of a new map\<close>

text \<open>The members in the order of the array \<open>offsets\<close>.\<close>

definition map_members :: "'a mm_fields_scheme \<Rightarrow> u64 list" where
  "map_members m = [start_code m, end_code m, start_data m, end_data m, start_brk m, brk m,
     start_stack m, arg_start m, arg_end m, env_start m, env_end m]"

definition prctl_check_order :: "bool \<Rightarrow> int" where
  "prctl_check_order ordered = (if ordered then 0 else - EINVAL)"

definition validate_prctl_map :: "mem_env \<Rightarrow> prctl_mm_map \<Rightarrow> int" where
  "validate_prctl_map E m =
     (if list_ex (\<lambda>val. val \<ge> task_size E \<or> val < mmap_min_addr E) (map_members m) then - EINVAL
      else
        let error = prctl_check_order (start_code m < end_code m)
                    OR prctl_check_order (start_data m < end_data m)
                    OR prctl_check_order (start_brk m \<le> brk m)
                    OR prctl_check_order (arg_start m \<le> arg_end m)
                    OR prctl_check_order (env_start m \<le> env_end m) in
        if error \<noteq> 0 then error
        else if start_brk m \<le> end_data m \<or> brk m \<le> end_data m then - EINVAL
        else if check_data_rlimit E (data_rlimit E) (brk m) (start_brk m) (end_data m) (start_data m) \<noteq> 0
          then - EINVAL
        else if auxv_size m \<noteq> 0 \<and> (auxv m = 0 \<or> unat (auxv_size m) > auxv_bytes E) then - EINVAL
        else if exe_fd m \<noteq> 0xffffffff \<and> \<not> cap_sys_admin E then - EINVAL
        else 0)"

definition store_map :: "'a mm_fields_scheme \<Rightarrow> 'b mm_fields_scheme \<Rightarrow> 'b mm_fields_scheme" where
  "store_map m mm = mm\<lparr>start_code := start_code m, end_code := end_code m,
     start_data := start_data m, end_data := end_data m, start_brk := start_brk m, brk := brk m,
     start_stack := start_stack m, arg_start := arg_start m, arg_end := arg_end m,
     env_start := env_start m, env_end := env_end m\<rparr>"

subsection \<open>The operations\<close>

text \<open>The whole map at once. First the copy of the vector, \<open>Inr None\<close> when none is passed.\<close>

definition new_auxv :: "mem_env \<Rightarrow> prctl_mm_map \<Rightarrow> int + u8 list option" where
  "new_auxv E m =
     (if auxv_size m = 0 then Inr None
      else let n = unat (auxv_size m) in
        case user_bytes E (auxv m) n of
          None \<Rightarrow> Inl (- EFAULT)
        | Some bytes \<Rightarrow> Inr (Some (null_tail E (bytes @ replicate (auxv_bytes E - n) 0))))"

definition prctl_set_mm_map :: "mem_env \<Rightarrow> int \<Rightarrow> u64 \<Rightarrow> u64 \<Rightarrow> mm_struct \<Rightarrow> int \<times> mm_struct" where
  "prctl_set_mm_map E opt addr data_size mm =
     (if opt = PR_SET_MM_MAP_SIZE then (if user_write E addr then 0 else - EFAULT, mm)
      else if data_size \<noteq> map_size E then (- EINVAL, mm)
      else case user_map E addr of
        None \<Rightarrow> (- EFAULT, mm)
      | Some m \<Rightarrow>
          let error = validate_prctl_map E m in
          if error \<noteq> 0 then (error, mm)
          else case new_auxv E m of
            Inl error \<Rightarrow> (error, mm)
          | Inr user_auxv \<Rightarrow>
              case (if exe_fd m \<noteq> 0xffffffff then prctl_set_mm_exe_file E (exe_fd m) mm else (0, mm)) of
                (error, mm1) \<Rightarrow>
                  if error \<noteq> 0 then (error, mm1)
                  else
                    let mm2 = store_map m mm1 in
                    (0, case user_auxv of None \<Rightarrow> mm2 | Some bytes \<Rightarrow> mm2\<lparr>saved_auxv := bytes\<rparr>))"

text \<open>Only the vector: the buffer on the stack is not cleared first; \<open>len\<close> bytes of it are stored.\<close>

definition prctl_set_auxv :: "mem_env \<Rightarrow> u64 \<Rightarrow> u64 \<Rightarrow> mm_struct \<Rightarrow> int \<times> mm_struct" where
  "prctl_set_auxv E addr len mm =
     (if unat len > auxv_bytes E then (- EINVAL, mm)
      else case user_bytes E addr (unat len) of
        None \<Rightarrow> (- EFAULT, mm)
      | Some bytes \<Rightarrow>
          let user_auxv = null_tail E (bytes @ drop (unat len) (stack_bytes E)) in
          (0, mm\<lparr>saved_auxv := take (unat len) user_auxv @ drop (unat len) (saved_auxv mm)\<rparr>))"

text \<open>The switch that puts one new value into a copy of the map.\<close>

definition set_member :: "int \<Rightarrow> u64 \<Rightarrow> prctl_mm_map \<Rightarrow> prctl_mm_map option" where
  "set_member opt addr m =
     (if opt = PR_SET_MM_START_CODE then Some (m\<lparr>start_code := addr\<rparr>)
      else if opt = PR_SET_MM_END_CODE then Some (m\<lparr>end_code := addr\<rparr>)
      else if opt = PR_SET_MM_START_DATA then Some (m\<lparr>start_data := addr\<rparr>)
      else if opt = PR_SET_MM_END_DATA then Some (m\<lparr>end_data := addr\<rparr>)
      else if opt = PR_SET_MM_START_STACK then Some (m\<lparr>start_stack := addr\<rparr>)
      else if opt = PR_SET_MM_START_BRK then Some (m\<lparr>start_brk := addr\<rparr>)
      else if opt = PR_SET_MM_BRK then Some (m\<lparr>brk := addr\<rparr>)
      else if opt = PR_SET_MM_ARG_START then Some (m\<lparr>arg_start := addr\<rparr>)
      else if opt = PR_SET_MM_ARG_END then Some (m\<lparr>arg_end := addr\<rparr>)
      else if opt = PR_SET_MM_ENV_START then Some (m\<lparr>env_start := addr\<rparr>)
      else if opt = PR_SET_MM_ENV_END then Some (m\<lparr>env_end := addr\<rparr>)
      else None)"

definition current_map :: "mm_struct \<Rightarrow> prctl_mm_map" where
  "current_map mm = \<lparr>start_code = start_code mm, end_code = end_code mm,
     start_data = start_data mm, end_data = end_data mm, start_brk = start_brk mm, brk = brk mm,
     start_stack = start_stack mm, arg_start = arg_start mm, arg_end = arg_end mm,
     env_start = env_start mm, env_end = env_end mm, auxv = 0, auxv_size = 0, exe_fd = 0xffffffff\<rparr>"

definition prctl_set_mm :: "mem_env \<Rightarrow> int \<Rightarrow> u64 \<Rightarrow> u64 \<Rightarrow> u64 \<Rightarrow> mm_struct \<Rightarrow> int \<times> mm_struct" where
  "prctl_set_mm E opt addr arg4 arg5 mm =
     (if arg5 \<noteq> 0 \<or> arg4 \<noteq> 0 \<and> opt \<noteq> PR_SET_MM_AUXV \<and> opt \<noteq> PR_SET_MM_MAP \<and> opt \<noteq> PR_SET_MM_MAP_SIZE
        then (- EINVAL, mm)
      else if checkpoint_restore E \<and> (opt = PR_SET_MM_MAP \<or> opt = PR_SET_MM_MAP_SIZE)
        then prctl_set_mm_map E opt addr arg4 mm
      else if \<not> cap_sys_resource E then (- EPERM, mm)
      else if opt = PR_SET_MM_EXE_FILE then prctl_set_mm_exe_file E (ucast addr) mm
      else if opt = PR_SET_MM_AUXV then prctl_set_auxv E addr arg4 mm
      else if addr \<ge> task_size E \<or> addr < mmap_min_addr E then (- EINVAL, mm)
      else
        let vma = find_vma E addr in
        case set_member opt addr (current_map mm) of
          None \<Rightarrow> (- EINVAL, mm)
        | Some prctl_map \<Rightarrow>
            let error = validate_prctl_map E prctl_map in
            if error \<noteq> 0 then (error, mm)
            else if opt \<in> {PR_SET_MM_START_STACK, PR_SET_MM_ARG_START, PR_SET_MM_ARG_END,
                           PR_SET_MM_ENV_START, PR_SET_MM_ENV_END} \<and> \<not> vma then (- EFAULT, mm)
            else (0, store_map prctl_map mm))"

subsection \<open>Sequences of calls\<close>

text \<open>
  Any sequence of calls, between which capabilities, open files and user memory may change; the
  address range and the size of the vector are those of the architecture.
\<close>

inductive mm_step :: "u64 \<Rightarrow> u64 \<Rightarrow> nat \<Rightarrow> mm_struct \<Rightarrow> mm_struct \<Rightarrow> bool" for lo hi n where
  set_mm: "mmap_min_addr E = lo \<Longrightarrow> task_size E = hi \<Longrightarrow> at_vector_size E = n \<Longrightarrow>
    mm_step lo hi n mm (snd (prctl_set_mm E opt addr arg4 arg5 mm))"

definition map_valid :: "u64 \<Rightarrow> u64 \<Rightarrow> 'a mm_fields_scheme \<Rightarrow> bool" where
  "map_valid lo hi m \<longleftrightarrow> list_all (\<lambda>val. lo \<le> val \<and> val < hi) (map_members m) \<and>
     start_code m < end_code m \<and> start_data m < end_data m \<and> end_data m < start_brk m \<and>
     start_brk m \<le> brk m \<and> arg_start m \<le> arg_end m \<and> env_start m \<le> env_end m"

definition auxv_terminated :: "nat \<Rightarrow> mm_struct \<Rightarrow> bool" where
  "auxv_terminated n mm \<longleftrightarrow> length (saved_auxv mm) = 8 * n \<and>
     drop (8 * n - 16) (saved_auxv mm) = replicate 16 0"

definition mm_ok :: "u64 \<Rightarrow> u64 \<Rightarrow> nat \<Rightarrow> mm_struct \<Rightarrow> bool" where
  "mm_ok lo hi n mm \<longleftrightarrow> map_valid lo hi mm \<and> auxv_terminated n mm"

text \<open>A file that may become the executable of a process.\<close>

definition exe_allowed :: "open_file \<Rightarrow> mm_struct \<Rightarrow> bool" where
  "exe_allowed exe mm \<longleftrightarrow> f_regular exe \<and> \<not> f_noexec exe \<and> f_may_exec exe = 0 \<and>
     (\<forall>old. exe_file mm = Some old \<longrightarrow> Some (f_path old) \<notin> set (vm_files mm))"

subsection \<open>What the operations do\<close>

lemma prctl_set_mm_exe_file_cases:
  assumes "prctl_set_mm_exe_file E fd mm = (rc, mm')"
  shows "rc \<noteq> 0 \<and> mm' = mm \<or>
    rc = 0 \<and> (\<exists>exe. fdget E fd = Some exe \<and> exe_allowed exe mm \<and> mm' = mm\<lparr>exe_file := Some exe\<rparr>)"
  using assms
  by (auto simp: prctl_set_mm_exe_file_def exe_allowed_def Let_def list_ex_iff split: option.splits if_splits)

lemma prctl_check_order_0 [simp]: "prctl_check_order b = 0 \<longleftrightarrow> b"
  by (simp add: prctl_check_order_def)

lemma validate_prctl_map_valid:
  assumes "validate_prctl_map E m = 0"
  shows "map_valid (mmap_min_addr E) (task_size E) m"
    and "exe_fd m = 0xffffffff \<or> cap_sys_admin E"
    and "unat (auxv_size m) \<le> auxv_bytes E"
proof -
  define error where "error = prctl_check_order (start_code m < end_code m)
    OR prctl_check_order (start_data m < end_data m) OR prctl_check_order (start_brk m \<le> brk m)
    OR prctl_check_order (arg_start m \<le> arg_end m) OR prctl_check_order (env_start m \<le> env_end m)"
  have e: "error = 0 \<longleftrightarrow> start_code m < end_code m \<and> start_data m < end_data m \<and>
      start_brk m \<le> brk m \<and> arg_start m \<le> arg_end m \<and> env_start m \<le> env_end m"
    unfolding error_def by (simp add: or_eq_0_iff)
  note v = assms [unfolded validate_prctl_map_def Let_def, folded error_def]
  have r: "\<not> list_ex (\<lambda>val. val \<ge> task_size E \<or> val < mmap_min_addr E) (map_members m)"
    using v by (auto split: if_splits)
  have o: "error = 0" using v r by (auto split: if_splits)
  have b: "\<not> (start_brk m \<le> end_data m \<or> brk m \<le> end_data m)"
    using v r o by (auto split: if_splits)
  have "list_all (\<lambda>val. mmap_min_addr E \<le> val \<and> val < task_size E) (map_members m)"
    using r by (auto simp: list_ex_iff list_all_iff not_le not_less)
  then show "map_valid (mmap_min_addr E) (task_size E) m"
    using o e b by (simp add: map_valid_def not_le)
  show "exe_fd m = 0xffffffff \<or> cap_sys_admin E" "unat (auxv_size m) \<le> auxv_bytes E"
    using v r o b by (auto split: if_splits)
qed

lemma map_valid_store [simp]: "map_valid lo hi (store_map m mm) = map_valid lo hi m"
  by (simp add: map_valid_def map_members_def store_map_def)

lemma map_valid_ext [simp]:
  "map_valid lo hi (mm\<lparr>saved_auxv := b\<rparr>) = map_valid lo hi mm"
  "map_valid lo hi (mm\<lparr>exe_file := x\<rparr>) = map_valid lo hi mm"
  by (simp_all add: map_valid_def map_members_def)

lemma store_map_ext [simp]:
  "saved_auxv (store_map m mm) = saved_auxv mm" "exe_file (store_map m mm) = exe_file mm"
  "vm_files (store_map m mm) = vm_files mm"
  by (simp_all add: store_map_def)

lemma auxv_terminated_store [simp]: "auxv_terminated n (store_map m mm) = auxv_terminated n mm"
  by (simp add: auxv_terminated_def)

lemma length_those: "those xs = Some ys \<Longrightarrow> length ys = length xs"
  by (induction xs arbitrary: ys) (auto split: option.splits)

lemma length_copy [dest]: "user_bytes E addr n = Some bytes \<Longrightarrow> length bytes = n"
  unfolding user_bytes_def by (drule length_those) simp

lemma null_tail_terminated:
  assumes "2 \<le> at_vector_size E" "auxv_bytes E \<le> length b"
  shows "length (null_tail E b) = auxv_bytes E"
    and "drop (auxv_bytes E - 16) (null_tail E b) = replicate 16 0"
  using assms by (auto simp: null_tail_def auxv_bytes_def)

text \<open>What a call may do: the bounds stay or become valid ones, a terminated vector stays terminated,
  and the executable only changes to an allowed file and with a capability.\<close>

definition mm_change :: "mem_env \<Rightarrow> mm_struct \<Rightarrow> mm_struct \<Rightarrow> bool" where
  "mm_change E mm mm' \<longleftrightarrow>
     (map_members mm' = map_members mm \<or> map_valid (mmap_min_addr E) (task_size E) mm') \<and>
     (2 \<le> at_vector_size E \<longrightarrow> auxv_terminated (at_vector_size E) mm \<longrightarrow> auxv_terminated (at_vector_size E) mm') \<and>
     (exe_file mm' = exe_file mm \<or>
       (cap_sys_admin E \<or> cap_sys_resource E) \<and>
       (\<exists>fd exe. fdget E fd = Some exe \<and> exe_allowed exe mm \<and> exe_file mm' = Some exe))"

lemma map_members_ext [simp]:
  "map_members (mm\<lparr>saved_auxv := b\<rparr>) = map_members mm"
  "map_members (mm\<lparr>exe_file := x\<rparr>) = map_members mm"
  by (simp_all add: map_members_def)

lemma mm_change_refl [simp]: "mm_change E mm mm"
  by (simp add: mm_change_def)

lemma auxv_terminated_ext [simp]:
  "auxv_terminated n (mm\<lparr>exe_file := x\<rparr>) = auxv_terminated n mm"
  "auxv_terminated n (mm\<lparr>saved_auxv := b\<rparr>) \<longleftrightarrow>
     length b = 8 * n \<and> drop (8 * n - 16) b = replicate 16 0"
  by (simp_all add: auxv_terminated_def)

lemma exe_file_change:
  assumes "prctl_set_mm_exe_file E fd mm = (rc, mm')" "cap_sys_admin E \<or> cap_sys_resource E"
  shows "(rc \<noteq> 0 \<longrightarrow> mm' = mm) \<and> mm_change E mm mm'"
  using prctl_set_mm_exe_file_cases [OF assms(1)] assms(2) by (auto simp: mm_change_def)

lemma store_map_change:
  assumes "mm_change E mm mm1" "map_valid (mmap_min_addr E) (task_size E) m"
  shows "mm_change E mm (store_map m mm1)"
  using assms by (simp add: mm_change_def)

lemma saved_auxv_change:
  assumes "mm_change E mm mm1"
    "2 \<le> at_vector_size E \<Longrightarrow> length b = auxv_bytes E \<and> drop (auxv_bytes E - 16) b = replicate 16 0"
  shows "mm_change E mm (mm1\<lparr>saved_auxv := b\<rparr>)"
  using assms by (auto simp: mm_change_def auxv_bytes_def)

lemma new_auxv_terminated:
  assumes "new_auxv E m = Inr (Some b)" "unat (auxv_size m) \<le> auxv_bytes E" "2 \<le> at_vector_size E"
  shows "length b = auxv_bytes E \<and> drop (auxv_bytes E - 16) b = replicate 16 0"
proof -
  obtain bytes where c: "user_bytes E (auxv m) (unat (auxv_size m)) = Some bytes"
    and b: "b = null_tail E (bytes @ replicate (auxv_bytes E - unat (auxv_size m)) 0)"
    using assms(1) by (auto simp: new_auxv_def Let_def split: if_splits option.splits)
  have "auxv_bytes E \<le> length (bytes @ replicate (auxv_bytes E - unat (auxv_size m)) (0 :: u8))"
    using length_copy [OF c] assms(2) by simp
  then show ?thesis using null_tail_terminated assms(3) b by blast
qed

lemma prctl_set_mm_map_change:
  assumes "prctl_set_mm_map E opt addr data_size mm = (rc, mm')"
  shows "(rc \<noteq> 0 \<longrightarrow> mm' = mm) \<and> mm_change E mm mm'"
proof -
  consider "mm' = mm" | m user_auxv where "user_map E addr = Some m" "validate_prctl_map E m = 0"
      "new_auxv E m = Inr user_auxv" "opt \<noteq> PR_SET_MM_MAP_SIZE" "data_size = map_size E"
    using assms by (auto simp: prctl_set_mm_map_def Let_def split: option.splits sum.splits if_splits)
  then show ?thesis
  proof cases
    case 2
    note v = validate_prctl_map_valid [OF 2(2)]
    obtain e mm1 where x:
        "(if exe_fd m \<noteq> 0xffffffff then prctl_set_mm_exe_file E (exe_fd m) mm else (0, mm)) = (e, mm1)"
      by (metis prod.collapse)
    have one: "(e \<noteq> 0 \<longrightarrow> mm1 = mm) \<and> mm_change E mm mm1"
    proof (cases "exe_fd m = 0xffffffff")
      case False
      then show ?thesis using exe_file_change x v(2) by simp
    qed (use x in simp)
    have r: "(rc, mm') = (if e \<noteq> 0 then (e, mm1) else (0, case user_auxv of None \<Rightarrow> store_map m mm1
        | Some bytes \<Rightarrow> (store_map m mm1)\<lparr>saved_auxv := bytes\<rparr>))"
      using assms 2 x by (cases "e = 0") (simp_all add: prctl_set_mm_map_def Let_def)
    have "mm_change E mm (case user_auxv of None \<Rightarrow> store_map m mm1
        | Some bytes \<Rightarrow> (store_map m mm1)\<lparr>saved_auxv := bytes\<rparr>)"
    proof (cases user_auxv)
      case None
      then show ?thesis using one v(1) by (simp add: store_map_change)
    next
      case (Some bytes)
      then show ?thesis using one v(1,3) 2(3) new_auxv_terminated
        by (auto intro!: saved_auxv_change store_map_change)
    qed
    then show ?thesis using r one by (cases "e = 0") auto
  qed simp
qed

text \<open>What is stored of the vector comes from the user's bytes and the cleared tail only.\<close>

lemma stored_auxv:
  assumes "length bytes = n"
  shows "take n (null_tail E (bytes @ rest)) =
    take (auxv_bytes E - 16) bytes @ replicate (min 16 (n - (auxv_bytes E - 16))) 0"
  using assms by (cases "n \<le> auxv_bytes E - 16") (auto simp: null_tail_def take_replicate min_def)

lemma overlay_zeros:
  assumes "length bytes = n" "length saved = k + 16" "drop k saved = replicate 16 0" "n \<le> k + 16"
  shows "drop k ((take k bytes @ replicate (n - k) 0) @ drop n saved) = replicate 16 (0 :: u8)"
proof (cases "n \<le> k")
  case True
  then show ?thesis using assms by simp
next
  case False
  have "drop n saved = drop (n - k) (drop k saved)" using False by simp
  also have "\<dots> = replicate (16 - (n - k)) 0" using assms(3) by simp
  finally show ?thesis using False assms(1,4) by (simp add: replicate_add [symmetric])
qed

lemma prctl_set_auxv_change:
  assumes "prctl_set_auxv E addr len mm = (rc, mm')"
  shows "(rc \<noteq> 0 \<longrightarrow> mm' = mm) \<and> mm_change E mm mm'"
proof -
  let ?n = "unat len" and ?k = "auxv_bytes E - 16"
  consider "mm' = mm" | bytes where "?n \<le> auxv_bytes E" "user_bytes E addr ?n = Some bytes" "rc = 0"
      "mm' = mm\<lparr>saved_auxv := take ?n (null_tail E (bytes @ drop ?n (stack_bytes E))) @ drop ?n (saved_auxv mm)\<rparr>"
    using assms by (auto simp: prctl_set_auxv_def Let_def split: option.splits if_splits)
  then show ?thesis
  proof cases
    case 2
    have l: "length bytes = ?n" using 2 by blast
    let ?b = "(take ?k bytes @ replicate (min 16 (?n - ?k)) 0) @ drop ?n (saved_auxv mm)"
    have "length ?b = 8 * at_vector_size E \<and> drop (8 * at_vector_size E - 16) ?b = replicate 16 0"
      if n: "2 \<le> at_vector_size E" and t: "auxv_terminated (at_vector_size E) mm"
    proof -
      have k: "auxv_bytes E = ?k + 16" "8 * at_vector_size E = ?k + 16" "min 16 (?n - ?k) = ?n - ?k"
        using n 2(1) by (auto simp: auxv_bytes_def)
      have s: "length (saved_auxv mm) = ?k + 16" "drop ?k (saved_auxv mm) = replicate 16 0"
        using t k(2) by (auto simp: auxv_terminated_def)
      have "drop ?k ?b = replicate 16 0"
        unfolding k(3) using 2(1) k(1) by (intro overlay_zeros) (simp_all add: l s)
      moreover have "length ?b = ?k + 16" unfolding k(3) using l s(1) 2(1) k(1) by simp
      ultimately show ?thesis unfolding k(2) by simp
    qed
    then have "mm_change E mm mm'" using 2(4) unfolding stored_auxv [OF l] by (simp add: mm_change_def)
    then show ?thesis using 2 by simp
  qed simp
qed

lemma prctl_set_mm_change:
  assumes "prctl_set_mm E opt addr arg4 arg5 mm = (rc, mm')"
  shows "(rc \<noteq> 0 \<longrightarrow> mm' = mm) \<and> mm_change E mm mm'"
proof -
  consider "mm' = mm" | "prctl_set_mm_map E opt addr arg4 mm = (rc, mm')"
    | "prctl_set_mm_exe_file E (ucast addr) mm = (rc, mm')" "cap_sys_resource E"
    | "prctl_set_auxv E addr arg4 mm = (rc, mm')"
    | m where "validate_prctl_map E m = 0" "rc = 0" "mm' = store_map m mm"
    using assms unfolding prctl_set_mm_def Let_def
    by (auto split: if_splits option.splits)
  then show ?thesis
  proof cases
    case 5
    then show ?thesis using store_map_change [OF mm_change_refl validate_prctl_map_valid(1)] by simp
  qed (use prctl_set_mm_map_change exe_file_change prctl_set_auxv_change in auto)
qed

lemma map_valid_members:
  "map_members m = map_members m' \<Longrightarrow> map_valid lo hi m = map_valid lo hi m'"
  by (simp add: map_valid_def map_members_def)

lemma mm_step_ok: "mm_step lo hi n mm mm' \<Longrightarrow> 2 \<le> n \<Longrightarrow> mm_ok lo hi n mm \<Longrightarrow> mm_ok lo hi n mm'"
proof (induction rule: mm_step.cases)
  case (set_mm E mm opt addr arg4 arg5)
  then have "mm_change E mm mm'" using prctl_set_mm_change by (metis prod.collapse)
  then show ?case
    using set_mm map_valid_members [of mm mm'] by (auto simp: mm_change_def mm_ok_def)
qed

interpretation mm_sys: preserved_invariant "mm_step lo hi n" "\<lambda>mm. 2 \<le> n \<longrightarrow> mm_ok lo hi n mm" for lo hi n
  by unfold_locales (use mm_step_ok in blast)

lemma validate_prctl_map_iff:
  assumes "auxv_size m = 0" "exe_fd m = 0xffffffff"
  shows "validate_prctl_map E m = 0 \<longleftrightarrow> map_valid (mmap_min_addr E) (task_size E) m \<and>
    check_data_rlimit E (data_rlimit E) (brk m) (start_brk m) (end_data m) (start_data m) = 0"
proof (cases "map_valid (mmap_min_addr E) (task_size E) m")
  case True
  then have r: "\<not> list_ex (\<lambda>val. val \<ge> task_size E \<or> val < mmap_min_addr E) (map_members m)"
    by (auto simp: map_valid_def list_all_iff list_ex_iff not_le not_less)
  have o: "start_code m < end_code m" "start_data m < end_data m" "start_brk m \<le> brk m"
      "arg_start m \<le> arg_end m" "env_start m \<le> env_end m"
      "\<not> start_brk m \<le> end_data m" "\<not> brk m \<le> end_data m"
    using True by (auto simp: map_valid_def not_le)
  show ?thesis
    unfolding validate_prctl_map_def Let_def using True r o assms by (simp add: prctl_check_order_def)
next
  case False
  then show ?thesis using validate_prctl_map_valid(1) by blast
qed

lemma set_member_kept:
  assumes "set_member opt addr m0 = Some m"
  shows "addr \<in> set (map_members m)" "auxv_size m = auxv_size m0" "exe_fd m = exe_fd m0"
    "opt \<notin> {PR_SET_MM_AUXV, PR_SET_MM_EXE_FILE, PR_SET_MM_MAP, PR_SET_MM_MAP_SIZE}"
  using assms by (auto simp: set_member_def map_members_def split: if_splits)

lemma prctl_check_order_range: "prctl_check_order b \<in> {0, - EINVAL}"
  by (simp add: prctl_check_order_def)

lemma or_errors: "a \<in> {0, - EINVAL} \<Longrightarrow> b \<in> {0, - EINVAL} \<Longrightarrow> a OR b \<in> {0, - EINVAL :: int}"
  by auto

lemma validate_prctl_map_range: "validate_prctl_map E m \<in> {0, - EINVAL}"
proof -
  define error where "error = prctl_check_order (start_code m < end_code m)
    OR prctl_check_order (start_data m < end_data m) OR prctl_check_order (start_brk m \<le> brk m)
    OR prctl_check_order (arg_start m \<le> arg_end m) OR prctl_check_order (env_start m \<le> env_end m)"
  have "error \<in> {0, - EINVAL}"
    unfolding error_def by (intro or_errors prctl_check_order_range)
  then consider "error = 0" | "error = - EINVAL" by blast
  then show ?thesis
    unfolding validate_prctl_map_def Let_def error_def [symmetric] by cases simp_all
qed

subsection \<open>Properties\<close>

text \<open>
  C33. In every sequence of calls of \<open>prctl(PR_SET_MM, ...)\<close>, whatever the arguments, capabilities,
  files and user memory are at each call, a well-formed record stays well-formed: all eleven bounds
  lie in the user address range, code, data, heap, arguments and environment keep their order with
  the heap above the data, and the saved auxiliary vector keeps its size and ends with \<open>AT_NULL\<close>.
\<close>

theorem memory_map_stays_valid:
  assumes "2 \<le> n" "map_valid lo hi mm" "auxv_terminated n mm" "(mm_step lo hi n)\<^sup>*\<^sup>* mm mm'"
  shows "map_valid lo hi mm' \<and> auxv_terminated n mm'"
  using mm_sys.inv_steps [OF assms(4)] assms(1-3) unfolding mm_ok_def by blast

definition plain_mem :: mem_env where
  "plain_mem = \<lparr>checkpoint_restore = True, task_size = 0x7ffffffff000, mmap_min_addr = 0x10000,
     at_vector_size = 4, map_size = 104, data_rlimit = 0xffffffffffffffff,
     check_data_rlimit = (\<lambda>l b sb ed sd. 0), cap_sys_admin = False, cap_sys_resource = True,
     fdget = (\<lambda>fd. if fd = 3 then Some \<lparr>f_path = 7, f_regular = True, f_noexec = False, f_may_exec = 0\<rparr>
              else None),
     find_vma = (\<lambda>a. True), user_mem = (\<lambda>a. Some 5), user_map = (\<lambda>a. None), user_write = (\<lambda>a. True),
     stack_bytes = replicate 32 9\<rparr>"

definition plain_mm :: mm_struct where
  "plain_mm = \<lparr>start_code = 0x400000, end_code = 0x401000, start_data = 0x600000, end_data = 0x601000,
     start_brk = 0x700000, brk = 0x710000, start_stack = 0x7ffff000, arg_start = 0x7ffff100,
     arg_end = 0x7ffff200, env_start = 0x7ffff200, env_end = 0x7ffff300,
     saved_auxv = replicate 16 1 @ replicate 16 0, exe_file = None, vm_files = [Some 2, None]\<rparr>"

lemma plain_mm_ok:
  "map_valid 0x10000 0x7ffffffff000 plain_mm" "auxv_terminated 4 plain_mm"
  by (simp_all add: map_valid_def map_members_def auxv_terminated_def plain_mm_def)

lemma plain_mm_step:
  "mm_step 0x10000 0x7ffffffff000 4 mm (snd (prctl_set_mm plain_mem opt addr arg4 arg5 mm))"
  by (rule set_mm) (simp_all add: plain_mem_def)

lemma memory_map_stays_valid_witness:
  "(let mm' = snd (prctl_set_mm plain_mem PR_SET_MM_AUXV 0 24 0 plain_mm) in
     map_valid 0x10000 0x7ffffffff000 mm' \<and> auxv_terminated 4 mm' \<and>
     saved_auxv mm' = replicate 16 5 @ replicate 16 0)"
proof -
  let ?mm = "snd (prctl_set_mm plain_mem PR_SET_MM_AUXV 0 24 0 plain_mm)"
  have "map_valid 0x10000 0x7ffffffff000 ?mm \<and> auxv_terminated 4 ?mm"
    by (rule memory_map_stays_valid [OF _ plain_mm_ok]) (auto intro: plain_mm_step)
  moreover have "saved_auxv ?mm = replicate 16 5 @ replicate 16 0"
    by code_simp
  ultimately show ?thesis by simp
qed

text \<open>
  C34. The link to the executable of a process is protected: a call that changes it needs the
  capability of an administrator, the new file is an open regular file that may be executed and lies
  on a mount that allows it, and the old file is no longer mapped anywhere in the process.
\<close>

theorem exe_link_protected:
  assumes "prctl_set_mm E opt addr arg4 arg5 mm = (rc, mm')" "exe_file mm' \<noteq> exe_file mm"
  shows "(cap_sys_admin E \<or> cap_sys_resource E) \<and>
    (\<exists>fd exe. fdget E fd = Some exe \<and> exe_file mm' = Some exe \<and>
       f_regular exe \<and> \<not> f_noexec exe \<and> f_may_exec exe = 0) \<and>
    (\<forall>old. exe_file mm = Some old \<longrightarrow> Some (f_path old) \<notin> set (vm_files mm))"
  using prctl_set_mm_change [OF assms(1)] assms(2) by (auto simp: mm_change_def exe_allowed_def)

lemma exe_link_protected_witness:
  "prctl_set_mm plain_mem PR_SET_MM_EXE_FILE 3 0 0 plain_mm
     = (0, plain_mm\<lparr>exe_file := Some \<lparr>f_path = 7, f_regular = True, f_noexec = False, f_may_exec = 0\<rparr>\<rparr>) \<and>
   (cap_sys_admin plain_mem \<or> cap_sys_resource plain_mem)"
proof -
  let ?mm = "plain_mm\<lparr>exe_file := Some \<lparr>f_path = 7, f_regular = True, f_noexec = False, f_may_exec = 0\<rparr>\<rparr>"
  have r: "prctl_set_mm plain_mem PR_SET_MM_EXE_FILE 3 0 0 plain_mm = (0, ?mm)"
    by (simp add: prctl_set_mm_def prctl_set_mm_exe_file_def plain_mem_def plain_mm_def)
  moreover have "exe_file ?mm \<noteq> exe_file plain_mm" by (simp add: plain_mm_def)
  ultimately show ?thesis using exe_link_protected [OF r] by blast
qed

text \<open>
  Setting the auxiliary vector shows no byte of the kernel's stack: the buffer it is read into is
  not cleared, yet the result and the stored vector are the same whatever the buffer held before.
\<close>

theorem prctl_set_auxv_no_leak:
  "prctl_set_auxv (E\<lparr>stack_bytes := old\<rparr>) addr len mm = prctl_set_auxv E addr len mm"
proof -
  have e: "auxv_bytes (E\<lparr>stack_bytes := old\<rparr>) = auxv_bytes E"
      "user_bytes (E\<lparr>stack_bytes := old\<rparr>) addr (unat len) = user_bytes E addr (unat len)"
      "null_tail (E\<lparr>stack_bytes := old\<rparr>) = null_tail E"
    by (simp_all add: auxv_bytes_def user_bytes_def null_tail_def fun_eq_iff)
  show ?thesis
  proof (cases "user_bytes E addr (unat len)")
    case (Some bytes)
    show ?thesis
      unfolding prctl_set_auxv_def e Some option.case Let_def stored_auxv [OF length_copy [OF Some]]
      by (rule refl)
  qed (simp add: prctl_set_auxv_def e)
qed

text \<open>
  Setting one bound of the map: without \<open>CAP_SYS_RESOURCE\<close> it fails with \<open>EPERM\<close>; when the map with
  the new value is not well-formed or above the limit on data, with \<open>EINVAL\<close>; when a bound of stack,
  arguments or environment lies above all mapped areas, with \<open>EFAULT\<close>. Otherwise it succeeds, and
  only then the record changes: to the map with the new value.
\<close>

theorem prctl_set_member_correct:
  assumes "set_member opt addr (current_map mm) = Some m"
  shows "prctl_set_mm E opt addr 0 0 mm =
    (if \<not> cap_sys_resource E then (- EPERM, mm)
     else if \<not> map_valid (mmap_min_addr E) (task_size E) m \<or>
        check_data_rlimit E (data_rlimit E) (brk m) (start_brk m) (end_data m) (start_data m) \<noteq> 0
       then (- EINVAL, mm)
     else if opt \<in> {PR_SET_MM_START_STACK, PR_SET_MM_ARG_START, PR_SET_MM_ARG_END,
                PR_SET_MM_ENV_START, PR_SET_MM_ENV_END} \<and> \<not> find_vma E addr then (- EFAULT, mm)
     else (0, store_map m mm))"
proof -
  note k = set_member_kept [OF assms]
  have v: "validate_prctl_map E m = 0 \<longleftrightarrow> map_valid (mmap_min_addr E) (task_size E) m \<and>
      check_data_rlimit E (data_rlimit E) (brk m) (start_brk m) (end_data m) (start_data m) = 0"
    using k(2,3) by (intro validate_prctl_map_iff) (simp_all add: current_map_def)
  have r: "map_valid (mmap_min_addr E) (task_size E) m \<Longrightarrow>
      \<not> (addr \<ge> task_size E \<or> addr < mmap_min_addr E)"
    using k(1) by (auto simp: map_valid_def list_all_iff)
  have e: "validate_prctl_map E m \<in> {0, - EINVAL}" by (rule validate_prctl_map_range)
  show ?thesis
    using assms k(4) v r e by (auto simp: prctl_set_mm_def Let_def)
qed

lemma prctl_set_member_correct_witness:
  "prctl_set_mm plain_mem PR_SET_MM_BRK 0x720000 0 0 plain_mm = (0, plain_mm\<lparr>brk := 0x720000\<rparr>) \<and>
   prctl_set_mm plain_mem PR_SET_MM_BRK 0x600000 0 0 plain_mm = (- EINVAL, plain_mm)"
proof -
  have m: "set_member PR_SET_MM_BRK a (current_map plain_mm) = Some ((current_map plain_mm)\<lparr>brk := a\<rparr>)" for a
    by (simp add: set_member_def)
  have v: "map_valid 0x10000 0x7ffffffff000 ((current_map plain_mm)\<lparr>brk := 0x720000\<rparr>)"
      "\<not> map_valid 0x10000 0x7ffffffff000 ((current_map plain_mm)\<lparr>brk := 0x600000\<rparr>)"
    by (simp_all add: map_valid_def map_members_def current_map_def plain_mm_def)
  have s: "store_map ((current_map plain_mm)\<lparr>brk := 0x720000\<rparr>) plain_mm = plain_mm\<lparr>brk := 0x720000\<rparr>"
    by (simp add: store_map_def current_map_def plain_mm_def)
  have E: "cap_sys_resource plain_mem" "mmap_min_addr plain_mem = 0x10000"
      "task_size plain_mem = 0x7ffffffff000" "check_data_rlimit plain_mem = (\<lambda>l b sb ed sd. 0)"
    by (simp_all add: plain_mem_def)
  show ?thesis
    using prctl_set_member_correct [OF m, of plain_mem "0x720000"]
      prctl_set_member_correct [OF m, of plain_mem "0x600000"] v E(1)
    unfolding E(2-) s by simp
qed

end
