(* ===== verification/KernelPrctl.thy ===== *)
theory KernelPrctl
  imports KernelMemory
begin

text \<open>
  \<open>sys.c\<close>: the call \<open>prctl\<close>, by which a process changes and reads its own attributes. The state is
  what the calling process, its memory and the signal structures of all processes hold; the services
  of the rest of the kernel are the record \<open>prctl_env\<close>. The controls that the kernel leaves to the
  architecture or to other subsystems (alignment, floating point, endianness, seccomp, time stamps,
  performance counters, MPX) are one parameter over an opaque state.
\<close>

subsection \<open>Data\<close>

datatype prctl_option =
    PR_SET_PDEATHSIG | PR_GET_PDEATHSIG | PR_GET_DUMPABLE | PR_SET_DUMPABLE
  | PR_SET_UNALIGN | PR_GET_UNALIGN | PR_SET_FPEMU | PR_GET_FPEMU | PR_SET_FPEXC | PR_GET_FPEXC
  | PR_GET_TIMING | PR_SET_TIMING | PR_SET_NAME | PR_GET_NAME | PR_GET_ENDIAN | PR_SET_ENDIAN
  | PR_GET_SECCOMP | PR_SET_SECCOMP | PR_GET_TSC | PR_SET_TSC
  | PR_TASK_PERF_EVENTS_DISABLE | PR_TASK_PERF_EVENTS_ENABLE
  | PR_GET_TIMERSLACK | PR_SET_TIMERSLACK | PR_MCE_KILL | PR_MCE_KILL_GET | PR_SET_MM
  | PR_GET_TID_ADDRESS | PR_SET_CHILD_SUBREAPER | PR_GET_CHILD_SUBREAPER
  | PR_SET_NO_NEW_PRIVS | PR_GET_NO_NEW_PRIVS | PR_GET_THP_DISABLE | PR_SET_THP_DISABLE
  | PR_MPX_ENABLE_MANAGEMENT | PR_MPX_DISABLE_MANAGEMENT | PR_SET_FP_MODE | PR_GET_FP_MODE
  | PR_UNKNOWN int

record subreaper =
  is_child_subreaper :: bool
  has_child_subreaper :: bool

text \<open>\<open>mce_process\<close> and \<open>mce_early\<close> are the bits \<open>PF_MCE_PROCESS\<close> and \<open>PF_MCE_EARLY\<close> of the flags.\<close>

record prctl_state =
  pdeath_signal :: int
  comm :: string
  timer_slack_ns :: u64
  default_timer_slack_ns :: u64
  mce_process :: bool
  mce_early :: bool
  no_new_privs :: bool
  clear_child_tid :: u64
  dumpable :: int
  thp_disabled :: bool
  mm :: mm_struct
  signals :: "int \<Rightarrow> subreaper"
  arch :: nat

record prctl_env =
  mem :: mem_env
  security_task_prctl :: "prctl_option \<Rightarrow> u64 \<Rightarrow> u64 \<Rightarrow> u64 \<Rightarrow> u64 \<Rightarrow> int"
  valid_signal :: "u64 \<Rightarrow> bool"
  other_ctl :: "prctl_option \<Rightarrow> u64 \<Rightarrow> u64 \<Rightarrow> nat \<Rightarrow> int \<times> nat"
  user_string :: "u64 \<Rightarrow> string option"
  mmap_sem_killed :: bool
  me :: int
  is_child_reaper :: "int \<Rightarrow> bool"
  walk_process_tree :: "(int \<Rightarrow> (int \<Rightarrow> subreaper) \<Rightarrow> int \<times> (int \<Rightarrow> subreaper)) \<Rightarrow>
    (int \<Rightarrow> subreaper) \<Rightarrow> int \<Rightarrow> subreaper"

text \<open>What a call writes to user memory.\<close>

datatype prctl_out = Int_out int | Comm_out string | Tid_out u64

type_synonym prctl_result = "int \<times> prctl_out option \<times> prctl_state"

abbreviation (input) TASK_COMM_LEN :: nat where "TASK_COMM_LEN \<equiv> 16"
abbreviation (input) SUID_DUMP_DISABLE :: u64 where "SUID_DUMP_DISABLE \<equiv> 0"
abbreviation (input) SUID_DUMP_USER :: u64 where "SUID_DUMP_USER \<equiv> 1"
abbreviation (input) PR_TIMING_STATISTICAL :: u64 where "PR_TIMING_STATISTICAL \<equiv> 0"
abbreviation (input) PR_MCE_KILL_CLEAR :: u64 where "PR_MCE_KILL_CLEAR \<equiv> 0"
abbreviation (input) PR_MCE_KILL_SET :: u64 where "PR_MCE_KILL_SET \<equiv> 1"
abbreviation (input) PR_MCE_KILL_LATE :: u64 where "PR_MCE_KILL_LATE \<equiv> 0"
abbreviation (input) PR_MCE_KILL_EARLY :: u64 where "PR_MCE_KILL_EARLY \<equiv> 1"
abbreviation (input) PR_MCE_KILL_DEFAULT :: u64 where "PR_MCE_KILL_DEFAULT \<equiv> 2"
abbreviation (input) ULONG_MAX :: u64 where "ULONG_MAX \<equiv> 0xffffffffffffffff"

subsection \<open>Operations\<close>

text \<open>The conversion of an \<open>unsigned long\<close> to \<open>int\<close>, and a store to user memory.\<close>

definition to_int :: "u64 \<Rightarrow> int" where
  "to_int x = s32 (uint x)"

definition put_user :: "prctl_env \<Rightarrow> u64 \<Rightarrow> prctl_out \<Rightarrow> prctl_state \<Rightarrow> prctl_result" where
  "put_user E addr v s =
     (if user_write (mem E) addr then (0, Some v, s) else (- EFAULT, None, s))"

definition prctl_get_tid_address :: "prctl_env \<Rightarrow> u64 \<Rightarrow> prctl_state \<Rightarrow> prctl_result" where
  "prctl_get_tid_address E tid_addr s =
     (if checkpoint_restore (mem E) then put_user E tid_addr (Tid_out (clear_child_tid s)) s
      else (- EINVAL, None, s))"

definition propagate_has_child_subreaper ::
  "prctl_env \<Rightarrow> int \<Rightarrow> (int \<Rightarrow> subreaper) \<Rightarrow> int \<times> (int \<Rightarrow> subreaper)" where
  "propagate_has_child_subreaper E p sig =
     (if has_child_subreaper (sig p) \<or> is_child_reaper E p then (0, sig)
      else (1, sig(p := (sig p)\<lparr>has_child_subreaper := True\<rparr>)))"

definition set_child_subreaper :: "prctl_env \<Rightarrow> u64 \<Rightarrow> prctl_state \<Rightarrow> prctl_state" where
  "set_child_subreaper E arg2 s =
     (let sig = (signals s)(me E := (signals s (me E))\<lparr>is_child_subreaper := arg2 \<noteq> 0\<rparr>) in
      if arg2 = 0 then s\<lparr>signals := sig\<rparr>
      else s\<lparr>signals := walk_process_tree E (propagate_has_child_subreaper E) sig\<rparr>)"

definition mce_kill :: "u64 \<Rightarrow> u64 \<Rightarrow> u64 \<Rightarrow> u64 \<Rightarrow> prctl_state \<Rightarrow> int \<times> prctl_state" where
  "mce_kill arg2 arg3 arg4 arg5 s =
     (if arg4 OR arg5 \<noteq> 0 then (- EINVAL, s)
      else if arg2 = PR_MCE_KILL_CLEAR then
        (if arg3 \<noteq> 0 then (- EINVAL, s) else (0, s\<lparr>mce_process := False\<rparr>))
      else if arg2 = PR_MCE_KILL_SET then
        (let s = s\<lparr>mce_process := True\<rparr> in
         if arg3 = PR_MCE_KILL_EARLY then (0, s\<lparr>mce_early := True\<rparr>)
         else if arg3 = PR_MCE_KILL_LATE then (0, s\<lparr>mce_early := False\<rparr>)
         else if arg3 = PR_MCE_KILL_DEFAULT then (0, s\<lparr>mce_early := False, mce_process := False\<rparr>)
         else (- EINVAL, s))
      else (- EINVAL, s))"

definition mce_kill_get :: "u64 \<Rightarrow> u64 \<Rightarrow> u64 \<Rightarrow> u64 \<Rightarrow> prctl_state \<Rightarrow> int" where
  "mce_kill_get arg2 arg3 arg4 arg5 s =
     (if arg2 OR arg3 OR arg4 OR arg5 \<noteq> 0 then - EINVAL
      else if mce_process s then
        (if mce_early s then uint PR_MCE_KILL_EARLY else uint PR_MCE_KILL_LATE)
      else uint PR_MCE_KILL_DEFAULT)"

definition get_timerslack :: "prctl_state \<Rightarrow> int" where
  "get_timerslack s = (if timer_slack_ns s > ULONG_MAX then sint ULONG_MAX else sint (timer_slack_ns s))"

definition set_timerslack :: "u64 \<Rightarrow> prctl_state \<Rightarrow> prctl_state" where
  "set_timerslack arg2 s =
     (if arg2 \<le> 0 then s\<lparr>timer_slack_ns := default_timer_slack_ns s\<rparr> else s\<lparr>timer_slack_ns := arg2\<rparr>)"

text \<open>\<open>strncpy_from_user\<close> copies at most fifteen characters; the sixteenth is set to NUL before.\<close>

definition set_name :: "prctl_env \<Rightarrow> u64 \<Rightarrow> prctl_state \<Rightarrow> int \<times> prctl_state" where
  "set_name E arg2 s =
     (case user_string E arg2 of
        None \<Rightarrow> (- EFAULT, s)
      | Some name \<Rightarrow> (0, s\<lparr>comm := take (TASK_COMM_LEN - 1) name\<rparr>))"

definition set_thp_disable :: "prctl_env \<Rightarrow> u64 \<Rightarrow> u64 \<Rightarrow> u64 \<Rightarrow> u64 \<Rightarrow> prctl_state \<Rightarrow> int \<times> prctl_state" where
  "set_thp_disable E arg2 arg3 arg4 arg5 s =
     (if arg3 \<noteq> 0 \<or> arg4 \<noteq> 0 \<or> arg5 \<noteq> 0 then (- EINVAL, s)
      else if mmap_sem_killed E then (- EINTR, s)
      else (0, s\<lparr>thp_disabled := arg2 \<noteq> 0\<rparr>))"

definition set_no_new_privs :: "u64 \<Rightarrow> u64 \<Rightarrow> u64 \<Rightarrow> u64 \<Rightarrow> prctl_state \<Rightarrow> int \<times> prctl_state" where
  "set_no_new_privs arg2 arg3 arg4 arg5 s =
     (if arg2 \<noteq> 1 \<or> arg3 \<noteq> 0 \<or> arg4 \<noteq> 0 \<or> arg5 \<noteq> 0 then (- EINVAL, s)
      else (0, s\<lparr>no_new_privs := True\<rparr>))"

definition get_no_new_privs :: "u64 \<Rightarrow> u64 \<Rightarrow> u64 \<Rightarrow> u64 \<Rightarrow> prctl_state \<Rightarrow> int" where
  "get_no_new_privs arg2 arg3 arg4 arg5 s =
     (if arg2 \<noteq> 0 \<or> arg3 \<noteq> 0 \<or> arg4 \<noteq> 0 \<or> arg5 \<noteq> 0 then - EINVAL
      else if no_new_privs s then 1 else 0)"

definition get_thp_disable :: "u64 \<Rightarrow> u64 \<Rightarrow> u64 \<Rightarrow> u64 \<Rightarrow> prctl_state \<Rightarrow> int" where
  "get_thp_disable arg2 arg3 arg4 arg5 s =
     (if arg2 \<noteq> 0 \<or> arg3 \<noteq> 0 \<or> arg4 \<noteq> 0 \<or> arg5 \<noteq> 0 then - EINVAL else of_bool (thp_disabled s))"

definition other :: "prctl_env \<Rightarrow> prctl_option \<Rightarrow> u64 \<Rightarrow> u64 \<Rightarrow> prctl_state \<Rightarrow> prctl_result" where
  "other E option arg2 arg3 s =
     (case other_ctl E option arg2 arg3 (arch s) of (error, a) \<Rightarrow> (error, None, s\<lparr>arch := a\<rparr>))"

text \<open>The two controls of MPX take no arguments.\<close>

definition mpx_management ::
  "prctl_env \<Rightarrow> prctl_option \<Rightarrow> u64 \<Rightarrow> u64 \<Rightarrow> u64 \<Rightarrow> u64 \<Rightarrow> prctl_state \<Rightarrow> prctl_result" where
  "mpx_management E option arg2 arg3 arg4 arg5 s =
     (if arg2 \<noteq> 0 \<or> arg3 \<noteq> 0 \<or> arg4 \<noteq> 0 \<or> arg5 \<noteq> 0 then (- EINVAL, None, s)
      else other E option arg2 arg3 s)"

abbreviation (input) no_out :: "int \<times> prctl_state \<Rightarrow> prctl_result" where
  "no_out r \<equiv> (fst r, None, snd r)"

definition prctl_switch ::
  "prctl_env \<Rightarrow> prctl_option \<Rightarrow> u64 \<Rightarrow> u64 \<Rightarrow> u64 \<Rightarrow> u64 \<Rightarrow> prctl_state \<Rightarrow> prctl_result" where
  "prctl_switch E option arg2 arg3 arg4 arg5 s =
     (case option of
        PR_SET_PDEATHSIG \<Rightarrow>
          if \<not> valid_signal E arg2 then (- EINVAL, None, s)
          else (0, None, s\<lparr>pdeath_signal := to_int arg2\<rparr>)
      | PR_GET_PDEATHSIG \<Rightarrow> put_user E arg2 (Int_out (pdeath_signal s)) s
      | PR_GET_DUMPABLE \<Rightarrow> (dumpable s, None, s)
      | PR_SET_DUMPABLE \<Rightarrow>
          if arg2 \<noteq> SUID_DUMP_DISABLE \<and> arg2 \<noteq> SUID_DUMP_USER then (- EINVAL, None, s)
          else (0, None, s\<lparr>dumpable := to_int arg2\<rparr>)
      | PR_GET_TIMING \<Rightarrow> (uint PR_TIMING_STATISTICAL, None, s)
      | PR_SET_TIMING \<Rightarrow> (if arg2 \<noteq> PR_TIMING_STATISTICAL then - EINVAL else 0, None, s)
      | PR_SET_NAME \<Rightarrow> no_out (set_name E arg2 s)
      | PR_GET_NAME \<Rightarrow> put_user E arg2 (Comm_out (comm s)) s
      | PR_GET_TIMERSLACK \<Rightarrow> (get_timerslack s, None, s)
      | PR_SET_TIMERSLACK \<Rightarrow> (0, None, set_timerslack arg2 s)
      | PR_MCE_KILL \<Rightarrow> no_out (mce_kill arg2 arg3 arg4 arg5 s)
      | PR_MCE_KILL_GET \<Rightarrow> (mce_kill_get arg2 arg3 arg4 arg5 s, None, s)
      | PR_SET_MM \<Rightarrow>
          (case prctl_set_mm (mem E) (to_int arg2) arg3 arg4 arg5 (mm s) of
             (error, mm') \<Rightarrow> (error, None, s\<lparr>mm := mm'\<rparr>))
      | PR_GET_TID_ADDRESS \<Rightarrow> prctl_get_tid_address E arg2 s
      | PR_SET_CHILD_SUBREAPER \<Rightarrow> (0, None, set_child_subreaper E arg2 s)
      | PR_GET_CHILD_SUBREAPER \<Rightarrow>
          put_user E arg2 (Int_out (of_bool (is_child_subreaper (signals s (me E))))) s
      | PR_SET_NO_NEW_PRIVS \<Rightarrow> no_out (set_no_new_privs arg2 arg3 arg4 arg5 s)
      | PR_GET_NO_NEW_PRIVS \<Rightarrow> (get_no_new_privs arg2 arg3 arg4 arg5 s, None, s)
      | PR_GET_THP_DISABLE \<Rightarrow> (get_thp_disable arg2 arg3 arg4 arg5 s, None, s)
      | PR_SET_THP_DISABLE \<Rightarrow> no_out (set_thp_disable E arg2 arg3 arg4 arg5 s)
      | PR_MPX_ENABLE_MANAGEMENT \<Rightarrow> mpx_management E option arg2 arg3 arg4 arg5 s
      | PR_MPX_DISABLE_MANAGEMENT \<Rightarrow> mpx_management E option arg2 arg3 arg4 arg5 s
      | PR_UNKNOWN n \<Rightarrow> (- EINVAL, None, s)
      | _ \<Rightarrow> other E option arg2 arg3 s)"

definition prctl ::
  "prctl_env \<Rightarrow> prctl_option \<Rightarrow> u64 \<Rightarrow> u64 \<Rightarrow> u64 \<Rightarrow> u64 \<Rightarrow> prctl_state \<Rightarrow> prctl_result" where
  "prctl E option arg2 arg3 arg4 arg5 s =
     (let error = security_task_prctl E option arg2 arg3 arg4 arg5 in
      if error \<noteq> - ENOSYS then (error, None, s) else prctl_switch E option arg2 arg3 arg4 arg5 s)"

subsection \<open>Sequences of calls\<close>

inductive prctl_step :: "prctl_state \<Rightarrow> prctl_state \<Rightarrow> bool" where
  call: "prctl E option arg2 arg3 arg4 arg5 s = (rc, out, s') \<Longrightarrow> prctl_step s s'"

text \<open>The options that are left to the architecture and to other subsystems.\<close>

definition is_other :: "prctl_option \<Rightarrow> bool" where
  "is_other option \<longleftrightarrow> option \<in> {PR_SET_UNALIGN, PR_GET_UNALIGN, PR_SET_FPEMU, PR_GET_FPEMU,
     PR_SET_FPEXC, PR_GET_FPEXC, PR_GET_ENDIAN, PR_SET_ENDIAN, PR_GET_SECCOMP, PR_SET_SECCOMP,
     PR_GET_TSC, PR_SET_TSC, PR_TASK_PERF_EVENTS_DISABLE, PR_TASK_PERF_EVENTS_ENABLE,
     PR_MPX_ENABLE_MANAGEMENT, PR_MPX_DISABLE_MANAGEMENT, PR_SET_FP_MODE, PR_GET_FP_MODE}"

subsection \<open>What a call changes\<close>

lemma put_user_state [simp]: "snd (snd (put_user E addr v s)) = s"
  by (simp add: put_user_def)

lemma tid_address_state [simp]: "snd (snd (prctl_get_tid_address E addr s)) = s"
  by (simp add: prctl_get_tid_address_def)

lemma other_state [simp]:
  "no_new_privs (snd (snd (other E option a b s))) = no_new_privs s"
  "comm (snd (snd (other E option a b s))) = comm s"
  by (simp_all add: other_def split: prod.split)

lemma set_child_subreaper_state [simp]:
  "no_new_privs (set_child_subreaper E a s) = no_new_privs s"
  "comm (set_child_subreaper E a s) = comm s"
  by (simp_all add: set_child_subreaper_def Let_def)

lemma set_timerslack_state [simp]:
  "no_new_privs (set_timerslack a s) = no_new_privs s" "comm (set_timerslack a s) = comm s"
  by (simp_all add: set_timerslack_def)

lemma set_name_state [simp]:
  "no_new_privs (snd (set_name E a s)) = no_new_privs s"
  "length (comm s) < 16 \<Longrightarrow> length (comm (snd (set_name E a s))) < 16"
  by (auto simp: set_name_def split: option.split)

lemma mce_kill_state [simp]:
  "no_new_privs (snd (mce_kill a b c d s)) = no_new_privs s" "comm (snd (mce_kill a b c d s)) = comm s"
  by (simp_all add: mce_kill_def Let_def)

lemma set_thp_disable_state [simp]:
  "no_new_privs (snd (set_thp_disable E a b c d s)) = no_new_privs s"
  "comm (snd (set_thp_disable E a b c d s)) = comm s"
  by (simp_all add: set_thp_disable_def)

lemma set_no_new_privs_state [simp]:
  "no_new_privs s \<Longrightarrow> no_new_privs (snd (set_no_new_privs a b c d s))"
  "comm (snd (set_no_new_privs a b c d s)) = comm s"
  by (simp_all add: set_no_new_privs_def)

lemma mpx_management_state [simp]:
  "no_new_privs (snd (snd (mpx_management E option a b c d s))) = no_new_privs s"
  "comm (snd (snd (mpx_management E option a b c d s))) = comm s"
  by (simp_all add: mpx_management_def)

lemma set_mm_state [simp]:
  "no_new_privs (snd (snd (case r of (error, mm') \<Rightarrow> (error, None, s\<lparr>mm := mm'\<rparr>)))) = no_new_privs s"
  "comm (snd (snd (case r of (error, mm') \<Rightarrow> (error, None, s\<lparr>mm := mm'\<rparr>)))) = comm s"
  by (simp_all split: prod.split)

text \<open>The attributes that no call may take back or overflow.\<close>

definition confined :: "bool \<Rightarrow> prctl_state \<Rightarrow> bool" where
  "confined nnp s \<longleftrightarrow> (nnp \<longrightarrow> no_new_privs s) \<and> length (comm s) < TASK_COMM_LEN"

lemma prctl_switch_confined:
  "confined nnp s \<Longrightarrow> confined nnp (snd (snd (prctl_switch E option a2 a3 a4 a5 s)))"
  unfolding confined_def prctl_switch_def by (cases option) simp_all

lemma prctl_confined: "confined nnp s \<Longrightarrow> confined nnp (snd (snd (prctl E option a2 a3 a4 a5 s)))"
  by (simp add: prctl_def Let_def prctl_switch_confined)

interpretation prctl_sys: preserved_invariant prctl_step "confined nnp" for nnp
  by unfold_locales (metis prctl_step.cases prctl_confined snd_conv)

text \<open>Errors: what fails changes nothing, but for the option \<open>PR_MCE_KILL\<close>.\<close>

lemma put_user_cases: "put_user E addr v s = (rc, out, s') \<Longrightarrow> s' = s"
  by (simp add: put_user_def split: if_splits)

lemma mce_kill_error:
  "mce_kill a2 a3 a4 a5 s = (rc, s') \<Longrightarrow> rc \<noteq> 0 \<Longrightarrow>
   s' = s \<or> a2 = PR_MCE_KILL_SET \<and> a4 = 0 \<and> a5 = 0 \<and> a3 \<notin> {PR_MCE_KILL_EARLY, PR_MCE_KILL_LATE, PR_MCE_KILL_DEFAULT} \<and>
     s' = s\<lparr>mce_process := True\<rparr>"
  by (auto simp: mce_kill_def Let_def or_eq_0_iff split: if_splits)

lemma set_name_error: "set_name E a s = (rc, s') \<Longrightarrow> rc \<noteq> 0 \<Longrightarrow> s' = s"
  by (auto simp: set_name_def split: option.splits)

lemma set_thp_disable_error: "set_thp_disable E a b c d s = (rc, s') \<Longrightarrow> rc \<noteq> 0 \<Longrightarrow> s' = s"
  by (auto simp: set_thp_disable_def split: if_splits)

lemma set_no_new_privs_error: "set_no_new_privs a b c d s = (rc, s') \<Longrightarrow> rc \<noteq> 0 \<Longrightarrow> s' = s"
  by (auto simp: set_no_new_privs_def split: if_splits)

lemma prctl_switch_error:
  assumes "prctl_switch E option a2 a3 a4 a5 s = (rc, out, s')" "rc \<noteq> 0" "\<not> is_other option"
  shows "s' = s \<or> option = PR_MCE_KILL \<and> a2 = PR_MCE_KILL_SET \<and> a4 = 0 \<and> a5 = 0 \<and>
    a3 \<notin> {PR_MCE_KILL_EARLY, PR_MCE_KILL_LATE, PR_MCE_KILL_DEFAULT} \<and> s' = s\<lparr>mce_process := True\<rparr>"
proof (cases option)
  case PR_MCE_KILL
  obtain r t where m: "mce_kill a2 a3 a4 a5 s = (r, t)" by (metis prod.collapse)
  then have "rc = r" "s' = t" using assms(1) PR_MCE_KILL by (simp_all add: prctl_switch_def)
  then show ?thesis using mce_kill_error [OF m] assms(2) PR_MCE_KILL by blast
next
  case PR_SET_NAME
  then show ?thesis using assms(1,2) set_name_error [of E a2 s rc s'] by (auto simp: prctl_switch_def prod_eq_iff)
next
  case PR_SET_THP_DISABLE
  then show ?thesis using assms(1,2) set_thp_disable_error [of E a2 a3 a4 a5 s rc s']
    by (auto simp: prctl_switch_def prod_eq_iff)
next
  case PR_SET_NO_NEW_PRIVS
  then show ?thesis using assms(1,2) set_no_new_privs_error [of a2 a3 a4 a5 s rc s']
    by (auto simp: prctl_switch_def prod_eq_iff)
next
  case PR_SET_MM
  obtain r t where m: "prctl_set_mm (mem E) (to_int a2) a3 a4 a5 (mm s) = (r, t)" by (metis prod.collapse)
  then have "rc = r" "s' = s\<lparr>mm := t\<rparr>" using assms(1) PR_SET_MM by (simp_all add: prctl_switch_def)
  then show ?thesis using prctl_set_mm_change [OF m] assms(2) by simp
qed (use assms in \<open>auto simp: prctl_switch_def is_other_def prctl_get_tid_address_def
  dest: put_user_cases split: if_splits\<close>)

subsection \<open>Properties\<close>

definition plain_env :: prctl_env where
  "plain_env = \<lparr>mem = plain_mem, security_task_prctl = (\<lambda>opt a b c d. - ENOSYS),
     valid_signal = (\<lambda>sig. sig \<le> 64), other_ctl = (\<lambda>opt a b x. (- EINVAL, x)),
     user_string = (\<lambda>a. if a = 0 then None else Some ''a-name-of-20-letters''),
     mmap_sem_killed = False, me = 1, is_child_reaper = (\<lambda>p. False),
     walk_process_tree = (\<lambda>f sig. snd (f 3 (snd (f 2 sig))))\<rparr>"

definition plain_state :: prctl_state where
  "plain_state = \<lparr>pdeath_signal = 0, comm = ''init'', timer_slack_ns = 50000,
     default_timer_slack_ns = 50000, mce_process = False, mce_early = False, no_new_privs = False,
     clear_child_tid = 0, dumpable = 1, thp_disabled = False, mm = plain_mm,
     signals = (\<lambda>p. \<lparr>is_child_subreaper = False, has_child_subreaper = False\<rparr>), arch = 0\<rparr>"

text \<open>
  C35. No sequence of calls of \<open>prctl\<close>, with any arguments and whatever the rest of the kernel answers,
  gives back the right to gain privileges: once \<open>no_new_privs\<close> is set it stays set. The name of the
  task always fits in its array of sixteen bytes with the terminating NUL.
\<close>

theorem no_new_privs_permanent:
  assumes "prctl_step\<^sup>*\<^sup>* s s'" "length (comm s) < TASK_COMM_LEN"
  shows "(no_new_privs s \<longrightarrow> no_new_privs s') \<and> length (comm s') < TASK_COMM_LEN"
  using prctl_sys.inv_steps [OF assms(1), of "no_new_privs s"] assms(2) by (simp add: confined_def)

lemma no_new_privs_permanent_witness:
  "(let s1 = snd (snd (prctl plain_env PR_SET_NO_NEW_PRIVS 1 0 0 0 plain_state));
        s2 = snd (snd (prctl plain_env PR_SET_NAME 8 0 0 0 s1)) in
     no_new_privs s1 \<and> no_new_privs s2 \<and> comm s2 = ''a-name-of-20-le'')"
proof -
  let ?s1 = "snd (snd (prctl plain_env PR_SET_NO_NEW_PRIVS 1 0 0 0 plain_state))"
  let ?s2 = "snd (snd (prctl plain_env PR_SET_NAME 8 0 0 0 ?s1))"
  have "prctl_step\<^sup>*\<^sup>* ?s1 ?s2" by (metis call prod.collapse r_into_rtranclp)
  moreover have "no_new_privs ?s1" "length (comm ?s1) < 16" "comm ?s2 = ''a-name-of-20-le''"
    by (simp_all add: prctl_def prctl_switch_def set_name_def set_no_new_privs_def plain_env_def plain_state_def)
  ultimately show ?thesis using no_new_privs_permanent [of ?s1 ?s2] by simp
qed

text \<open>
  C36. A call of \<open>prctl\<close> that reports an error has changed nothing, with one exception: \<open>PR_MCE_KILL\<close>
  with \<open>PR_MCE_KILL_SET\<close> and an unknown policy has already set the flag \<open>PF_MCE_PROCESS\<close>. (The
  controls left to the architecture are outside.)
\<close>

theorem prctl_errors_atomic:
  assumes "prctl E option arg2 arg3 arg4 arg5 s = (rc, out, s')" "rc \<noteq> 0" "\<not> is_other option"
  shows "s' = s \<or> option = PR_MCE_KILL \<and> arg2 = PR_MCE_KILL_SET \<and> arg4 = 0 \<and> arg5 = 0 \<and>
    arg3 \<notin> {PR_MCE_KILL_EARLY, PR_MCE_KILL_LATE, PR_MCE_KILL_DEFAULT} \<and> s' = s\<lparr>mce_process := True\<rparr>"
proof (cases "security_task_prctl E option arg2 arg3 arg4 arg5 = - ENOSYS")
  case True
  then show ?thesis using prctl_switch_error [OF _ assms(2,3)] assms(1) by (simp add: prctl_def)
qed (use assms(1) in \<open>simp add: prctl_def\<close>)

lemma prctl_errors_atomic_witness:
  "prctl plain_env PR_SET_DUMPABLE 7 0 0 0 plain_state = (- EINVAL, None, plain_state) \<and>
   (let s' = snd (snd (prctl plain_env PR_SET_DUMPABLE 7 0 0 0 plain_state)) in s' = plain_state)"
proof -
  have r: "prctl plain_env PR_SET_DUMPABLE 7 0 0 0 plain_state = (- EINVAL, None, plain_state)"
    by (simp add: prctl_def prctl_switch_def plain_env_def)
  moreover have "\<not> is_other PR_SET_DUMPABLE" by (simp add: is_other_def)
  ultimately show ?thesis using prctl_errors_atomic [OF r] by simp
qed

text \<open>The exception happens: the call fails and the process has a policy of its own.\<close>

lemma mce_kill_not_atomic:
  "prctl plain_env PR_MCE_KILL PR_MCE_KILL_SET 7 0 0 plain_state
     = (- EINVAL, None, plain_state\<lparr>mce_process := True\<rparr>)"
  by (simp add: prctl_def prctl_switch_def mce_kill_def plain_env_def)

text \<open>A timer slack in the upper half of the range reads as an error number: the largest as \<open>EPERM\<close>.\<close>

lemma timerslack_reads_as_error:
  "fst (prctl plain_env PR_GET_TIMERSLACK 0 0 0 0
      (snd (snd (prctl plain_env PR_SET_TIMERSLACK ULONG_MAX 0 0 0 plain_state)))) = - EPERM"
  by (simp add: prctl_def prctl_switch_def set_timerslack_def get_timerslack_def plain_env_def)

text \<open>Set with one option, then read with another: the code and what is written to the user.\<close>

definition set_get :: "prctl_env \<Rightarrow> prctl_option \<Rightarrow> u64 \<Rightarrow> u64 \<Rightarrow> prctl_option \<Rightarrow> u64 \<Rightarrow>
    prctl_state \<Rightarrow> (int \<times> prctl_out option) option" where
  "set_get E set_opt a b get_opt p s =
     (case prctl E set_opt a b 0 0 s of (rc, _, s1) \<Rightarrow>
        if rc \<noteq> 0 then None
        else (case prctl E get_opt p 0 0 0 s1 of (rc, out, _) \<Rightarrow> Some (rc, out)))"

lemma get_timerslack_eq: "get_timerslack s = sint (timer_slack_ns s)"
proof -
  have "timer_slack_ns s \<le> - 1" by (rule word_order.extremum)
  moreover have "(- 1 :: u64) = ULONG_MAX" by simp
  ultimately have "timer_slack_ns s \<le> ULONG_MAX" by (simp only:)
  then have "\<not> timer_slack_ns s > ULONG_MAX" by (simp add: not_less)
  then show ?thesis by (simp add: get_timerslack_def)
qed

lemma to_int_small: "a \<le> 64 \<Longrightarrow> to_int a = uint a"
proof -
  assume "a \<le> 64"
  then have "uint a \<le> 64" by (simp add: word_le_def)
  then show ?thesis unfolding to_int_def by (intro s32_id) (auto simp: order_trans [OF _ uint_ge_0])
qed

text \<open>
  What \<open>prctl\<close> sets, it reads back: the signal for the parent's death, the timer slack (the
  default for 0), the first fifteen characters of the name, the dumpable flag, the use of large pages,
  the policy for machine checks and the ban on new privileges.
\<close>

theorem prctl_set_get:
  assumes "\<And>opt a b c d. security_task_prctl E opt a b c d = - ENOSYS" "user_write (mem E) p"
    "user_string E q = Some name" "\<not> mmap_sem_killed E" "valid_signal E sig" "sig \<le> 64"
  shows "set_get E PR_SET_PDEATHSIG sig 0 PR_GET_PDEATHSIG p s = Some (0, Some (Int_out (uint sig))) \<and>
    set_get E PR_SET_TIMERSLACK slack 0 PR_GET_TIMERSLACK 0 s =
      Some (sint (if slack = 0 then default_timer_slack_ns s else slack), None) \<and>
    set_get E PR_SET_NAME q 0 PR_GET_NAME p s = Some (0, Some (Comm_out (take 15 name))) \<and>
    set_get E PR_SET_DUMPABLE (of_bool d) 0 PR_GET_DUMPABLE 0 s = Some (of_bool d, None) \<and>
    set_get E PR_SET_THP_DISABLE x 0 PR_GET_THP_DISABLE 0 s = Some (of_bool (x \<noteq> 0), None) \<and>
    set_get E PR_MCE_KILL PR_MCE_KILL_SET k PR_MCE_KILL_GET 0 s =
      (if k \<in> {PR_MCE_KILL_LATE, PR_MCE_KILL_EARLY, PR_MCE_KILL_DEFAULT} then Some (uint k, None) else None) \<and>
    set_get E PR_SET_NO_NEW_PRIVS 1 0 PR_GET_NO_NEW_PRIVS 0 s = Some (1, None)"
proof -
  have g: "set_get E so a b go c s = (case prctl_switch E so a b 0 0 s of (rc, _, s1) \<Rightarrow>
      if rc \<noteq> 0 then None else (case prctl_switch E go c 0 0 0 s1 of (rc, out, _) \<Rightarrow> Some (rc, out)))"
    for so a b go c
    unfolding set_get_def prctl_def assms(1) Let_def if_not_P [OF iffD2 [OF not_not refl]]
    by (simp split: prod.split)
  note d = prctl_switch_def put_user_def assms
  have "set_get E PR_SET_PDEATHSIG sig 0 PR_GET_PDEATHSIG p s = Some (0, Some (Int_out (uint sig)))"
    using to_int_small [OF assms(6)] by (simp add: g d)
  moreover have "set_get E PR_SET_TIMERSLACK slack 0 PR_GET_TIMERSLACK 0 s =
      Some (sint (if slack = 0 then default_timer_slack_ns s else slack), None)"
    by (simp add: g d set_timerslack_def get_timerslack_eq)
  moreover have "set_get E PR_SET_NAME q 0 PR_GET_NAME p s = Some (0, Some (Comm_out (take 15 name)))"
    by (simp add: g d set_name_def)
  moreover have "set_get E PR_SET_DUMPABLE (of_bool d) 0 PR_GET_DUMPABLE 0 s = Some (of_bool d, None)"
    by (cases d) (simp_all add: g d to_int_small)
  moreover have "set_get E PR_SET_THP_DISABLE x 0 PR_GET_THP_DISABLE 0 s = Some (of_bool (x \<noteq> 0), None)"
    by (simp add: g d set_thp_disable_def get_thp_disable_def)
  moreover have "set_get E PR_MCE_KILL PR_MCE_KILL_SET k PR_MCE_KILL_GET 0 s =
      (if k \<in> {PR_MCE_KILL_LATE, PR_MCE_KILL_EARLY, PR_MCE_KILL_DEFAULT} then Some (uint k, None) else None)"
    by (simp add: g d mce_kill_def mce_kill_get_def)
  moreover have "set_get E PR_SET_NO_NEW_PRIVS 1 0 PR_GET_NO_NEW_PRIVS 0 s = Some (1, None)"
    by (simp add: g d set_no_new_privs_def get_no_new_privs_def)
  ultimately show ?thesis by blast
qed

lemma prctl_set_get_witness:
  "set_get plain_env PR_SET_NAME 8 0 PR_GET_NAME 8 plain_state
     = Some (0, Some (Comm_out ''a-name-of-20-le'')) \<and>
   set_get plain_env PR_SET_PDEATHSIG 9 0 PR_GET_PDEATHSIG 8 plain_state = Some (0, Some (Int_out 9))"
proof -
  have "security_task_prctl plain_env opt a b c d = - ENOSYS" for opt a b c d
    by (simp add: plain_env_def)
  moreover have "user_write (mem plain_env) 8" "user_string plain_env 8 = Some ''a-name-of-20-letters''"
      "\<not> mmap_sem_killed plain_env" "valid_signal plain_env 9" "(9 :: u64) \<le> 64"
    by (simp_all add: plain_env_def plain_mem_def)
  ultimately show ?thesis using prctl_set_get [of plain_env 8 8 "''a-name-of-20-letters''" 9] by simp
qed

end
