(* ===== verification/KernelStats.thy ===== *)
theory KernelStats
  imports Prelude
begin

text \<open>
  \<open>sys.c\<close>: the calls that report times, use of resources, the processor and the memory of the system
  (\<open>times\<close>, \<open>getrusage\<close>, \<open>getcpu\<close>, \<open>sysinfo\<close>, with their variants for 32-bit programs) and \<open>umask\<close>.
  Counters are \<open>unsigned long\<close> on a 64-bit kernel and wrap. Conversions of times and the sources of
  the numbers belong to the rest of the kernel and are the records \<open>clock_env\<close>, \<open>usage_env\<close> and
  \<open>info_env\<close>; whether a store to user memory works is a flag.
\<close>

subsection \<open>times\<close>

record tms =
  tms_utime :: u64
  tms_stime :: u64
  tms_cutime :: u64
  tms_cstime :: u64

record compat_tms =
  c_utime :: u32
  c_stime :: u32
  c_cutime :: u32
  c_cstime :: u32

text \<open>The adjusted times of the calling group, those of its reaped children, and the clock.\<close>

record clock_env =
  tg_utime :: u64
  tg_stime :: u64
  sig_cutime :: u64
  sig_cstime :: u64
  jiffies_64 :: u64
  jiffies :: u64
  nsec_to_clock_t :: "u64 \<Rightarrow> u64"
  jiffies_64_to_clock_t :: "u64 \<Rightarrow> u64"
  clock_t_to_jiffies :: "u64 \<Rightarrow> u64"
  compat_jiffies_to_clock_t :: "u64 \<Rightarrow> u32"

definition do_sys_times :: "clock_env \<Rightarrow> tms" where
  "do_sys_times K =
     \<lparr>tms_utime = nsec_to_clock_t K (tg_utime K), tms_stime = nsec_to_clock_t K (tg_stime K),
      tms_cutime = nsec_to_clock_t K (sig_cutime K), tms_cstime = nsec_to_clock_t K (sig_cstime K)\<rparr>"

text \<open>\<open>tbuf\<close>: null, or whether the copy to it works. The result and what was stored.\<close>

definition times :: "clock_env \<Rightarrow> bool option \<Rightarrow> int \<times> tms option" where
  "times K tbuf =
     (let ticks = sint (jiffies_64_to_clock_t K (jiffies_64 K)) in
      case tbuf of
        None \<Rightarrow> (ticks, None)
      | Some user_ok \<Rightarrow> if user_ok then (ticks, Some (do_sys_times K)) else (- EFAULT, None))"

definition clock_t_to_compat_clock_t :: "clock_env \<Rightarrow> u64 \<Rightarrow> u32" where
  "clock_t_to_compat_clock_t K x = compat_jiffies_to_clock_t K (clock_t_to_jiffies K x)"

definition compat_times :: "clock_env \<Rightarrow> bool option \<Rightarrow> int \<times> compat_tms option" where
  "compat_times K tbuf =
     (let ticks = sint (compat_jiffies_to_clock_t K (jiffies K)) in
      case tbuf of
        None \<Rightarrow> (ticks, None)
      | Some user_ok \<Rightarrow>
          let tms = do_sys_times K;
              tmp = \<lparr>c_utime = clock_t_to_compat_clock_t K (tms_utime tms),
                     c_stime = clock_t_to_compat_clock_t K (tms_stime tms),
                     c_cutime = clock_t_to_compat_clock_t K (tms_cutime tms),
                     c_cstime = clock_t_to_compat_clock_t K (tms_cstime tms)\<rparr> in
          if user_ok then (ticks, Some tmp) else (- EFAULT, None))"

subsection \<open>getrusage\<close>

text \<open>The counters of one thread; those of a process that the signal structure holds: of its dead
  threads and of its reaped children (\<open>c...\<close>).\<close>

record thread_usage =
  nvcsw :: u64
  nivcsw :: u64
  min_flt :: u64
  maj_flt :: u64
  io_inblock :: u64
  io_oublock :: u64

record signal_struct = thread_usage +
  sig_maxrss :: u64
  cutime :: u64
  cstime :: u64
  cnvcsw :: u64
  cnivcsw :: u64
  cmin_flt :: u64
  cmaj_flt :: u64
  cinblock :: u64
  coublock :: u64
  cmaxrss :: u64

text \<open>
  \<open>thread_time\<close> and \<open>group_time\<close> are the adjusted user and system times of the thread and of the
  group; \<open>sighand\<close> whether the lock can be taken; \<open>get_mm\<close> the memory of the process, if any.
\<close>

record process =
  this_thread :: thread_usage
  other_threads :: "thread_usage list"
  signal :: signal_struct
  thread_time :: "u64 \<times> u64"
  group_time :: "u64 \<times> u64"
  sighand :: bool
  get_mm :: "nat option"

text \<open>The members of \<open>struct rusage\<close> that are ever set; the others are zero.\<close>

record rusage =
  ru_utime :: "u64 \<times> u64"
  ru_stime :: "u64 \<times> u64"
  ru_maxrss :: u64
  ru_minflt :: u64
  ru_majflt :: u64
  ru_inblock :: u64
  ru_oublock :: u64
  ru_nvcsw :: u64
  ru_nivcsw :: u64

record usage_env =
  ns_to_timeval :: "u64 \<Rightarrow> u64 \<times> u64"
  setmax_mm_hiwater_rss :: "nat \<Rightarrow> u64 \<Rightarrow> u64"
  usage_page_size :: u64

abbreviation (input) RUSAGE_SELF :: int where "RUSAGE_SELF \<equiv> 0"
abbreviation (input) RUSAGE_CHILDREN :: int where "RUSAGE_CHILDREN \<equiv> - 1"
abbreviation (input) RUSAGE_BOTH :: int where "RUSAGE_BOTH \<equiv> - 2"
abbreviation (input) RUSAGE_THREAD :: int where "RUSAGE_THREAD \<equiv> 1"

definition no_rusage :: rusage where
  "no_rusage = \<lparr>ru_utime = (0, 0), ru_stime = (0, 0), ru_maxrss = 0, ru_minflt = 0, ru_majflt = 0,
     ru_inblock = 0, ru_oublock = 0, ru_nvcsw = 0, ru_nivcsw = 0\<rparr>"

definition accumulate_thread_rusage :: "'a thread_usage_scheme \<Rightarrow> rusage \<Rightarrow> rusage" where
  "accumulate_thread_rusage t r = r\<lparr>ru_nvcsw := ru_nvcsw r + nvcsw t,
     ru_nivcsw := ru_nivcsw r + nivcsw t, ru_minflt := ru_minflt r + min_flt t,
     ru_majflt := ru_majflt r + maj_flt t, ru_inblock := ru_inblock r + io_inblock t,
     ru_oublock := ru_oublock r + io_oublock t\<rparr>"

text \<open>The case of the children: the counters, the two times and the resident set.\<close>

definition children_usage :: "process \<Rightarrow> rusage \<times> u64 \<times> u64 \<times> u64" where
  "children_usage p = (no_rusage\<lparr>ru_nvcsw := cnvcsw (signal p), ru_nivcsw := cnivcsw (signal p),
     ru_minflt := cmin_flt (signal p), ru_majflt := cmaj_flt (signal p),
     ru_inblock := cinblock (signal p), ru_oublock := coublock (signal p)\<rparr>,
     cutime (signal p), cstime (signal p), cmaxrss (signal p))"

text \<open>The case of the process itself, added to what is there: the dead threads, then the living.\<close>

definition self_usage :: "process \<Rightarrow> rusage \<times> u64 \<times> u64 \<times> u64 \<Rightarrow> rusage \<times> u64 \<times> u64 \<times> u64" where
  "self_usage p = (\<lambda>(r, utime, stime, maxrss).
     (let utime = utime + fst (group_time p);
          stime = stime + snd (group_time p);
          r = accumulate_thread_rusage (signal p) r;
          maxrss = (if maxrss < sig_maxrss (signal p) then sig_maxrss (signal p) else maxrss);
          r = fold accumulate_thread_rusage (this_thread p # other_threads p) r in
      (r, utime, stime, maxrss)))"

text \<open>The end after the label \<open>out\<close>.\<close>

definition finish_usage :: "usage_env \<Rightarrow> process \<Rightarrow> int \<Rightarrow> rusage \<times> u64 \<times> u64 \<times> u64 \<Rightarrow> rusage" where
  "finish_usage K p who = (\<lambda>(r, utime, stime, maxrss).
     (let r = r\<lparr>ru_utime := ns_to_timeval K utime, ru_stime := ns_to_timeval K stime\<rparr>;
          maxrss = (if who \<noteq> RUSAGE_CHILDREN then
                      (case get_mm p of None \<Rightarrow> maxrss | Some m \<Rightarrow> setmax_mm_hiwater_rss K m maxrss)
                    else maxrss) in
      r\<lparr>ru_maxrss := maxrss * (usage_page_size K div 1024)\<rparr>))"

text \<open>\<open>getrusage\<close>; \<open>None\<close> is the \<open>BUG()\<close> for an unknown \<open>who\<close>.\<close>

definition getrusage :: "usage_env \<Rightarrow> process \<Rightarrow> int \<Rightarrow> rusage option" where
  "getrusage K p who =
     (if who = RUSAGE_THREAD then
        Some (finish_usage K p who (accumulate_thread_rusage (this_thread p) no_rusage,
          fst (thread_time p), snd (thread_time p), sig_maxrss (signal p)))
      else if \<not> sighand p then Some no_rusage
      else if who = RUSAGE_CHILDREN then Some (finish_usage K p who (children_usage p))
      else if who = RUSAGE_BOTH then Some (finish_usage K p who (self_usage p (children_usage p)))
      else if who = RUSAGE_SELF then Some (finish_usage K p who (self_usage p (no_rusage, 0, 0, 0)))
      else None)"

definition sys_getrusage :: "usage_env \<Rightarrow> process \<Rightarrow> int \<Rightarrow> bool \<Rightarrow> (int \<times> rusage option) option" where
  "sys_getrusage K p who user_ok =
     (if who \<noteq> RUSAGE_SELF \<and> who \<noteq> RUSAGE_CHILDREN \<and> who \<noteq> RUSAGE_THREAD then Some (- EINVAL, None)
      else map_option (\<lambda>r. if user_ok then (0, Some r) else (- EFAULT, None)) (getrusage K p who))"

text \<open>For 32-bit programs with the conversion \<open>put_compat_rusage\<close> of the rest of the kernel.\<close>

definition compat_getrusage ::
  "usage_env \<Rightarrow> process \<Rightarrow> int \<Rightarrow> (rusage \<Rightarrow> int) \<Rightarrow> int option" where
  "compat_getrusage K p who put_compat_rusage =
     (if who \<noteq> RUSAGE_SELF \<and> who \<noteq> RUSAGE_CHILDREN \<and> who \<noteq> RUSAGE_THREAD then Some (- EINVAL)
      else map_option put_compat_rusage (getrusage K p who))"

subsection \<open>umask and getcpu\<close>

text \<open>The result is the old mask, the state the new one.\<close>

definition umask :: "int \<Rightarrow> int \<Rightarrow> int \<times> int" where
  "umask new fs_umask = (fs_umask, new AND 0x1ff)"

text \<open>\<open>cpup\<close>, \<open>nodep\<close>: null, or whether the store works. The code and the two values stored.\<close>

definition getcpu ::
  "int \<Rightarrow> (int \<Rightarrow> int) \<Rightarrow> bool option \<Rightarrow> bool option \<Rightarrow> int \<times> int option \<times> int option" where
  "getcpu cpu cpu_to_node cpup nodep =
     (let err = 0;
          err = err OR (case cpup of None \<Rightarrow> 0 | Some ok \<Rightarrow> if ok then 0 else - EFAULT);
          err = err OR (case nodep of None \<Rightarrow> 0 | Some ok \<Rightarrow> if ok then 0 else - EFAULT) in
      (if err \<noteq> 0 then - EFAULT else 0,
       if cpup = Some True then Some cpu else None,
       if nodep = Some True then Some (cpu_to_node cpu) else None))"

subsection \<open>sysinfo\<close>

record sysinfo =
  uptime :: int
  loads :: "u64 list"
  totalram :: u64
  freeram :: u64
  sharedram :: u64
  bufferram :: u64
  totalswap :: u64
  freeswap :: u64
  procs :: u16
  totalhigh :: u64
  freehigh :: u64
  mem_unit :: u32

record info_env =
  boottime :: "int \<times> int"
  avenrun :: "u64 list"
  nr_threads :: int
  si_meminfo :: "sysinfo \<Rightarrow> sysinfo"
  si_swapinfo :: "sysinfo \<Rightarrow> sysinfo"
  info_page_size :: u64

definition no_sysinfo :: sysinfo where
  "no_sysinfo = \<lparr>uptime = 0, loads = [0, 0, 0], totalram = 0, freeram = 0, sharedram = 0, bufferram = 0,
     totalswap = 0, freeswap = 0, procs = 0, totalhigh = 0, freehigh = 0, mem_unit = 0\<rparr>"

definition fill_sysinfo :: "info_env \<Rightarrow> sysinfo" where
  "fill_sysinfo K =
     (let info = no_sysinfo;
          info = info\<lparr>uptime := fst (boottime K) + (if snd (boottime K) \<noteq> 0 then 1 else 0)\<rparr>;
          info = info\<lparr>loads := avenrun K\<rparr>;
          info = info\<lparr>procs := word_of_int (nr_threads K)\<rparr> in
      si_swapinfo K (si_meminfo K info))"

text \<open>The loop that doubles the total while it halves the unit: the number of bits, or \<open>None\<close> when the
  total no longer fits.\<close>

function count_bits :: "u32 \<Rightarrow> u64 \<Rightarrow> nat \<Rightarrow> nat option" where
  "count_bits unit mem_total bitcount =
     (if unit > 1 then
        let bitcount = bitcount + 1;
            unit = drop_bit 1 unit;
            sav_total = mem_total;
            mem_total = push_bit 1 mem_total in
        if mem_total < sav_total then None else count_bits unit mem_total bitcount
      else Some bitcount)"
  by auto

lemma unat_half: "unat (drop_bit (Suc 0) (unit :: u32)) = unat unit div 2"
  by (simp add: drop_bit_Suc unat_div)

termination count_bits
  by (relation "measure (\<lambda>(unit, _). unat unit)") (simp_all add: unat_half word_less_nat_alt)

declare count_bits.simps [simp del]

text \<open>The eight amounts of memory, and a change of all of them.\<close>

definition map_amounts :: "(u64 \<Rightarrow> u64) \<Rightarrow> sysinfo \<Rightarrow> sysinfo" where
  "map_amounts f info = info\<lparr>totalram := f (totalram info), freeram := f (freeram info),
     sharedram := f (sharedram info), bufferram := f (bufferram info), totalswap := f (totalswap info),
     freeswap := f (freeswap info), totalhigh := f (totalhigh info), freehigh := f (freehigh info)\<rparr>"

definition amounts :: "sysinfo \<Rightarrow> u64 list" where
  "amounts info = [totalram info, freeram info, sharedram info, bufferram info, totalswap info,
     freeswap info, totalhigh info, freehigh info]"

definition scale_up :: "sysinfo \<Rightarrow> sysinfo" where
  "scale_up info =
     (let mem_total = totalram info + totalswap info in
      if mem_total < totalram info \<or> mem_total < totalswap info then info
      else case count_bits (mem_unit info) mem_total 0 of
        None \<Rightarrow> info
      | Some bitcount \<Rightarrow> map_amounts (push_bit bitcount) (info\<lparr>mem_unit := 1\<rparr>))"

definition do_sysinfo :: "info_env \<Rightarrow> sysinfo" where
  "do_sysinfo K = scale_up (fill_sysinfo K)"

definition sys_sysinfo :: "info_env \<Rightarrow> bool \<Rightarrow> int \<times> sysinfo option" where
  "sys_sysinfo K user_ok = (if user_ok then (0, Some (do_sysinfo K)) else (- EFAULT, None))"

text \<open>
  The variant for 32-bit programs. Its loop shifts the unit until it reaches the page size; on a unit
  of 0 it never ends (\<open>None\<close>).
\<close>

partial_function (option) raise_unit :: "u64 \<Rightarrow> u32 \<Rightarrow> nat \<Rightarrow> (u32 \<times> nat) option" where
  "raise_unit page_size unit bitcount =
     (if ucast unit < page_size then raise_unit page_size (push_bit 1 unit) (bitcount + 1)
      else Some (unit, bitcount))"

definition upper_32_bits :: "u64 \<Rightarrow> u32" where
  "upper_32_bits n = ucast (drop_bit 32 n)"

definition compat_scale :: "u64 \<Rightarrow> sysinfo \<Rightarrow> sysinfo option" where
  "compat_scale page_size s =
     (if upper_32_bits (totalram s) \<noteq> 0 \<or> upper_32_bits (totalswap s) \<noteq> 0 then
        map_option (\<lambda>(unit, bitcount). map_amounts (drop_bit bitcount) (s\<lparr>mem_unit := unit\<rparr>))
          (raise_unit page_size (mem_unit s) 0)
      else Some s)"

text \<open>The fourteen members in the order they are stored, each cut to its type.\<close>

definition compat_values :: "sysinfo \<Rightarrow> int list" where
  "compat_values s =
     [s32 (uptime s)] @ map (\<lambda>l. uint (ucast l :: u32)) (loads s) @
     map (\<lambda>x. uint (ucast x :: u32)) [totalram s, freeram s, sharedram s, bufferram s, totalswap s, freeswap s] @
     [uint (procs s)] @
     map (\<lambda>x. uint (ucast x :: u32)) [totalhigh s, freehigh s] @
     [uint (mem_unit s)]"

definition compat_sysinfo :: "info_env \<Rightarrow> bool \<Rightarrow> (nat \<Rightarrow> bool) \<Rightarrow> (int \<times> int list) option" where
  "compat_sysinfo K access_ok put_ok =
     map_option (\<lambda>s.
       let values = compat_values s;
           stored = takeWhile put_ok [0..<length values] in
       if \<not> access_ok then (- EFAULT, [])
       else (if length stored < length values then - EFAULT else 0, take (length stored) values))
     (compat_scale (info_page_size K) (do_sysinfo K))"

subsection \<open>Lemmas on the counters\<close>

lemma fold_usage:
  "ru_nvcsw (fold accumulate_thread_rusage ts r) = ru_nvcsw r + sum_list (map nvcsw ts)"
  "ru_nivcsw (fold accumulate_thread_rusage ts r) = ru_nivcsw r + sum_list (map nivcsw ts)"
  "ru_minflt (fold accumulate_thread_rusage ts r) = ru_minflt r + sum_list (map min_flt ts)"
  "ru_majflt (fold accumulate_thread_rusage ts r) = ru_majflt r + sum_list (map maj_flt ts)"
  "ru_inblock (fold accumulate_thread_rusage ts r) = ru_inblock r + sum_list (map io_inblock ts)"
  "ru_oublock (fold accumulate_thread_rusage ts r) = ru_oublock r + sum_list (map io_oublock ts)"
  by (induction ts arbitrary: r) (simp_all add: accumulate_thread_rusage_def add.assoc)

lemma finish_usage_counters [simp]:
  "ru_nvcsw (finish_usage K p who (r, u, s, m)) = ru_nvcsw r"
  "ru_nivcsw (finish_usage K p who (r, u, s, m)) = ru_nivcsw r"
  "ru_minflt (finish_usage K p who (r, u, s, m)) = ru_minflt r"
  "ru_majflt (finish_usage K p who (r, u, s, m)) = ru_majflt r"
  "ru_inblock (finish_usage K p who (r, u, s, m)) = ru_inblock r"
  "ru_oublock (finish_usage K p who (r, u, s, m)) = ru_oublock r"
  "ru_utime (finish_usage K p who (r, u, s, m)) = ns_to_timeval K u"
  "ru_stime (finish_usage K p who (r, u, s, m)) = ns_to_timeval K s"
  by (simp_all add: finish_usage_def Let_def)

lemmas usage_simps = getrusage_def self_usage_def children_usage_def no_rusage_def fold_usage
  accumulate_thread_rusage_def

subsection \<open>Lemmas on the scaling of memory\<close>

lemma unat_double: "unat ((x :: u64) * 2) = (2 * unat x) mod 2 ^ 64"
  by (simp add: unat_word_ariths mult.commute)

lemma unat_u64: "unat (x :: u64) < 2 ^ 64"
proof -
  have "unat x < 2 ^ LENGTH(64)" by (rule unsigned_less)
  then show ?thesis by simp
qed

lemma scaled_le: "m \<le> n \<Longrightarrow> m \<le> n * 2 ^ k" for m :: nat
  by (metis le_trans mult.right_neutral mult_le_mono2 one_le_numeral one_le_power)

lemma count_bits_power:
  "unat unit = 2 ^ k \<Longrightarrow>
   count_bits unit amount b = (if unat amount * 2 ^ k < 2 ^ 64 then Some (b + k) else None)"
proof (induction k arbitrary: unit amount b)
  case 0
  then have "\<not> unit > 1" by (simp add: word_less_nat_alt)
  then show ?case using unat_u64 [of amount] by (simp add: count_bits.simps)
next
  case (Suc k)
  have "(1 :: nat) < 2 ^ Suc k" by (rule one_less_power) simp_all
  then have big: "unit > 1" unfolding word_less_nat_alt Suc.prems by simp
  have h: "unat (drop_bit (Suc 0) unit) = 2 ^ k" using Suc.prems by (simp add: unat_half)
  have lt: "unat amount < 2 ^ 64" using unat_u64 [of amount] by simp
  show ?case
  proof (cases "2 * unat amount < 2 ^ 64")
    case True
    then have d: "unat (push_bit (Suc 0) amount) = 2 * unat amount" by (simp add: unat_double)
    then have "\<not> push_bit (Suc 0) amount < amount" by (simp add: word_less_nat_alt)
    then have "count_bits unit amount b = count_bits (drop_bit (Suc 0) unit) (push_bit (Suc 0) amount) (b + 1)"
      using big by (subst count_bits.simps) (simp add: Let_def)
    then show ?thesis using Suc.IH [OF h, of "push_bit (Suc 0) amount" "b + 1"] d by (simp add: ac_simps)
  next
    case False
    then have "unat (push_bit (Suc 0) amount) < unat amount"
      using lt by (auto simp: unat_double mod_if)
    then have "push_bit (Suc 0) amount < amount" by (simp add: word_less_nat_alt)
    then have "count_bits unit amount b = None"
      using big by (subst count_bits.simps) (simp add: Let_def)
    moreover have "\<not> unat amount * 2 ^ Suc k < 2 ^ 64"
      using False scaled_le [of "2 ^ 64" "2 * unat amount" k] by (simp add: ac_simps)
    ultimately show ?thesis by simp
  qed
qed

lemma unat_scaled: "unat x * 2 ^ k < 2 ^ 64 \<Longrightarrow> unat (push_bit k (x :: u64)) = unat x * 2 ^ k"
  by (simp only: unsigned_push_bit_eq) (simp add: take_bit_eq_mod push_bit_eq_mult)

lemma amounts_map [simp]:
  "amounts (map_amounts f s) = map f (amounts s)" "mem_unit (map_amounts f s) = mem_unit s"
  "amounts (s\<lparr>mem_unit := u\<rparr>) = amounts s"
  by (simp_all add: amounts_def map_amounts_def)

text \<open>\<open>scale_up\<close> by cases: the total in bytes fits in 64 bits or not.\<close>

lemma scale_up_cases:
  assumes "unat (mem_unit s) = 2 ^ k"
  shows "scale_up s = (if (unat (totalram s) + unat (totalswap s)) * 2 ^ k < 2 ^ 64
    then map_amounts (push_bit k) (s\<lparr>mem_unit := 1\<rparr>) else s)"
proof -
  let ?T = "unat (totalram s) + unat (totalswap s)" and ?t = "totalram s + totalswap s"
  show ?thesis
  proof (cases "?T < 2 ^ 64")
    case True
    then have t: "unat ?t = ?T" by (simp add: unat_word_ariths)
    then have "\<not> (?t < totalram s \<or> ?t < totalswap s)" by (simp add: word_less_nat_alt)
    then show ?thesis
      using count_bits_power [OF assms, of ?t 0] t by (simp add: scale_up_def Let_def)
  next
    case False
    then have "unat ?t = ?T - 2 ^ 64"
      using unat_u64 [of "totalram s"] unat_u64 [of "totalswap s"] by (simp add: unat_word_ariths mod_if)
    then have "?t < totalram s"
      using False unat_u64 [of "totalram s"] unat_u64 [of "totalswap s"] by (simp add: word_less_nat_alt)
    moreover have "\<not> ?T * 2 ^ k < 2 ^ 64"
      using False scaled_le [of "2 ^ 64" ?T k] by (simp only: not_less)
    ultimately show ?thesis by (simp add: scale_up_def Let_def)
  qed
qed

text \<open>One round of the other loop, and its end: the measure is the distance to the page size.\<close>

lemma unat_u32_double:
  "unat (unit :: u32) < 2 ^ 31 \<Longrightarrow> unat (push_bit 1 unit) = 2 * unat unit"
  by (simp add: unat_word_ariths mult.commute)

lemma unat_u32: "unat (x :: u32) < 2 ^ 32"
proof -
  have "unat x < 2 ^ LENGTH(32)" by (rule unsigned_less)
  then show ?thesis by simp
qed

lemma unat_ucast_u64: "unat (ucast (unit :: u32) :: u64) = unat unit"
  using unat_u32 [of unit] by (simp add: unsigned_ucast_eq take_bit_nat_eq_self)

lemma ucast_less_iff: "(ucast (unit :: u32) :: u64) < p \<longleftrightarrow> unat unit < unat p"
  by (simp add: word_less_nat_alt unat_ucast_u64)

definition raised :: "u64 \<Rightarrow> u32 \<Rightarrow> nat \<Rightarrow> nat \<Rightarrow> (u32 \<times> nat) option \<Rightarrow> bool" where
  "raised p unit b k r \<longleftrightarrow> r = Some (push_bit k unit, b + k) \<and>
     unat (push_bit k unit) = unat unit * 2 ^ k \<and> unat p \<le> unat unit * 2 ^ k \<and>
     (k = 0 \<or> unat unit * 2 ^ (k - 1) < unat p)"

lemma raise_unit_ends:
  "unat p \<le> 2 ^ 31 \<Longrightarrow> unit \<noteq> 0 \<Longrightarrow> \<exists>k. raised p unit b k (raise_unit p unit b)"
proof (induction "unat p - unat unit" arbitrary: unit b rule: less_induct)
  case less
  show ?case
  proof (cases "unat unit < unat p")
    case False
    then have "raised p unit b 0 (raise_unit p unit b)"
      by (simp add: raised_def raise_unit.simps ucast_less_iff)
    then show ?thesis by blast
  next
    case True
    have d: "unat (push_bit 1 unit) = 2 * unat unit"
      using True less.prems(1) by (intro unat_u32_double) simp
    have nz: "0 < unat unit" using less.prems(2) by (simp add: unat_gt_0)
    then have "push_bit 1 unit \<noteq> 0" using d by (metis less_numeral_extra(3) mult_pos_pos unat_0 zero_less_numeral)
    moreover have "unat p - unat (push_bit 1 unit) < unat p - unat unit" using d nz True by linarith
    ultimately obtain k where k: "raised p (push_bit 1 unit) (b + 1) k (raise_unit p (push_bit 1 unit) (b + 1))"
      using less.hyps less.prems(1) by blast
    have u: "raise_unit p unit b = raise_unit p (push_bit 1 unit) (b + 1)"
      using True by (subst raise_unit.simps) (simp add: ucast_less_iff)
    have "raised p unit b (Suc k) (raise_unit p unit b)"
      using k d True unfolding u raised_def by (cases k) (simp_all add: ac_simps)
    then show ?thesis by blast
  qed
qed

lemma raise_unit_zero:
  assumes "raise_unit p unit b = Some r"
  shows "0 < p \<longrightarrow> unit \<noteq> 0"
proof (rule raise_unit.raw_induct [OF _ assms])
  fix f p' unit' b' r'
  assume ih: "\<And>p unit b r. f p unit b = Some r \<Longrightarrow> 0 < p \<longrightarrow> unit \<noteq> 0"
    and f: "(if ucast unit' < p' then f p' (push_bit 1 unit') (b' + 1) else Some (unit', b')) = Some r'"
  show "0 < p' \<longrightarrow> unit' \<noteq> 0"
    using f ih [of p' "push_bit 1 unit'" "b' + 1" r'] by (auto split: if_splits)
qed

lemma raise_unit_total:
  assumes "unat p \<le> 2 ^ 31" "unit \<noteq> 0"
  obtains n where "raise_unit p unit 0 = Some (push_bit n unit, n)" "n < 32"
    "unat (push_bit n unit) = unat unit * 2 ^ n" "unat p \<le> unat unit * 2 ^ n"
    "n = 0 \<or> unat unit * 2 ^ (n - 1) < unat p"
proof -
  obtain n where n: "raised p unit 0 n (raise_unit p unit 0)" using raise_unit_ends [OF assms] by blast
  have "1 \<le> unat unit" using assms(2) by (simp add: Suc_le_eq unat_gt_0)
  then have "2 ^ n \<le> unat unit * 2 ^ n" by simp
  also have "\<dots> < 2 ^ 32" using n unat_u32 [of "push_bit n unit"] by (simp add: raised_def)
  finally have "n < 32" by (rule power_less_imp_less_exp [rotated]) simp
  then show ?thesis using that n by (simp add: raised_def)
qed

lemma unat_drop: "unat (drop_bit n (x :: u64)) = unat x div 2 ^ n"
  unfolding unat_drop_bit_eq by (rule drop_bit_eq_div)

subsection \<open>Properties\<close>

text \<open>
  \<open>getrusage\<close> adds up: for the process itself every counter is that of its dead threads plus those
  of all living ones, and for \<open>RUSAGE_BOTH\<close> every counter and both times are the sums over the
  process and its reaped children.
\<close>

theorem getrusage_adds_up:
  assumes "getrusage K p RUSAGE_SELF = Some s" "getrusage K p RUSAGE_CHILDREN = Some c"
    "getrusage K p RUSAGE_BOTH = Some b" "sighand p" "ts = this_thread p # other_threads p"
  shows "[ru_nvcsw s, ru_nivcsw s, ru_minflt s, ru_majflt s, ru_inblock s, ru_oublock s] =
      map (\<lambda>count. count (thread_usage.truncate (signal p)) + sum_list (map count ts))
        [nvcsw, nivcsw, min_flt, maj_flt, io_inblock, io_oublock] \<and>
    map (\<lambda>ru. ru b) [ru_nvcsw, ru_nivcsw, ru_minflt, ru_majflt, ru_inblock, ru_oublock] =
      map (\<lambda>ru. ru s + ru c) [ru_nvcsw, ru_nivcsw, ru_minflt, ru_majflt, ru_inblock, ru_oublock] \<and>
    ru_utime b = ns_to_timeval K (cutime (signal p) + fst (group_time p)) \<and>
    ru_stime b = ns_to_timeval K (cstime (signal p) + snd (group_time p))"
  using assms(1-4) unfolding assms(5)
  by (auto simp: usage_simps Let_def thread_usage.truncate_def)

definition plain_process :: process where
  "plain_process =
     (let t = \<lparr>nvcsw = 1, nivcsw = 2, min_flt = 3, maj_flt = 4, io_inblock = 5, io_oublock = 6\<rparr> in
      \<lparr>this_thread = t, other_threads = [t, t],
       signal = thread_usage.extend t \<lparr>sig_maxrss = 100, cutime = 7, cstime = 8, cnvcsw = 9, cnivcsw = 10,
         cmin_flt = 11, cmaj_flt = 12, cinblock = 13, coublock = 14, cmaxrss = 200\<rparr>,
       thread_time = (1, 1), group_time = (20, 30), sighand = True, get_mm = None\<rparr>)"

definition plain_usage :: usage_env where
  "plain_usage = \<lparr>ns_to_timeval = (\<lambda>n. (n div 1000000000, n mod 1000000000)),
     setmax_mm_hiwater_rss = (\<lambda>m x. x), usage_page_size = 4096\<rparr>"

lemma getrusage_adds_up_witness:
  "\<exists>s b. getrusage plain_usage plain_process RUSAGE_SELF = Some s \<and>
     getrusage plain_usage plain_process RUSAGE_BOTH = Some b \<and> ru_nvcsw s = 4 \<and> ru_nvcsw b = 13 \<and>
     ru_utime b = (0, 27)"
proof -
  have s: "getrusage plain_usage plain_process RUSAGE_SELF \<noteq> None"
      "getrusage plain_usage plain_process RUSAGE_CHILDREN \<noteq> None"
      "getrusage plain_usage plain_process RUSAGE_BOTH \<noteq> None" "sighand plain_process"
    by (simp_all add: getrusage_def plain_process_def Let_def)
  then obtain s c b where e: "getrusage plain_usage plain_process RUSAGE_SELF = Some s"
      "getrusage plain_usage plain_process RUSAGE_CHILDREN = Some c"
      "getrusage plain_usage plain_process RUSAGE_BOTH = Some b" by blast
  have c: "ru_nvcsw c = 9"
    using e(2) by (auto simp: usage_simps plain_process_def Let_def thread_usage.defs)
  show ?thesis
    using getrusage_adds_up [OF e s(4) refl] c e
    by (auto simp: plain_process_def plain_usage_def thread_usage.defs Let_def)
qed

text \<open>
  \<open>sysinfo\<close> never changes an amount of memory by changing the unit: when the sum of memory and swap
  in bytes fits in 64 bits all amounts are given in bytes, otherwise they are left in the unit of
  the kernel, and each amount times the unit stays the same. (The unit is a power of two, as the
  page size is, and no amount exceeds memory and swap together.)
\<close>

theorem sysinfo_keeps_bytes:
  assumes "s = fill_sysinfo K" "unat (mem_unit s) = 2 ^ k" "T = unat (totalram s) + unat (totalswap s)"
    "\<forall>x \<in> set (amounts s). unat x \<le> T"
  shows "map (\<lambda>x. unat x * unat (mem_unit (do_sysinfo K))) (amounts (do_sysinfo K)) =
      map (\<lambda>x. unat x * 2 ^ k) (amounts s) \<and>
    (mem_unit (do_sysinfo K) = 1 \<longleftrightarrow> k = 0 \<or> T * 2 ^ k < 2 ^ 64)"
proof (cases "T * 2 ^ k < 2 ^ 64")
  case True
  then have "do_sysinfo K = map_amounts (push_bit k) (s\<lparr>mem_unit := 1\<rparr>)"
    using scale_up_cases [OF assms(2)] assms(1,3) by (simp add: do_sysinfo_def)
  moreover have "unat (push_bit k x) = unat x * 2 ^ k" if "x \<in> set (amounts s)" for x
  proof (rule unat_scaled)
    have "unat x * 2 ^ k \<le> T * 2 ^ k" using assms(4) that by simp
    then show "unat x * 2 ^ k < 2 ^ 64" using True by (rule le_less_trans)
  qed
  ultimately show ?thesis using True by simp
next
  case False
  then have d: "do_sysinfo K = s"
    using scale_up_cases [OF assms(2)] assms(1,3) by (simp add: do_sysinfo_def)
  have "mem_unit s = 1 \<longleftrightarrow> unat (mem_unit s) = 1" by (simp add: word_unat_eq_iff)
  then show ?thesis using False assms(2) unfolding d by simp
qed

definition plain_info :: "u64 \<Rightarrow> u32 \<Rightarrow> info_env" where
  "plain_info ram unit = \<lparr>boottime = (100, 5), avenrun = [1, 2, 3], nr_threads = 70,
     si_meminfo = (\<lambda>s. s\<lparr>totalram := ram, freeram := 10, mem_unit := unit\<rparr>), si_swapinfo = (\<lambda>s. s),
     info_page_size = 4096\<rparr>"

lemma sysinfo_keeps_bytes_witness:
  "map unat (amounts (do_sysinfo (plain_info 100 4096))) = [409600, 40960, 0, 0, 0, 0, 0, 0] \<and>
   mem_unit (do_sysinfo (plain_info 100 4096)) = 1"
proof -
  let ?K = "plain_info 100 4096"
  have a: "amounts (fill_sysinfo ?K) = [100, 10, 0, 0, 0, 0, 0, 0]" "mem_unit (fill_sysinfo ?K) = 4096"
      "unat (totalram (fill_sysinfo ?K)) + unat (totalswap (fill_sysinfo ?K)) = 100"
    by (simp_all add: fill_sysinfo_def plain_info_def amounts_def no_sysinfo_def)
  have "unat (mem_unit (fill_sysinfo ?K)) = 2 ^ 12" "\<forall>x \<in> set (amounts (fill_sysinfo ?K)). unat x \<le> 100"
    unfolding a by simp_all
  note r = sysinfo_keeps_bytes [OF refl this(1) refl, unfolded a(3), OF this(2)]
  have u: "mem_unit (do_sysinfo ?K) = 1" using conjunct2 [OF r] by simp
  show ?thesis using conjunct1 [OF r] unfolding u a(1) by (simp add: u)
qed

text \<open>
  C37. The loop of the 32-bit \<open>sysinfo\<close> that raises the unit to the page size ends exactly when the unit
  is not 0, for every page size up to 2 GiB: after fewer than 32 rounds and with the first multiple of
  the unit by a power of two that reaches the page size.
\<close>

theorem raise_unit_terminates:
  assumes "0 < page_size" "unat page_size \<le> 2 ^ 31"
  shows "unit \<noteq> 0 \<longleftrightarrow> (\<exists>unit' n. raise_unit page_size unit 0 = Some (unit', n) \<and> n < 32 \<and>
    unat unit' = unat unit * 2 ^ n \<and> unat page_size \<le> unat unit' \<and>
    (n = 0 \<or> unat unit * 2 ^ (n - 1) < unat page_size))"
proof (cases "unit = 0")
  case True
  then show ?thesis using raise_unit_zero assms(1) by blast
next
  case False
  obtain n where "raise_unit page_size unit 0 = Some (push_bit n unit, n)" "n < 32"
    "unat (push_bit n unit) = unat unit * 2 ^ n" "unat page_size \<le> unat unit * 2 ^ n"
    "n = 0 \<or> unat unit * 2 ^ (n - 1) < unat page_size"
    using raise_unit_total [OF assms(2) False] .
  then show ?thesis using False by (intro iffI exI [of _ "push_bit n unit"] exI [of _ n]) simp_all
qed

lemma raise_unit_terminates_witness:
  "\<exists>unit' n. raise_unit 4096 1 0 = Some (unit', n) \<and> n = 12 \<and> n < 32 \<and> unit' = 4096"
proof -
  obtain unit' n where r: "raise_unit 4096 1 0 = Some (unit', n)" "n < 32" "unat unit' = 2 ^ n"
      "(4096 :: nat) \<le> 2 ^ n" "n = 0 \<or> (2 :: nat) ^ (n - 1) < 4096"
    using raise_unit_terminates [of 4096 1] by auto
  have "n \<ge> 12"
    using r(4) power_le_imp_le_exp [of 2 12 n] by simp
  moreover have "n - 1 < 12" using r(5) power_less_imp_less_exp [of 2 "n - 1" 12] by auto
  ultimately have n: "n = 12" by linarith
  then have "unit' = 4096" using r(3) by (simp add: word_unat_eq_iff)
  then show ?thesis using r(1) n by simp
qed

lemma div_power_bounds:
  "x div 2 ^ n * (u * 2 ^ n) \<le> x * u" "0 < u \<Longrightarrow> x * u < (x div 2 ^ n + 1) * (u * 2 ^ n)" for x u :: nat
proof -
  have "x div 2 ^ n * 2 ^ n * u \<le> x * u" by (intro mult_le_mono1 div_times_less_eq_dividend)
  then show "x div 2 ^ n * (u * 2 ^ n) \<le> x * u" by (simp add: ac_simps)
  have "x < (x div 2 ^ n + 1) * 2 ^ n" using dividend_less_div_times [of "2 ^ n" x] by simp
  then have "0 < u \<Longrightarrow> x * u < ((x div 2 ^ n + 1) * 2 ^ n) * u" by (rule mult_less_mono1)
  then show "0 < u \<Longrightarrow> x * u < (x div 2 ^ n + 1) * (u * 2 ^ n)" by (simp only: ac_simps)
qed

text \<open>
  The 32-bit \<open>sysinfo\<close> rounds down: whatever unit it chooses, every amount loses less than one new
  unit, and the new unit is less than twice the page size when it changed at all.
\<close>

theorem compat_scale_rounds_down:
  assumes "compat_scale page_size s = Some s'" "unat page_size \<le> 2 ^ 31" "mem_unit s \<noteq> 0"
  shows "list_all2 (\<lambda>x x'. unat x' * unat (mem_unit s') \<le> unat x * unat (mem_unit s) \<and>
      unat x * unat (mem_unit s) < (unat x' + 1) * unat (mem_unit s')) (amounts s) (amounts s') \<and>
    (mem_unit s' = mem_unit s \<or> unat (mem_unit s') < 2 * unat page_size)"
proof -
  have u: "0 < unat (mem_unit s)" using assms(3) by (simp add: unat_gt_0)
  obtain n where r: "raise_unit page_size (mem_unit s) 0 = Some (push_bit n (mem_unit s), n)"
    and e: "unat (push_bit n (mem_unit s)) = unat (mem_unit s) * 2 ^ n"
    and l: "n = 0 \<or> unat (mem_unit s) * 2 ^ (n - 1) < unat page_size"
    using raise_unit_total [OF assms(2,3)] by metis
  have s: "s' = map_amounts (drop_bit n) (s\<lparr>mem_unit := push_bit n (mem_unit s)\<rparr>) \<or> s' = s"
    using assms(1) r by (auto simp: compat_scale_def split: if_splits)
  have m: "n = 0 \<or> unat (mem_unit s) * 2 ^ n < 2 * unat page_size" using l by (cases n) simp_all
  show ?thesis
  proof (cases "s' = s")
    case True
    then show ?thesis using u by (simp add: list_all2_same)
  next
    case False
    then show ?thesis
      using s e m div_power_bounds [where n = n and u = "unat (mem_unit s)"] u
      by (auto simp: list_all2_map2 list_all2_same unat_drop)
  qed
qed

lemma compat_scale_rounds_down_witness:
  "\<exists>s'. compat_scale 4096 (no_sysinfo\<lparr>totalram := 0x100000fff, mem_unit := 1\<rparr>) = Some s' \<and>
     unat (mem_unit s') < 8192 \<and> totalram s' = 0x100000"
proof -
  let ?s = "no_sysinfo\<lparr>totalram := 0x100000fff, mem_unit := 1\<rparr>"
  have c: "compat_scale 4096 ?s = Some (?s\<lparr>totalram := 0x100000, mem_unit := 4096\<rparr>)"
    by (simp add: compat_scale_def upper_32_bits_def no_sysinfo_def map_amounts_def raise_unit.simps)
  then show ?thesis using compat_scale_rounds_down [OF c] by simp
qed

text \<open>
  The scaled amounts are then cut to 32 bits: with 16 TiB of memory a 32-bit program is told that there
  is none.
\<close>

lemma compat_sysinfo_cuts:
  "map_option (\<lambda>s. compat_values s ! 4)
     (compat_scale 4096 (no_sysinfo\<lparr>totalram := 0x100000000000, mem_unit := 1\<rparr>)) = Some 0"
  by (simp add: compat_scale_def upper_32_bits_def no_sysinfo_def map_amounts_def raise_unit.simps
    compat_values_def)

text \<open>The mask of a process: only permission bits, and the next call returns it.\<close>

lemma umask_roundtrip:
  assumes "umask m old = (r, s)"
  shows "r = old" "fst (umask m' s) = m AND 0x1ff" "0 \<le> s \<and> s \<le> 0x1ff"
proof -
  show "r = old" "fst (umask m' s) = m AND 0x1ff" using assms by (auto simp: umask_def)
  have "m AND 0x1ff = take_bit 9 m" by (simp add: take_bit_eq_mask mask_eq_exp_minus_1)
  then have "m AND 0x1ff = m mod 2 ^ 9" by (simp only: take_bit_eq_mod)
  then show "0 \<le> s \<and> s \<le> 0x1ff" using assms by (auto simp: umask_def)
qed

end
