(* ===== verification/TimerModule.thy ===== *)
theory TimerModule
  imports TransitionSystem
begin

text \<open>
  The kernel module \<open>HW3/Related Files/first_kernel_module.c\<close>: a timer whose handler counts its
  expirations, prints them and arms the timer again. The kernel's timers are represented by what
  their interface documents: an armed timer fires once, at some moment not before its expiry, and is
  no longer armed while its handler runs; \<open>add_timer\<close> and \<open>mod_timer\<close> arm it; \<open>del_timer\<close> disarms it
  and does not wait for a running handler. The conversion \<open>msecs_to_jiffies\<close>, which takes an
  \<open>unsigned int\<close>, is a parameter. The jiffies of a run are counted without wrap-around, as the
  comparisons of the kernel's timers make it appear.
\<close>

text \<open>Where the handler is: not running, or before one of its statements.\<close>

datatype handler_place = Resting | Counting | Printing | Expiring | Arming

record timer_module =
  inserted :: bool
  jiffies :: nat
  armed :: bool
  expires :: nat
  no_of_times_fired :: u16
  place :: handler_place
  printed :: "u16 list"
  fired_at :: "nat list"
  unloads :: nat

definition delay :: "(u32 \<Rightarrow> nat) \<Rightarrow> u64 \<Rightarrow> nat" where
  "delay msecs_to_jiffies period = msecs_to_jiffies (ucast period)"

definition hello_init :: "(u32 \<Rightarrow> nat) \<Rightarrow> u64 \<Rightarrow> nat \<Rightarrow> timer_module" where
  "hello_init msecs_to_jiffies period now =
     \<lparr>inserted = True, jiffies = now, armed = True, expires = now + delay msecs_to_jiffies period,
      no_of_times_fired = 0, place = Resting, printed = [], fired_at = [], unloads = 0\<rparr>"

definition hello_exit :: "timer_module \<Rightarrow> timer_module" where
  "hello_exit s = s\<lparr>armed := False, inserted := False, unloads := unloads s + 1\<rparr>"

definition print_name_timer_fired :: "(u32 \<Rightarrow> nat) \<Rightarrow> u64 \<Rightarrow> timer_module \<Rightarrow> timer_module" where
  "print_name_timer_fired msecs_to_jiffies period s =
     (case place s of
        Resting \<Rightarrow> s
      | Counting \<Rightarrow> s\<lparr>no_of_times_fired := no_of_times_fired s + 1, place := Printing\<rparr>
      | Printing \<Rightarrow> s\<lparr>printed := printed s @ [no_of_times_fired s], place := Expiring\<rparr>
      | Expiring \<Rightarrow> s\<lparr>expires := jiffies s + delay msecs_to_jiffies period, place := Arming\<rparr>
      | Arming \<Rightarrow> s\<lparr>armed := True, place := Resting\<rparr>)"

text \<open>The period is a module parameter that can be written at any time, so it is read anew.\<close>

inductive timer_step :: "(u32 \<Rightarrow> nat) \<Rightarrow> timer_module \<Rightarrow> timer_module \<Rightarrow> bool"
  for msecs_to_jiffies where
  tick: "timer_step msecs_to_jiffies s (s\<lparr>jiffies := jiffies s + 1\<rparr>)"
| expire: "armed s \<Longrightarrow> expires s \<le> jiffies s \<Longrightarrow> place s = Resting \<Longrightarrow>
     timer_step msecs_to_jiffies s
       (s\<lparr>armed := False, place := Counting, fired_at := fired_at s @ [jiffies s]\<rparr>)"
| run: "place s \<noteq> Resting \<Longrightarrow>
     timer_step msecs_to_jiffies s (print_name_timer_fired msecs_to_jiffies period s)"
| exit: "inserted s \<Longrightarrow> timer_step msecs_to_jiffies s (hello_exit s)"

text \<open>
  The invariant: between two runs of the handler the timer of a loaded module is armed; the counter
  is the number of expirations counted, and what has been printed is 1, 2, 3, and so on; the next
  expiration is not before the last one plus the smallest delay.
\<close>

definition counted :: "timer_module \<Rightarrow> nat" where
  "counted s = length (fired_at s) - (if place s = Counting then 1 else 0)"

definition timer_inv :: "nat \<Rightarrow> timer_module \<Rightarrow> bool" where
  "timer_inv d s \<longleftrightarrow>
     (inserted s \<longrightarrow> (armed s \<longleftrightarrow> place s = Resting)) \<and>
     (place s = Counting \<longrightarrow> fired_at s \<noteq> []) \<and>
     (place s \<noteq> Resting \<longrightarrow> \<not> armed s) \<and>
     no_of_times_fired s = of_nat (counted s) \<and>
     printed s = map of_nat [1..<Suc (counted s - (if place s = Printing then 1 else 0))] \<and>
     (place s = Printing \<longrightarrow> 0 < counted s) \<and>
     sorted_wrt (\<lambda>a b. a + d \<le> b) (fired_at s) \<and>
     (\<forall>t \<in> set (fired_at s). t \<le> jiffies s) \<and>
     (place s \<in> {Resting, Arming} \<longrightarrow> (\<forall>t \<in> set (fired_at s). t + d \<le> expires s))"

definition slow :: "(u32 \<Rightarrow> nat) \<Rightarrow> nat \<Rightarrow> bool" where
  "slow msecs_to_jiffies d \<longleftrightarrow> (\<forall>p. d \<le> msecs_to_jiffies p)"

lemma timer_inv_run:
  assumes "timer_inv d s" "d \<le> delay m p" "place s \<noteq> Resting"
  shows "timer_inv d (print_name_timer_fired m p s)"
proof (cases "place s")
  case Printing
  then obtain k where "counted s = Suc k" using assms(1) by (cases "counted s") (auto simp: timer_inv_def)
  then show ?thesis using assms(1) Printing
    by (simp add: timer_inv_def print_name_timer_fired_def counted_def)
next
  case Counting
  then obtain k where "length (fired_at s) = Suc k"
    using assms(1) by (cases "fired_at s") (auto simp: timer_inv_def)
  then show ?thesis using assms(1) Counting
    by (simp add: timer_inv_def print_name_timer_fired_def counted_def add.commute)
next
  case Expiring
  then show ?thesis using assms(1,2)
    by (auto simp: timer_inv_def print_name_timer_fired_def counted_def)
next
  case Arming
  then show ?thesis using assms(1)
    by (auto simp: timer_inv_def print_name_timer_fired_def counted_def)
qed (use assms(3) in simp)

lemma timer_inv_step:
  assumes "slow m d" "timer_inv d s" "timer_step m s t"
  shows "timer_inv d t"
  using assms(3)
proof cases
  case tick
  then show ?thesis using assms(2) by (auto simp: timer_inv_def counted_def)
next
  case expire
  have "\<forall>x \<in> set (fired_at s). x + d \<le> jiffies s"
    using assms(2) expire(3,4) by (auto simp: timer_inv_def)
  then show ?thesis using assms(2) expire by (auto simp: timer_inv_def counted_def sorted_wrt_append)
next
  case (run period)
  then show ?thesis using timer_inv_run [of d s m period] assms(1,2) by (simp add: slow_def delay_def)
next
  case exit
  then show ?thesis using assms(2) by (auto simp: timer_inv_def hello_exit_def counted_def)
qed

text \<open>The invariant under the hypothesis on the conversion, as the interface needs it.\<close>

interpretation timer_sys: invariant_system "hello_init m p now" "timer_step m" "\<lambda>s. slow m d \<longrightarrow> timer_inv d s"
  for m p now d
proof unfold_locales
  show "slow m d \<longrightarrow> timer_inv d (hello_init m p now)"
    by (auto simp: timer_inv_def hello_init_def counted_def)
qed (use timer_inv_step in blast)

subsection \<open>Properties\<close>


lemma four_steps: "R a b \<Longrightarrow> R b c \<Longrightarrow> R c d \<Longrightarrow> R d e \<Longrightarrow> R\<^sup>*\<^sup>* a e"
  by (meson rtranclp.rtrancl_refl rtranclp.rtrancl_into_rtrancl)

lemma wait: "(timer_step m)\<^sup>*\<^sup>* s (s\<lparr>jiffies := jiffies s + k\<rparr>)"
proof (induction k)
  case (Suc k)
  have "timer_step m (s\<lparr>jiffies := jiffies s + k\<rparr>) (s\<lparr>jiffies := jiffies s + Suc k\<rparr>)"
    using timer_step.tick [of m "s\<lparr>jiffies := jiffies s + k\<rparr>"] by simp
  with Suc show ?case by (rule rtranclp.rtrancl_into_rtrancl)
qed simp

text \<open>The state in which the handler, run for the first time, is about to arm the timer again.\<close>

definition about_to_arm :: "nat \<Rightarrow> nat \<Rightarrow> timer_module" where
  "about_to_arm d now = \<lparr>inserted = True, jiffies = now + d, armed = False, expires = now + d + d,
     no_of_times_fired = 1, place = Arming, printed = [1], fired_at = [now + d], unloads = 0\<rparr>"

lemma reach_about_to_arm:
  "(timer_step m)\<^sup>*\<^sup>* (hello_init m p now) (about_to_arm (delay m p) now)"
proof -
  let ?d = "delay m p"
  let ?s0 = "(hello_init m p now)\<lparr>jiffies := jiffies (hello_init m p now) + ?d\<rparr>"
  let ?s1 = "?s0\<lparr>armed := False, place := Counting, fired_at := fired_at ?s0 @ [jiffies ?s0]\<rparr>"
  let ?f = "print_name_timer_fired m p"
  have "timer_step m ?s0 ?s1" by (rule expire) (simp_all add: hello_init_def)
  moreover have "timer_step m ?s1 (?f ?s1)" by (rule run) simp
  moreover have "timer_step m (?f ?s1) (?f (?f ?s1))"
    by (rule run) (simp add: print_name_timer_fired_def)
  moreover have "timer_step m (?f (?f ?s1)) (?f (?f (?f ?s1)))"
    by (rule run) (simp add: print_name_timer_fired_def)
  moreover have "?f (?f (?f ?s1)) = about_to_arm ?d now"
    by (simp add: print_name_timer_fired_def about_to_arm_def hello_init_def)
  ultimately have "(timer_step m)\<^sup>*\<^sup>* ?s0 (about_to_arm ?d now)"
    using four_steps [of "timer_step m" ?s0 ?s1 "?f ?s1" "?f (?f ?s1)" "?f (?f (?f ?s1))"] by simp
  with wait [of m "hello_init m p now" ?d] show ?thesis by (rule rtranclp_trans)
qed


text \<open>
  C29. Unloading is not safe: \<open>del_timer\<close> does not wait for the handler, so whatever the period there
  is a run in which the module is unloaded while the handler is before its last statement, the timer
  of the unloaded module is armed again, and its handler runs once more.
\<close>

theorem timer_fires_after_unload:
  "\<exists>s t. (timer_step m)\<^sup>*\<^sup>* (hello_init m p now) s \<and> \<not> inserted s \<and> armed s \<and>
     timer_step m s t \<and> place t = Counting"
proof -
  let ?d = "delay m p"
  define u where "u = hello_exit (about_to_arm ?d now)"
  define v where "v = print_name_timer_fired m p u"
  define w where "w = v\<lparr>jiffies := jiffies v + ?d\<rparr>"
  define t where "t = w\<lparr>armed := False, place := Counting, fired_at := fired_at w @ [jiffies w]\<rparr>"
  note defs = t_def w_def v_def u_def print_name_timer_fired_def about_to_arm_def hello_exit_def
  have "timer_step m (about_to_arm ?d now) u"
    unfolding u_def by (rule exit) (simp add: about_to_arm_def)
  with reach_about_to_arm [of m p now] have "(timer_step m)\<^sup>*\<^sup>* (hello_init m p now) u"
    by (rule rtranclp.rtrancl_into_rtrancl)
  moreover have "timer_step m u v"
    unfolding v_def by (rule run) (simp add: u_def about_to_arm_def hello_exit_def)
  ultimately have "(timer_step m)\<^sup>*\<^sup>* (hello_init m p now) v"
    by (rule rtranclp.rtrancl_into_rtrancl)
  moreover have "(timer_step m)\<^sup>*\<^sup>* v w" unfolding w_def by (rule wait)
  ultimately have 1: "(timer_step m)\<^sup>*\<^sup>* (hello_init m p now) w" by (rule rtranclp_trans)
  have 2: "\<not> inserted w" "armed w" by (simp_all add: defs)
  have 3: "timer_step m w t" unfolding t_def by (rule expire) (simp_all add: defs)
  have 4: "place t = Counting" by (simp add: t_def)
  show ?thesis by (intro exI conjI) (rule 1 2 3 4)+
qed

end
