(* ===== verification/SortTest.thy ===== *)
theory SortTest
  imports SortSyscall
begin

text \<open>
  The test program \<open>HW2/Required Files/sorting.c\<close>, composed with the system call it tests: it fills
  an array with random numbers and calls \<open>sorting\<close> three times: properly, with null pointers, and
  with the size -6, printing the destination array after each call. \<open>rand k\<close> is the value of the
  k-th call of \<open>rand()\<close>; the two arrays are at the addresses \<open>a\<close> and \<open>b\<close>.
\<close>

text \<open>The C library's \<open>syscall\<close>: an error code becomes -1.\<close>

definition syscall398 ::
  "(nat \<Rightarrow> bool) \<Rightarrow> sort_state \<Rightarrow> nat \<Rightarrow> nat \<Rightarrow> int \<Rightarrow> (int \<times> sort_state) option" where
  "syscall398 kmalloc_ok st p q n =
     map_option (\<lambda>(rc, st'). (if rc < 0 then - 1 else rc, st')) (sys_sorting kmalloc_ok st p q n)"

text \<open>The loop that fills the array.\<close>

fun fill_loop :: "(nat \<Rightarrow> nat) \<Rightarrow> nat \<Rightarrow> nat \<Rightarrow> nat \<Rightarrow> (nat \<rightharpoonup> int) \<Rightarrow> (nat \<rightharpoonup> int)" where
  "fill_loop rand a i 0 m = m"
| "fill_loop rand a i (Suc left) m =
     fill_loop rand a (i + 1) left (m(a + 4 * i \<mapsto> int (rand (i + 1) mod 16384)))"

text \<open>One case: the call, its result and the printed array.\<close>

definition test_case ::
  "(nat \<Rightarrow> bool) \<Rightarrow> nat \<Rightarrow> nat \<Rightarrow> nat \<Rightarrow> nat \<Rightarrow> int \<Rightarrow> sort_state \<Rightarrow> ((int \<times> int list) \<times> sort_state) option" where
  "test_case kmalloc_ok b n p q sz st =
     do { (s, st1) \<leftarrow> syscall398 kmalloc_ok st p q sz;
          vs \<leftarrow> read_cells (umem st1) b n;
          Some ((s, vs), st1) }"

definition sorting_main ::
  "(nat \<Rightarrow> bool) \<Rightarrow> (nat \<Rightarrow> nat) \<Rightarrow> nat \<Rightarrow> nat \<Rightarrow> sort_state \<Rightarrow> ((int \<times> int list) list \<times> sort_state) option" where
  "sorting_main kmalloc_ok rand a b st =
     (let n = rand 0 mod 4096; wrong_size = - 6;
          st0 = st\<lparr>umem := fill_loop rand a 0 n (umem st)\<rparr> in
      do { (r1, st1) \<leftarrow> test_case kmalloc_ok b n a b (int n) st0;
           (r2, st2) \<leftarrow> test_case kmalloc_ok b n 0 0 (int n) st1;
           (r3, st3) \<leftarrow> test_case kmalloc_ok b n a b wrong_size st2;
           Some ([r1, r2, r3], st3) })"

lemma fill_loop_at:
  "i \<le> k \<Longrightarrow> k < i + left \<Longrightarrow> fill_loop rand a i left m (a + 4 * k) = Some (int (rand (k + 1) mod 16384))"
proof (induction left arbitrary: i m)
  case (Suc left)
  have other: "i' > k \<Longrightarrow> fill_loop rand a i' n m (a + 4 * k) = m (a + 4 * k)" for i' n m
    by (induction n arbitrary: i' m) auto
  show ?case
  proof (cases "i = k")
    case True
    then show ?thesis by (simp add: other)
  next
    case False
    then show ?thesis using Suc.IH [of "i + 1"] Suc.prems by simp
  qed
qed simp

lemma fill_loop_mapped: "m x \<noteq> None \<Longrightarrow> fill_loop rand a i left m x \<noteq> None"
  by (induction left arbitrary: i m) auto

lemma read_filled:
  "read_cells (fill_loop rand a 0 n m) a n = Some (map (\<lambda>k. int (rand (k + 1) mod 16384)) [0..<n])"
proof -
  have c: "fill_loop rand a 0 n m (a + 4 * k) = Some (int (rand (k + 1) mod 16384))" if "k < n" for k
    using that by (intro fill_loop_at) simp_all
  then have "\<forall>k < n. fill_loop rand a 0 n m (a + 4 * k) \<noteq> None" by simp
  note read_cells_ok [OF this]
  also have "map (\<lambda>k. the (fill_loop rand a 0 n m (a + 4 * k))) [0..<n] =
      map (\<lambda>k. int (rand (k + 1) mod 16384)) [0..<n]"
    by (rule map_cong [OF refl]) (simp add: c)
  finally show ?thesis .
qed

lemma rejected_case:
  assumes "p = 0 \<or> sz \<le> 0" "read_cells (umem st) b n = Some vs"
  shows "test_case kmalloc_ok b n p q sz st = Some ((- 1, vs), st)"
  using assms by (auto simp: test_case_def syscall398_def sys_sorting_def Let_def)

lemma accepted_case:
  assumes "a \<noteq> 0" "b \<noteq> 0" "0 < n" "n < 2 ^ 29" "kmalloc_ok (n * 4)"
    and src: "read_cells (umem st) a n = Some vs"
    and dst: "\<forall>k < n. umem st (b + 4 * k) \<noteq> None"
  shows "\<exists>out st'. test_case kmalloc_ok b n a b (int n) st = Some ((0, out), st') \<and>
    mset out = mset vs \<and> sorted_wrt (\<ge>) out \<and> read_cells (umem st') b n = Some out \<and>
    kallocs st' = kallocs st"
proof -
  have bytes: "nat (int n * 4) = n * 4" by simp
  have n: "0 < int n" "int n < 2 ^ 29" using assms(3,4) by simp_all
  obtain out log1 log2 where o: "length out = n" "mset out = mset vs" "sorted_wrt (\<ge>) out"
    and run: "sys_sorting kmalloc_ok st a b (int n) =
      (let (m, ok) = copy_to_user (umem st) b out;
           st2 = st\<lparr>kallocs := kallocs st + 1, umem := m, klog := klog st @ log1 @ log2\<rparr>
       in if ok then Some (0, st2\<lparr>kallocs := kallocs st\<rparr>) else Some (- EFAULT, st2))"
    using sys_sorting_run [of a b "int n" kmalloc_ok st vs, unfolded nat_int bytes,
      OF assms(1,2) n assms(5) src] by blast
  have "\<forall>k < length out. umem st (b + 4 * k) \<noteq> None" using dst o(1) by simp
  note w = copy_to_user_ok [OF this]
  define m where "m = fst (copy_to_user (umem st) b out)"
  have c: "copy_to_user (umem st) b out = (m, True)" using w unfolding m_def by (simp add: prod_eq_iff)
  have cells: "\<forall>k < n. m (b + 4 * k) = Some (out ! k)" using w o(1) unfolding m_def by simp
  then have "read_cells m b n = Some (map (\<lambda>k. the (m (b + 4 * k))) [0..<n])"
    by (intro read_cells_ok) simp
  also have "map (\<lambda>k. the (m (b + 4 * k))) [0..<n] = out"
    using cells o(1) by (intro nth_equalityI) simp_all
  finally have r: "read_cells m b n = Some out" .
  then show ?thesis using o run c by (simp add: test_case_def syscall398_def)
qed

subsection \<open>Properties\<close>

text \<open>
  C30. The test program and the system call together: for every seed with a non-empty array, if the
  kernel can allocate the buffer, the first call returns 0 and the program prints the random numbers
  in descending order; the two wrong calls return -1 and leave that array as it was; and no kernel
  buffer is leaked.
\<close>

theorem sorting_main_output:
  assumes "a \<noteq> 0" "b \<noteq> 0" "rand 0 mod 4096 = n" "0 < n" "kmalloc_ok (n * 4)"
    and dst: "\<forall>k < n. umem st (b + 4 * k) \<noteq> None"
  shows "\<exists>out st'. sorting_main kmalloc_ok rand a b st = Some ([(0, out), (- 1, out), (- 1, out)], st') \<and>
    mset out = mset (map (\<lambda>k. int (rand (k + 1) mod 16384)) [0..<n]) \<and> sorted_wrt (\<ge>) out \<and>
    kallocs st' = kallocs st"
proof -
  let ?st0 = "st\<lparr>umem := fill_loop rand a 0 n (umem st)\<rparr>"
  have "n < 2 ^ 29" using assms(3) mod_less_divisor [of 4096 "rand 0"] by simp
  moreover have "\<forall>k < n. umem ?st0 (b + 4 * k) \<noteq> None" using dst fill_loop_mapped by simp
  moreover have "read_cells (umem ?st0) a n = Some (map (\<lambda>k. int (rand (k + 1) mod 16384)) [0..<n])"
    by (simp add: read_filled)
  ultimately obtain out st1 where t1: "test_case kmalloc_ok b n a b (int n) ?st0 = Some ((0, out), st1)"
    "mset out = mset (map (\<lambda>k. int (rand (k + 1) mod 16384)) [0..<n])" "sorted_wrt (\<ge>) out"
    "read_cells (umem st1) b n = Some out" "kallocs st1 = kallocs st"
    using accepted_case [of a b n kmalloc_ok ?st0, OF assms(1,2,4) _ assms(5)] by force
  moreover have "test_case kmalloc_ok b n 0 0 (int n) st1 = Some ((- 1, out), st1)"
    "test_case kmalloc_ok b n a b (- 6) st1 = Some ((- 1, out), st1)"
    using t1(4) by (simp_all add: rejected_case)
  ultimately show ?thesis by (simp add: sorting_main_def Let_def assms(3))
qed

lemma sorting_main_output_witness:
  "\<exists>out st'. sorting_main (\<lambda>_. True) (\<lambda>k. 3 + 5 * k) 100 200
      \<lparr>umem = [200 \<mapsto> 0, 204 \<mapsto> 0, 208 \<mapsto> 0], kallocs = 0, klog = []\<rparr> =
    Some ([(0, out), (- 1, out), (- 1, out)], st') \<and> mset out = {#8, 13, 18#} \<and> kallocs st' = 0"
proof -
  let ?st = "\<lparr>umem = [200 \<mapsto> 0, 204 \<mapsto> 0, 208 \<mapsto> 0], kallocs = 0, klog = []\<rparr>"
  have d: "\<forall>k < 3. umem ?st (200 + 4 * k) \<noteq> None" by (auto simp: less_Suc_eq numeral_3_eq_3)
  have m: "map (\<lambda>k. int ((3 + 5 * (k + 1)) mod 16384)) [0..<3] = [8, 13, 18]" by (simp add: upt_rec)
  obtain out st' where "sorting_main (\<lambda>_. True) (\<lambda>k. 3 + 5 * k) 100 200 ?st =
      Some ([(0, out), (- 1, out), (- 1, out)], st')" "mset out = mset [8, 13, 18]" "kallocs st' = 0"
    using sorting_main_output [where n = 3 and rand = "\<lambda>k. 3 + 5 * k" and a = 100 and b = 200
      and st = ?st and kmalloc_ok = "\<lambda>_. True", unfolded m] d by auto
  then show ?thesis by auto
qed

end
