(* ===== verification/TrackCalls.thy ===== *)
theory TrackCalls
  imports Prelude
begin

text \<open>
  \<open>track_calls.c\<close> (HW2 and HW3), the program whose library calls are traced: it writes a character
  to a file, appends a line typed by the user, and reads both back. A stream of the C library that
  is read is the rest of the file; a character array is its storage, and a write outside it \<open>None\<close>.
\<close>

abbreviation newline :: char where "newline \<equiv> CHR 0x0A"

text \<open>\<open>fgets\<close> into an array of \<open>n\<close> bytes: the array afterwards and the rest of the stream.\<close>

definition fgets :: "string \<Rightarrow> nat \<Rightarrow> string \<Rightarrow> (string \<times> string) option" where
  "fgets buf n stream =
     (if stream = [] then Some (buf, stream)
      else let m = min (n - 1) (length (takeWhile (\<lambda>c. c \<noteq> newline) stream) + 1) in
        do { b \<leftarrow> poke buf 0 (take m stream @ [NUL]); Some (b, drop m stream) })"

text \<open>\<open>fscanf\<close> with the format \<open>%[^\n]\<close>: it stores nothing when no character matches.\<close>

definition fscanf_line :: "string \<Rightarrow> string \<Rightarrow> (string \<times> string) option" where
  "fscanf_line buf stream =
     (let l = takeWhile (\<lambda>c. c \<noteq> newline) stream in
      if l = [] then Some (buf, stream)
      else do { b \<leftarrow> poke buf 0 (l @ [NUL]); Some (b, drop (length l) stream) })"

text \<open>
  The program: the arrays' first contents, whether the version prints \<open>a\<close>, and the word typed; the
  file and the output at the end.
\<close>

definition track_calls :: "string \<times> string \<Rightarrow> bool \<Rightarrow> string \<Rightarrow> (string \<times> string) option" where
  "track_calls junk shows_a typed =
     (let a = CHR ''n''; file1 = [a];
          out1 = ''Its a sunny day outside'' @ [newline] @ ''File created'' @ [newline] @
            ''Input a string to add to file:'' in
      do { input_string \<leftarrow> poke (fst junk) 0 (typed @ [NUL]);
           w \<leftarrow> text_at input_string;
           let file2 = file1 @ [newline] @ w;
           let out2 = out1 @ (if shows_a then newline # ''Value of a = '' @ [a] else []);
           let b = hd file2;
           let out3 = out2 @ newline # ''Character is: '' @ [b, newline];
           (read_string, rest) \<leftarrow> fgets (snd junk) 20 (tl file2);
           (read_string, rest) \<leftarrow> fscanf_line read_string rest;
           r \<leftarrow> text_at read_string;
           Some (file2, out3 @ ''String is: '' @ r @ [newline]) })"

text \<open>The two programs: the one of HW3 prints \<open>a\<close>.\<close>

definition track_calls_hw2 :: "string \<times> string \<Rightarrow> string \<Rightarrow> (string \<times> string) option" where
  "track_calls_hw2 junk typed = track_calls junk False typed"

definition track_calls_hw3 :: "string \<times> string \<Rightarrow> string \<Rightarrow> (string \<times> string) option" where
  "track_calls_hw3 junk typed = track_calls junk True typed"

lemma poke_too_long: "length buf < k + length bs \<Longrightarrow> k \<le> length buf \<Longrightarrow> poke buf k bs = None"
  by (induction buf k bs rule: poke.induct) auto

lemma fgets_end_of_line:
  assumes "length buf = 20"
  shows "\<exists>b. fgets buf 20 (newline # s) = Some (b, s) \<and> length b = 20"
proof -
  have "poke buf 0 [newline, NUL] = Some (newline # NUL # drop (Suc (Suc 0)) buf)"
    using poke_ok [of 0 "[newline, NUL]" buf] assms by (simp del: poke.simps)
  then show ?thesis using assms by (simp add: fgets_def del: poke.simps)
qed

lemma fscanf_line_word:
  assumes "s \<noteq> []" "newline \<notin> set s" "NUL \<notin> set s" "length s < length buf"
  shows "\<exists>b. fscanf_line buf s = Some (b, []) \<and> text_at b = Some s"
proof -
  have t: "takeWhile (\<lambda>c. c \<noteq> newline) s = s" using assms(2) by (induction s) auto
  obtain b where "poke buf 0 (s @ [NUL]) = Some b" "text_at b = Some s"
    using poke_start [OF assms(4,3)] by blast
  then show ?thesis using assms(1) by (simp add: fscanf_line_def t)
qed

subsection \<open>Properties\<close>

text \<open>
  The round trip through the file: for a word of at most 19 characters the file ends as the
  character, a line end and the word, and the program prints that character and that word; a
  longer word overruns the 20 bytes it is read into.
\<close>

theorem track_calls_roundtrip:
  assumes "length (fst junk) = 20" "length (snd junk) = 20"
    and "typed \<noteq> []" "newline \<notin> set typed" "NUL \<notin> set typed"
  shows "if length typed \<le> 19
    then \<exists>before. track_calls junk shows_a typed =
      Some (CHR ''n'' # newline # typed,
        before @ newline # ''Character is: n'' @ newline # ''String is: '' @ typed @ [newline])
    else track_calls junk shows_a typed = None"
proof (cases "length typed \<le> 19")
  case True
  obtain i where i: "poke (fst junk) 0 (typed @ [NUL]) = Some i" "text_at i = Some typed"
    using poke_start [of typed "fst junk"] True assms by auto
  obtain b where b: "fgets (snd junk) 20 (newline # typed) = Some (b, typed)" "length b = 20"
    using fgets_end_of_line [of "snd junk" typed] assms(2) by blast
  obtain c where "fscanf_line b typed = Some (c, [])" "text_at c = Some typed"
    using fscanf_line_word [of typed b] True assms b(2) by auto
  then show ?thesis using True i b(1) by (simp add: track_calls_def Let_def del: poke.simps)
next
  case False
  then have "poke (fst junk) 0 (typed @ [NUL]) = None" using assms(1) by (intro poke_too_long) simp_all
  then show ?thesis using False by (simp add: track_calls_def Let_def del: poke.simps)
qed

lemma track_calls_roundtrip_witness:
  "\<exists>out. track_calls (replicate 20 CHR ''x'', replicate 20 CHR ''y'') True ''hello'' =
     Some (CHR ''n'' # newline # ''hello'', out)"
  using track_calls_roundtrip [of "(replicate 20 CHR ''x'', replicate 20 CHR ''y'')" "''hello''" True]
  by auto

text \<open>The two programs leave the same file and fail together.\<close>

lemma track_calls_same_file:
  "map_option fst (track_calls_hw2 junk typed) = map_option fst (track_calls_hw3 junk typed)"
  unfolding track_calls_hw2_def track_calls_hw3_def track_calls_def Let_def if_True if_False
  by (cases "poke (fst junk) 0 (typed @ [NUL])")
    (auto simp: split_def simp del: poke.simps split: bind_splits)

end
