(* ===== verification/Spec2Isabelle.thy ===== *)
theory Spec2Isabelle
  imports SortSyscall AnimalList IpcDuplex IpcMsgq IpcShmem IpcLifecycle UartStdio UartBuffered UartConfig CgiFuncs RandomGen Spider LwipTask IdleTask
    Pictures SpiderDisplay WebPage
    LoggerApp StartUp LoggerBoot PthreadSub PthreadRun KernelCreds KernelPrio KernelLimits KernelSessions KernelNames KernelMemory KernelPrctl KernelStats
    TimerModule SortTest TrackCalls
begin

text \<open>
  Verification of the programs of an embedded systems course: system calls and modules of a Linux
  kernel, user programs for inter-process communication and threads, and a FreeRTOS application
  with a web server, a display, a serial console and sensors.

  \<^bold>\<open>The program's parts.\<close> The repository holds four groups that share no code.

  \<^item> \<open>src/HW2\<close>: the kernel's \<open>sys.c\<close> with three system calls added for sorting, the program \<open>sorting.c\<close>
    that calls them and the program \<open>track_calls.c\<close> that is run under a tracer.
  \<^item> \<open>src/HW3\<close>: two kernel modules, \<open>list_sort.c\<close> with a list of animals and \<open>first_kernel_module.c\<close> with a
    timer that arms itself again.
  \<^item> \<open>src/HW4\<close>: pairs of programs that exchange commands and answers through pipes, a socket, a message
    queue and shared memory with semaphores, and \<open>pthread_sub.c\<close> with threads and a signal handler.
  \<^item> \<open>src/HW5\<close>: a FreeRTOS application (spiders on a touch display, web server handlers, status line,
    LED) with the driver library it was built from, and a second application that logs LED toggles,
    temperatures and alerts through one queue.

  \<^bold>\<open>Foundations.\<close> \<open>Prelude\<close> has the integer types (words, \<open>s32\<close> for \<open>int32_t\<close>), arrays whose accesses out
  of bounds are \<open>None\<close> (so that memory safety is proved, not assumed), C strings and error numbers.
  \<open>TransitionSystem\<close> has the interfaces of concurrent programs as locales: a step relation with an
  invariant, with a start state, and with a measure that every step decreases; every program below
  that runs in steps interprets one of them on its own step relation, and its properties rest on the
  facts of the interpretation.

  \<^bold>\<open>Sorting.\<close> \<open>SortSyscall\<close> models \<open>sorting\<close>, \<open>quick_sort\<close> and \<open>get_partition_index\<close> of \<open>sys.c\<close> over a
  user memory and a kernel heap and shows that the array ends sorted in descending order, with
  the error paths. The recursion of the sort has a termination proof. \<open>SortTest\<close> composes it with the
  test program. \<open>TrackCalls\<close> models the traced program over the files of the C library.

  \<^bold>\<open>The rest of \<open>sys.c\<close>.\<close> Each theory takes one state of the kernel and the calls that change it; what
  the rest of the kernel does (capabilities, security modules, user memory, clocks) is a record of
  functions that the calls take as their first argument.

  \<^item> \<open>KernelCreds\<close>: user and group identities (\<open>setuid\<close> and relatives). No sequence of calls without the
    capability gives a new identity; failed calls change nothing; the call \<open>setreuid\<close> is as documented.
  \<^item> \<open>KernelPrio\<close>: \<open>setpriority\<close> and \<open>getpriority\<close> over the threads of the system.
  \<^item> \<open>KernelLimits\<close>: resource limits of all processes, native, 32-bit and old calls; limits stay ordered,
    hard limits are not raised without the capability, and what \<open>prlimit64\<close> leaves after an error.
  \<^item> \<open>KernelSessions\<close>: process groups and sessions; a group never spans two sessions.
  \<^item> \<open>KernelNames\<close>: host and domain name, the three versions of \<open>uname\<close> and their rewriting of the release.
  \<^item> \<open>KernelMemory\<close>: the bounds of a process's memory, its auxiliary vector and its executable file, as
    \<open>prctl(PR_SET_MM)\<close> changes them; an invariant over all sequences of calls, protection of the link to
    the executable, exact results of the single calls.
  \<^item> \<open>KernelPrctl\<close>: the switch of \<open>prctl\<close> over the attributes of a process, on top of \<open>KernelMemory\<close>.
  \<^item> \<open>KernelStats\<close>: \<open>times\<close>, \<open>getrusage\<close>, \<open>umask\<close>, \<open>getcpu\<close>, \<open>sysinfo\<close>. The scaling loop of \<open>sysinfo\<close> has a
    termination proof; that of its 32-bit variant need not end, is a partial function and is proved to
    end exactly when the unit is not zero.

  \<^bold>\<open>Modules.\<close> \<open>AnimalList\<close>: loading builds the list of the sorted names with their counts and the filtered
  list, and unloading frees it. \<open>TimerModule\<close>: handler, init and exit as steps in any order.

  \<^bold>\<open>Communication.\<close> \<open>IpcCommon\<close> has the messages and the pipes, \<open>IpcDuplex\<close> the socket, \<open>IpcMsgq\<close> the message
  queue and \<open>IpcShmem\<close> the shared memory: in each, the two programs are step relations over the shared
  channel and all interleavings are covered. The programs send ten requests each, so the sessions are
  bounded and no fuel is needed. \<open>IpcLifecycle\<close> treats the same programs as users of the operating system:
  set-up, error exits, release and the handler of \<open>SIGINT\<close> at every point. \<open>PthreadSub\<close> has the sorting and the report of letters of the first
  thread, the statistics round of the second and the signal handler; \<open>PthreadRun\<close> composes them with
  \<open>main\<close> to the three threads that share the log stream, under every interleaving and with signals.

  \<^bold>\<open>The FreeRTOS applications.\<close> \<open>UartStdio\<close> and \<open>UartBuffered\<close>: the console of \<open>uartstdio.c\<close> without and with
  interrupts and ring buffers; formatted output against a specification of the conversions, the
  buffered output as a refinement of a stream, lines typed with editing. \<open>UartConfig\<close>: its
  configuration, which establishes the invariant of the ring buffers. \<open>CgiFuncs\<close>: parameters of web
  requests, with the round trip of the URL encoding. \<open>RandomGen\<close>: the seeding equals a reference MD4.
  \<open>LwipTask\<close>: handlers of the web server and the LED task they steer. \<open>IdleTask\<close>: the display queue and the
  status line. \<open>Spider\<close>: spider, control and touch tasks under every interleaving. \<open>Pictures\<close>: the data of
  \<open>images.c\<close>. \<open>SpiderDisplay\<close> composes these three: what the spiders ask for is drawn once, inside their
  area. \<open>WebPage\<close> composes the handlers: what a request sets is what the page shows. \<open>LoggerApp\<close>: all tasks,
  timer callbacks and the interrupt handler of the logging application around its queue of ten.
  \<open>LoggerBoot\<close>: how \<open>main\<close> and the tasks get there (calls of the driver library in order, waiting loops,
  transactions on the bus of the temperature sensor), ending in the start state of \<open>LoggerApp\<close>.
  The logger is verified from power-on: set-up ends, and what is printed is what was accepted.
  \<open>StartUp\<close>: the vector table of \<open>startup_ccs.c\<close> and the handlers that never return.

  \<^bold>\<open>Bounds and fuel.\<close> No definition uses fuel. Recursions that are not structural have a measure;
  loops that may run for ever are \<open>partial_function\<close>s (\<open>poll\<close>, \<open>raise_unit\<close>, \<open>gets_ring\<close> and the loops of the
  formatter), with lemmas that say when they end. Step relations model programs that run for ever.

  \<^bold>\<open>Not modelled.\<close> Code outside the repository (the kernel's services, the C library, FreeRTOS, the driver
  library, lwIP) is a parameter, with what is relied on as a hypothesis of the theorem; where a
  property has such a hypothesis its witness instantiates it. Scheduling is modelled as arbitrary
  interleaving of steps that are atomic under the lock or the critical section the code holds.
  The expansion of the compressed pictures is the graphics library's. Prototypes (\<open>syscalls.h\<close>) and configuration constants (\<open>lwipopts.h\<close>,
  \<open>FreeRTOSConfig.h\<close> but for the tick rate, \<open>priorities.h\<close>) have no behaviour of their own.
\<close>

end
